(* ===== verification/Prelude.thy ===== *)
theory Prelude
  imports Main "HOL-Library.Multiset" "HOL-Library.AList" "HOL-Library.Char_ord" "HOL-Library.List_Lexorder"
    "HOL-Library.Product_Lexorder" "HOL-Library.Option_ord"
begin

text \<open>
  Shared vocabulary of the development: the JavaScript library operations that the sources of
  the Hub and of the gateway use (string splitting, joining, trimming and case mapping, decimal
  numerals, the insertion ordered \<open>Map\<close>, the stable \<open>Array.prototype.sort\<close>), the two
  interfaces that several components rely on (a key value store with expiring entries, and a
  comparator for sorting), and the collections of simplification rules.

  A JavaScript string is a \<open>string\<close> (a list of code units); the text handled by the modelled
  code is ASCII, and case mapping is modelled on ASCII letters only. Numbers that the code keeps
  integral (ports, indices, millisecond timestamps) are \<open>int\<close> or \<open>nat\<close>.
\<close>

named_theorems map_laws \<open>laws of the insertion ordered maps\<close>
named_theorems text_simps \<open>laws of string splitting, joining and printing\<close>

section \<open>Strings\<close>

definition is_digit :: "char \<Rightarrow> bool" where
  "is_digit c \<longleftrightarrow> CHR ''0'' \<le> c \<and> c \<le> CHR ''9''"

definition is_lower :: "char \<Rightarrow> bool" where
  "is_lower c \<longleftrightarrow> CHR ''a'' \<le> c \<and> c \<le> CHR ''z''"

definition is_upper :: "char \<Rightarrow> bool" where
  "is_upper c \<longleftrightarrow> CHR ''A'' \<le> c \<and> c \<le> CHR ''Z''"

definition is_space :: "char \<Rightarrow> bool" where
  "is_space c \<longleftrightarrow> c \<in> {CHR '' '', CHR 0x09, CHR 0x0A, CHR 0x0B, CHR 0x0C, CHR 0x0D, CHR 0xA0}"

definition lower_char :: "char \<Rightarrow> char" where
  "lower_char c = (if is_upper c then char_of (of_char c + 32 :: nat) else c)"

definition upper_char :: "char \<Rightarrow> char" where
  "upper_char c = (if is_lower c then char_of (of_char c - 32 :: nat) else c)"

definition js_lower :: "string \<Rightarrow> string" where
  "js_lower s = List.map lower_char s"

definition js_upper :: "string \<Rightarrow> string" where
  "js_upper s = List.map upper_char s"

definition js_trim :: "string \<Rightarrow> string" where
  "js_trim s = rev (dropWhile is_space (rev (dropWhile is_space s)))"

definition starts_with :: "string \<Rightarrow> string \<Rightarrow> bool" where
  "starts_with p s \<longleftrightarrow> take (length p) s = p"

fun split_on :: "char \<Rightarrow> string \<Rightarrow> string list" where
  "split_on c [] = [[]]"
| "split_on c (x # xs) =
     (if x = c then [] # split_on c xs
      else (case split_on c xs of [] \<Rightarrow> [[x]] | w # ws \<Rightarrow> (x # w) # ws))"

fun js_join :: "string \<Rightarrow> string list \<Rightarrow> string" where
  "js_join sep [] = []"
| "js_join sep [w] = w"
| "js_join sep (w # v # ws) = w @ sep @ js_join sep (v # ws)"

lemma split_on_not_Nil [simp]: "split_on c s \<noteq> []"
  by (induction s) (auto split: list.splits)

lemma join_split_on [simp, text_simps]: "js_join [c] (split_on c s) = s"
proof (induction s)
  case (Cons x xs)
  then show ?case by (cases "split_on c xs"; cases "tl (split_on c xs)") auto
qed simp

lemma split_on_pieces: "w \<in> set (split_on c s) \<Longrightarrow> c \<notin> set w"
  by (induction s arbitrary: w) (auto split: if_splits list.splits)

lemma split_on_fresh [text_simps]: "c \<notin> set s \<Longrightarrow> split_on c s = [s]"
  by (induction s) auto

lemma split_on_append [text_simps]:
  "c \<notin> set w \<Longrightarrow> split_on c (w @ c # s) = w # split_on c s"
  by (induction w) auto

lemma split_on_join [text_simps]:
  "ws \<noteq> [] \<Longrightarrow> \<forall>w\<in>set ws. c \<notin> set w \<Longrightarrow> split_on c (js_join [c] ws) = ws"
  by (induction "[c]" ws rule: js_join.induct) (auto simp: split_on_fresh split_on_append)

lemma set_js_join: "set (js_join sep ws) \<subseteq> set sep \<union> \<Union> (set ` set ws)"
  by (induction sep ws rule: js_join.induct) auto

section \<open>Decimal numerals\<close>

definition digit_char :: "nat \<Rightarrow> char" where
  "digit_char d = char_of (48 + d)"

fun show_nat :: "nat \<Rightarrow> string" where
  "show_nat n = (if n < 10 then [digit_char n] else show_nat (n div 10) @ [digit_char (n mod 10)])"

declare show_nat.simps [simp del]

definition show_int :: "int \<Rightarrow> string" where
  "show_int i = (if i < 0 then CHR ''-'' # show_nat (nat (- i)) else show_nat (nat i))"

definition digit_val :: "char \<Rightarrow> nat" where
  "digit_val c = of_char c - 48"

definition dec_value :: "string \<Rightarrow> nat" where
  "dec_value s = foldl (\<lambda>n c. 10 * n + digit_val c) 0 s"

lemma digit_char_simps [simp]:
  "digit_char 0 = CHR ''0''" "digit_char (Suc 0) = CHR ''1''" "digit_char 2 = CHR ''2''"
  "digit_char 3 = CHR ''3''" "digit_char 4 = CHR ''4''" "digit_char 5 = CHR ''5''"
  "digit_char 6 = CHR ''6''" "digit_char 7 = CHR ''7''" "digit_char 8 = CHR ''8''"
  "digit_char 9 = CHR ''9''" "digit_char 1 = CHR ''1''"
  by code_simp+

lemma of_char_digit [simp]: "d < 10 \<Longrightarrow> (of_char (digit_char d) :: nat) = 48 + d"
  by (simp add: digit_char_def)

lemma digit_val_digit [simp]: "d < 10 \<Longrightarrow> digit_val (digit_char d) = d"
  by (simp add: digit_val_def)

lemma is_digit_iff: "is_digit c \<longleftrightarrow> 48 \<le> (of_char c :: nat) \<and> (of_char c :: nat) \<le> 57"
  by (simp add: is_digit_def less_eq_char_def)

lemma is_digit_digit_char [simp]: "d < 10 \<Longrightarrow> is_digit (digit_char d)"
  by (simp add: is_digit_iff)

lemma show_nat_digits: "c \<in> set (show_nat n) \<Longrightarrow> is_digit c"
proof (induction n rule: show_nat.induct)
  case (1 n)
  show ?case
  proof (cases "n < 10")
    case True
    with "1.prems" show ?thesis by (simp add: show_nat.simps [of n])
  next
    case False
    with 1 show ?thesis by (auto simp: show_nat.simps [of n])
  qed
qed

lemma show_nat_not_Nil [simp]: "show_nat n \<noteq> []"
  by (subst show_nat.simps) simp

lemma dec_value_snoc [simp]: "dec_value (s @ [c]) = 10 * dec_value s + digit_val c"
  by (simp add: dec_value_def)

lemma dec_value_show_nat [simp, text_simps]: "dec_value (show_nat n) = n"
proof (induction n rule: show_nat.induct)
  case (1 n)
  show ?case
  proof (cases "n < 10")
    case True
    then show ?thesis by (simp add: show_nat.simps [of n] dec_value_def)
  next
    case False
    with 1 show ?thesis by (simp add: show_nat.simps [of n])
  qed
qed

lemma show_nat_inject [simp]: "show_nat m = show_nat n \<longleftrightarrow> m = n"
  by (metis dec_value_show_nat)

lemma minus_not_digit [simp]: "\<not> is_digit (CHR ''-'')"
  by (simp add: is_digit_iff)

lemma show_int_not_Nil [simp]: "show_int i \<noteq> []"
  by (simp add: show_int_def)

lemma show_nat_head: "\<exists>c cs. show_nat n = c # cs \<and> is_digit c"
  by (metis list.exhaust list.set_intros(1) show_nat_digits show_nat_not_Nil)

lemma show_int_inject [simp]: "show_int i = show_int j \<longleftrightarrow> i = j"
proof
  assume eq: "show_int i = show_int j"
  have neq: "CHR ''-'' # s \<noteq> show_nat n" for s n
    by (metis list.inject minus_not_digit show_nat_head)
  show "i = j"
    using eq neq neq [symmetric] by (auto simp: show_int_def split: if_splits)
qed simp

lemma show_int_chars: "c \<in> set (show_int i) \<Longrightarrow> is_digit c \<or> c = CHR ''-''"
  by (auto simp: show_int_def dest: show_nat_digits split: if_splits)

section \<open>Insertion ordered maps\<close>

text \<open>
  The \<open>Map\<close> objects of the sources: iteration is in insertion order, and \<open>set\<close> on a key
  that is present replaces the value in place. \<open>AList.update\<close> and \<open>AList.delete\<close> are these
  operations.
\<close>

type_synonym ('k, 'v) jsmap = "('k \<times> 'v) list"

definition map_get :: "('k, 'v) jsmap \<Rightarrow> 'k \<Rightarrow> 'v option" where
  "map_get m k = map_of m k"

definition map_set :: "('k, 'v) jsmap \<Rightarrow> 'k \<Rightarrow> 'v \<Rightarrow> ('k, 'v) jsmap" where
  "map_set m k v = AList.update k v m"

definition map_delete :: "('k, 'v) jsmap \<Rightarrow> 'k \<Rightarrow> ('k, 'v) jsmap" where
  "map_delete m k = AList.delete k m"

abbreviation map_keys :: "('k, 'v) jsmap \<Rightarrow> 'k list" where
  "map_keys m \<equiv> map fst m"

lemma map_get_Nil [simp, map_laws]: "map_get [] k = None"
  by (simp add: map_get_def)

lemma map_get_set [simp, map_laws]:
  "map_get (map_set m k v) k' = (if k' = k then Some v else map_get m k')"
  by (simp add: map_get_def map_set_def update_conv')

lemma map_get_delete [simp, map_laws]:
  "map_get (map_delete m k) k' = (if k' = k then None else map_get m k')"
  by (simp add: map_get_def map_delete_def delete_conv')

lemma map_get_filter_keys [map_laws]:
  "map_get (filter (\<lambda>(k, v). P k) m) k' = (if P k' then map_get m k' else None)"
  by (induction m) (auto simp: map_get_def)

lemma distinct_map_set [simp, map_laws]:
  "distinct (map_keys m) \<Longrightarrow> distinct (map_keys (map_set m k v))"
  by (simp add: map_set_def distinct_update)

lemma distinct_map_delete [simp, map_laws]:
  "distinct (map_keys m) \<Longrightarrow> distinct (map_keys (map_delete m k))"
  by (simp add: map_delete_def distinct_delete)

lemma set_map_keys_set [simp, map_laws]: "fst ` set (map_set m k v) = insert k (fst ` set m)"
  by (simp add: map_set_def dom_update)

lemma map_get_None_iff: "map_get m k = None \<longleftrightarrow> k \<notin> fst ` set m"
  by (simp add: map_get_def map_of_eq_None_iff)

lemma map_get_SomeD: "map_get m k = Some v \<Longrightarrow> (k, v) \<in> set m"
  by (auto simp: map_get_def dest: map_of_SomeD)

lemma map_get_eq_Some:
  "distinct (map_keys m) \<Longrightarrow> map_get m k = Some v \<longleftrightarrow> (k, v) \<in> set m"
  by (auto simp: map_get_def)

section \<open>The key value interface and expiring entries\<close>

text \<open>
  The caches of the Hub (the workspace index cache, the signing secret cache, the route cache)
  store a value with an expiry time and serve it only while \<open>expiresAt > Date.now()\<close>.
\<close>

definition live_entry :: "int \<Rightarrow> ('v \<times> int) option \<Rightarrow> 'v option" where
  "live_entry now e =
     (case e of None \<Rightarrow> None | Some (v, expiresAt) \<Rightarrow> if expiresAt > now then Some v else None)"

lemma live_entry_None [simp]: "live_entry now None = None"
  by (simp add: live_entry_def)

lemma live_entry_Some [simp]:
  "live_entry now (Some (v, e)) = (if e > now then Some v else None)"
  by (simp add: live_entry_def)

locale kv_store =
  fixes get :: "'m \<Rightarrow> 'k \<Rightarrow> 'e option"
    and put :: "'m \<Rightarrow> 'k \<Rightarrow> 'e \<Rightarrow> 'm"
    and del :: "'m \<Rightarrow> 'k \<Rightarrow> 'm"
  assumes get_put: "get (put m k e) k' = (if k' = k then Some e else get m k')"
    and get_del: "get (del m k) k' = (if k' = k then None else get m k')"
begin

lemma put_same: "get (put m k e) k = Some e"
  by (simp add: get_put)

lemma put_other: "k' \<noteq> k \<Longrightarrow> get (put m k e) k' = get m k'"
  by (simp add: get_put)

lemma put_last_wins: "get (put (put m k e) k f) k' = get (put m k f) k'"
  by (simp add: get_put)

lemma del_put: "get (del (put m k e) k) k' = get (del m k) k'"
  by (simp add: get_put get_del)

end

locale ttl_cache = kv_store get put del
  for get :: "'m \<Rightarrow> 'k \<Rightarrow> ('v \<times> int) option"
    and put :: "'m \<Rightarrow> 'k \<Rightarrow> ('v \<times> int) \<Rightarrow> 'm"
    and del :: "'m \<Rightarrow> 'k \<Rightarrow> 'm" +
  fixes ttl :: int
  assumes ttl_pos: "0 < ttl"
begin

lemma served_within_ttl:
  "now' < now + ttl \<Longrightarrow> live_entry now' (get (put m k (v, now + ttl)) k) = Some v"
  by (simp add: get_put)

lemma served_at_once: "live_entry now (get (put m k (v, now + ttl)) k) = Some v"
  using ttl_pos by (simp add: get_put)

lemma missed_after_ttl:
  "now + ttl \<le> now' \<Longrightarrow> live_entry now' (get (put m k (v, now + ttl)) k) = None"
  by (simp add: get_put)

lemma other_key_unaffected:
  "k' \<noteq> k \<Longrightarrow> live_entry now' (get (put m k e) k') = live_entry now' (get m k')"
  by (simp add: get_put)

lemma missed_after_delete: "live_entry now (get (del m k) k) = None"
  by (simp add: get_del)

end

interpretation js: kv_store map_get map_set map_delete
  by unfold_locales simp_all

section \<open>The stable sort\<close>

text \<open>
  \<open>Array.prototype.sort\<close> with a comparator is stable, and for a consistent comparator its
  result is determined by that; the model is a stable insertion sort.
\<close>

fun js_insert :: "('a \<Rightarrow> 'a \<Rightarrow> int) \<Rightarrow> 'a \<Rightarrow> 'a list \<Rightarrow> 'a list" where
  "js_insert cmp x [] = [x]"
| "js_insert cmp x (y # ys) = (if cmp x y \<le> 0 then x # y # ys else y # js_insert cmp x ys)"

definition js_sort :: "('a \<Rightarrow> 'a \<Rightarrow> int) \<Rightarrow> 'a list \<Rightarrow> 'a list" where
  "js_sort cmp xs = foldr (js_insert cmp) xs []"

lemma js_sort_simps [simp]:
  "js_sort cmp [] = []" "js_sort cmp (x # xs) = js_insert cmp x (js_sort cmp xs)"
  by (simp_all add: js_sort_def)

lemma mset_js_insert [simp]: "mset (js_insert cmp x xs) = add_mset x (mset xs)"
  by (induction xs) auto

lemma mset_js_sort [simp]: "mset (js_sort cmp xs) = mset xs"
  by (induction xs) auto

lemma set_js_sort [simp]: "set (js_sort cmp xs) = set xs"
  by (metis mset_js_sort set_mset_mset)

lemma set_js_insert [simp]: "set (js_insert cmp x xs) = insert x (set xs)"
  by (metis mset_js_insert set_mset_add_mset_insert set_mset_mset)

locale js_comparator =
  fixes cmp :: "'a \<Rightarrow> 'a \<Rightarrow> int"
  assumes flip: "sgn (cmp a b) = - sgn (cmp b a)"
    and le_trans: "cmp a b \<le> 0 \<Longrightarrow> cmp b c \<le> 0 \<Longrightarrow> cmp a c \<le> 0"
begin

lemma total: "\<not> cmp a b \<le> 0 \<Longrightarrow> cmp b a \<le> 0"
  using flip [of a b] by (auto simp: sgn_if split: if_splits)

lemma eq_sym: "cmp a b = 0 \<longleftrightarrow> cmp b a = 0"
  using flip [of a b] by (auto simp: sgn_if split: if_splits)

lemma refl_eq: "cmp a a = 0"
  using flip [of a a] by (auto simp: sgn_if split: if_splits)

lemma insert_sorted:
  "sorted_wrt (\<lambda>a b. cmp a b \<le> 0) ys \<Longrightarrow> sorted_wrt (\<lambda>a b. cmp a b \<le> 0) (js_insert cmp x ys)"
  by (induction ys) (auto intro: le_trans total)

lemma sort_sorted: "sorted_wrt (\<lambda>a b. cmp a b \<le> 0) (js_sort cmp xs)"
  by (induction xs) (auto intro: insert_sorted)

lemma filter_eq_insert:
  "filter (\<lambda>y. cmp z y = 0) (js_insert cmp x ys) =
     (if cmp z x = 0 then x # filter (\<lambda>y. cmp z y = 0) ys else filter (\<lambda>y. cmp z y = 0) ys)"
proof (induction ys)
  case (Cons y ys)
  have "cmp x y \<le> 0" if "cmp z x = 0" "cmp z y = 0"
    using that eq_sym [of z x] by (intro le_trans [of x z y]) auto
  with Cons show ?case by auto
qed simp

lemma sort_stable: "filter (\<lambda>y. cmp z y = 0) (js_sort cmp xs) = filter (\<lambda>y. cmp z y = 0) xs"
  by (induction xs) (simp_all add: filter_eq_insert)

lemma find_in_sorted:
  "sorted_wrt (\<lambda>a b. cmp a b \<le> 0) ys \<Longrightarrow> find P ys = Some y \<Longrightarrow> z \<in> set ys \<Longrightarrow> P z
    \<Longrightarrow> cmp y z \<le> 0"
  by (induction ys) (auto simp: refl_eq split: if_splits)

lemma find_sort_least:
  "find P (js_sort cmp xs) = Some y \<Longrightarrow> z \<in> set xs \<Longrightarrow> P z \<Longrightarrow> cmp y z \<le> 0"
  using find_in_sorted [OF sort_sorted, of P xs y z] by simp

end

end
