(* ===== verification/Semver.thy ===== *)
theory Semver
  imports Prelude
begin

text \<open>
  \<open>src/global/semver.util.ts\<close> (parsing and precedence of version strings) and
  \<open>src/global/agent-capability.ts\<close> (which agents accept a remote update).

  The regular expression \<open>SEMVER\<close> is deterministic (each part ends at a character the part
  cannot contain), so \<open>parseSemver\<close> is a left to right scan. Numbers are unbounded here; the
  source reads them as doubles, which are exact up to \<open>2^53\<close>. The reference is the precedence
  of SemVer 2.0, given as an order on the keys \<open>ver_key\<close>.
\<close>

record parsed =
  major :: nat
  minor :: nat
  patch :: nat
  pre :: "string list"

definition is_pre_char :: "char \<Rightarrow> bool" where
  "is_pre_char c \<longleftrightarrow>
     is_digit c \<or> is_upper c \<or> is_lower c \<or> c = CHR ''.'' \<or> c = CHR ''-''"

definition scan_digits :: "string \<Rightarrow> (nat \<times> string) option" where
  "scan_digits s =
     (let ds = takeWhile is_digit s
      in if ds = [] then None else Some (dec_value ds, dropWhile is_digit s))"

definition scan_char :: "char \<Rightarrow> string \<Rightarrow> string option" where
  "scan_char c s = (case s of [] \<Rightarrow> None | x # xs \<Rightarrow> if x = c then Some xs else None)"

definition scan_pre :: "string \<Rightarrow> (string list \<times> string) option" where
  "scan_pre s =
     (case scan_char (CHR ''-'') s of
        None \<Rightarrow> Some ([], s)
      | Some t \<Rightarrow>
          (let p = takeWhile is_pre_char t
           in if p = [] then None else Some (split_on (CHR ''.'') p, dropWhile is_pre_char t)))"

definition scan_build :: "string \<Rightarrow> bool" where
  "scan_build s =
     (case scan_char (CHR ''+'') s of
        None \<Rightarrow> s = []
      | Some t \<Rightarrow> t \<noteq> [] \<and> list_all is_pre_char t)"

definition parseSemver :: "string \<Rightarrow> parsed option" where
  "parseSemver version =
     (case scan_digits (js_trim version) of None \<Rightarrow> None | Some (a, s1) \<Rightarrow>
     (case scan_char (CHR ''.'') s1 of None \<Rightarrow> None | Some s2 \<Rightarrow>
     (case scan_digits s2 of None \<Rightarrow> None | Some (b, s3) \<Rightarrow>
     (case scan_char (CHR ''.'') s3 of None \<Rightarrow> None | Some s4 \<Rightarrow>
     (case scan_digits s4 of None \<Rightarrow> None | Some (c, s5) \<Rightarrow>
     (case scan_pre s5 of None \<Rightarrow> None | Some (p, s6) \<Rightarrow>
        if scan_build s6 then Some \<lparr>major = a, minor = b, patch = c, pre = p\<rparr> else None))))))"

definition is_numeric :: "string \<Rightarrow> bool" where
  "is_numeric s \<longleftrightarrow> s \<noteq> [] \<and> list_all is_digit s"

definition comparePreIdentifier :: "string \<Rightarrow> string \<Rightarrow> int" where
  "comparePreIdentifier a b =
     (if is_numeric a \<and> is_numeric b then int (dec_value a) - int (dec_value b)
      else if is_numeric a then -1
      else if is_numeric b then 1
      else if a < b then -1 else if a > b then 1 else 0)"

fun comparePre_from :: "string list \<Rightarrow> string list \<Rightarrow> int" where
  "comparePre_from [] [] = 0"
| "comparePre_from [] (b # bs) = -1"
| "comparePre_from (a # as) [] = 1"
| "comparePre_from (a # as) (b # bs) =
     (let result = comparePreIdentifier a b
      in if result \<noteq> 0 then result else comparePre_from as bs)"

definition comparePre :: "string list \<Rightarrow> string list \<Rightarrow> int" where
  "comparePre a b =
     (if a = [] \<and> b = [] then 0
      else if a = [] then 1
      else if b = [] then -1
      else comparePre_from a b)"

definition compareSemver :: "string \<Rightarrow> string \<Rightarrow> int" where
  "compareSemver a b =
     (case (parseSemver a, parseSemver b) of
        (None, None) \<Rightarrow> 0
      | (None, Some _) \<Rightarrow> -1
      | (Some _, None) \<Rightarrow> 1
      | (Some l, Some r) \<Rightarrow>
          if major l \<noteq> major r then int (major l) - int (major r)
          else if minor l \<noteq> minor r then int (minor l) - int (minor r)
          else if patch l \<noteq> patch r then int (patch l) - int (patch r)
          else comparePre (pre l) (pre r))"

definition MIN_REMOTE_UPDATE_VERSION :: string where
  "MIN_REMOTE_UPDATE_VERSION = ''0.6.0''"

definition supportsRemoteUpdate :: "string option \<Rightarrow> bool" where
  "supportsRemoteUpdate agentVersion =
     (case agentVersion of
        None \<Rightarrow> False
      | Some v \<Rightarrow> v \<noteq> [] \<and> compareSemver v MIN_REMOTE_UPDATE_VERSION \<ge> 0)"

section \<open>The reference order\<close>

text \<open>
  Numeric identifiers are below the others and ordered by value, the others by their code
  units; a longer list of identifiers is above its prefix; a release is above its prereleases;
  a string that is no version is below every version.
\<close>

definition id_key :: "string \<Rightarrow> nat \<times> nat \<times> string" where
  "id_key s = (if is_numeric s then (0, dec_value s, []) else (1, 0, s))"

definition parsed_key :: "parsed \<Rightarrow> nat \<times> nat \<times> nat \<times> bool \<times> (nat \<times> nat \<times> string) list" where
  "parsed_key p = (major p, minor p, patch p, pre p = [], map id_key (pre p))"

definition ver_key ::
  "string \<Rightarrow> (nat \<times> nat \<times> nat \<times> bool \<times> (nat \<times> nat \<times> string) list) option" where
  "ver_key s = map_option parsed_key (parseSemver s)"

definition key_cmp :: "'a::linorder \<Rightarrow> 'a \<Rightarrow> int" where
  "key_cmp a b = (if a < b then -1 else if b < a then 1 else 0)"

lemma key_cmp_simps [simp]: "key_cmp a a = 0"
  by (simp add: key_cmp_def)

lemma comparePreIdentifier_key: "sgn (comparePreIdentifier a b) = key_cmp (id_key a) (id_key b)"
  by (auto simp: comparePreIdentifier_def id_key_def key_cmp_def sgn_if less_prod_def)

lemma comparePre_from_key:
  "sgn (comparePre_from as bs) = key_cmp (map id_key as) (map id_key bs)"
proof (induction as bs rule: comparePre_from.induct)
  case (4 a as b bs)
  have "key_cmp (x # xs) (y # ys) = (if x = y then key_cmp xs ys else key_cmp x y)"
    for x y :: "nat \<times> nat \<times> string" and xs ys
    by (auto simp: key_cmp_def)
  moreover have "comparePreIdentifier a b = 0 \<longleftrightarrow> id_key a = id_key b"
    using comparePreIdentifier_key [of a b] by (auto simp: key_cmp_def sgn_if split: if_splits)
  ultimately show ?case
    using 4 comparePreIdentifier_key [of a b] by (simp add: Let_def)
qed (simp_all add: key_cmp_def)

lemma key_cmp_pair: "key_cmp (a, b) (c, d) = (if a = c then key_cmp b d else key_cmp a c)"
  by (auto simp: key_cmp_def less_prod_def)

lemma key_cmp_Some: "key_cmp (Some x) (Some y) = key_cmp x y"
  by (simp add: key_cmp_def)

lemma key_cmp_nat: "sgn (int m - int n) = key_cmp m n"
  by (auto simp: key_cmp_def sgn_if)

lemma comparePre_key:
  "sgn (comparePre as bs) = key_cmp (as = [], map id_key as) (bs = [], map id_key bs)"
  by (auto simp: comparePre_def key_cmp_pair comparePre_from_key key_cmp_def less_bool_def)

lemma compareSemver_key: "sgn (compareSemver a b) = key_cmp (ver_key a) (ver_key b)"
proof (cases "parseSemver a"; cases "parseSemver b")
  fix l r assume "parseSemver a = Some l" "parseSemver b = Some r"
  then show ?thesis
    by (simp add: compareSemver_def ver_key_def parsed_key_def key_cmp_pair key_cmp_nat
        key_cmp_Some comparePre_key [unfolded key_cmp_pair])
qed (simp_all add: compareSemver_def ver_key_def key_cmp_def)

lemma key_cmp_flip: "key_cmp a b = - key_cmp b a"
  by (auto simp: key_cmp_def)

lemma sgn_key_le: "sgn i = key_cmp a b \<Longrightarrow> i \<le> (0::int) \<longleftrightarrow> a \<le> b"
  by (auto simp: key_cmp_def sgn_if split: if_splits)

lemma compareSemver_le_iff: "compareSemver a b \<le> 0 \<longleftrightarrow> ver_key a \<le> ver_key b"
  by (rule sgn_key_le [OF compareSemver_key])

interpretation semver: js_comparator compareSemver
proof
  fix a b c
  show "sgn (compareSemver a b) = - sgn (compareSemver b a)"
    unfolding compareSemver_key by (rule key_cmp_flip)
  show "compareSemver a b \<le> 0 \<Longrightarrow> compareSemver b c \<le> 0 \<Longrightarrow> compareSemver a c \<le> 0"
    unfolding compareSemver_le_iff by (rule order_trans)
qed

lemma compareSemver_gt_iff: "compareSemver a b > 0 \<longleftrightarrow> ver_key b < ver_key a"
  using compareSemver_le_iff [of a b] by (simp add: not_le [symmetric])

lemma compareSemver_ge_iff: "compareSemver a b \<ge> 0 \<longleftrightarrow> ver_key b \<le> ver_key a"
  using compareSemver_key [of a b] by (auto simp: key_cmp_def sgn_if split: if_splits)

end
