(* ===== verification/Payload.thy ===== *)
theory Payload
  imports Prelude
begin

text \<open>
  The JavaScript values that travel as socket payloads, and the deterministic serialisation
  \<open>canonicalize\<close> of \<open>src/global/hash.util.ts\<close>.

  An object is the list of its own enumerable properties. \<open>JDate s\<close> is a \<open>Date\<close> whose
  \<open>toJSON\<close> gives the ISO string \<open>s\<close>; it is the only value with a \<open>toJSON\<close> method that the
  Hub puts into a payload. \<open>JNum\<close> holds the integral numbers; \<open>JNonFinite\<close> stands for
  \<open>NaN\<close> and the infinities. Values of this datatype are finite trees, so the guard against
  circular references never fires on them.
\<close>

datatype jval =
    JUndef
  | JNull
  | JBool bool
  | JNum int
  | JNonFinite
  | JStr string
  | JDate string
  | JArr "jval list"
  | JObj "(string \<times> jval) list"

section \<open>Key order\<close>

text \<open>
  Assigning to \<open>__proto__\<close> on an object literal sets its prototype and makes no own property.
  Enumeration lists the array indices first, by value, then the other keys as inserted.
\<close>

definition proto_key :: string where
  "proto_key = ''__proto__''"

definition is_index :: "string \<Rightarrow> bool" where
  "is_index k \<longleftrightarrow>
     k = ''0'' \<or> k \<noteq> [] \<and> list_all is_digit k \<and> hd k \<noteq> CHR ''0'' \<and> dec_value k < 4294967295"

definition own_order :: "(string \<times> 'v) list \<Rightarrow> (string \<times> 'v) list" where
  "own_order ps =
     sort_key (\<lambda>p. dec_value (fst p)) (filter (\<lambda>p. is_index (fst p)) ps)
     @ filter (\<lambda>p. \<not> is_index (fst p)) ps"

fun normalize_js :: "jval \<Rightarrow> jval" where
  "normalize_js (JArr xs) = JArr (map normalize_js xs)"
| "normalize_js (JObj ps) =
     JObj (sort_key fst (filter (\<lambda>(k, v). k \<noteq> proto_key)
       (map (\<lambda>(k, v). (k, normalize_js v)) (filter (\<lambda>(k, v). v \<noteq> JUndef) ps))))"
| "normalize_js (JDate s) = JStr s"
| "normalize_js v = v"

section \<open>JSON text\<close>

definition hex_digit :: "nat \<Rightarrow> char" where
  "hex_digit n = (if n < 10 then char_of (48 + n) else char_of (87 + n))"

definition json_escape :: "char \<Rightarrow> string" where
  "json_escape c =
     (if c = CHR 0x22 then [CHR 0x5C, CHR 0x22]
      else if c = CHR 0x5C then [CHR 0x5C, CHR 0x5C]
      else if c = CHR 0x08 then [CHR 0x5C, CHR ''b'']
      else if c = CHR 0x0C then [CHR 0x5C, CHR ''f'']
      else if c = CHR 0x0A then [CHR 0x5C, CHR ''n'']
      else if c = CHR 0x0D then [CHR 0x5C, CHR ''r'']
      else if c = CHR 0x09 then [CHR 0x5C, CHR ''t'']
      else if (of_char c :: nat) < 32 then
        [CHR 0x5C, CHR ''u'', CHR ''0'', CHR ''0'',
         hex_digit (of_char c div 16), hex_digit (of_char c mod 16)]
      else [c])"

definition json_quote :: "string \<Rightarrow> string" where
  "json_quote s = [CHR 0x22] @ concat (map json_escape s) @ [CHR 0x22]"

fun stringify :: "jval \<Rightarrow> string option" where
  "stringify JUndef = None"
| "stringify JNull = Some ''null''"
| "stringify (JBool b) = Some (if b then ''true'' else ''false'')"
| "stringify (JNum n) = Some (show_int n)"
| "stringify JNonFinite = Some ''null''"
| "stringify (JStr s) = Some (json_quote s)"
| "stringify (JDate s) = Some (json_quote s)"
| "stringify (JArr xs) =
     Some (''['' @ js_join '','' (map (\<lambda>x. case stringify x of None \<Rightarrow> ''null'' | Some t \<Rightarrow> t) xs) @ '']'')"
| "stringify (JObj ps) =
     Some (''{'' @ js_join '',''
       (map (\<lambda>(k, t). json_quote k @ '':'' @ the t)
         (filter (\<lambda>(k, t). t \<noteq> None) (own_order (map (\<lambda>(k, v). (k, stringify v)) ps)))) @ ''}'')"

definition canonicalize :: "jval \<Rightarrow> string" where
  "canonicalize v = (case stringify (normalize_js v) of None \<Rightarrow> ''null'' | Some t \<Rightarrow> t)"

section \<open>Values received as JSON, and values up to key order\<close>

text \<open>
  \<open>wire v\<close>: \<open>v\<close> is what \<open>JSON.parse\<close> can give, a value with no \<open>undefined\<close>, no
  non-finite number, no \<open>Date\<close> and no key twice. \<open>same_content v w\<close>: they differ in the order
  of object keys only, at any depth.
\<close>

fun wire :: "jval \<Rightarrow> bool" where
  "wire JUndef = False"
| "wire JNonFinite = False"
| "wire (JDate s) = False"
| "wire (JArr xs) = list_all wire xs"
| "wire (JObj ps) = (distinct (map fst ps) \<and> list_all (\<lambda>(k, v). wire v) ps)"
| "wire v = True"

inductive same_content :: "jval \<Rightarrow> jval \<Rightarrow> bool" where
  same: "same_content v v"
| array: "list_all2 same_content xs ys \<Longrightarrow> same_content (JArr xs) (JArr ys)"
| object: "distinct (map fst ps) \<Longrightarrow> map fst ps = map fst rs \<Longrightarrow>
    list_all2 same_content (map snd ps) (map snd rs) \<Longrightarrow> mset rs = mset qs \<Longrightarrow>
    same_content (JObj ps) (JObj qs)"

inductive_cases same_content_UndefE: "same_content JUndef v"
inductive_cases same_content_toUndefE: "same_content v JUndef"

lemma same_content_Undef: "same_content v w \<Longrightarrow> v = JUndef \<longleftrightarrow> w = JUndef"
  by (auto elim: same_content_UndefE same_content_toUndefE)

lemma sorted_keys_unique:
  assumes "set ps = set qs" and "distinct (map fst ps)" and "distinct (map fst qs)"
    and "sorted (map fst ps)" and "sorted (map fst qs)"
  shows "ps = (qs :: ('k::linorder \<times> 'v) list)"
proof (rule map_sorted_distinct_set_unique [where f = fst])
  show "inj_on fst (set ps \<union> set qs)"
    using assms(1,2) by (simp add: distinct_map)
qed (use assms in auto)

lemma distinct_fst_mset: "mset ps = mset qs \<Longrightarrow> distinct (map fst ps) \<Longrightarrow> distinct (map fst qs)"
  by (metis mset_eq_imp_distinct_iff mset_map)

lemma sort_key_fst_mset_eq:
  assumes "mset ps = mset qs" and "distinct (map fst ps)"
  shows "sort_key fst ps = sort_key fst (qs :: ('k::linorder \<times> 'v) list)"
proof (rule sorted_keys_unique)
  show "distinct (map fst (sort_key fst ps))" "distinct (map fst (sort_key fst qs))"
    using assms distinct_fst_mset [of ps "sort_key fst ps"] distinct_fst_mset [of ps "sort_key fst qs"]
    by simp_all
  show "set (sort_key fst ps) = set (sort_key fst qs)"
    using assms(1) by (metis set_sort mset_eq_setD)
qed simp_all

definition norm_props :: "(string \<times> jval) list \<Rightarrow> (string \<times> jval) list" where
  "norm_props ps =
     filter (\<lambda>(k, v). k \<noteq> proto_key) (map (\<lambda>(k, v). (k, normalize_js v)) (filter (\<lambda>(k, v). v \<noteq> JUndef) ps))"

lemma normalize_JObj: "normalize_js (JObj ps) = JObj (sort_key fst (norm_props ps))"
  by (simp add: norm_props_def)

lemma norm_props_Nil [simp]: "norm_props [] = []"
  by (simp add: norm_props_def)

lemma norm_props_Cons:
  "norm_props ((k, v) # ps) =
     (if v = JUndef \<or> k = proto_key then norm_props ps else (k, normalize_js v) # norm_props ps)"
  by (simp add: norm_props_def)

lemma norm_props_keys: "fst ` set (norm_props ps) \<subseteq> fst ` set ps"
  by (auto simp: norm_props_def intro: rev_image_eqI)

lemma distinct_norm_props: "distinct (map fst ps) \<Longrightarrow> distinct (map fst (norm_props ps))"
proof (induction ps)
  case (Cons p ps)
  then show ?case
    using norm_props_keys [of ps] by (cases p) (auto simp: norm_props_Cons)
qed simp

lemma mset_norm_props: "mset ps = mset qs \<Longrightarrow> mset (norm_props ps) = mset (norm_props qs)"
  by (simp add: norm_props_def mset_filter mset_map)

lemma norm_props_pointwise:
  "map fst ps = map fst rs \<Longrightarrow>
   list_all2 (\<lambda>v w. normalize_js v = normalize_js w \<and> (v = JUndef \<longleftrightarrow> w = JUndef)) (map snd ps) (map snd rs)
   \<Longrightarrow> norm_props ps = norm_props rs"
proof (induction ps arbitrary: rs)
  case (Cons p ps)
  then obtain r rs' where "rs = r # rs'" by (cases rs) auto
  with Cons show ?case by (cases p; cases r) (auto simp: norm_props_Cons)
qed simp

lemma same_content_normalize: "same_content v w \<Longrightarrow> normalize_js v = normalize_js w"
proof (induction rule: same_content.induct)
  case (array xs ys)
  then have "map normalize_js xs = map normalize_js ys"
    by (induction rule: list_all2_induct) auto
  then show ?case by simp
next
  case (object ps rs qs)
  have "list_all2 (\<lambda>v w. same_content v w \<and> normalize_js v = normalize_js w) (map snd ps) (map snd rs)"
    using object by simp
  then have "list_all2 (\<lambda>v w. normalize_js v = normalize_js w \<and> (v = JUndef \<longleftrightarrow> w = JUndef))
      (map snd ps) (map snd rs)"
    by (rule list_all2_mono) (use same_content_Undef in blast)
  with object have "norm_props ps = norm_props rs" by (intro norm_props_pointwise)
  moreover have "sort_key fst (norm_props rs) = sort_key fst (norm_props qs)"
    using object by (intro sort_key_fst_mset_eq mset_norm_props distinct_norm_props) simp_all
  ultimately show ?case by (simp add: normalize_JObj del: normalize_js.simps)
qed simp

section \<open>The text determines the value\<close>

text \<open>
  A normal value has no \<open>undefined\<close>, non-finite number or \<open>Date\<close> and lists its keys in
  order. The text of a normal value, followed by a delimiter, can be read back in one way only.
\<close>

fun normal :: "jval \<Rightarrow> bool" where
  "normal (JArr xs) = list_all normal xs"
| "normal (JObj ps) =
     (distinct (map fst ps) \<and> sorted (map fst ps) \<and> list_all (\<lambda>(k, v). normal v) ps)"
| "normal JUndef = False"
| "normal JNonFinite = False"
| "normal (JDate s) = False"
| "normal v = True"

lemma set_norm_props: "(k, w) \<in> set (norm_props ps) \<Longrightarrow> \<exists>v. (k, v) \<in> set ps \<and> w = normalize_js v"
  by (auto simp: norm_props_def)

lemma normal_normalize: "wire v \<Longrightarrow> normal (normalize_js v)"
proof (induction v)
  case (JArr xs)
  then show ?case by (auto simp: list_all_iff)
next
  case (JObj ps)
  then have "\<forall>(k, w)\<in>set (norm_props ps). normal w"
    by (fastforce simp: list_all_iff dest: set_norm_props)
  moreover have "distinct (map fst (sort_key fst (norm_props ps)))"
    using JObj.prems distinct_norm_props [of ps]
      distinct_fst_mset [of "norm_props ps" "sort_key fst (norm_props ps)"] by simp
  ultimately show ?case
    by (simp add: normalize_JObj list_all_iff del: normalize_js.simps)
qed simp_all

fun text_of :: "jval \<Rightarrow> string" where
  "text_of (JBool b) = (if b then ''true'' else ''false'')"
| "text_of (JNum n) = show_int n"
| "text_of (JStr s) = json_quote s"
| "text_of (JArr xs) = ''['' @ js_join '','' (map text_of xs) @ '']''"
| "text_of (JObj ps) =
     ''{'' @ js_join '','' (map (\<lambda>(k, t). json_quote k @ '':'' @ t)
       (own_order (map (\<lambda>(k, v). (k, text_of v)) ps))) @ ''}''"
| "text_of v = ''null''"

lemma insort_key_map: "insort_key f (h x) (map h xs) = map h (insort_key (\<lambda>a. f (h a)) x xs)"
  by (induction xs) auto

lemma sort_key_map: "sort_key f (map h xs) = map h (sort_key (\<lambda>a. f (h a)) xs)"
  by (induction xs) (simp_all add: insort_key_map)

lemma own_order_map: "own_order (map (\<lambda>(k, v). (k, f v)) ps) = map (\<lambda>(k, v). (k, f v)) (own_order ps)"
  by (simp add: own_order_def sort_key_map filter_map comp_def case_prod_beta)

lemma set_own_order [simp]: "set (own_order ps) = set ps"
  by (auto simp: own_order_def)

lemma stringify_wire: "wire v \<Longrightarrow> stringify v = Some (text_of v)"
proof (induction v)
  case (JArr xs)
  then have "map (\<lambda>x. case stringify x of None \<Rightarrow> ''null'' | Some t \<Rightarrow> t) xs = map text_of xs"
    by (auto simp: list_all_iff)
  then show ?case by (simp only: stringify.simps text_of.simps)
next
  case (JObj ps)
  then have "map (\<lambda>(k, v). (k, stringify v)) ps = map (\<lambda>(k, v). (k, Some (text_of v))) ps"
    by (fastforce simp: list_all_iff)
  moreover have "filter (\<lambda>(k, t). t \<noteq> None) (map (\<lambda>(k, v). (k, Some (g v))) qs)
      = map (\<lambda>(k, v). (k, Some (g v))) qs" for qs :: "(string \<times> jval) list" and g :: "jval \<Rightarrow> string"
    by (induction qs) auto
  ultimately show ?case
    by (auto simp: own_order_map comp_def case_prod_beta intro!: arg_cong [where f = "js_join '',''"])
qed simp_all

lemma normal_wire: "normal v \<Longrightarrow> wire v"
  by (induction v rule: wire.induct) (auto simp: list_all_iff)

lemma stringify_normal: "normal v \<Longrightarrow> stringify v = Some (text_of v)"
  by (simp add: normal_wire stringify_wire)

definition hex_value :: "char \<Rightarrow> nat" where
  "hex_value c = (if is_digit c then of_char c - 48 else of_char c - 87)"

fun unescape_hex :: "string \<Rightarrow> (char \<times> string) option" where
  "unescape_hex (a # b # p # q # t) = Some (char_of (16 * hex_value p + hex_value q), t)"
| "unescape_hex t = None"

definition unescape_first :: "string \<Rightarrow> (char \<times> string) option" where
  "unescape_first s =
     (case s of
        [] \<Rightarrow> None
      | c # r \<Rightarrow>
          if c \<noteq> CHR 0x5C then Some (c, r)
          else (case r of
                  [] \<Rightarrow> None
                | e # t \<Rightarrow>
                    if e = CHR ''b'' then Some (CHR 0x08, t)
                    else if e = CHR ''f'' then Some (CHR 0x0C, t)
                    else if e = CHR ''n'' then Some (CHR 0x0A, t)
                    else if e = CHR ''r'' then Some (CHR 0x0D, t)
                    else if e = CHR ''t'' then Some (CHR 0x09, t)
                    else if e = CHR ''u'' then unescape_hex t
                    else Some (e, t)))"

lemma hex_value_digit: "n < 16 \<Longrightarrow> hex_value (hex_digit n) = n"
  by (auto simp: hex_value_def hex_digit_def is_digit_iff)

lemma unescape_escape: "unescape_first (json_escape c @ r) = Some (c, r)"
proof (cases "c \<in> {CHR 0x22, CHR 0x5C, CHR 0x08, CHR 0x0C, CHR 0x0A, CHR 0x0D, CHR 0x09}")
  case True
  then show ?thesis by (elim insertE) (simp_all add: json_escape_def unescape_first_def)
next
  case False
  show ?thesis
  proof (cases "(of_char c :: nat) < 32")
    case True
    with False have "json_escape c = [CHR 0x5C, CHR ''u'', CHR ''0'', CHR ''0'',
         hex_digit (of_char c div 16), hex_digit (of_char c mod 16)]"
      by (simp add: json_escape_def)
    moreover have "(of_char c :: nat) div 16 < 16" using True by simp
    ultimately show ?thesis by (simp add: unescape_first_def hex_value_digit)
  next
    case large: False
    with False show ?thesis by (simp add: json_escape_def unescape_first_def)
  qed
qed

lemma escape_head: "\<exists>h r. json_escape c = h # r \<and> h \<noteq> CHR 0x22"
  by (simp add: json_escape_def)

lemma escapes_unambiguous:
  "concat (map json_escape s) @ CHR 0x22 # x = concat (map json_escape t) @ CHR 0x22 # y
    \<Longrightarrow> s = t \<and> x = y"
proof (induction s arbitrary: t)
  case Nil
  then show ?case using escape_head [of "hd t"] by (cases t) auto
next
  case (Cons c s)
  then obtain d t' where t: "t = d # t'"
    using escape_head [of c] by (cases t) auto
  with Cons.prems have "unescape_first (json_escape c @ concat (map json_escape s) @ CHR 0x22 # x)
      = unescape_first (json_escape d @ concat (map json_escape t') @ CHR 0x22 # y)"
    by simp
  with Cons.IH [of t'] t show ?case by (simp add: unescape_escape)
qed

lemma quote_unambiguous: "json_quote s @ x = json_quote t @ y \<Longrightarrow> s = t \<and> x = y"
  using escapes_unambiguous [of s x t y] by (simp add: json_quote_def)

definition delim :: "string \<Rightarrow> bool" where
  "delim x \<longleftrightarrow> x = [] \<or> hd x \<in> {CHR '','', CHR '']'', CHR ''}''}"

fun items_tail :: "('a \<Rightarrow> string) \<Rightarrow> char \<Rightarrow> 'a list \<Rightarrow> string \<Rightarrow> string" where
  "items_tail f c [] x = c # x"
| "items_tail f c (a # as) x = CHR '','' # f a @ items_tail f c as x"

lemma join_items: "js_join '','' (map f (a # as)) @ c # x = f a @ items_tail f c as x"
  by (induction as arbitrary: a) simp_all

lemma delim_items_tail: "c \<in> {CHR '']'', CHR ''}''} \<Longrightarrow> delim (items_tail f c as x)"
  by (cases as) (auto simp: delim_def)

lemma items_tail_unambiguous:
  assumes c: "c \<in> {CHR '']'', CHR ''}''}"
    and step: "\<And>a b u v. a \<in> set xs \<Longrightarrow> b \<in> set ys \<Longrightarrow> delim u \<Longrightarrow> delim v \<Longrightarrow>
      f a @ u = f b @ v \<Longrightarrow> a = b \<and> u = v"
    and eq: "items_tail f c xs x = items_tail f c ys y"
  shows "xs = ys \<and> x = y"
  using step eq
proof (induction xs arbitrary: ys)
  case Nil
  then show ?case using c by (cases ys) auto
next
  case (Cons a as)
  then obtain b bs where ys: "ys = b # bs" using c by (cases ys) auto
  with Cons.prems(2) have "f a @ items_tail f c as x = f b @ items_tail f c bs y" by simp
  with Cons.prems(1) [of a b "items_tail f c as x" "items_tail f c bs y"] ys
  have "a = b \<and> items_tail f c as x = items_tail f c bs y"
    by (simp add: delim_items_tail [OF c])
  moreover have "as = bs \<and> x = y"
    using Cons.prems ys calculation by (intro Cons.IH) auto
  ultimately show ?case using ys by simp
qed

lemma join_unambiguous:
  assumes c: "c \<in> {CHR '']'', CHR ''}''}"
    and step: "\<And>a b u v. a \<in> set xs \<Longrightarrow> b \<in> set ys \<Longrightarrow> delim u \<Longrightarrow> delim v \<Longrightarrow>
      f a @ u = f b @ v \<Longrightarrow> a = b \<and> u = v"
    and head: "\<And>a. a \<in> set xs \<union> set ys \<Longrightarrow> \<exists>h t. f a = h # t \<and> h \<noteq> c"
    and eq: "js_join '','' (map f xs) @ c # x = js_join '','' (map f ys) @ c # y"
  shows "xs = ys \<and> x = y"
proof (cases xs; cases ys)
  assume "xs = []" "ys = []"
  with eq show ?thesis by simp
next
  fix b bs assume "xs = []" "ys = b # bs"
  moreover from this have "c # x = f b @ items_tail f c bs y"
    using eq by (simp only: join_items list.map(1) js_join.simps(1) append_Nil)
  ultimately show ?thesis using head [of b] by auto
next
  fix a as assume "xs = a # as" "ys = []"
  moreover from this have "c # y = f a @ items_tail f c as x"
    using eq by (simp only: join_items list.map(1) js_join.simps(1) append_Nil)
  ultimately show ?thesis using head [of a] by auto
next
  fix a as b bs assume xs: "xs = a # as" and ys: "ys = b # bs"
  have "items_tail f c xs x = items_tail f c ys y"
    using eq by (simp only: xs ys join_items items_tail.simps)
  then show ?thesis
    by (intro items_tail_unambiguous [OF c step])
qed

definition num_char :: "char \<Rightarrow> bool" where
  "num_char c \<longleftrightarrow> is_digit c \<or> c = CHR ''-''"

lemma delim_not_num: "delim x \<Longrightarrow> x = [] \<or> \<not> num_char (hd x)"
  by (auto simp: delim_def num_char_def is_digit_iff)

lemma takeWhile_show_int: "delim x \<Longrightarrow> takeWhile num_char (show_int i @ x) = show_int i"
  using delim_not_num [of x] show_int_chars [of _ i]
  by (cases x) (auto simp: takeWhile_append num_char_def)

lemma show_int_unambiguous:
  assumes "show_int i @ x = show_int j @ y" and "delim x" and "delim y"
  shows "i = j \<and> x = y"
proof -
  have "show_int i = show_int j"
    using assms takeWhile_show_int [of x i] takeWhile_show_int [of y j] by simp
  with assms(1) show ?thesis by simp
qed

fun lead :: "jval \<Rightarrow> char \<Rightarrow> bool" where
  "lead (JBool b) h = (h = (if b then CHR ''t'' else CHR ''f''))"
| "lead (JNum n) h = num_char h"
| "lead (JStr s) h = (h = CHR 0x22)"
| "lead (JArr xs) h = (h = CHR ''['')"
| "lead (JObj ps) h = (h = CHR ''{'')"
| "lead v h = (h = CHR ''n'')"

lemma text_of_head: "normal v \<Longrightarrow> \<exists>h t. text_of v = h # t \<and> lead v h"
proof (cases v)
  case (JNum n)
  moreover obtain h t where "show_int n = h # t" by (cases "show_int n") auto
  ultimately show ?thesis
    using show_int_chars [of h n] by (auto simp: num_char_def)
qed (auto simp: json_quote_def)

lemma lead_not_close: "lead v h \<Longrightarrow> h \<noteq> CHR '']'' \<and> h \<noteq> CHR ''}''"
  by (cases v) (auto simp: num_char_def is_digit_iff split: if_splits)

definition same_kind :: "jval \<Rightarrow> jval \<Rightarrow> bool" where
  "same_kind v w \<longleftrightarrow> (\<exists>h. lead v h \<and> lead w h)"

lemma text_same_kind:
  "normal v \<Longrightarrow> normal w \<Longrightarrow> text_of v @ x = text_of w @ y \<Longrightarrow> same_kind v w"
  using text_of_head [of v] text_of_head [of w] by (auto simp: same_kind_def)

lemma same_kind_simps:
  "same_kind (JBool b) w \<Longrightarrow> normal w \<Longrightarrow> w = JBool b"
  "same_kind (JNum n) w \<Longrightarrow> normal w \<Longrightarrow> \<exists>m. w = JNum m"
  "same_kind (JStr s) w \<Longrightarrow> normal w \<Longrightarrow> \<exists>t. w = JStr t"
  "same_kind (JArr xs) w \<Longrightarrow> normal w \<Longrightarrow> \<exists>ys. w = JArr ys"
  "same_kind (JObj ps) w \<Longrightarrow> normal w \<Longrightarrow> \<exists>qs. w = JObj qs"
  "same_kind JNull w \<Longrightarrow> normal w \<Longrightarrow> w = JNull"
  by (cases w; auto simp: same_kind_def num_char_def is_digit_iff split: if_splits)+

definition pair_text :: "string \<times> jval \<Rightarrow> string" where
  "pair_text p = json_quote (fst p) @ '':'' @ text_of (snd p)"

lemma text_of_JObj:
  "text_of (JObj ps) = ''{'' @ js_join '','' (map pair_text (own_order ps)) @ ''}''"
  by (simp add: own_order_map pair_text_def [abs_def] comp_def case_prod_beta)

lemma pair_text_head: "\<exists>h t. pair_text p = h # t \<and> h \<noteq> CHR ''}''"
  by (simp add: pair_text_def json_quote_def)

lemma text_unambiguous:
  "normal v \<Longrightarrow> normal w \<Longrightarrow> delim x \<Longrightarrow> delim y \<Longrightarrow> text_of v @ x = text_of w @ y
    \<Longrightarrow> v = w \<and> x = y"
proof (induction v arbitrary: w x y)
  case (JNum n)
  obtain m where "w = JNum m"
    using same_kind_simps(2) text_same_kind JNum by blast
  with JNum show ?case using show_int_unambiguous [of n x m y] by simp
next
  case (JStr s)
  obtain t where "w = JStr t"
    using same_kind_simps(3) text_same_kind JStr by blast
  with JStr show ?case using quote_unambiguous [of s x t y] by simp
next
  case (JArr xs)
  obtain ys where w: "w = JArr ys"
    using same_kind_simps(4) text_same_kind JArr by blast
  have "xs = ys \<and> x = y"
  proof (rule join_unambiguous [where f = text_of and c = "CHR '']''"])
    show "\<exists>h t. text_of a = h # t \<and> h \<noteq> CHR '']''" if "a \<in> set xs \<union> set ys" for a
      using that JArr.prems(1,2) w text_of_head [of a] lead_not_close
      by (auto simp: list_all_iff)
  qed (use JArr w in \<open>auto simp: list_all_iff\<close>)
  with w show ?case by simp
next
  case (JObj ps)
  obtain qs where w: "w = JObj qs"
    using same_kind_simps(5) text_same_kind JObj by blast
  have "own_order ps = own_order qs \<and> x = y"
  proof (rule join_unambiguous [where f = pair_text and c = "CHR ''}''"])
    fix a b u z
    assume "a \<in> set (own_order ps)" "b \<in> set (own_order qs)" "delim u" "delim z"
      and eq: "pair_text a @ u = pair_text b @ z"
    then have "text_of (snd a) @ u = text_of (snd b) @ z \<and> fst a = fst b"
      using quote_unambiguous [of "fst a" _ "fst b"] by (fastforce simp: pair_text_def)
    moreover have "normal (snd a)" "normal (snd b)"
      using \<open>a \<in> _\<close> \<open>b \<in> _\<close> JObj.prems w by (auto simp: list_all_iff)
    ultimately show "a = b \<and> u = z"
      using JObj.IH [of a "snd a" "snd b" u z] \<open>a \<in> _\<close> \<open>delim u\<close> \<open>delim z\<close>
      by (cases a) (auto simp: prod_eq_iff)
  qed (use JObj.prems w pair_text_head in \<open>simp_all add: text_of_JObj del: text_of.simps(5)\<close>)
  moreover have "ps = qs" if "own_order ps = own_order qs"
    using JObj.prems w that set_own_order [of ps] set_own_order [of qs]
    by (intro sorted_keys_unique) auto
  ultimately show ?case using w by simp
next
  case (JBool b)
  have "w = JBool b"
    using same_kind_simps(1) text_same_kind JBool by blast
  with JBool show ?case by simp
next
  case JNull
  have "w = JNull"
    using same_kind_simps(6) text_same_kind JNull by blast
  with JNull show ?case by simp
qed simp_all

section \<open>What the serialisation determines\<close>

lemma canonicalize_normal: "normal (normalize_js v) \<Longrightarrow> canonicalize v = text_of (normalize_js v)"
  by (simp add: canonicalize_def stringify_normal)

lemma canonicalize_eq_iff:
  assumes "wire v" and "wire w"
  shows "canonicalize v = canonicalize w \<longleftrightarrow> normalize_js v = normalize_js w"
proof
  assume "canonicalize v = canonicalize w"
  then have "text_of (normalize_js v) @ [] = text_of (normalize_js w) @ []"
    using assms by (simp add: canonicalize_normal normal_normalize)
  then show "normalize_js v = normalize_js w"
    using assms normal_normalize text_unambiguous [of _ _ "[]" "[]"] by (simp add: delim_def)
qed (simp add: canonicalize_def)

end
