(* ===== verification/Signature.thy ===== *)
theory Signature
  imports Payload
begin

text \<open>
  \<open>src/global/hash.util.ts\<close>: the signature envelope on agent payloads, its verification and the
  replay guard.

  HMAC-SHA256 is Node's; it is the parameter \<open>hmac\<close> of the definitions (secret, then text,
  giving the digest in hex). Where a property relies on it, the hypothesis is a documented fact:
  the digest is a nonempty string of lower case hex digits of even length, or the two texts at
  hand do not collide. The time \<open>Date.now()\<close> and the nonce of \<open>createNonce()\<close> are arguments.
\<close>

section \<open>The signed text\<close>

definition SIGNATURE_SCHEME_VERSION :: int where
  "SIGNATURE_SCHEME_VERSION = 1"

definition SIGNATURE_FIELD :: string where "SIGNATURE_FIELD = ''_sig''"
definition TIMESTAMP_FIELD :: string where "TIMESTAMP_FIELD = ''_ts''"
definition NONCE_FIELD :: string where "NONCE_FIELD = ''_nonce''"

definition ENVELOPE_FIELDS :: "string list" where
  "ENVELOPE_FIELDS = [SIGNATURE_FIELD, TIMESTAMP_FIELD, NONCE_FIELD]"

lemmas field_defs = SIGNATURE_FIELD_def TIMESTAMP_FIELD_def NONCE_FIELD_def ENVELOPE_FIELDS_def

definition DEFAULT_MAX_CLOCK_SKEW_MS :: int where
  "DEFAULT_MAX_CLOCK_SKEW_MS = 5 * 60 * 1000"

definition newline :: char where "newline = CHR 0x0A"

text \<open>\<open>{ ...payload }\<close>: the own properties; arrays and strings spread by index.\<close>

fun spread :: "jval \<Rightarrow> (string \<times> jval) list" where
  "spread (JObj ps) = ps"
| "spread (JArr xs) = zip (map show_nat [0..<length xs]) xs"
| "spread (JStr s) = zip (map show_nat [0..<length s]) (map (\<lambda>c. JStr [c]) s)"
| "spread v = []"

fun stripEnvelope :: "jval \<Rightarrow> jval" where
  "stripEnvelope (JObj ps) = JObj (filter (\<lambda>(k, v). k \<notin> set ENVELOPE_FIELDS) ps)"
| "stripEnvelope (JDate s) = JObj []"
| "stripEnvelope v = v"

definition signingMaterial :: "string \<Rightarrow> int \<Rightarrow> string \<Rightarrow> jval \<Rightarrow> string" where
  "signingMaterial event timestamp nonce payload =
     js_join [newline]
       [''v'' @ show_int SIGNATURE_SCHEME_VERSION, event, show_int timestamp, nonce,
        canonicalize (stripEnvelope payload)]"

definition digest ::
  "(string \<Rightarrow> string \<Rightarrow> string) \<Rightarrow> string \<Rightarrow> int \<Rightarrow> string \<Rightarrow> jval \<Rightarrow> string \<Rightarrow> string" where
  "digest hmac event timestamp nonce payload secret =
     hmac secret (signingMaterial event timestamp nonce payload)"

section \<open>Signing\<close>

definition falsy :: "string option \<Rightarrow> bool" where
  "falsy s \<longleftrightarrow> s = None \<or> s = Some []"

definition sign ::
  "(string \<Rightarrow> string \<Rightarrow> string) \<Rightarrow> string \<Rightarrow> jval \<Rightarrow> string option \<Rightarrow> int \<Rightarrow> string \<Rightarrow> jval" where
  "sign hmac event payload secret now nonce =
     (if falsy secret then payload
      else JObj (map_set (map_set (map_set (spread payload)
             TIMESTAMP_FIELD (JNum now))
             NONCE_FIELD (JStr nonce))
             SIGNATURE_FIELD (JStr (digest hmac event now nonce payload (the secret)))))"

section \<open>The replay guard\<close>

record replay_guard =
  seen :: "(string, int) jsmap"
  windowMs :: int

definition newReplayGuard :: replay_guard where
  "newReplayGuard = \<lparr>seen = [], windowMs = DEFAULT_MAX_CLOCK_SKEW_MS\<rparr>"

definition prune :: "replay_guard \<Rightarrow> int \<Rightarrow> replay_guard" where
  "prune g now = g\<lparr>seen := filter (\<lambda>(n, t). \<not> \<bar>now - t\<bar> > windowMs g) (seen g)\<rparr>"

definition remember :: "replay_guard \<Rightarrow> string \<Rightarrow> int \<Rightarrow> bool \<times> replay_guard" where
  "remember g nonce timestamp =
     (let g' = prune g timestamp
      in if map_get (seen g') nonce \<noteq> None then (False, g')
         else (True, g'\<lparr>seen := map_set (seen g') nonce timestamp\<rparr>))"

definition guard_size :: "replay_guard \<Rightarrow> nat" where
  "guard_size g = length (seen g)"

definition guard_clear :: "replay_guard \<Rightarrow> replay_guard" where
  "guard_clear g = g\<lparr>seen := []\<rparr>"

section \<open>Verification\<close>

datatype verify_failure =
    NO_SECRET
  | MISSING_SIGNATURE
  | MALFORMED_SIGNATURE
  | MISSING_TIMESTAMP
  | MISSING_NONCE
  | EXPIRED
  | REPLAYED
  | INVALID_SIGNATURE

datatype verify_result = VOk | VFail verify_failure

definition is_hex :: "char \<Rightarrow> bool" where
  "is_hex c \<longleftrightarrow> is_digit c \<or> CHR ''a'' \<le> c \<and> c \<le> CHR ''f''"

text \<open>\<open>Buffer.from(s, 'hex')\<close>: whole pairs of digits, up to the first pair that is none.\<close>

fun hex_bytes :: "string \<Rightarrow> nat list" where
  "hex_bytes (a # b # s) =
     (if is_hex a \<and> is_hex b then (16 * hex_value a + hex_value b) # hex_bytes s else [])"
| "hex_bytes s = []"

definition equalsInConstantTime :: "string \<Rightarrow> string \<Rightarrow> bool" where
  "equalsInConstantTime l r =
     (let lb = hex_bytes (js_lower l); rb = hex_bytes (js_lower r)
      in if length lb \<noteq> length rb \<or> length lb = 0 then False else lb = rb)"

text \<open>The three envelope fields of an object payload, with the type checks of the code.\<close>

fun read_signature :: "jval option \<Rightarrow> string option" where
  "read_signature (Some (JStr s)) = (if s = [] then None else Some s)"
| "read_signature v = None"

fun read_timestamp :: "jval option \<Rightarrow> int option" where
  "read_timestamp (Some (JNum t)) = Some t"
| "read_timestamp v = None"

fun own_props :: "jval \<Rightarrow> (string \<times> jval) list option" where
  "own_props (JObj ps) = Some ps"
| "own_props (JDate s) = Some []"
| "own_props v = None"

definition verify_checks ::
  "(string \<Rightarrow> string \<Rightarrow> string) \<Rightarrow> string \<Rightarrow> jval \<Rightarrow> string option \<Rightarrow> int \<Rightarrow> int
    \<Rightarrow> verify_failure + (string \<times> int)" where
  "verify_checks hmac event payload secret maxClockSkewMs now =
     (if falsy secret then Inl NO_SECRET
      else case own_props payload of
        None \<Rightarrow> Inl MISSING_SIGNATURE
      | Some ps \<Rightarrow>
     (case read_signature (map_get ps SIGNATURE_FIELD) of
        None \<Rightarrow> Inl MISSING_SIGNATURE
      | Some signature \<Rightarrow>
     (case read_timestamp (map_get ps TIMESTAMP_FIELD) of
        None \<Rightarrow> Inl MISSING_TIMESTAMP
      | Some timestamp \<Rightarrow>
     (case read_signature (map_get ps NONCE_FIELD) of
        None \<Rightarrow> Inl MISSING_NONCE
      | Some nonce \<Rightarrow>
        if \<not> list_all is_hex (js_lower signature) then Inl MALFORMED_SIGNATURE
        else if \<not> equalsInConstantTime signature
                    (digest hmac event timestamp nonce payload (the secret))
        then Inl INVALID_SIGNATURE
        else if maxClockSkewMs > 0 \<and> \<bar>now - timestamp\<bar> > maxClockSkewMs then Inl EXPIRED
        else Inr (nonce, timestamp)))))"

definition verify ::
  "(string \<Rightarrow> string \<Rightarrow> string) \<Rightarrow> string \<Rightarrow> jval \<Rightarrow> string option \<Rightarrow> int \<Rightarrow> int
    \<Rightarrow> replay_guard option \<Rightarrow> verify_result \<times> replay_guard option" where
  "verify hmac event payload secret maxClockSkewMs now replayGuard =
     (case verify_checks hmac event payload secret maxClockSkewMs now of
        Inl reason \<Rightarrow> (VFail reason, replayGuard)
      | Inr (nonce, timestamp) \<Rightarrow>
          (case replayGuard of
             None \<Rightarrow> (VOk, None)
           | Some g \<Rightarrow>
               (let (first, g') = remember g nonce timestamp
                in if first then (VOk, Some g') else (VFail REPLAYED, Some g'))))"

section \<open>Reading the definitions\<close>

lemma remember_prunes: "prune g t = g' \<Longrightarrow> (n, t') \<in> set (seen g') \<Longrightarrow> \<bar>t - t'\<bar> \<le> windowMs g"
  by (auto simp: prune_def)

lemma prune_get:
  "distinct (map_keys (seen g)) \<Longrightarrow> map_get (seen (prune g now)) n =
     (case map_get (seen g) n of None \<Rightarrow> None
      | Some t \<Rightarrow> if \<bar>now - t\<bar> > windowMs g then None else Some t)"
proof -
  assume d: "distinct (map_keys (seen g))"
  have dp: "distinct (map_keys (seen (prune g now)))"
    using d by (simp add: prune_def distinct_map_filter)
  show ?thesis
  proof (cases "map_get (seen g) n")
    case None
    then have "map_get (seen (prune g now)) n = None"
      by (auto simp: map_get_None_iff prune_def)
    with None show ?thesis by simp
  next
    case (Some t)
    have un: "t' = t" if "(n, t') \<in> set (seen g)" for t'
      using that by (metis Some d map_get_eq_Some option.inject)
    show ?thesis
    proof (cases "\<bar>now - t\<bar> > windowMs g")
      case True
      then have "n \<notin> fst ` set (seen (prune g now))"
        using un by (auto simp: prune_def)
      with True Some show ?thesis by (simp add: map_get_None_iff)
    next
      case False
      with Some have "(n, t) \<in> set (seen (prune g now))"
        by (auto simp: prune_def dest: map_get_SomeD)
      with False Some show ?thesis by (simp add: map_get_eq_Some [OF dp])
    qed
  qed
qed

lemma prune_window [simp]: "windowMs (prune g now) = windowMs g"
  by (simp add: prune_def)

lemma distinct_prune [simp]:
  "distinct (map_keys (seen g)) \<Longrightarrow> distinct (map_keys (seen (prune g now)))"
  by (simp add: prune_def distinct_map_filter)

lemma remember_distinct:
  "distinct (map_keys (seen g)) \<Longrightarrow> distinct (map_keys (seen (snd (remember g n t))))"
  by (simp add: remember_def Let_def)

lemma remember_window [simp]: "windowMs (snd (remember g n t)) = windowMs g"
  by (simp add: remember_def Let_def)

section \<open>Lemmas on signing and verifying\<close>

lemma strip_set [simp]:
  "k \<in> set ENVELOPE_FIELDS \<Longrightarrow> stripEnvelope (JObj (map_set ps k v)) = stripEnvelope (JObj ps)"
proof (induction ps)
  case (Cons p ps)
  then show ?case by (cases p) (auto simp: map_set_def)
qed (simp add: map_set_def)

lemma strip_sign:
  "\<not> falsy secret \<Longrightarrow> stripEnvelope (sign hmac event (JObj ps) secret now nonce) = stripEnvelope (JObj ps)"
  by (simp add: sign_def ENVELOPE_FIELDS_def del: stripEnvelope.simps)

lemma digest_strip:
  "stripEnvelope v = stripEnvelope w \<Longrightarrow> digest hmac e t n v s = digest hmac e t n w s"
  by (simp add: digest_def signingMaterial_def)

text \<open>What the code relies on of the digest's form: lower case hex, whole bytes, not empty.\<close>

definition hex_output :: "string \<Rightarrow> bool" where
  "hex_output d \<longleftrightarrow> d \<noteq> [] \<and> list_all is_hex d \<and> even (length d)"

lemma is_hex_not_upper: "is_hex c \<Longrightarrow> \<not> is_upper c"
  by (auto simp: is_hex_def is_upper_def is_digit_def less_eq_char_def)

lemma js_lower_hex [simp]: "list_all is_hex d \<Longrightarrow> js_lower d = d"
  by (induction d) (auto simp: js_lower_def lower_char_def is_hex_not_upper)

lemma hex_bytes_Nil_iff: "list_all is_hex s \<Longrightarrow> hex_bytes s = [] \<longleftrightarrow> length s < 2"
  by (cases s rule: hex_bytes.cases) auto

lemma hex_digit_value: "is_hex a \<Longrightarrow> hex_digit (hex_value a) = a"
  by (auto simp: is_hex_def hex_value_def hex_digit_def is_digit_iff less_eq_char_def)

lemma hex_value_inject: "is_hex a \<Longrightarrow> is_hex b \<Longrightarrow> hex_value a = hex_value b \<Longrightarrow> a = b"
  by (metis hex_digit_value)

lemma hex_value_bound: "is_hex a \<Longrightarrow> hex_value a < 16"
  by (auto simp: is_hex_def hex_value_def is_digit_iff less_eq_char_def)

lemma hex_pair_inject:
  assumes "is_hex a" "is_hex b" "is_hex c" "is_hex d"
    and "16 * hex_value a + hex_value b = 16 * hex_value c + hex_value d"
  shows "a = c \<and> b = d"
proof -
  have dm: "(16 * p + q) div 16 = p" "(16 * p + q) mod 16 = q" if "q < 16" for p q :: nat
    using that by simp_all
  have "hex_value a = hex_value c" "hex_value b = hex_value d"
    using dm [OF hex_value_bound [OF assms(2)], of "hex_value a"]
      dm [OF hex_value_bound [OF assms(4)], of "hex_value c"] assms(5) by simp_all
  with assms(1-4) show ?thesis by (metis hex_digit_value)
qed

text \<open>Equality of the bytes of two hex strings is equality of their longest even prefixes.\<close>

definition even_prefix :: "string \<Rightarrow> string" where
  "even_prefix s = take (2 * (length s div 2)) s"

lemma even_prefix_simps [simp]:
  "even_prefix [] = []" "even_prefix [a] = []" "even_prefix (a # b # s) = a # b # even_prefix s"
  by (simp_all add: even_prefix_def)

lemma even_prefix_even: "even (length s) \<Longrightarrow> even_prefix s = s"
  by (simp add: even_prefix_def)

lemma hex_bytes_eq_iff:
  "list_all is_hex s \<Longrightarrow> list_all is_hex t \<Longrightarrow>
    hex_bytes s = hex_bytes t \<longleftrightarrow> even_prefix s = even_prefix t"
proof (induction s arbitrary: t rule: hex_bytes.induct)
  case (1 a b s)
  show ?case
  proof (cases t rule: hex_bytes.cases)
    case (1 c d t')
    with "1.prems" "1.IH" [of t'] hex_pair_inject [of a b c d] show ?thesis by auto
  qed (use "1.prems" in auto)
next
  case "2_1"
  then show ?case by (cases t rule: hex_bytes.cases) auto
next
  case "2_2"
  then show ?case by (cases t rule: hex_bytes.cases) auto
qed

lemma equals_hex:
  assumes "list_all is_hex (js_lower l)" and "list_all is_hex (js_lower r)"
  shows "equalsInConstantTime l r \<longleftrightarrow>
    even_prefix (js_lower l) = even_prefix (js_lower r) \<and> 2 \<le> length l"
  using hex_bytes_eq_iff [OF assms] hex_bytes_Nil_iff [OF assms(1)]
  by (auto simp: equalsInConstantTime_def Let_def js_lower_def not_less)

lemma equals_refl: "hex_output d \<Longrightarrow> equalsInConstantTime d d"
  using equals_hex [of d d] by (cases d rule: hex_bytes.cases) (auto simp: hex_output_def)

lemma verify_checks_okD:
  assumes "verify_checks hmac event payload secret skew now = Inr (nonce, timestamp)"
  obtains ps signature where "own_props payload = Some ps" and "\<not> falsy secret"
    and "map_get ps SIGNATURE_FIELD = Some (JStr signature)"
    and "map_get ps TIMESTAMP_FIELD = Some (JNum timestamp)"
    and "map_get ps NONCE_FIELD = Some (JStr nonce)"
    and "list_all is_hex (js_lower signature)"
    and "equalsInConstantTime signature (digest hmac event timestamp nonce payload (the secret))"
    and "\<not> (skew > 0 \<and> \<bar>now - timestamp\<bar> > skew)"
  using assms
  by (auto simp: verify_checks_def split: if_splits option.splits
      elim!: read_signature.elims read_timestamp.elims)

lemma verify_checks_sign:
  assumes "\<not> falsy secret" and "nonce \<noteq> []"
    and "hex_output (digest hmac event now nonce (JObj ps) (the secret))"
    and "skew > 0 \<longrightarrow> \<bar>now' - now\<bar> \<le> skew"
  shows "verify_checks hmac event (sign hmac event (JObj ps) secret now nonce) secret skew now'
    = Inr (nonce, now)"
proof -
  let ?d = "digest hmac event now nonce (JObj ps) (the secret)"
  obtain qs where s: "sign hmac event (JObj ps) secret now nonce = JObj qs"
    and g: "map_get qs SIGNATURE_FIELD = Some (JStr ?d)" "map_get qs TIMESTAMP_FIELD = Some (JNum now)"
      "map_get qs NONCE_FIELD = Some (JStr nonce)"
    using assms(1) by (simp add: sign_def field_defs)
  have "digest hmac event now nonce (JObj qs) (the secret) = ?d"
    unfolding s [symmetric] using assms(1) by (intro digest_strip) (simp add: strip_sign)
  then show ?thesis
    using assms equals_refl [OF assms(3)] by (auto simp: s g verify_checks_def hex_output_def)
qed

lemma signature_has_digest:
  assumes "equalsInConstantTime s d" and "list_all is_hex (js_lower s)" and "hex_output d"
  shows "even_prefix (js_lower s) = d"
  using assms equals_hex [of s d] even_prefix_even [of d] by (simp add: hex_output_def)

lemma join_newline:
  "js_join [c] [a, b, d, e, f] = a @ c # b @ c # d @ c # e @ c # f"
  by simp

lemma is_hex_hex_digit: "n < 16 \<Longrightarrow> is_hex (hex_digit n)"
  by (auto simp: is_hex_def hex_digit_def is_digit_iff less_eq_char_def)

lemma hex_digit_not_newline: "n < 16 \<Longrightarrow> hex_digit n \<noteq> newline"
  using is_hex_hex_digit [of n] by (auto simp: newline_def is_hex_def is_digit_iff less_eq_char_def)

lemma json_escape_no_newline: "newline \<notin> set (json_escape c)"
proof (cases "(of_char c :: nat) < 32")
  case True
  then have "(of_char c :: nat) div 16 < 16" by simp
  then show ?thesis
    using hex_digit_not_newline [of "of_char c div 16"] hex_digit_not_newline [of "of_char c mod 16"]
    by (auto simp: json_escape_def newline_def)
qed (auto simp: json_escape_def newline_def)

lemma json_quote_no_newline: "newline \<notin> set (json_quote s)"
  using json_escape_no_newline by (auto simp: json_quote_def newline_def)

lemma newline_simps [simp]:
  "newline \<noteq> CHR '',''" "newline \<noteq> CHR '':''" "newline \<noteq> CHR ''[''" "newline \<noteq> CHR '']''"
  "newline \<noteq> CHR ''{''" "newline \<noteq> CHR ''}''" "newline \<notin> set (show_int i)"
  by (auto simp: newline_def is_digit_iff dest!: show_int_chars)

lemma join_no_newline: "\<forall>w\<in>set ws. newline \<notin> set w \<Longrightarrow> newline \<notin> set (js_join '','' ws)"
  by (induction "'',''" ws rule: js_join.induct) auto

lemma stringify_no_newline: "stringify v = Some t \<Longrightarrow> newline \<notin> set t"
proof (induction v arbitrary: t)
  case (JArr xs)
  have "\<forall>w\<in>set (map (\<lambda>x. case stringify x of None \<Rightarrow> ''null'' | Some t \<Rightarrow> t) xs). newline \<notin> set w"
    using JArr.IH by (auto simp: newline_def split: option.splits)
  from join_no_newline [OF this] JArr.prems show ?case by auto
next
  case (JObj ps)
  have "newline \<notin> set (the (stringify v))" if "(k, v) \<in> set ps" "Some t = stringify v" for k v t
    using JObj.IH [of "(k, v)" v t] that(1) that(2) [symmetric] by simp
  then have "\<forall>w\<in>set (map (\<lambda>(k, t). json_quote k @ '':'' @ the t)
      (filter (\<lambda>(k, t). t \<noteq> None) (own_order (map (\<lambda>(k, v). (k, stringify v)) ps)))). newline \<notin> set w"
    using json_quote_no_newline by auto
  from join_no_newline [OF this] JObj.prems show ?case by auto
qed (auto simp: newline_def [symmetric] json_quote_no_newline, auto simp: newline_def split: if_splits)

lemma canonicalize_no_newline: "newline \<notin> set (canonicalize v)"
  using stringify_no_newline by (auto simp: canonicalize_def newline_def split: option.splits)

lemma first_separator:
  "c \<notin> set a \<Longrightarrow> c \<notin> set b \<Longrightarrow> a @ c # x = b @ c # y \<Longrightarrow> a = b \<and> x = y"
  by (induction a arbitrary: b; case_tac b) auto

lemma last_separator:
  assumes "c \<notin> set x" and "c \<notin> set y" and "a @ c # x = b @ c # y"
  shows "a = b \<and> x = y"
proof -
  have "rev x @ c # rev a = rev y @ c # rev b"
    using arg_cong [OF assms(3), of rev] by (simp only: rev_append rev.simps append_assoc append.simps)
  then show ?thesis
    using first_separator [of c "rev x" "rev y" "rev a" "rev b"] assms(1,2) by simp
qed

lemma signingMaterial_parts:
  "signingMaterial e t n p =
     ''v1'' @ newline # e @ newline # show_int t @ newline # n @ newline # canonicalize (stripEnvelope p)"
  by (simp add: signingMaterial_def SIGNATURE_SCHEME_VERSION_def show_int_def show_nat.simps)

lemma signingMaterial_inject:
  assumes "newline \<notin> set e" and "newline \<notin> set e'"
    and "signingMaterial e t n p = signingMaterial e' t' n' p'"
  shows "e = e' \<and> t = t' \<and> n = n' \<and>
    canonicalize (stripEnvelope p) = canonicalize (stripEnvelope p')"
proof -
  let ?c = "canonicalize (stripEnvelope p)" and ?c' = "canonicalize (stripEnvelope p')"
  have "e @ newline # show_int t @ newline # n @ newline # ?c
      = e' @ newline # show_int t' @ newline # n' @ newline # ?c'"
    using assms(3) by (simp add: signingMaterial_parts)
  note 1 = first_separator [OF assms(1,2) this]
  note 2 = first_separator [OF newline_simps(7) newline_simps(7) conjunct2 [OF 1]]
  note 3 = last_separator [OF canonicalize_no_newline canonicalize_no_newline conjunct2 [OF 2]]
  from 1 2 3 show ?thesis by simp
qed

lemma wire_strip: "wire p \<Longrightarrow> wire (stripEnvelope p)"
  by (cases p) (auto simp: list_all_iff distinct_map_filter)

section \<open>Runs of a guarded receiver\<close>

text \<open>
  The nonces of the packets a receiver accepts, for a sequence of deliveries. A delivery is the
  receiver's time, the event and the payload; the guard is threaded through.
\<close>

fun accepted_nonces ::
  "(string \<Rightarrow> string \<Rightarrow> string) \<Rightarrow> string option \<Rightarrow> replay_guard \<Rightarrow> (int \<times> string \<times> jval) list
    \<Rightarrow> string list" where
  "accepted_nonces hmac secret g [] = []"
| "accepted_nonces hmac secret g ((now, event, payload) # ds) =
     (case verify_checks hmac event payload secret DEFAULT_MAX_CLOCK_SKEW_MS now of
        Inl r \<Rightarrow> accepted_nonces hmac secret g ds
      | Inr (nonce, timestamp) \<Rightarrow>
          (case verify hmac event payload secret DEFAULT_MAX_CLOCK_SKEW_MS now (Some g) of
             (VOk, Some g') \<Rightarrow> nonce # accepted_nonces hmac secret g' ds
           | (_, Some g') \<Rightarrow> accepted_nonces hmac secret g' ds
           | (_, None) \<Rightarrow> []))"

definition stamp :: "jval \<Rightarrow> int option" where
  "stamp payload =
     (case own_props payload of None \<Rightarrow> None | Some ps \<Rightarrow> read_timestamp (map_get ps TIMESTAMP_FIELD))"

lemma verify_Inr:
  "verify_checks hmac e p s skew now = Inr (n, t) \<Longrightarrow> verify hmac e p s skew now (Some g) =
     (if fst (remember g n t) then VOk else VFail REPLAYED, Some (snd (remember g n t)))"
  by (simp add: verify_def split: prod.splits)

lemma checks_stamp: "verify_checks hmac e p s skew now = Inr (n, t) \<Longrightarrow> stamp p = Some t"
  by (elim verify_checks_okD) (simp add: stamp_def)

definition within :: "int \<Rightarrow> replay_guard \<Rightarrow> bool" where
  "within t0 g \<longleftrightarrow> (\<forall>(n, t)\<in>set (seen g). t0 \<le> t \<and> t \<le> t0 + windowMs g)"

lemma prune_within: "within t0 g \<Longrightarrow> t0 \<le> t \<Longrightarrow> t \<le> t0 + windowMs g \<Longrightarrow> prune g t = g"
proof -
  assume a: "within t0 g" "t0 \<le> t" "t \<le> t0 + windowMs g"
  then have "\<forall>(n, t')\<in>set (seen g). \<not> \<bar>t - t'\<bar> > windowMs g"
    by (fastforce simp: within_def)
  then have "filter (\<lambda>(n, t'). \<not> \<bar>t - t'\<bar> > windowMs g) (seen g) = seen g"
    by (auto simp: filter_id_conv)
  then show ?thesis by (simp add: prune_def)
qed

lemma remember_within:
  assumes "within t0 g" "t0 \<le> t" "t \<le> t0 + windowMs g"
  shows "remember g n t = (if n \<in> set (map_keys (seen g)) then (False, g)
     else (True, g\<lparr>seen := map_set (seen g) n t\<rparr>))"
  using prune_within [OF assms] by (auto simp: remember_def Let_def map_get_None_iff)

lemma set_map_set: "x \<in> set (map_set m k v) \<Longrightarrow> x = (k, v) \<or> x \<in> set m"
  by (induction m) (auto simp: map_set_def split: if_splits)

lemma within_set:
  assumes "within t0 g" "t0 \<le> t" "t \<le> t0 + windowMs g"
  shows "within t0 (g\<lparr>seen := map_set (seen g) n t\<rparr>)"
  using assms by (auto simp: within_def dest!: set_map_set)

lemma accepted_fresh:
  assumes "within t0 g"
    and "\<forall>(now, e, p)\<in>set ds. \<forall>t. stamp p = Some t \<longrightarrow> t0 \<le> t \<and> t \<le> t0 + windowMs g"
  shows "distinct (accepted_nonces hmac s g ds) \<and>
    set (accepted_nonces hmac s g ds) \<inter> set (map_keys (seen g)) = {}"
  using assms
proof (induction ds arbitrary: g)
  case (Cons d ds)
  obtain now e p where d: "d = (now, e, p)" by (cases d) auto
  show ?case
  proof (cases "verify_checks hmac e p s DEFAULT_MAX_CLOCK_SKEW_MS now")
    case (Inl r)
    with Cons d show ?thesis by simp
  next
    case (Inr nt)
    obtain n t where nt: "nt = (n, t)" by (cases nt) auto
    with Inr d Cons.prems have t: "t0 \<le> t" "t \<le> t0 + windowMs g"
      using checks_stamp by fastforce+
    note rem = remember_within [OF Cons.prems(1) t, of n]
    let ?g = "g\<lparr>seen := map_set (seen g) n t\<rparr>"
    show ?thesis
    proof (cases "n \<in> set (map_keys (seen g))")
      case True
      with Cons Inr nt d rem show ?thesis by (simp add: verify_Inr)
    next
      case False
      have "distinct (accepted_nonces hmac s ?g ds) \<and>
          set (accepted_nonces hmac s ?g ds) \<inter> set (map_keys (seen ?g)) = {}"
        using Cons.prems within_set [OF Cons.prems(1) t] by (intro Cons.IH) auto
      with False Inr nt d rem show ?thesis by (auto simp: verify_Inr)
    qed
  qed
qed simp

section \<open>Properties\<close>

text \<open>The canonical text of a payload does not depend on the order in which the sender
  assembled the keys of any object in it, so the two peers compute the same signing text.\<close>

theorem canonicalize_order_insensitive:
  assumes "same_content v w"
  shows "canonicalize v = canonicalize w"
  using same_content_normalize [OF assms] by (simp add: canonicalize_def)

theorem canonicalize_order_insensitive_witness:
  "canonicalize (JObj [(''b'', JNum 1), (''a'', JArr [JNull])])
     = canonicalize (JObj [(''a'', JArr [JNull]), (''b'', JNum 1)])"
  by (rule canonicalize_order_insensitive,
      rule same_content.object [where rs = "[(''b'', JNum 1), (''a'', JArr [JNull])]"])
    (simp_all add: same_content.same)

text \<open>The canonical text loses nothing: two payloads that arrived as JSON have the same text
  only if they are the same up to key order and keys named \<open>__proto__\<close>.\<close>

theorem canonicalize_injective:
  assumes "wire v" and "wire w"
  shows "canonicalize v = canonicalize w \<longleftrightarrow> normalize_js v = normalize_js w"
  using assms by (rule canonicalize_eq_iff)

theorem canonicalize_injective_witness:
  "canonicalize (JObj [(''b'', JNum 1), (''a'', JStr ''x'')])
     \<noteq> canonicalize (JObj [(''b'', JStr ''1''), (''a'', JStr ''x'')])"
  using canonicalize_injective [of "JObj [(''b'', JNum 1), (''a'', JStr ''x'')]"
      "JObj [(''b'', JStr ''1''), (''a'', JStr ''x'')]"]
  by (simp add: proto_key_def)

text \<open>C5: What \<open>sign\<close> makes, \<open>verify\<close> accepts under the same secret and event while the clocks
  agree within the skew, whatever fields the payload has; delivering the very same packet again
  is then refused as a replay.\<close>

theorem sign_verify_once:
  assumes "k \<noteq> []" and "nonce \<noteq> []"
    and "hex_output (digest hmac event sent nonce (JObj ps) k)"
    and "\<bar>now - sent\<bar> \<le> DEFAULT_MAX_CLOCK_SKEW_MS"
    and "nonce \<notin> set (map_keys (seen g))" and "0 \<le> windowMs g"
  shows "\<exists>g'. verify hmac event (sign hmac event (JObj ps) (Some k) sent nonce) (Some k)
      DEFAULT_MAX_CLOCK_SKEW_MS now (Some g) = (VOk, Some g') \<and>
    fst (verify hmac event (sign hmac event (JObj ps) (Some k) sent nonce) (Some k)
      DEFAULT_MAX_CLOCK_SKEW_MS now (Some g')) = VFail REPLAYED"
proof -
  have c: "verify_checks hmac event (sign hmac event (JObj ps) (Some k) sent nonce) (Some k)
      DEFAULT_MAX_CLOCK_SKEW_MS now = Inr (nonce, sent)"
    using assms by (intro verify_checks_sign) (simp_all add: falsy_def)
  let ?g = "(prune g sent)\<lparr>seen := map_set (seen (prune g sent)) nonce sent\<rparr>"
  have "map_get (seen (prune g sent)) nonce = None"
    using assms(5) by (auto simp: map_get_None_iff prune_def)
  then have r: "remember g nonce sent = (True, ?g)"
    by (simp add: remember_def Let_def)
  have "(nonce, sent) \<in> set (seen ?g)" by (simp add: map_get_SomeD)
  then have "nonce \<in> fst ` set (seen (prune ?g sent))"
    using assms(6) by (force simp: prune_def [of ?g])
  then have "map_get (seen (prune ?g sent)) nonce \<noteq> None"
    by (simp add: map_get_None_iff)
  then have "remember ?g nonce sent = (False, prune ?g sent)"
    by (simp add: remember_def Let_def)
  with c r show ?thesis by (simp add: verify_def)
qed

theorem sign_verify_once_witness:
  "\<exists>g'. verify (\<lambda>k m. ''0aff'') ''command'' (sign (\<lambda>k m. ''0aff'') ''command''
      (JObj [(''command'', JStr ''STOP'')]) (Some ''s3'') 1000 ''n1'') (Some ''s3'')
      DEFAULT_MAX_CLOCK_SKEW_MS 1500 (Some newReplayGuard) = (VOk, Some g') \<and>
    fst (verify (\<lambda>k m. ''0aff'') ''command'' (sign (\<lambda>k m. ''0aff'') ''command''
      (JObj [(''command'', JStr ''STOP'')]) (Some ''s3'') 1000 ''n1'') (Some ''s3'')
      DEFAULT_MAX_CLOCK_SKEW_MS 1500 (Some g')) = VFail REPLAYED"
  by (rule sign_verify_once)
    (simp_all add: digest_def hex_output_def is_hex_def is_digit_def newReplayGuard_def
      DEFAULT_MAX_CLOCK_SKEW_MS_def)

text \<open>What the canonical text keeps of a value: everything but the properties called \<open>__proto__\<close>.\<close>

fun drop_proto :: "jval \<Rightarrow> jval" where
  "drop_proto (JArr xs) = JArr (map drop_proto xs)"
| "drop_proto (JObj ps) = JObj (map (\<lambda>(k, v). (k, drop_proto v)) (filter (\<lambda>(k, v). k \<noteq> proto_key) ps))"
| "drop_proto v = v"

lemma norm_props_wire:
  "list_all (\<lambda>(k, v). wire v) ps \<Longrightarrow>
   norm_props ps = map (\<lambda>(k, v). (k, normalize_js v)) (filter (\<lambda>(k, v). k \<noteq> proto_key) ps)"
  by (induction ps) (auto simp: norm_props_Cons)

lemma map_reorder:
  assumes "mset (map f ps) = mset (map f qs)"
  obtains rs where "mset rs = mset qs" "map f ps = map f rs"
proof -
  have "list_all2 (\<lambda>a y. a = f y) (map f qs) qs" by (simp add: list_all2_conv_all_nth)
  from list_all2_reorder_left_invariance [OF this assms] obtain rs
    where "list_all2 (\<lambda>a y. a = f y) (map f ps) rs" "mset rs = mset qs" by blast
  moreover from this have "map f ps = map f rs" by (simp add: list_all2_conv_all_nth list_eq_iff_nth_eq)
  ultimately show thesis using that by blast
qed

lemma same_content_objects:
  assumes "distinct (map fst ps)" and "mset rs = mset qs"
    and "list_all2 (\<lambda>(k, v) (l, w). k = l \<and> same_content v w) ps rs"
  shows "same_content (JObj ps) (JObj qs)"
  by (rule same_content.object [where rs = rs, OF assms(1)])
    (use assms(2,3) in \<open>auto simp: list_all2_conv_all_nth list_eq_iff_nth_eq split_beta\<close>)

lemma normalize_plain:
  "JNull = normalize_js w \<Longrightarrow> wire w \<Longrightarrow> w = JNull"
  "JBool b = normalize_js w \<Longrightarrow> wire w \<Longrightarrow> w = JBool b"
  "JNum n = normalize_js w \<Longrightarrow> wire w \<Longrightarrow> w = JNum n"
  "JStr s = normalize_js w \<Longrightarrow> wire w \<Longrightarrow> w = JStr s"
  by (cases w; simp add: normalize_JObj del: normalize_js.simps(2))+

lemma normalize_same_content:
  "wire v \<Longrightarrow> wire w \<Longrightarrow> normalize_js v = normalize_js w \<Longrightarrow> same_content (drop_proto v) (drop_proto w)"
proof (induction v arbitrary: w rule: drop_proto.induct)
  case (1 xs)
  then obtain ys where w: "w = JArr ys" and len: "length xs = length ys"
    and eq: "\<And>i. i < length xs \<Longrightarrow> normalize_js (xs ! i) = normalize_js (ys ! i)"
    by (cases w) (auto simp: list_eq_iff_nth_eq)
  have "same_content (drop_proto (xs ! i)) (drop_proto (ys ! i))" if i: "i < length xs" for i
    by (rule "1.IH") (use i len eq "1.prems"(1,2) in \<open>auto simp: w list_all_length\<close>)
  then show ?case using len by (auto simp: w list_all2_conv_all_nth intro!: same_content.array)
next
  case (2 ps)
  let ?keep = "filter (\<lambda>(k, v). k \<noteq> proto_key)" and ?n = "\<lambda>(k, v). (k :: string, normalize_js v)"
    and ?d = "\<lambda>(k, v). (k :: string, drop_proto v)"
  obtain qs where w: "w = JObj qs"
    using "2.prems" by (cases w) (auto simp: normalize_JObj simp del: normalize_js.simps(2))
  have props: "distinct (map fst ps)" "list_all (\<lambda>(k, v). wire v) ps" "list_all (\<lambda>(k, v). wire v) qs"
    using "2.prems"(1,2) by (simp_all add: w)
  have "sort_key fst (norm_props ps) = sort_key fst (norm_props qs)"
    using "2.prems"(3) unfolding w normalize_JObj by simp
  then have "mset (norm_props ps) = mset (norm_props qs)" by (metis mset_sort)
  then have "mset (map ?n (?keep ps)) = mset (map ?n (?keep qs))"
    unfolding norm_props_wire [OF props(2)] norm_props_wire [OF props(3)] .
  then obtain rs where rs: "mset rs = mset (?keep qs)" "map ?n (?keep ps) = map ?n rs" by (rule map_reorder)
  have keys: "distinct (map fst (map ?d (?keep ps)))"
    using props(1) by (simp add: comp_def split_beta distinct_map_filter)
  have len: "length (?keep ps) = length rs" using rs(2) by (metis length_map)
  have "case ?d (?keep ps ! i) of (k, v) \<Rightarrow> case ?d (rs ! i) of (l, x) \<Rightarrow> k = l \<and> same_content v x"
    if i: "i < length (?keep ps)" for i
  proof -
    obtain k v l x where p: "?keep ps ! i = (k, v)" and r: "rs ! i = (l, x)" by force
    have "map ?n (?keep ps) ! i = map ?n rs ! i" using rs(2) by (simp only:)
    then have "?n (?keep ps ! i) = ?n (rs ! i)" using i len by (simp only: nth_map)
    then have eq: "k = l" "normalize_js v = normalize_js x" by (simp_all add: p r)
    have pin: "(k, v) \<in> set (?keep ps)" using i p by (metis nth_mem)
    have "(l, x) \<in> set rs" using i len r by (metis nth_mem)
    then have "(l, x) \<in> set (?keep qs)" using rs(1) by (metis set_mset_mset)
    then have "wire x" "wire v" using pin props(2,3) by (auto simp: list_all_iff)
    then have "same_content (drop_proto v) (drop_proto x)" using "2.IH" [OF pin] eq(2) by blast
    then show ?thesis by (simp add: p r eq(1))
  qed
  then have pairs: "list_all2 (\<lambda>(k, v) (l, x). k = l \<and> same_content v x) (map ?d (?keep ps)) (map ?d rs)"
    using len unfolding list_all2_conv_all_nth by (simp add: split_beta)
  show ?case unfolding w drop_proto.simps
    by (rule same_content_objects [OF keys _ pairs]) (simp only: mset_map rs(1))
qed (auto dest!: normalize_plain intro: same_content.same)

text \<open>C6: An accepted signature belongs to one event, timestamp, nonce and content. Take two packets
  accepted under a secret that carry the same signature, for payloads as \<open>JSON.parse\<close> gives them and
  events whose names have no newline, with a code that prints as hexadecimal digits and does not collide on
  their two texts. Then they have the same event, timestamp and nonce, and their payloads without the envelope
  have the same content: the same properties with the same values at every depth, in any order, but for
  properties called \<open>__proto__\<close>, which the signed text leaves out (\<open>proto_key_not_signed\<close>). That the
  pieces of the text are joined by newlines, and that the nonce is not restricted, does no harm.\<close>

theorem signature_binds_packet:
  assumes "fst (verify hmac e (JObj ps) (Some k) skew now g) = VOk"
    and "fst (verify hmac e' (JObj ps') (Some k) skew now' g') = VOk"
    and "map_get ps SIGNATURE_FIELD = map_get ps' SIGNATURE_FIELD"
    and "map_get ps TIMESTAMP_FIELD = Some (JNum t)" and "map_get ps NONCE_FIELD = Some (JStr n)"
    and "map_get ps' TIMESTAMP_FIELD = Some (JNum t')" and "map_get ps' NONCE_FIELD = Some (JStr n')"
    and "newline \<notin> set e" and "newline \<notin> set e'" and "wire (JObj ps)" and "wire (JObj ps')"
    and "\<forall>text. hex_output (hmac k text)"
    and "hmac k (signingMaterial e t n (JObj ps)) = hmac k (signingMaterial e' t' n' (JObj ps'))
      \<longrightarrow> signingMaterial e t n (JObj ps) = signingMaterial e' t' n' (JObj ps')"
  shows "e = e' \<and> t = t' \<and> n = n' \<and>
    same_content (drop_proto (stripEnvelope (JObj ps))) (drop_proto (stripEnvelope (JObj ps')))"
proof -
  have "\<exists>n t. verify_checks hmac e (JObj ps) (Some k) skew now = Inr (n, t)"
    using assms(1) by (auto simp: verify_def split: sum.splits)
  then obtain s where s: "map_get ps SIGNATURE_FIELD = Some (JStr s)"
      "list_all is_hex (js_lower s)" "equalsInConstantTime s (digest hmac e t n (JObj ps) k)"
    using assms(4,5) by (elim exE verify_checks_okD) simp
  have "\<exists>n t. verify_checks hmac e' (JObj ps') (Some k) skew now' = Inr (n, t)"
    using assms(2) by (auto simp: verify_def split: sum.splits)
  then obtain s' where s': "map_get ps' SIGNATURE_FIELD = Some (JStr s')"
      "list_all is_hex (js_lower s')" "equalsInConstantTime s' (digest hmac e' t' n' (JObj ps') k)"
    using assms(6,7) by (elim exE verify_checks_okD) simp
  have "hmac k (signingMaterial e t n (JObj ps)) = hmac k (signingMaterial e' t' n' (JObj ps'))"
    using signature_has_digest [OF s(3,2)] signature_has_digest [OF s'(3,2)] s(1) s'(1) assms(3,12)
    by (simp add: digest_def)
  with assms(13) have "signingMaterial e t n (JObj ps) = signingMaterial e' t' n' (JObj ps')" ..
  note parts = signingMaterial_inject [OF assms(8,9) this]
  moreover from parts have "normalize_js (stripEnvelope (JObj ps)) = normalize_js (stripEnvelope (JObj ps'))"
    using canonicalize_eq_iff [OF wire_strip [OF assms(10)] wire_strip [OF assms(11)]] by blast
  note normalize_same_content [OF wire_strip [OF assms(10)] wire_strip [OF assms(11)] this]
  ultimately show ?thesis by blast
qed

theorem signature_binds_packet_witness:
  "same_content
     (drop_proto (stripEnvelope (JObj [(''y'', JNull), (''x'', JNum 1), (''_ts'', JNum 5), (''_nonce'', JStr ''n''), (''_sig'', JStr ''ab'')])))
     (drop_proto (stripEnvelope (JObj [(''_sig'', JStr ''ab''), (''x'', JNum 1), (''y'', JNull), (''_ts'', JNum 5), (''_nonce'', JStr ''n'')])))"
proof -
  let ?p = "[(''y'', JNull), (''x'', JNum 1), (''_ts'', JNum 5), (''_nonce'', JStr ''n''), (''_sig'', JStr ''ab'')]"
  let ?q = "[(''_sig'', JStr ''ab''), (''x'', JNum 1), (''y'', JNull), (''_ts'', JNum 5), (''_nonce'', JStr ''n'')]"
  let ?h = "\<lambda>k m :: string. ''ab''"
  note eval = verify_def verify_checks_def falsy_def field_defs map_get_def digest_def
    equals_refl hex_output_def is_hex_def is_digit_def
  have "signingMaterial ''command'' 5 ''n'' (JObj ?p) = signingMaterial ''command'' 5 ''n'' (JObj ?q)"
    by (simp add: signingMaterial_def canonicalize_def field_defs proto_key_def)
  then show ?thesis
    using signature_binds_packet [of ?h "''command''" ?p "''s''" 300000 5 None "''command''" ?q 5 None
        5 "''n''" 5 "''n''"]
    by (simp add: eval newline_def)
qed

text \<open>A packet that fails any check leaves the replay guard as it was, and one refused as a
  replay adds nothing to it: a forger cannot use up the nonces of the real sender.\<close>

theorem rejected_packet_burns_no_nonce:
  assumes "verify hmac event payload secret skew now (Some g) = (VFail reason, g')"
  shows "if reason = REPLAYED then g' = Some (prune g (snd (projr (verify_checks hmac event payload secret skew now))))
    else g' = Some g"
  using assms
  by (auto simp: verify_def remember_def Let_def verify_checks_def split: sum.splits prod.splits if_splits option.splits)

theorem rejected_packet_burns_no_nonce_witness:
  "snd (verify (\<lambda>k m. ''ab'') ''e'' (JObj [(''_sig'', JStr ''cd''), (''_ts'', JNum 5), (''_nonce'', JStr ''n'')])
      (Some ''s'') 300000 5 (Some newReplayGuard)) = Some newReplayGuard"
proof -
  have "verify (\<lambda>k m. ''ab'') ''e'' (JObj [(''_sig'', JStr ''cd''), (''_ts'', JNum 5), (''_nonce'', JStr ''n'')])
      (Some ''s'') 300000 5 (Some newReplayGuard) = (VFail INVALID_SIGNATURE, Some newReplayGuard)"
    by (simp add: verify_def verify_checks_def falsy_def field_defs map_get_def digest_def js_lower_def
        equalsInConstantTime_def lower_char_def is_upper_def is_hex_def is_digit_def hex_value_def less_eq_char_def)
  from rejected_packet_burns_no_nonce [OF this] this show ?thesis by simp
qed

text \<open>C7: A receiver never accepts a nonce twice while the timestamps of all the packets it is given
  lie within one window: the accepted nonces of every sequence of such deliveries, replayed in any order
  and number, are distinct.\<close>

theorem no_nonce_accepted_twice:
  assumes "\<forall>(now, event, payload)\<in>set deliveries. \<forall>t. stamp payload = Some t \<longrightarrow>
      t0 \<le> t \<and> t \<le> t0 + DEFAULT_MAX_CLOCK_SKEW_MS"
  shows "distinct (accepted_nonces hmac secret newReplayGuard deliveries)"
  using accepted_fresh [of t0 newReplayGuard deliveries hmac secret] assms
  by (simp add: within_def newReplayGuard_def)

theorem no_nonce_accepted_twice_witness:
  "distinct (accepted_nonces (\<lambda>k m. ''ab'') (Some ''s'') newReplayGuard
     [(9, ''e'', JObj [(''_sig'', JStr ''ab''), (''_ts'', JNum 5), (''_nonce'', JStr ''n'')]),
      (10, ''e'', JObj [(''_sig'', JStr ''ab''), (''_ts'', JNum 5), (''_nonce'', JStr ''n'')])])"
  by (rule no_nonce_accepted_twice [of _ 0])
    (simp add: stamp_def TIMESTAMP_FIELD_def map_get_def DEFAULT_MAX_CLOCK_SKEW_MS_def)

text \<open>Without that assumption a packet can be replayed. The guard prunes by the timestamp of
  the packet at hand and not by the receiver's clock, so a second valid packet whose timestamp is
  more than a window away from the first, both inside the accepted clock skew, makes the guard
  forget the first, which is then accepted again at the same moment.\<close>

theorem replay_after_foreign_timestamp:
  assumes "k \<noteq> []" and "n1 \<noteq> []" and "n2 \<noteq> []" and "n1 \<noteq> n2"
    and "\<bar>now - t1\<bar> \<le> DEFAULT_MAX_CLOCK_SKEW_MS" and "\<bar>now - t2\<bar> \<le> DEFAULT_MAX_CLOCK_SKEW_MS"
    and "\<bar>t2 - t1\<bar> > DEFAULT_MAX_CLOCK_SKEW_MS"
    and "hex_output (digest hmac e1 t1 n1 (JObj p1) k)"
    and "hex_output (digest hmac e2 t2 n2 (JObj p2) k)"
  shows "accepted_nonces hmac (Some k) newReplayGuard
     [(now, e1, sign hmac e1 (JObj p1) (Some k) t1 n1),
      (now, e2, sign hmac e2 (JObj p2) (Some k) t2 n2),
      (now, e1, sign hmac e1 (JObj p1) (Some k) t1 n1)] = [n1, n2, n1]"
proof -
  let ?W = DEFAULT_MAX_CLOCK_SKEW_MS
  have "verify_checks hmac e1 (sign hmac e1 (JObj p1) (Some k) t1 n1) (Some k) ?W now = Inr (n1, t1)"
    "verify_checks hmac e2 (sign hmac e2 (JObj p2) (Some k) t2 n2) (Some k) ?W now = Inr (n2, t2)"
    using assms by (auto intro!: verify_checks_sign simp: falsy_def)
  then show ?thesis
    using assms(4,7)
    by (simp add: verify_Inr remember_def Let_def prune_def newReplayGuard_def map_set_def map_get_def
        abs_minus_commute)
qed

theorem replay_after_foreign_timestamp_witness:
  "accepted_nonces (\<lambda>k m. ''ab'') (Some ''s'') newReplayGuard
     [(1000000, ''command'', sign (\<lambda>k m. ''ab'') ''command'' (JObj []) (Some ''s'') 800000 ''n1''),
      (1000000, ''command'', sign (\<lambda>k m. ''ab'') ''command'' (JObj []) (Some ''s'') 1200000 ''n2''),
      (1000000, ''command'', sign (\<lambda>k m. ''ab'') ''command'' (JObj []) (Some ''s'') 800000 ''n1'')]
   = [''n1'', ''n2'', ''n1'']"
  by (rule replay_after_foreign_timestamp)
    (simp_all add: DEFAULT_MAX_CLOCK_SKEW_MS_def digest_def hex_output_def is_hex_def is_digit_def)

text \<open>A key named \<open>__proto__\<close> is outside the signature: whoever relays a signed packet can
  add one with any value, and the verdict does not change.\<close>

theorem proto_key_not_signed:
  "verify hmac event (JObj (ps @ [(proto_key, v)])) secret skew now g
     = verify hmac event (JObj ps) secret skew now g"
proof -
  have "norm_props (qs @ [(proto_key, v)]) = norm_props qs" for qs
    by (simp add: norm_props_def)
  then have "canonicalize (stripEnvelope (JObj (ps @ [(proto_key, v)]))) = canonicalize (stripEnvelope (JObj ps))"
    by (simp add: canonicalize_def normalize_JObj proto_key_def field_defs del: normalize_js.simps)
  then have d: "digest hmac event t n (JObj (ps @ [(proto_key, v)])) = digest hmac event t n (JObj ps)" for t n
    by (simp add: digest_def signingMaterial_def fun_eq_iff)
  have get: "map_get (ps @ [(proto_key, v)]) SIGNATURE_FIELD = map_get ps SIGNATURE_FIELD"
    "map_get (ps @ [(proto_key, v)]) TIMESTAMP_FIELD = map_get ps TIMESTAMP_FIELD"
    "map_get (ps @ [(proto_key, v)]) NONCE_FIELD = map_get ps NONCE_FIELD"
    by (auto simp: map_get_def map_add_def proto_key_def field_defs split: option.splits)
  have "verify_checks hmac event (JObj (ps @ [(proto_key, v)])) secret skew now
      = verify_checks hmac event (JObj ps) secret skew now"
    unfolding verify_checks_def own_props.simps option.case get d ..
  then show ?thesis by (simp add: verify_def)
qed

end
