(* ===== verification/Store.thy ===== *)
theory Store
  imports Signature
begin

text \<open>
  The state of the Hub process: the tables of \<open>prisma/schema.prisma\<close>, the in-memory maps of
  its services, and the messages it has sent.

  A table is the list of its rows in primary key order. Prisma's \<open>findFirst\<close> is \<open>find\<close> (the
  first row in that order), \<open>findMany\<close> is \<open>filter\<close>, \<open>update\<close> and \<open>updateMany\<close> are
  \<open>update_rows\<close>, \<open>create\<close> appends a row with the table's next index. A failing
  database is modelled only where the code handles it, by an argument of the operation.

  The rows keep the names of the schema. \<open>hub\<close> extends the record of tables with one field for
  each map of a service; \<open>sent\<close> lists the socket messages in the order they left.
\<close>

section \<open>Enumerations of the schema\<close>

datatype user_permission = Unverified | Verified | Moderator | Administrator

datatype connection_status = Unlinked | Requested | Linked

datatype agent_status = AgentWaiting | Online | AgentOffline | AgentRestarting | AgentFailed

datatype update_phase = Idle | UpdateRequested | Pulling | Restarting | Succeeded | RolledBack | UpdateFailed

datatype service_status =
    Waiting | Building | Starting | Running | Stopped | Offline | Failed | Removed

datatype component_status =
    CWaiting | CBuilding | CStarting | CRunning | CStopped | CFailed | CRemoved | CRestarting

datatype block_mode = Notice | Hidden

datatype deploy_preset = Dockerfile | Compose | PresetNestjs

fun status_name :: "service_status \<Rightarrow> string" where
  "status_name Waiting = ''waiting''"
| "status_name Building = ''building''"
| "status_name Starting = ''starting''"
| "status_name Running = ''running''"
| "status_name Stopped = ''stopped''"
| "status_name Offline = ''offline''"
| "status_name Failed = ''failed''"
| "status_name Removed = ''removed''"

fun phase_name :: "update_phase \<Rightarrow> string" where
  "phase_name Idle = ''idle''"
| "phase_name UpdateRequested = ''requested''"
| "phase_name Pulling = ''pulling''"
| "phase_name Restarting = ''restarting''"
| "phase_name Succeeded = ''succeeded''"
| "phase_name RolledBack = ''rolled_back''"
| "phase_name UpdateFailed = ''failed''"

fun preset_name :: "deploy_preset \<Rightarrow> string" where
  "preset_name Dockerfile = ''dockerfile''"
| "preset_name Compose = ''compose''"
| "preset_name PresetNestjs = ''preset_nestjs''"

section \<open>Rows\<close>

record users_row =
  user_index :: nat
  user_display :: string
  user_email :: string
  user_password :: string
  user_permission :: user_permission
  user_restriction :: bool
  user_totp_secret :: "string option"
  user_totp_active :: bool
  last_used_totp_step :: "int option"
  user_totp_active_at :: "int option"

record verification_row =
  verification_index :: nat
  verification_email :: string
  verification_code :: string
  verification_created_at :: int
  verification_last_sent_at :: int
  verification_consumed_at :: "int option"

record refresh_token_row =
  token_index :: nat
  token_owner :: nat
  token :: string
  token_expired_at :: "int option"

record workspaces_row =
  workspace_index :: nat
  workspace_owner :: nat
  workspace_name :: string
  workspace_subdomain :: "string option"
  workspace_subdomain_active :: bool
  workspace_dns_record_id :: "string option"
  workspace_created_at :: int
  workspace_deleted_at :: "int option"

record agents_row =
  agent_index :: nat
  agent_ip :: string
  agent_code :: string
  agent_uuid :: string
  agent_signing_secret :: "string option"
  agent_protocol_version :: "int option"
  agent_name :: string
  agent_parent_workspace :: "nat option"
  agent_connection :: connection_status
  agent_status :: agent_status
  agent_version :: "string option"
  agent_update_phase :: update_phase
  agent_update_target :: "string option"
  agent_update_message :: "string option"
  agent_update_started_at :: "int option"
  agent_created_at :: int
  agent_deleted_at :: "int option"
  agent_last_online :: int

record services_row =
  service_index :: nat
  service_name :: string
  service_port :: int
  service_container_port :: "int option"
  service_host_port :: "int option"
  service_port_mappings :: "jval option"
  service_source_url :: string
  service_subdomain :: "string option"
  service_root_directory :: "string option"
  service_env :: "jval option"
  service_parent_workspace :: nat
  service_parent_agent :: nat
  service_status :: service_status
  service_traffic_blocked_at :: "int option"
  service_traffic_block_reason :: "string option"
  service_traffic_block_mode :: block_mode
  service_version :: string
  service_deploy_preset :: deploy_preset
  service_created_at :: int
  service_deleted_at :: "int option"

record components_row =
  component_index :: nat
  component_parent_service :: nat
  component_name :: string
  component_container_name :: "string option"
  component_status :: component_status
  component_health :: "string option"
  component_exit_code :: "int option"
  component_deleted_at :: "int option"

record endpoints_row =
  endpoint_index :: nat
  endpoint_parent_workspace :: nat
  endpoint_parent_service :: nat
  endpoint_component_name :: "string option"
  endpoint_subdomain :: "string option"
  endpoint_host_port :: int
  endpoint_container_port :: int
  endpoint_deleted_at :: "int option"

record releases_row =
  release_version :: string
  release_channel :: string
  release_protocol :: int
  release_image :: string
  release_notes :: "string option"
  release_published_at :: int
  release_yanked_at :: "int option"
  release_blocked :: "string option"
  release_manual_block :: "string option"

text \<open>\<open>traffic_date\<close> is a day, counted from the epoch.\<close>

record traffic_row =
  traffic_date :: int
  traffic_bytes :: int

record db =
  users :: "users_row list"
  verifications :: "verification_row list"
  refresh_tokens :: "refresh_token_row list"
  workspaces :: "workspaces_row list"
  agents :: "agents_row list"
  services :: "services_row list"
  service_components :: "components_row list"
  service_endpoints :: "endpoints_row list"
  agent_releases :: "releases_row list"
  traffic_daily :: "traffic_row list"
  next_user :: nat
  next_verification :: nat
  next_token :: nat
  next_workspace :: nat
  next_agent :: nat
  next_service :: nat
  next_component :: nat
  next_endpoint :: nat

section \<open>Sockets, sessions and sent messages\<close>

text \<open>\<open>client.data\<close> of a socket of the \<open>/agent\<close> namespace.\<close>

record agent_socket =
  data_agentCode :: "string option"
  data_agentUuid :: "string option"
  data_agentIp :: "string option"
  data_workspaceIndex :: "nat option"
  data_signingSecret :: "string option"
  data_replayGuard :: replay_guard
  data_packetGuardInstalled :: bool

record terminal_session =
  consoleSocketId :: string
  session_agentUuid :: string

datatype message =
    AgentEmit string string jval
  | RoomEmit nat string jval
  | ConsoleEmit string string jval
  | ConsoleBroadcast string
  | DisconnectSocket string

text \<open>Calls to the DNS provider and mails handed to the mail provider.\<close>

datatype dns_call = DnsCreate string | DnsUpdate string string | DnsDelete string

datatype mail =
    VerificationMail string string int
  | ExistingUserMail string string int

record hub = db +
  clock :: int
  draws :: nat
  sockets :: "(string, agent_socket) jsmap"
  agentUuidToSocketId :: "(string, string) jsmap"
  offlineTimers :: "(string, int) jsmap"
  pendingDisconnects :: "(string \<times> int) list"
  workspaceIndexCache :: "(string, nat \<times> int) jsmap"
  updateTimers :: "(string, int) jsmap"
  consoleUsers :: "(string, nat) jsmap"
  roomMembers :: "(string \<times> nat) list"
  terminalSessions :: "(string, terminal_session) jsmap"
  metricRequests :: "(string, terminal_session \<times> int) jsmap"
  consumedTerminalTokens :: "(string, int) jsmap"
  tunnelGuard :: replay_guard
  signingSecretCache :: "(string, string option \<times> int) jsmap"
  routeCache :: "(string, (string \<times> int) \<times> int) jsmap"
  lastSyncedAt :: int
  lastAttemptAt :: int
  syncTimer :: "int option"
  dnsCalls :: "dns_call list"
  mails :: "mail list"
  sent :: "message list"

text \<open>
  What the environment supplies: HMAC-SHA256, the random values in the order they are drawn
  (uuids, secrets, nonces, random words), the answers of GitHub, and the settings read from the
  configuration.
\<close>

record github_asset =
  asset_name :: string
  asset_url :: string

record github_release =
  rel_body :: "string option"
  rel_draft :: bool
  rel_prerelease :: bool
  rel_published_at :: "int option"
  rel_assets :: "github_asset list"

text \<open>
  The answer to the request for the releases of the repository (a list of releases, a status
  that is not ok with its message and headers, or no answer), and the parsed content of a \<open>release.json\<close> asset, whose fields
  may all be missing; a field that is present has the type the Agent's workflow gives it.
\<close>

text \<open>A message in the body of a refusal, if there is one, and the headers of the rate limit.\<close>

record github_failure =
  gf_message :: "string option"
  gf_remaining :: "string option"
  gf_limit :: "string option"
  gf_reset :: "string option"

datatype github_response =
    GithubReleases "github_release list"
  | GithubStatus nat github_failure
  | GithubUnreachable

record raw_metadata =
  raw_version :: "string option"
  raw_protocol :: "int option"
  raw_image :: "string option"
  raw_blocked :: "string option"

text \<open>
  The claims of a JSON Web Token, and what the environment does: \<open>cfg_verifyJwt token now\<close> is
  \<open>verifyAsync\<close> (\<open>None\<close> where it throws; \<open>cfg_jwtExpired\<close> tells whether for the expiry), \<open>cfg_decodeJwt\<close> is \<open>decode\<close>, \<open>cfg_signJwt\<close> is
  \<open>signAsync\<close> on claims, lifetime and time. A DNS call gives \<open>None\<close> where it throws.
  \<open>cfg_totp secret token tolerance now after\<close> gives the accepted time step, if the library names
  it, and the epoch. \<open>cfg_bcrypt_hash password rounds salt\<close> draws its salt from the random source.
  \<open>cfg_text\<close> and \<open>cfg_int\<close> are settings.
\<close>

datatype token_purpose = ACCESS | REFRESH | TERMINAL_SSH | VERIFY_REGISTER_TOTP

record claims =
  cl_purpose :: "token_purpose option"
  cl_userIndex :: "nat option"
  cl_sub :: "nat option"
  cl_jti :: "string option"
  cl_exp :: "int option"
  cl_agentUuid :: "string option"

record config =
  cfg_github :: "string \<Rightarrow> (string, string) jsmap \<Rightarrow> github_response"
  cfg_asset :: "string \<Rightarrow> (string, string) jsmap \<Rightarrow> raw_metadata option"
  cfg_hmac :: "string \<Rightarrow> string \<Rightarrow> string"
  cfg_random :: "nat \<Rightarrow> string"
  cfg_verifyJwt :: "string \<Rightarrow> int \<Rightarrow> claims option"
  cfg_jwtExpired :: "string \<Rightarrow> int \<Rightarrow> bool"
  cfg_decodeJwt :: "string \<Rightarrow> claims option"
  cfg_signJwt :: "claims \<Rightarrow> string \<Rightarrow> int \<Rightarrow> string"
  cfg_text :: "string \<Rightarrow> string option"
  cfg_int :: "string \<Rightarrow> int"
  cfg_dns_create :: "string \<Rightarrow> string option option"
  cfg_dns_update :: "string \<Rightarrow> string \<Rightarrow> bool option"
  cfg_dns_delete :: "string \<Rightarrow> bool option"
  cfg_bcrypt_hash :: "string \<Rightarrow> int \<Rightarrow> string \<Rightarrow> string"
  cfg_bcrypt_compare :: "string \<Rightarrow> string \<Rightarrow> bool"
  cfg_totp :: "string \<Rightarrow> string \<Rightarrow> int \<Rightarrow> int \<Rightarrow> int option \<Rightarrow> (int option \<times> int) option"
  cfg_mail_ok :: bool

definition draw :: "config \<Rightarrow> hub \<Rightarrow> string \<times> hub" where
  "draw cfg h = (cfg_random cfg (draws h), h\<lparr>draws := Suc (draws h)\<rparr>)"

definition emit :: "message \<Rightarrow> hub \<Rightarrow> hub" where
  "emit m h = h\<lparr>sent := sent h @ [m]\<rparr>"

section \<open>Errors\<close>

text \<open>The HTTP exceptions the services throw; \<open>outcome\<close> bodies are those of the tunnel API.\<close>

datatype http_error =
    BadRequest string
  | Unauthorized string
  | Forbidden string
  | NotFound string
  | Conflict string
  | Gone string
  | ServiceUnavailable string
  | AgentNotConnected
  | TooManyRequests nat
  | TotpRequired
  | TokenExpired
  | InternalError string

fun http_status :: "http_error \<Rightarrow> nat" where
  "http_status (BadRequest m) = 400"
| "http_status (Unauthorized m) = 401"
| "http_status (Forbidden m) = 403"
| "http_status (NotFound m) = 404"
| "http_status (Conflict m) = 409"
| "http_status (Gone m) = 410"
| "http_status (ServiceUnavailable m) = 503"
| "http_status AgentNotConnected = 430"
| "http_status (TooManyRequests n) = 429"
| "http_status TotpRequired = 401"
| "http_status TokenExpired = 401"
| "http_status (InternalError m) = 500"

section \<open>Rows and queries\<close>

definition update_rows :: "('r \<Rightarrow> bool) \<Rightarrow> ('r \<Rightarrow> 'r) \<Rightarrow> 'r list \<Rightarrow> 'r list" where
  "update_rows P f rows = map (\<lambda>r. if P r then f r else r) rows"

definition count_rows :: "('r \<Rightarrow> bool) \<Rightarrow> 'r list \<Rightarrow> nat" where
  "count_rows P rows = length (filter P rows)"

named_theorems row_simps \<open>laws of the row operations\<close>

lemma find_SomeD: "find P xs = Some x \<Longrightarrow> x \<in> set xs \<and> P x"
  by (induction xs) (auto split: if_splits)

lemma find_NoneD: "find P xs = None \<Longrightarrow> x \<in> set xs \<Longrightarrow> \<not> P x"
  by (auto simp: find_None_iff)

lemma update_rows_Nil [simp, row_simps]: "update_rows P f [] = []"
  by (simp add: update_rows_def)

lemma update_rows_Cons [row_simps]:
  "update_rows P f (r # rs) = (if P r then f r else r) # update_rows P f rs"
  by (simp add: update_rows_def)

lemma length_update_rows [simp, row_simps]: "length (update_rows P f rs) = length rs"
  by (simp add: update_rows_def)

lemma in_update_rows:
  "r \<in> set (update_rows P f rs) \<longleftrightarrow> (\<exists>r'\<in>set rs. r = (if P r' then f r' else r'))"
  by (auto simp: update_rows_def)

lemma map_update_rows [row_simps]:
  "(\<And>r. P r \<Longrightarrow> k (f r) = k r) \<Longrightarrow> map k (update_rows P f rs) = map k rs"
  by (auto simp: update_rows_def)

lemma find_update_same [row_simps]:
  "(\<And>r. P r \<Longrightarrow> Q (f r) = Q r) \<Longrightarrow>
   find Q (update_rows P f rs) = map_option (\<lambda>r. if P r then f r else r) (find Q rs)"
  by (induction rs) (auto simp: update_rows_def)

lemma find_eq_None_update [row_simps]:
  "(\<And>r. P r \<Longrightarrow> Q (f r) = Q r) \<Longrightarrow> find Q (update_rows P f rs) = None \<longleftrightarrow> find Q rs = None"
  by (simp add: find_update_same)

lemma filter_update_same [row_simps]:
  "(\<And>r. P r \<Longrightarrow> Q (f r) = Q r) \<Longrightarrow> filter Q (update_rows P f rs) = update_rows P f (filter Q rs)"
  by (induction rs) (auto simp: update_rows_def)

lemma update_rows_none [row_simps]: "(\<And>r. r \<in> set rs \<Longrightarrow> \<not> P r) \<Longrightarrow> update_rows P f rs = rs"
  by (induction rs) (auto simp: update_rows_def)

lemma draw_simps [simp]:
  "fst (draw cfg h) = cfg_random cfg (draws h)" "snd (draw cfg h) = h\<lparr>draws := Suc (draws h)\<rparr>"
  by (simp_all add: draw_def)

text \<open>The empty Hub at a given time, as it starts on a fresh database.\<close>

definition init_hub :: "int \<Rightarrow> hub" where
  "init_hub now = \<lparr>users = [], verifications = [], refresh_tokens = [], workspaces = [], agents = [],
     services = [], service_components = [], service_endpoints = [], agent_releases = [], traffic_daily = [],
     next_user = 1, next_verification = 1, next_token = 1, next_workspace = 1, next_agent = 1,
     next_service = 1, next_component = 1, next_endpoint = 1,
     clock = now, draws = 0, sockets = [], agentUuidToSocketId = [], offlineTimers = [],
     pendingDisconnects = [], workspaceIndexCache = [], updateTimers = [], consoleUsers = [],
     roomMembers = [], terminalSessions = [], metricRequests = [],
     consumedTerminalTokens = [], tunnelGuard = newReplayGuard, signingSecretCache = [],
     routeCache = [], lastSyncedAt = 0, lastAttemptAt = 0, syncTimer = None, dnsCalls = [],
     mails = [], sent = []\<rparr>"

text \<open>An environment to evaluate examples in: GitHub does not answer, the random values are numerals.\<close>

definition example_config :: config where
  "example_config = \<lparr>cfg_github = (\<lambda>url headers. GithubUnreachable), cfg_asset = (\<lambda>url headers. None),
     cfg_hmac = (\<lambda>key msg. [hex_digit (length (key @ msg) mod 16), CHR ''0'']),
     cfg_random = (\<lambda>n. show_nat (100 + n)),
     cfg_verifyJwt = (\<lambda>token now. None),
     cfg_jwtExpired = (\<lambda>token now. False), cfg_decodeJwt = (\<lambda>token. None),
     cfg_signJwt = (\<lambda>c ttl now. ''jwt''), cfg_text = (\<lambda>k. Some ''1h''), cfg_int = (\<lambda>k. 5),
     cfg_dns_create = (\<lambda>d. Some (Some d)), cfg_dns_update = (\<lambda>d r. Some True),
     cfg_dns_delete = (\<lambda>r. Some True), cfg_bcrypt_hash = (\<lambda>p n salt. p),
     cfg_bcrypt_compare = (\<lambda>p h. p = h), cfg_totp = (\<lambda>s t tolerance now after. None), cfg_mail_ok = True\<rparr>"

end
