(* ===== verification/Dates.thy ===== *)
theory Dates
  imports Prelude
begin

text \<open>
  Dates of JavaScript: \<open>toISOString\<close>, from the proleptic Gregorian calendar. A day is the number of days
  since 1970-01-01; \<open>iso_day_inject\<close> shows that this number stands for its text.
\<close>

definition DAY_LENGTH :: int where "DAY_LENGTH = 86400000"

definition leap :: "int \<Rightarrow> bool" where
  "leap y \<longleftrightarrow> y mod 4 = 0 \<and> y mod 100 \<noteq> 0 \<or> y mod 400 = 0"

definition year_days :: "int \<Rightarrow> int" where
  "year_days y = (if leap y then 366 else 365)"

definition month_days :: "int \<Rightarrow> int list" where
  "month_days y = [31, if leap y then 29 else 28, 31, 30, 31, 30, 31, 31, 30, 31, 30, 31]"

text \<open>The year of the \<open>n\<close>-th day since the beginning of year \<open>y\<close>, and the days left in it.\<close>

function split_year :: "int \<Rightarrow> int \<Rightarrow> int \<times> int" where
  "split_year n y = (if n < year_days y then (y, n) else split_year (n - year_days y) (y + 1))"
  by pat_completeness auto
termination by (relation "measure (nat \<circ> fst)") (auto simp: year_days_def split: if_splits)

declare split_year.simps [simp del]

fun split_month :: "nat \<Rightarrow> int list \<Rightarrow> int \<Rightarrow> nat \<times> int" where
  "split_month m [] n = (m, n)"
| "split_month m (l # ls) n = (if n < l then (m, n) else split_month (Suc m) ls (n - l))"

text \<open>The calendar repeats after 400 years, which are 146097 days.\<close>

definition civil :: "int \<Rightarrow> int \<times> nat \<times> int" where
  "civil day =
     (let (y, r) = split_year (day mod 146097) 1970;
          (m, d) = split_month 1 (month_days y) r
      in (y + 400 * (day div 146097), m, d + 1))"

definition pad :: "nat \<Rightarrow> nat \<Rightarrow> string" where
  "pad k n = replicate (k - length (show_nat n)) (CHR ''0'') @ show_nat n"

definition iso_year :: "int \<Rightarrow> string" where
  "iso_year y =
     (if 0 \<le> y \<and> y \<le> 9999 then pad 4 (nat y)
      else (if y < 0 then CHR ''-'' else CHR ''+'') # pad 6 (nat \<bar>y\<bar>))"

definition iso_day :: "int \<Rightarrow> string" where
  "iso_day day = (case civil day of (y, m, d) \<Rightarrow> iso_year y @ ''-'' @ pad 2 m @ ''-'' @ pad 2 (nat d))"

definition iso_time :: "int \<Rightarrow> string" where
  "iso_time ms = pad 2 (nat (ms div 3600000)) @ '':'' @ pad 2 (nat (ms div 60000 mod 60)) @ '':''
     @ pad 2 (nat (ms div 1000 mod 60)) @ ''.'' @ pad 3 (nat (ms mod 1000))"

definition toISOString :: "int \<Rightarrow> string" where
  "toISOString ms = iso_day (ms div DAY_LENGTH) @ ''T'' @ iso_time (ms mod DAY_LENGTH) @ ''Z''"

section \<open>A day and its text\<close>

definition years_sum :: "int \<Rightarrow> int \<Rightarrow> int" where
  "years_sum a b = sum_list (map year_days [a..b - 1])"

lemma years_sum_split: "a \<le> b \<Longrightarrow> b \<le> c \<Longrightarrow> years_sum a c = years_sum a b + years_sum b c"
  by (cases "b = c") (simp_all add: years_sum_def upto_split1 [of a b "c - 1"])

lemma years_sum_nonneg: "0 \<le> years_sum a b"
  unfolding years_sum_def by (rule sum_list_nonneg) (auto simp: year_days_def)

lemma split_year_sum:
  "split_year n y = (y', r) \<Longrightarrow> 0 \<le> n \<Longrightarrow> y \<le> y' \<and> 0 \<le> r \<and> n = years_sum y y' + r"
proof (induction n y rule: split_year.induct)
  case (1 n y)
  show ?case
  proof (cases "n < year_days y")
    case True
    with "1.prems" show ?thesis by (subst (asm) split_year.simps) (auto simp: years_sum_def)
  next
    case False
    with "1.prems" have "split_year (n - year_days y) (y + 1) = (y', r)"
      by (subst (asm) split_year.simps) simp
    from "1.IH" [OF False this] False show ?thesis by (auto simp: years_sum_def upto_rec1 [of y])
  qed
qed

lemma cycle_days: "years_sum 1970 2370 = 146097"
  by code_simp

lemma split_year_bounds:
  assumes "split_year (a mod 146097) 1970 = (y, r)"
  shows "1970 \<le> y" "y < 2370" "a mod 146097 = years_sum 1970 y + r"
proof -
  have "0 \<le> a mod 146097" by simp
  note s = split_year_sum [OF assms this]
  then show "1970 \<le> y" "a mod 146097 = years_sum 1970 y + r" by blast+
  show "y < 2370"
  proof (rule ccontr)
    assume "\<not> y < 2370"
    then have "years_sum 1970 y = 146097 + years_sum 2370 y"
      using years_sum_split [of 1970 2370 y] by (simp add: cycle_days)
    with s years_sum_nonneg [of 2370 y] have "146097 \<le> a mod 146097" by linarith
    then show False by (simp add: not_le [symmetric])
  qed
qed

lemma split_month_sum:
  "split_month m ls n = (m', d) \<Longrightarrow> m \<le> m' \<and> n = sum_list (take (m' - m) ls) + d"
proof (induction ls arbitrary: m n)
  case (Cons l ls)
  show ?case
  proof (cases "n < l")
    case False
    with Cons.prems have "split_month (Suc m) ls (n - l) = (m', d)" by simp
    from Cons.IH [OF this] have "Suc m \<le> m'" "n - l = sum_list (take (m' - Suc m) ls) + d" by blast+
    moreover from \<open>Suc m \<le> m'\<close> have "m' - m = Suc (m' - Suc m)" by simp
    ultimately show ?thesis by simp
  qed (use Cons.prems in simp)
qed simp

lemma civil_inject: "civil a = civil b \<longleftrightarrow> a = b"
proof
  assume eq: "civil a = civil b"
  obtain y r where y: "split_year (a mod 146097) 1970 = (y, r)" by force
  obtain z s where z: "split_year (b mod 146097) 1970 = (z, s)" by force
  obtain m d where m: "split_month 1 (month_days y) r = (m, d)" by force
  obtain n e where n: "split_month 1 (month_days z) s = (n, e)" by force
  from eq have same: "y + 400 * (a div 146097) = z + 400 * (b div 146097)" "m = n" "d = e"
    unfolding civil_def y z Let_def prod.case m n by simp_all
  note ya = split_year_bounds [OF y] and zb = split_year_bounds [OF z]
  from same(1) ya(1,2) zb(1,2) have q: "a div 146097 = b div 146097" by linarith
  with same(1) have "y = z" by simp
  then have "r = s" using split_month_sum [OF m] split_month_sum [OF n] same(2,3) by simp
  then have "a mod 146097 = b mod 146097" using ya(3) zb(3) \<open>y = z\<close> by simp
  with q show "a = b" by (metis div_mult_mod_eq)
qed simp

lemma split_month_nonneg: "split_month m ls n = (m', d) \<Longrightarrow> 0 \<le> n \<Longrightarrow> 0 \<le> d"
  by (induction m ls n rule: split_month.induct) (auto split: if_splits)

lemma civil_day_pos: "civil a = (y, m, d) \<Longrightarrow> 0 < d"
  using split_year_sum [of "a mod 146097" 1970] split_month_nonneg
  by (fastforce simp: civil_def Let_def split: prod.splits)

lemma dec_value_zeros: "dec_value (replicate j (CHR ''0'') @ s) = dec_value s"
  by (induction j) (simp_all add: dec_value_def digit_val_def)

lemma pad_inject: "pad k n = pad k m \<longleftrightarrow> n = m"
  by (metis dec_value_show_nat dec_value_zeros pad_def)

lemma pad_digits: "c \<in> set (pad k n) \<Longrightarrow> is_digit c"
  by (auto simp: pad_def is_digit_iff dest: show_nat_digits)

lemma pad_not_Nil: "pad k n \<noteq> []"
  by (simp add: pad_def)

lemma iso_year_inject: "iso_year a = iso_year b \<longleftrightarrow> a = b"
proof -
  have sign: "\<not> is_digit (CHR ''-'')" "\<not> is_digit (CHR ''+'')" by code_simp+
  have head: "pad k n \<noteq> c # s" "c # s \<noteq> pad k n" if "\<not> is_digit c" for k n c s
    using pad_digits [of c k n] that by auto (metis list.set_intros(1))
  show ?thesis
    by (auto simp: iso_year_def pad_inject nat_eq_iff head [OF sign(1)] head [OF sign(2)])
qed

lemma last_piece:
  assumes "xs @ c # p = ys @ c # q" and "c \<notin> set p" and "c \<notin> set q"
  shows "xs = ys \<and> p = q"
proof -
  have tail: "takeWhile (\<lambda>x. x \<noteq> c) (rev (zs @ c # r)) = rev r" if "c \<notin> set r" for zs r
    using that by simp (subst takeWhile_append2; auto)
  from tail [OF assms(2), of xs] tail [OF assms(3), of ys] assms(1) have "p = q" by simp
  with assms(1) show ?thesis by simp
qed

lemma iso_day_inject: "iso_day a = iso_day b \<longleftrightarrow> a = b"
proof
  assume eq: "iso_day a = iso_day b"
  obtain y m d where a: "civil a = (y, m, d)" by (metis prod_cases3)
  obtain z n e where b: "civil b = (z, n, e)" by (metis prod_cases3)
  have minus: "CHR ''-'' \<notin> set (pad k i)" for k i using pad_digits by fastforce
  from eq have "(iso_year y @ CHR ''-'' # pad 2 m) @ CHR ''-'' # pad 2 (nat d)
      = (iso_year z @ CHR ''-'' # pad 2 n) @ CHR ''-'' # pad 2 (nat e)"
    by (simp add: iso_day_def a b)
  from last_piece [OF this minus minus]
  have "iso_year y @ CHR ''-'' # pad 2 m = iso_year z @ CHR ''-'' # pad 2 n" and d: "pad 2 (nat d) = pad 2 (nat e)"
    by blast+
  from last_piece [OF this(1) minus minus] have "y = z" "m = n"
    by (simp_all add: iso_year_inject pad_inject)
  moreover have "d = e" using d civil_day_pos [OF a] civil_day_pos [OF b] by (simp add: pad_inject)
  ultimately have "civil a = civil b" by (simp add: a b)
  then show "a = b" by (simp add: civil_inject)
qed simp

end
