(* ===== verification/Releases.thy ===== *)
theory Releases
  imports Semver Store Dates
begin

text \<open>
  The agent release catalog: \<open>src/releases/release-catalog.service.ts\<close> and the protocol range of
  \<open>src/global/protocol.ts\<close>.

  A synchronisation reads the releases of GitHub (\<open>cfg_github\<close>) and the metadata asset of each
  (\<open>cfg_asset\<close>), upserts the rows and marks those that disappeared. The user facing reasons are
  Korean in the source and given in English here. An operation runs to its end before the next one
  starts, so that there is no running synchronisation that concurrent callers could share. \<open>syncTimer\<close> is
  the time of the next synchronisation of the schedule.
\<close>

section \<open>Protocol range\<close>

definition protocol_min :: int where "protocol_min = 0"
definition protocol_current :: int where "protocol_current = 1"

definition isProtocolSupported :: "int \<Rightarrow> bool" where
  "isProtocolSupported p \<longleftrightarrow> p \<ge> protocol_min \<and> p \<le> protocol_current"

section \<open>Synchronisation\<close>

definition METADATA_ASSET :: string where "METADATA_ASSET = ''release.json''"
definition DEFAULT_REPO :: string where "DEFAULT_REPO = ''OPTiCS-Organization/OPTiCS-Agent''"
definition SYNC_INTERVAL_MS :: int where "SYNC_INTERVAL_MS = 60 * 1000"
definition FRESHNESS_MS :: int where "FRESHNESS_MS = 15 * 60 * 1000"
definition RETRY_BACKOFF_MS :: int where "RETRY_BACKOFF_MS = 60 * 1000"

record metadata =
  meta_version :: string
  meta_protocol :: int
  meta_image :: string
  meta_blocked :: "string option"

fun truthy :: "string option \<Rightarrow> bool" where
  "truthy None = False"
| "truthy (Some s) = (s \<noteq> [])"

definition repo :: "config \<Rightarrow> string" where
  "repo cfg = (case cfg_text cfg ''AGENT_RELEASE_REPO'' of None \<Rightarrow> DEFAULT_REPO | Some r \<Rightarrow> r)"

definition request_headers :: "config \<Rightarrow> (string, string) jsmap" where
  "request_headers cfg =
     (let headers = [(''Accept'', ''application/vnd.github+json''), (''X-GitHub-Api-Version'', ''2022-11-28'')];
          token = cfg_text cfg ''GITHUB_TOKEN''
      in if truthy token then map_set headers ''Authorization'' (''Bearer '' @ the token) else headers)"

definition fetch_releases :: "config \<Rightarrow> github_response" where
  "fetch_releases cfg = cfg_github cfg
     (''https://api.github.com/repos/'' @ repo cfg @ ''/releases?per_page=100'') (request_headers cfg)"

text \<open>The reset time of the rate limit is a numeral; the date of any other text is a \<open>RangeError\<close>.\<close>

definition failureDetail :: "config \<Rightarrow> github_failure \<Rightarrow> http_error + string" where
  "failureDetail cfg f =
     (let parts = (if truthy (gf_message f) then [the (gf_message f)] else [])
            @ (case gf_remaining f of None \<Rightarrow> []
               | Some r \<Rightarrow> [''ratelimit '' @ r @ ''/'' @ (case gf_limit f of None \<Rightarrow> ''?'' | Some l \<Rightarrow> l)]);
          auth = ''auth '' @ (if truthy (cfg_text cfg ''GITHUB_TOKEN'') then ''token'' else ''anonymous'');
          text = (\<lambda>ps. ''('' @ js_join '', '' ps @ '')'')
      in if gf_remaining f = Some ''0'' \<and> truthy (gf_reset f)
         then if list_all is_digit (the (gf_reset f))
              then Inr (text (parts @ [''resets at '' @ toISOString (int (dec_value (the (gf_reset f))) * 1000), auth]))
              else Inl (InternalError ''Invalid time value'')
         else Inr (text (parts @ [auth])))"

definition fetchMetadata :: "config \<Rightarrow> github_asset \<Rightarrow> metadata option" where
  "fetchMetadata cfg asset =
     (case cfg_asset cfg (asset_url asset)
             (map_set (request_headers cfg) ''Accept'' ''application/octet-stream'') of
        None \<Rightarrow> None
      | Some parsed \<Rightarrow>
          if \<not> truthy (raw_version parsed) \<or> raw_protocol parsed = None \<or> \<not> truthy (raw_image parsed)
          then None
          else Some \<lparr>meta_version = the (raw_version parsed),
                     meta_protocol = the (raw_protocol parsed),
                     meta_image = the (raw_image parsed),
                     meta_blocked = (case raw_blocked parsed of
                        None \<Rightarrow> None
                      | Some b \<Rightarrow> if js_trim b \<noteq> [] then Some (js_trim b) else None)\<rparr>)"

definition channel_of :: "github_release \<Rightarrow> string" where
  "channel_of rel = (if rel_prerelease rel then ''beta'' else ''stable'')"

definition upsert_release ::
  "metadata \<Rightarrow> github_release \<Rightarrow> int \<Rightarrow> releases_row list \<Rightarrow> releases_row list" where
  "upsert_release m rel publishedAt rows =
     (if find (\<lambda>r. release_version r = meta_version m) rows = None
      then rows @ [\<lparr>release_version = meta_version m, release_channel = channel_of rel,
                    release_protocol = meta_protocol m, release_image = meta_image m,
                    release_notes = rel_body rel, release_published_at = publishedAt,
                    release_yanked_at = None, release_blocked = meta_blocked m,
                    release_manual_block = None\<rparr>]
      else update_rows (\<lambda>r. release_version r = meta_version m)
             (\<lambda>r. r\<lparr>release_channel := channel_of rel, release_protocol := meta_protocol m,
                    release_image := meta_image m, release_notes := rel_body rel,
                    release_published_at := publishedAt, release_blocked := meta_blocked m,
                    release_yanked_at := None\<rparr>) rows)"

text \<open>The metadata of a release that the loop takes in; \<open>None\<close> where the loop continues.\<close>

definition release_entry :: "config \<Rightarrow> github_release \<Rightarrow> (metadata \<times> int) option" where
  "release_entry cfg rel =
     (if rel_draft rel then None
      else case rel_published_at rel of
        None \<Rightarrow> None
      | Some publishedAt \<Rightarrow>
     (case find (\<lambda>a. asset_name a = METADATA_ASSET) (rel_assets rel) of
        None \<Rightarrow> None
      | Some asset \<Rightarrow>
     (case fetchMetadata cfg asset of
        None \<Rightarrow> None
      | Some m \<Rightarrow> Some (m, publishedAt))))"

fun sync_releases ::
  "config \<Rightarrow> github_release list \<Rightarrow> string list \<times> int option \<times> releases_row list
    \<Rightarrow> string list \<times> int option \<times> releases_row list" where
  "sync_releases cfg [] st = st"
| "sync_releases cfg (rel # rels) (seenVersions, oldestSeen, rows) =
     (case release_entry cfg rel of
        None \<Rightarrow> sync_releases cfg rels (seenVersions, oldestSeen, rows)
      | Some (m, publishedAt) \<Rightarrow>
          sync_releases cfg rels
            (seenVersions @ [meta_version m],
             (case oldestSeen of
                None \<Rightarrow> Some publishedAt
              | Some old \<Rightarrow> if publishedAt < old then Some publishedAt else Some old),
             upsert_release m rel publishedAt rows))"

definition markYanked :: "string list \<Rightarrow> int option \<Rightarrow> int \<Rightarrow> releases_row list \<Rightarrow> releases_row list" where
  "markYanked seenVersions oldestSeen now rows =
     (case oldestSeen of
        None \<Rightarrow> rows
      | Some old \<Rightarrow>
          update_rows (\<lambda>r. release_version r \<notin> set seenVersions \<and> release_published_at r \<ge> old
                          \<and> release_yanked_at r = None)
            (\<lambda>r. r\<lparr>release_yanked_at := Some now\<rparr>) rows)"

definition runSync :: "config \<Rightarrow> hub \<Rightarrow> (http_error + unit) \<times> hub" where
  "runSync cfg h =
     (case fetch_releases cfg of
        GithubUnreachable \<Rightarrow> (Inl (InternalError ''fetch failed''), h)
      | GithubStatus st failure \<Rightarrow>
          (case failureDetail cfg failure of
             Inl e \<Rightarrow> (Inl e, h)
           | Inr detail \<Rightarrow>
               (Inl (ServiceUnavailable (''GitHub releases fetch failed: '' @ show_nat st @ '' '' @ detail)), h))
      | GithubReleases rels \<Rightarrow>
          (let (seenVersions, oldestSeen, rows) = sync_releases cfg rels ([], None, agent_releases h)
           in (Inr (), h\<lparr>agent_releases := markYanked seenVersions oldestSeen (clock h) rows,
                        lastSyncedAt := clock h\<rparr>)))"

definition ensureFresh :: "config \<Rightarrow> hub \<Rightarrow> hub" where
  "ensureFresh cfg h =
     (if clock h - lastSyncedAt h < FRESHNESS_MS then h
      else if clock h - lastAttemptAt h < RETRY_BACKOFF_MS then h
      else snd (runSync cfg (h\<lparr>lastAttemptAt := clock h\<rparr>)))"

text \<open>The schedule: one synchronisation at the start, then one each minute, whatever its outcome.\<close>

definition runScheduledSync :: "config \<Rightarrow> hub \<Rightarrow> hub" where
  "runScheduledSync cfg h = snd (runSync cfg h)"

definition releases_module_init :: "config \<Rightarrow> hub \<Rightarrow> hub" where
  "releases_module_init cfg h =
     (let h1 = runScheduledSync cfg h in h1\<lparr>syncTimer := Some (clock h1 + SYNC_INTERVAL_MS)\<rparr>)"

definition releases_module_destroy :: "hub \<Rightarrow> hub" where
  "releases_module_destroy h = h\<lparr>syncTimer := None\<rparr>"

definition fireSyncTimer :: "config \<Rightarrow> hub \<Rightarrow> hub" where
  "fireSyncTimer cfg h =
     (case syncTimer h of
        None \<Rightarrow> h
      | Some due \<Rightarrow> if clock h < due then h
                    else (runScheduledSync cfg h)\<lparr>syncTimer := Some (due + SYNC_INTERVAL_MS)\<rparr>)"

section \<open>Installability\<close>

definition blockedReason :: "releases_row \<Rightarrow> string option" where
  "blockedReason r =
     (if truthy (release_manual_block r) then release_manual_block r
      else if truthy (release_blocked r) then release_blocked r
      else if release_yanked_at r \<noteq> None then Some ''This version was withdrawn.''
      else if release_protocol r < protocol_min
      then Some (''Protocol v'' @ show_int (release_protocol r) @ '' of this version is no longer supported.'')
      else if release_protocol r > protocol_current
      then Some (''This version needs protocol v'' @ show_int (release_protocol r) @ '', newer than this Hub.'')
      else None)"

record release_view =
  view_version :: string
  view_channel :: string
  view_protocol :: int
  view_notes :: "string option"
  view_publishedAt :: int
  view_yanked :: bool
  view_installable :: bool
  view_blockedReason :: "string option"
  view_manuallyBlocked :: bool

definition release_to_view :: "releases_row \<Rightarrow> release_view" where
  "release_to_view row =
     (let reason = blockedReason row
      in \<lparr>view_version = release_version row, view_channel = release_channel row,
          view_protocol = release_protocol row, view_notes = release_notes row,
          view_publishedAt = release_published_at row,
          view_yanked = (release_yanked_at row \<noteq> None),
          view_installable = (reason = None), view_blockedReason = reason,
          view_manuallyBlocked = (release_manual_block row \<noteq> None)\<rparr>)"

definition newer_first :: "releases_row \<Rightarrow> releases_row \<Rightarrow> int" where
  "newer_first a b = compareSemver (release_version b) (release_version a)"

definition listReleases :: "config \<Rightarrow> bool \<Rightarrow> hub \<Rightarrow> release_view list \<times> hub" where
  "listReleases cfg includeBeta h =
     (let h1 = ensureFresh cfg h;
          rows = filter (\<lambda>r. includeBeta \<or> release_channel r = ''stable'') (agent_releases h1)
      in (map release_to_view (js_sort newer_first rows), h1))"

definition findUpgradeFor :: "config \<Rightarrow> string option \<Rightarrow> hub \<Rightarrow> release_view option \<times> hub" where
  "findUpgradeFor cfg currentVersion h =
     (let (releases, h1) = listReleases cfg False h
      in (case find view_installable releases of
            None \<Rightarrow> None
          | Some latest \<Rightarrow>
              if \<not> truthy currentVersion then Some latest
              else if compareSemver (view_version latest) (the currentVersion) > 0 then Some latest
              else None, h1))"

definition findRelease :: "string \<Rightarrow> hub \<Rightarrow> releases_row option" where
  "findRelease version h = find (\<lambda>r. release_version r = version) (agent_releases h)"

definition assertInstallable :: "config \<Rightarrow> string \<Rightarrow> hub \<Rightarrow> (http_error + releases_row) \<times> hub" where
  "assertInstallable cfg version h =
     (let h1 = ensureFresh cfg h
      in (case findRelease version h1 of
            None \<Rightarrow> Inl (ServiceUnavailable (''Unknown agent release: '' @ version))
          | Some release \<Rightarrow>
              (case blockedReason release of
                 Some reason \<Rightarrow>
                   if reason \<noteq> [] then Inl (ServiceUnavailable reason) else Inr release
               | None \<Rightarrow> Inr release), h1))"

definition set_manual_block :: "string \<Rightarrow> string option \<Rightarrow> hub \<Rightarrow> (http_error + unit) \<times> hub" where
  "set_manual_block version reason h =
     (if findRelease version h = None
      then (Inl (NotFound (''Unknown agent release: '' @ version)), h)
      else (Inr (), h\<lparr>agent_releases := update_rows (\<lambda>r. release_version r = version)
              (\<lambda>r. r\<lparr>release_manual_block := reason\<rparr>) (agent_releases h)\<rparr>))"

definition blockRelease :: "string \<Rightarrow> string \<Rightarrow> hub \<Rightarrow> (http_error + unit) \<times> hub" where
  "blockRelease version reason h = set_manual_block version (Some reason) h"

definition unblockRelease :: "string \<Rightarrow> hub \<Rightarrow> (http_error + unit) \<times> hub" where
  "unblockRelease version h = set_manual_block version None h"

definition blockedReasonForVersion :: "string option \<Rightarrow> hub \<Rightarrow> string option" where
  "blockedReasonForVersion version h =
     (if \<not> truthy version then None
      else case findRelease (the version) h of None \<Rightarrow> None | Some release \<Rightarrow> blockedReason release)"

section \<open>Lemmas on the catalog\<close>

definition release_entries :: "config \<Rightarrow> github_release list \<Rightarrow> (metadata \<times> int) list" where
  "release_entries cfg rels = List.map_filter (release_entry cfg) rels"

lemma release_entries_simps [simp]:
  "release_entries cfg [] = []"
  "release_entries cfg (rel # rels) =
     (case release_entry cfg rel of None \<Rightarrow> release_entries cfg rels
      | Some e \<Rightarrow> e # release_entries cfg rels)"
  by (simp_all add: release_entries_def split: option.split)

abbreviation find_version :: "string \<Rightarrow> releases_row list \<Rightarrow> releases_row option" where
  "find_version v rows \<equiv> find (\<lambda>r. release_version r = v) rows"

lemma find_snoc: "find P (xs @ [x]) = (case find P xs of None \<Rightarrow> if P x then Some x else None | Some y \<Rightarrow> Some y)"
  by (induction xs) auto

lemma find_upsert_other:
  "v \<noteq> meta_version m \<Longrightarrow> find_version v (upsert_release m rel p rows) = find_version v rows"
  by (auto simp: upsert_release_def find_snoc find_update_same map_option_case split: option.splits
      dest: find_SomeD)

lemma find_upsert_same:
  "\<exists>r. find_version (meta_version m) (upsert_release m rel p rows) = Some r
     \<and> release_yanked_at r = None
     \<and> release_manual_block r = (case find_version (meta_version m) rows of
          None \<Rightarrow> None | Some r0 \<Rightarrow> release_manual_block r0)"
proof (cases "find_version (meta_version m) rows")
  case (Some r)
  moreover from Some have "release_version r = meta_version m" by (auto dest: find_SomeD)
  ultimately show ?thesis by (simp add: upsert_release_def find_update_same)
qed (simp add: upsert_release_def find_snoc)

lemma find_yanked_mark:
  "find_version v (markYanked vs oldest now rows) =
     (case find_version v rows of None \<Rightarrow> None
      | Some r \<Rightarrow>
         (case oldest of None \<Rightarrow> Some r
          | Some old \<Rightarrow> if v \<notin> set vs \<and> release_published_at r \<ge> old \<and> release_yanked_at r = None
                        then Some (r\<lparr>release_yanked_at := Some now\<rparr>) else Some r))"
  by (auto simp: markYanked_def find_update_same dest: find_SomeD split: option.splits)

lemma sync_seen:
  "fst (sync_releases cfg rels (vs, old, rows)) =
     vs @ map (meta_version \<circ> fst) (release_entries cfg rels)"
  by (induction rels arbitrary: vs old rows) (auto split: option.split)

lemma sync_oldest:
  "fst (snd (sync_releases cfg rels (vs, old, rows))) =
     (case release_entries cfg rels of [] \<Rightarrow> old
      | es \<Rightarrow> Some (case old of None \<Rightarrow> Min (snd ` set es) | Some o1 \<Rightarrow> min o1 (Min (snd ` set es))))"
proof (induction rels arbitrary: vs old rows)
  case (Cons rel rels)
  show ?case
  proof (cases "release_entry cfg rel")
    case (Some e)
    then show ?thesis
      by (cases e; cases "release_entries cfg rels")
        (auto simp: Cons min_def Min_insert2 split: option.split)
  qed (simp add: Cons)
qed simp

lemma sync_rows_other:
  "v \<notin> (meta_version \<circ> fst) ` set (release_entries cfg rels) \<Longrightarrow>
   find_version v (snd (snd (sync_releases cfg rels (vs, old, rows)))) = find_version v rows"
  by (induction rels arbitrary: vs old rows) (auto simp: find_upsert_other split: option.split)

lemma sync_manual_block:
  "find_version v rows = Some r \<Longrightarrow>
   \<exists>r'. find_version v (snd (snd (sync_releases cfg rels (vs, old, rows)))) = Some r'
      \<and> release_manual_block r' = release_manual_block r"
proof (induction rels arbitrary: vs old rows r)
  case (Cons rel rels)
  show ?case
  proof (cases "release_entry cfg rel")
    case (Some e)
    obtain m p where e: "e = (m, p)" by force
    obtain r1 where r1: "find_version v (upsert_release m rel p rows) = Some r1"
      "release_manual_block r1 = release_manual_block r"
      using find_upsert_same [of m rel p rows] find_upsert_other [of v m rel p rows] Cons.prems
      by (cases "v = meta_version m") auto
    show ?thesis
      using Cons.IH [OF r1(1)] r1(2) by (simp add: Some e)
  qed (use Cons in simp)
qed simp

lemma sync_seen_live:
  "v \<in> (meta_version \<circ> fst) ` set (release_entries cfg rels)
     \<or> (\<exists>r. find_version v rows = Some r \<and> release_yanked_at r = None) \<Longrightarrow>
   \<exists>r. find_version v (snd (snd (sync_releases cfg rels (vs, old, rows)))) = Some r
      \<and> release_yanked_at r = None"
proof (induction rels arbitrary: vs old rows)
  case (Cons rel rels)
  show ?case
  proof (cases "release_entry cfg rel")
    case (Some e)
    obtain m p where e: "e = (m, p)" by force
    have "v \<in> (meta_version \<circ> fst) ` set (release_entries cfg rels)
       \<or> (\<exists>r. find_version v (upsert_release m rel p rows) = Some r \<and> release_yanked_at r = None)"
      using Cons.prems find_upsert_same [of m rel p rows] find_upsert_other [of v m rel p rows]
      by (cases "v = meta_version m") (auto simp: Some e)
    from Cons.IH [OF this] show ?thesis by (simp add: Some e)
  qed (use Cons in simp)
qed auto

lemma runSync_manual_block:
  "findRelease v h = Some r \<Longrightarrow>
   \<exists>r'. findRelease v (snd (runSync cfg h)) = Some r'
      \<and> release_manual_block r' = release_manual_block r"
proof (cases "fetch_releases cfg")
  case (GithubReleases rels)
  assume "findRelease v h = Some r"
  then obtain r1 where "find_version v (snd (snd (sync_releases cfg rels ([], None, agent_releases h)))) = Some r1"
    "release_manual_block r1 = release_manual_block r"
    using sync_manual_block unfolding findRelease_def by blast
  then show ?thesis
    by (auto simp: runSync_def GithubReleases findRelease_def find_yanked_mark split_beta
        split: option.split)
qed (auto simp: runSync_def split: sum.split)

lemma findRelease_attempt [simp]: "findRelease v (h\<lparr>lastAttemptAt := t\<rparr>) = findRelease v h"
  by (simp add: findRelease_def)

lemma ensureFresh_manual_block:
  "findRelease v h = Some r \<Longrightarrow>
   \<exists>r'. findRelease v (ensureFresh cfg h) = Some r'
      \<and> release_manual_block r' = release_manual_block r"
  using runSync_manual_block [of v "h\<lparr>lastAttemptAt := clock h\<rparr>" r cfg]
  by (simp add: ensureFresh_def)

lemma syncs_manual_block:
  "findRelease v h = Some r \<Longrightarrow>
   \<exists>r'. findRelease v (fold (\<lambda>cfg h. snd (runSync cfg h)) cfgs h) = Some r'
      \<and> release_manual_block r' = release_manual_block r"
proof (induction cfgs arbitrary: h r)
  case (Cons cfg cfgs)
  from runSync_manual_block [OF Cons.prems, of cfg] Cons.IH show ?case by fastforce
qed simp

lemma findRelease_manual:
  "findRelease v (snd (set_manual_block v b h)) =
     map_option (\<lambda>r. r\<lparr>release_manual_block := b\<rparr>) (findRelease v h)"
  by (auto simp: set_manual_block_def findRelease_def find_update_same dest: find_SomeD
      intro!: option.map_cong0)

lemma newer_first_flip: "newer_first a b = compareSemver (release_version b) (release_version a)"
  by (simp add: newer_first_def)

interpretation catalog: js_comparator newer_first
proof
  fix a b c
  show "sgn (newer_first a b) = - sgn (newer_first b a)"
    unfolding newer_first_def by (rule semver.flip)
  show "newer_first a b \<le> 0 \<Longrightarrow> newer_first b c \<le> 0 \<Longrightarrow> newer_first a c \<le> 0"
    unfolding newer_first_def by (rule semver.le_trans)
qed

lemma find_map: "find P (map f xs) = map_option f (find (P \<circ> f) xs)"
  by (induction xs) auto

abbreviation offered :: "releases_row \<Rightarrow> bool" where
  "offered r \<equiv> release_channel r = ''stable'' \<and> blockedReason r = None"

lemma view_simps [simp]:
  "view_installable (release_to_view r) = (blockedReason r = None)"
  "view_version (release_to_view r) = release_version r"
  "view_blockedReason (release_to_view r) = blockedReason r"
  by (simp_all add: release_to_view_def Let_def)

lemma find_offered:
  fixes rows :: "releases_row list"
  defines "R \<equiv> find view_installable (map release_to_view
        (js_sort newer_first (filter (\<lambda>r. False \<or> release_channel r = ''stable'') rows)))"
  shows "R = None \<Longrightarrow> r \<in> set rows \<Longrightarrow> \<not> offered r"
    and "R = Some v \<Longrightarrow> \<exists>r\<in>set rows. v = release_to_view r \<and> offered r
           \<and> (\<forall>s\<in>set rows. offered s \<longrightarrow> ver_key (release_version s) \<le> ver_key (release_version r))"
proof -
  let ?xs = "filter (\<lambda>r. release_channel r = ''stable'') rows"
  have R: "R = map_option release_to_view (find (\<lambda>r. blockedReason r = None) (js_sort newer_first ?xs))"
    by (simp add: R_def find_map comp_def)
  show "R = None \<Longrightarrow> r \<in> set rows \<Longrightarrow> \<not> offered r"
    by (auto simp: R find_None_iff)
  assume "R = Some v"
  then obtain r where f: "find (\<lambda>r. blockedReason r = None) (js_sort newer_first ?xs) = Some r"
    and v: "v = release_to_view r" by (auto simp: R)
  from f have r: "r \<in> set rows" "offered r" by (auto dest: find_SomeD)
  have "ver_key (release_version s) \<le> ver_key (release_version r)" if "s \<in> set rows" "offered s" for s
    using catalog.find_sort_least [OF f, of s] that by (simp add: newer_first_def compareSemver_le_iff)
  with r v show "\<exists>r\<in>set rows. v = release_to_view r \<and> offered r
           \<and> (\<forall>s\<in>set rows. offered s \<longrightarrow> ver_key (release_version s) \<le> ver_key (release_version r))"
    by blast
qed

lemma blockedReason_not_Nil [simp]: "blockedReason r \<noteq> Some []"
  by (auto simp: blockedReason_def split: option.splits elim!: truthy.elims)

section \<open>Properties\<close>

text \<open>C14: the order used for releases is the precedence of SemVer. The comparison is negative,
  zero or positive exactly as the reference key of the first string is below, equal to or above
  that of the second; a string that is no version is below every version.\<close>

theorem compareSemver_reference:
  "(compareSemver a b < 0 \<longleftrightarrow> ver_key a < ver_key b) \<and>
   (compareSemver a b = 0 \<longleftrightarrow> ver_key a = ver_key b) \<and>
   (compareSemver a b > 0 \<longleftrightarrow> ver_key b < ver_key a)"
  using compareSemver_key [of a b] by (auto simp: key_cmp_def sgn_if split: if_splits)

text \<open>C15: the upgrade offered to an agent is the newest stable release that can be installed, and
  only if it is strictly newer than the version the agent runs; when nothing is offered, no
  stable installable release is newer.\<close>

theorem findUpgradeFor_best:
  "case fst (findUpgradeFor cfg currentVersion h) of
     Some v \<Rightarrow>
       (\<exists>r\<in>set (agent_releases (ensureFresh cfg h)). v = release_to_view r \<and> offered r
          \<and> (\<forall>s\<in>set (agent_releases (ensureFresh cfg h)).
               offered s \<longrightarrow> ver_key (release_version s) \<le> ver_key (release_version r))
          \<and> (truthy currentVersion \<longrightarrow> ver_key (the currentVersion) < ver_key (release_version r)))
   | None \<Rightarrow>
       (\<forall>r\<in>set (agent_releases (ensureFresh cfg h)).
          offered r \<longrightarrow> truthy currentVersion
            \<and> ver_key (release_version r) \<le> ver_key (the currentVersion))"
proof -
  let ?rows = "agent_releases (ensureFresh cfg h)"
  define R where "R = find view_installable (map release_to_view
        (js_sort newer_first (filter (\<lambda>r. False \<or> release_channel r = ''stable'') ?rows)))"
  have up: "fst (findUpgradeFor cfg currentVersion h) =
      (case R of None \<Rightarrow> None
       | Some latest \<Rightarrow>
           if \<not> truthy currentVersion then Some latest
           else if compareSemver (view_version latest) (the currentVersion) > 0 then Some latest else None)"
    unfolding findUpgradeFor_def listReleases_def Let_def R_def by simp
  show ?thesis
  proof (cases R)
    case None
    then have "\<not> offered r" if "r \<in> set ?rows" for r
      using find_offered(1) [OF _ that] by (simp add: R_def)
    then show ?thesis unfolding up None by fastforce
  next
    case (Some v)
    with find_offered(2) [of ?rows v] obtain r where r: "r \<in> set ?rows" "v = release_to_view r" "offered r"
      and best: "\<forall>s\<in>set ?rows. offered s \<longrightarrow> ver_key (release_version s) \<le> ver_key (release_version r)"
      by (auto simp: R_def)
    show ?thesis
      using r best by (auto simp: up Some compareSemver_gt_iff not_less intro!: bexI [of _ r])
  qed
qed

definition example_release :: "string \<Rightarrow> string \<Rightarrow> int \<Rightarrow> releases_row" where
  "example_release v channel published = \<lparr>release_version = v, release_channel = channel,
     release_protocol = 1, release_image = ''agent'', release_notes = None,
     release_published_at = published, release_yanked_at = None, release_blocked = None,
     release_manual_block = None\<rparr>"

definition example_hub :: hub where
  "example_hub = (init_hub 5)\<lparr>agent_releases :=
     [example_release ''0.6.0'' ''stable'' 1, example_release ''0.10.0'' ''stable'' 2,
      example_release ''0.11.0'' ''beta'' 3]\<rparr>"

lemma example_upgrade:
  "fst (findUpgradeFor example_config (Some ''0.6.0'') example_hub) =
     Some (release_to_view (example_release ''0.10.0'' ''stable'' 2))"
  by code_simp

lemma findUpgradeFor_best_witness:
  "\<exists>r. release_to_view (example_release ''0.10.0'' ''stable'' 2) = release_to_view r \<and> offered r
     \<and> ver_key ''0.6.0'' < ver_key (release_version r)"
  using findUpgradeFor_best [where cfg = example_config and currentVersion = "Some ''0.6.0''" and h = example_hub]
  unfolding example_upgrade option.case by auto

text \<open>a release that an operator blocked stays refused, with the operator's reason, through any
  sequence of synchronisations, whatever GitHub answers in each of them.\<close>

theorem manual_block_survives_syncs:
  assumes "findRelease v h \<noteq> None" "reason \<noteq> []"
  shows "fst (assertInstallable cfg v
           (fold (\<lambda>cfg h. snd (runSync cfg h)) cfgs (snd (blockRelease v reason h)))) =
         Inl (ServiceUnavailable reason)"
proof -
  let ?h = "fold (\<lambda>cfg h. snd (runSync cfg h)) cfgs (snd (blockRelease v reason h))"
  obtain r where "findRelease v (snd (blockRelease v reason h)) = Some r"
    "release_manual_block r = Some reason"
    using assms(1) by (auto simp: blockRelease_def findRelease_manual)
  then obtain r1 where "findRelease v ?h = Some r1" "release_manual_block r1 = Some reason"
    using syncs_manual_block by metis
  then obtain r2 where "findRelease v (ensureFresh cfg ?h) = Some r2"
    "release_manual_block r2 = Some reason"
    using ensureFresh_manual_block by metis
  then show ?thesis
    using assms(2) by (simp add: assertInstallable_def blockedReason_def)
qed

lemma manual_block_survives_syncs_witness:
  "fst (assertInstallable example_config ''0.10.0''
      (fold (\<lambda>cfg h. snd (runSync cfg h)) [example_config\<lparr>cfg_github := (\<lambda>url headers. GithubReleases [])\<rparr>]
        (snd (blockRelease ''0.10.0'' ''broken'' example_hub)))) =
    Inl (ServiceUnavailable ''broken'')"
proof (rule manual_block_survives_syncs)
  show "findRelease ''0.10.0'' example_hub \<noteq> None" by code_simp
qed simp

text \<open>a synchronisation withdraws exactly the releases that disappeared: a release in the answer
  is not withdrawn, a release missing from it is withdrawn if it is no older than the oldest one
  in the answer, and every other row is untouched.\<close>

theorem sync_withdraws_exactly:
  assumes "fetch_releases cfg = GithubReleases rels" "release_entries cfg rels \<noteq> []"
    and "findRelease v (snd (runSync cfg h)) = Some r'"
  shows "if v \<in> (meta_version \<circ> fst) ` set (release_entries cfg rels)
         then release_yanked_at r' = None
         else \<exists>r. findRelease v h = Some r \<and>
           r' = (if release_published_at r \<ge> Min (snd ` set (release_entries cfg rels))
                    \<and> release_yanked_at r = None
                 then r\<lparr>release_yanked_at := Some (clock h)\<rparr> else r)"
proof -
  let ?es = "release_entries cfg rels"
  let ?out = "sync_releases cfg rels ([], None, agent_releases h)"
  have old: "fst (snd ?out) = Some (Min (snd ` set ?es))"
    using assms(2) sync_oldest [of cfg rels "[]" None "agent_releases h"] by (cases ?es) auto
  have seen: "set (fst ?out) = (meta_version \<circ> fst) ` set ?es"
    by (simp add: sync_seen)
  have r': "find_version v (markYanked (fst ?out) (fst (snd ?out)) (clock h) (snd (snd ?out))) = Some r'"
    using assms(3) by (simp add: runSync_def assms(1) findRelease_def split_beta)
  show ?thesis
  proof (cases "v \<in> (meta_version \<circ> fst) ` set ?es")
    case True
    then obtain r where "find_version v (snd (snd ?out)) = Some r" "release_yanked_at r = None"
      using sync_seen_live [of v cfg rels "agent_releases h" "[]" None] by auto
    with r' True show ?thesis by (simp add: find_yanked_mark seen old)
  next
    case False
    then have "find_version v (snd (snd ?out)) = find_version v (agent_releases h)"
      by (rule sync_rows_other)
    with r' False show ?thesis
      by (auto simp: find_yanked_mark seen old findRelease_def split: option.splits if_splits)
  qed
qed

definition example_answer :: "github_release list" where
  "example_answer = [\<lparr>rel_body = None, rel_draft = False, rel_prerelease = False,
     rel_published_at = Some 1, rel_assets = [\<lparr>asset_name = ''release.json'', asset_url = ''u''\<rparr>]\<rparr>]"

definition example_sync_config :: config where
  "example_sync_config = example_config\<lparr>cfg_github := (\<lambda>url headers. GithubReleases example_answer),
     cfg_asset := (\<lambda>url headers. Some \<lparr>raw_version = Some ''0.6.0'', raw_protocol = Some 1,
        raw_image = Some ''agent'', raw_blocked = None\<rparr>)\<rparr>"

lemma sync_withdraws_exactly_witness:
  "let r' = (example_release ''0.10.0'' ''stable'' 2)\<lparr>release_yanked_at := Some 5\<rparr> in
   findRelease ''0.10.0'' (snd (runSync example_sync_config example_hub)) = Some r' \<and>
   (\<exists>r. findRelease ''0.10.0'' example_hub = Some r \<and> release_yanked_at r \<noteq> release_yanked_at r')"
proof -
  let ?r = "(example_release ''0.10.0'' ''stable'' 2)\<lparr>release_yanked_at := Some 5\<rparr>"
  have 1: "fetch_releases example_sync_config = GithubReleases example_answer"
    by (simp add: example_sync_config_def fetch_releases_def)
  have 2: "map (meta_version \<circ> fst) (release_entries example_sync_config example_answer) = [''0.6.0'']"
    by code_simp
  then have 3: "release_entries example_sync_config example_answer \<noteq> []" by auto
  have 4: "findRelease ''0.10.0'' (snd (runSync example_sync_config example_hub)) = Some ?r"
    by code_simp
  have 5: "''0.10.0'' \<notin> (meta_version \<circ> fst) ` set (release_entries example_sync_config example_answer)"
    using arg_cong [OF 2, of set] by simp
  have 6: "findRelease ''0.10.0'' example_hub = Some (example_release ''0.10.0'' ''stable'' 2)"
    by code_simp
  from sync_withdraws_exactly [OF 1 3 4] 5 6 4 show ?thesis
    by (simp add: example_release_def split: if_splits)
qed

end
