(* ===== verification/AgentLink.thy ===== *)
theory AgentLink
  imports Releases
begin

text \<open>
  The outgoing half of \<open>src/agent/agent.gateway.ts\<close>: the map from agents to sockets,
  \<open>sendToAgent\<close> (the only way out to an agent, signing every payload), \<open>disconnectAgent\<close>, the
  offline timers, and \<open>guardIncomingPackets\<close>, the middleware that verifies what comes in.

  A timer is an entry with the time at which it is due; a \<open>fire\<close> operation is its callback,
  run at that time or later. Logging is not modelled.
\<close>

section \<open>Sending\<close>

definition UNVERIFIED_EVENTS :: "string list" where
  "UNVERIFIED_EVENTS = [''register'']"

definition getAgentSocket :: "string \<Rightarrow> hub \<Rightarrow> (string \<times> agent_socket) option" where
  "getAgentSocket agentUuid h =
     (case map_get (agentUuidToSocketId h) agentUuid of
        None \<Rightarrow> None
      | Some socketId \<Rightarrow>
          if socketId = [] then None
          else map_option (\<lambda>s. (socketId, s)) (map_get (sockets h) socketId))"

definition sendToAgent :: "config \<Rightarrow> string \<Rightarrow> string \<Rightarrow> jval \<Rightarrow> hub \<Rightarrow> bool \<times> hub" where
  "sendToAgent cfg agentUuid event payload h =
     (case getAgentSocket agentUuid h of
        None \<Rightarrow> (False, h)
      | Some (socketId, s) \<Rightarrow>
          if falsy (data_signingSecret s) then (False, h)
          else
            (let (nonce, h1) = draw cfg h
             in (True, emit (AgentEmit socketId event
                   (sign (cfg_hmac cfg) event payload (data_signingSecret s) (clock h1) nonce)) h1)))"

definition isAgentConnected :: "string \<Rightarrow> hub \<Rightarrow> bool" where
  "isAgentConnected agentUuid h \<longleftrightarrow> map_get (agentUuidToSocketId h) agentUuid \<noteq> None"

section \<open>Offline timers and disconnecting\<close>

definition OFFLINE_DELAY_MS :: int where "OFFLINE_DELAY_MS = 3000"
definition DISCONNECT_DELAY_MS :: int where "DISCONNECT_DELAY_MS = 250"

definition clearOfflineTimer :: "string \<Rightarrow> hub \<Rightarrow> hub" where
  "clearOfflineTimer agentUuid h = h\<lparr>offlineTimers := map_delete (offlineTimers h) agentUuid\<rparr>"

definition scheduleOffline :: "string \<Rightarrow> hub \<Rightarrow> hub" where
  "scheduleOffline agentUuid h =
     (let h1 = clearOfflineTimer agentUuid h
      in h1\<lparr>offlineTimers := map_set (offlineTimers h1) agentUuid (clock h1 + OFFLINE_DELAY_MS)\<rparr>)"

definition disconnectAgent :: "config \<Rightarrow> string \<Rightarrow> hub \<Rightarrow> bool \<times> hub" where
  "disconnectAgent cfg agentUuid h =
     (case getAgentSocket agentUuid h of
        None \<Rightarrow> (False, h)
      | Some (socketId, s) \<Rightarrow>
          (let h1 = snd (sendToAgent cfg agentUuid ''command''
                       (JObj [(''command'', JStr ''DISCONNECT'')]) h);
               h2 = h1\<lparr>pendingDisconnects :=
                         pendingDisconnects h1 @ [(socketId, clock h1 + DISCONNECT_DELAY_MS)],
                       agentUuidToSocketId := map_delete (agentUuidToSocketId h1) agentUuid\<rparr>
           in (True, clearOfflineTimer agentUuid h2)))"

section \<open>The packet guard\<close>

text \<open>
  \<open>guardPacket\<close> is the middleware on a packet: the first component says whether \<open>next()\<close> is
  called. A socket without the middleware (nothing registered on it yet) lets every packet on
  to its handler.
\<close>

definition set_socket :: "string \<Rightarrow> agent_socket \<Rightarrow> hub \<Rightarrow> hub" where
  "set_socket socketId s h = h\<lparr>sockets := map_set (sockets h) socketId s\<rparr>"

definition guardIncomingPackets :: "agent_socket \<Rightarrow> agent_socket" where
  "guardIncomingPackets s =
     (if data_packetGuardInstalled s then s else s\<lparr>data_packetGuardInstalled := True\<rparr>)"

definition guardPacket ::
  "config \<Rightarrow> string \<Rightarrow> string \<Rightarrow> jval \<Rightarrow> hub \<Rightarrow> bool \<times> hub" where
  "guardPacket cfg socketId event payload h =
     (case map_get (sockets h) socketId of
        None \<Rightarrow> (False, h)
      | Some s \<Rightarrow>
          if \<not> data_packetGuardInstalled s then (True, h)
          else if event \<in> set UNVERIFIED_EVENTS then (True, h)
          else if falsy (data_signingSecret s) then (False, h)
          else
            (let (verification, g) = verify (cfg_hmac cfg) event payload (data_signingSecret s)
                   DEFAULT_MAX_CLOCK_SKEW_MS (clock h) (Some (data_replayGuard s))
             in (verification = VOk,
                 case g of None \<Rightarrow> h
                 | Some g' \<Rightarrow> set_socket socketId (s\<lparr>data_replayGuard := g'\<rparr>) h)))"

section \<open>Reading payload fields\<close>

text \<open>Helpers to build and read payloads: \<open>payload?.field\<close>, and an optional string as a value.\<close>

fun field :: "string \<Rightarrow> jval \<Rightarrow> jval" where
  "field k (JObj ps) = (case map_get ps k of None \<Rightarrow> JUndef | Some v \<Rightarrow> v)"
| "field k v = JUndef"

fun jopt :: "string option \<Rightarrow> jval" where
  "jopt None = JNull"
| "jopt (Some s) = JStr s"

fun jopt_nat :: "nat option \<Rightarrow> jval" where
  "jopt_nat None = JNull"
| "jopt_nat (Some n) = JNum (int n)"

fun jopt_int :: "int option \<Rightarrow> jval" where
  "jopt_int None = JNull"
| "jopt_int (Some n) = JNum n"

abbreviation jnat :: "nat \<Rightarrow> jval" where
  "jnat n \<equiv> JNum (int n)"

section \<open>Lemmas\<close>

text \<open>What the operations of this theory leave alone.\<close>

named_theorems link_simps \<open>fields that sending and timers do not touch\<close>

lemma emit_frame [simp, link_simps]:
  "users (emit m h) = users h" "verifications (emit m h) = verifications h"
  "refresh_tokens (emit m h) = refresh_tokens h" "workspaces (emit m h) = workspaces h"
  "agents (emit m h) = agents h" "services (emit m h) = services h"
  "service_components (emit m h) = service_components h"
  "service_endpoints (emit m h) = service_endpoints h"
  "agent_releases (emit m h) = agent_releases h" "clock (emit m h) = clock h"
  "draws (emit m h) = draws h" "sockets (emit m h) = sockets h"
  "agentUuidToSocketId (emit m h) = agentUuidToSocketId h"
  "offlineTimers (emit m h) = offlineTimers h"
  "workspaceIndexCache (emit m h) = workspaceIndexCache h"
  "updateTimers (emit m h) = updateTimers h" "terminalSessions (emit m h) = terminalSessions h"
  "metricRequests (emit m h) = metricRequests h"
  "consumedTerminalTokens (emit m h) = consumedTerminalTokens h"
  "consoleUsers (emit m h) = consoleUsers h" "roomMembers (emit m h) = roomMembers h"
  "tunnelGuard (emit m h) = tunnelGuard h" "routeCache (emit m h) = routeCache h"
  "signingSecretCache (emit m h) = signingSecretCache h"
  "lastSyncedAt (emit m h) = lastSyncedAt h" "lastAttemptAt (emit m h) = lastAttemptAt h"
  "sent (emit m h) = sent h @ [m]"
  by (simp_all add: emit_def)

text \<open>Sending draws one nonce and appends one message; the rest of the state stays.\<close>

lemma sendToAgent_cases:
  "sendToAgent cfg uuid event payload h = (False, h) \<or>
   (\<exists>socketId s. getAgentSocket uuid h = Some (socketId, s) \<and> \<not> falsy (data_signingSecret s) \<and>
      sendToAgent cfg uuid event payload h =
        (True, h\<lparr>draws := Suc (draws h),
          sent := sent h @ [AgentEmit socketId event
            (sign (cfg_hmac cfg) event payload (data_signingSecret s) (clock h)
               (cfg_random cfg (draws h)))]\<rparr>))"
  by (auto simp: sendToAgent_def draw_def emit_def split: option.split)

lemma sendToAgent_frame [simp, link_simps]:
  "users (snd (sendToAgent cfg u e p h)) = users h"
  "workspaces (snd (sendToAgent cfg u e p h)) = workspaces h"
  "agents (snd (sendToAgent cfg u e p h)) = agents h"
  "services (snd (sendToAgent cfg u e p h)) = services h"
  "service_components (snd (sendToAgent cfg u e p h)) = service_components h"
  "service_endpoints (snd (sendToAgent cfg u e p h)) = service_endpoints h"
  "agent_releases (snd (sendToAgent cfg u e p h)) = agent_releases h"
  "next_service (snd (sendToAgent cfg u e p h)) = next_service h"
  "clock (snd (sendToAgent cfg u e p h)) = clock h"
  "sockets (snd (sendToAgent cfg u e p h)) = sockets h"
  "agentUuidToSocketId (snd (sendToAgent cfg u e p h)) = agentUuidToSocketId h"
  "offlineTimers (snd (sendToAgent cfg u e p h)) = offlineTimers h"
  "updateTimers (snd (sendToAgent cfg u e p h)) = updateTimers h"
  "terminalSessions (snd (sendToAgent cfg u e p h)) = terminalSessions h"
  "metricRequests (snd (sendToAgent cfg u e p h)) = metricRequests h"
  "consumedTerminalTokens (snd (sendToAgent cfg u e p h)) = consumedTerminalTokens h"
  "consoleUsers (snd (sendToAgent cfg u e p h)) = consoleUsers h"
  "roomMembers (snd (sendToAgent cfg u e p h)) = roomMembers h"
  "routeCache (snd (sendToAgent cfg u e p h)) = routeCache h"
  "tunnelGuard (snd (sendToAgent cfg u e p h)) = tunnelGuard h"
  "signingSecretCache (snd (sendToAgent cfg u e p h)) = signingSecretCache h"
  "workspaceIndexCache (snd (sendToAgent cfg u e p h)) = workspaceIndexCache h"
  using sendToAgent_cases [of cfg u e p h] by auto

lemma sendToAgent_True_iff:
  "fst (sendToAgent cfg u e p h) \<longleftrightarrow>
     (\<exists>sid s. getAgentSocket u h = Some (sid, s) \<and> \<not> falsy (data_signingSecret s))"
  by (auto simp: sendToAgent_def draw_def split: option.split)

lemma getAgentSocket_cong:
  "agentUuidToSocketId h = agentUuidToSocketId h' \<Longrightarrow> sockets h = sockets h' \<Longrightarrow>
   getAgentSocket u h = getAgentSocket u h'"
  by (auto simp: getAgentSocket_def split: option.split)

lemma sendToAgent_False: "\<not> fst (sendToAgent cfg u e p h) \<Longrightarrow> snd (sendToAgent cfg u e p h) = h"
  using sendToAgent_cases [of cfg u e p h] by auto

lemma sendToAgent_sent:
  "getAgentSocket u h = Some (sid, s) \<Longrightarrow> \<not> falsy (data_signingSecret s) \<Longrightarrow>
   sent (snd (sendToAgent cfg u e p h)) =
     sent h @ [AgentEmit sid e (sign (cfg_hmac cfg) e p (data_signingSecret s) (clock h)
                                  (cfg_random cfg (draws h)))]"
  by (simp add: sendToAgent_def draw_def emit_def)

lemma clearOfflineTimer_frame [simp, link_simps]:
  "agents (clearOfflineTimer u h) = agents h" "clock (clearOfflineTimer u h) = clock h"
  "sockets (clearOfflineTimer u h) = sockets h" "services (clearOfflineTimer u h) = services h"
  "workspaces (clearOfflineTimer u h) = workspaces h"
  "agentUuidToSocketId (clearOfflineTimer u h) = agentUuidToSocketId h"
  "updateTimers (clearOfflineTimer u h) = updateTimers h" "sent (clearOfflineTimer u h) = sent h"
  "terminalSessions (clearOfflineTimer u h) = terminalSessions h"
  "roomMembers (clearOfflineTimer u h) = roomMembers h"
  "consoleUsers (clearOfflineTimer u h) = consoleUsers h"
  by (simp_all add: clearOfflineTimer_def)

text \<open>what goes out to an agent is signed with the secret of its socket, under a fresh nonce and
  the current time, so the agent accepts it (with the same secret and a fresh replay guard) and
  would accept nothing else of it; a payload is sent only when there is a socket with a secret,
  and otherwise the state does not change.\<close>

theorem sendToAgent_verifies:
  assumes "sendToAgent cfg agentUuid event (JObj ps) h = (delivered, h')"
    and "\<And>k m. hex_output (cfg_hmac cfg k m)" and "\<And>n. cfg_random cfg n \<noteq> []"
  shows "if delivered
    then \<exists>socketId s packet. getAgentSocket agentUuid h = Some (socketId, s)
           \<and> sent h' = sent h @ [AgentEmit socketId event packet]
           \<and> fst (verify (cfg_hmac cfg) event packet (data_signingSecret s)
                 DEFAULT_MAX_CLOCK_SKEW_MS (clock h) (Some newReplayGuard)) = VOk
           \<and> stripEnvelope packet = stripEnvelope (JObj ps)
    else h' = h"
proof (cases delivered)
  case True
  then obtain sid s where s: "getAgentSocket agentUuid h = Some (sid, s)" "\<not> falsy (data_signingSecret s)"
    using assms(1) sendToAgent_True_iff [of cfg agentUuid event "JObj ps" h] by auto
  let ?packet = "sign (cfg_hmac cfg) event (JObj ps) (data_signingSecret s) (clock h)
     (cfg_random cfg (draws h))"
  have "verify_checks (cfg_hmac cfg) event ?packet (data_signingSecret s)
      DEFAULT_MAX_CLOCK_SKEW_MS (clock h) = Inr (cfg_random cfg (draws h), clock h)"
    using assms(2,3) s(2) by (intro verify_checks_sign) (simp_all add: digest_def)
  then have "fst (verify (cfg_hmac cfg) event ?packet (data_signingSecret s)
      DEFAULT_MAX_CLOCK_SKEW_MS (clock h) (Some newReplayGuard)) = VOk"
    by (simp add: verify_def remember_def newReplayGuard_def prune_def)
  moreover have "sent h' = sent h @ [AgentEmit sid event ?packet]"
    using sendToAgent_sent [OF s, of cfg event "JObj ps"] assms(1) by simp
  ultimately show ?thesis using True s strip_sign [OF s(2)] by auto
next
  case False
  with assms(1) sendToAgent_False [of cfg agentUuid event "JObj ps" h] show ?thesis by simp
qed

definition example_socket :: agent_socket where
  "example_socket = \<lparr>data_agentCode = Some ''RED-FOX'', data_agentUuid = Some ''a1'',
     data_agentIp = Some ''10.0.0.1'', data_workspaceIndex = Some 1,
     data_signingSecret = Some ''secret'', data_replayGuard = newReplayGuard,
     data_packetGuardInstalled = True\<rparr>"

definition linked_hub :: hub where
  "linked_hub = (init_hub 1000)\<lparr>sockets := [(''s1'', example_socket)],
     agentUuidToSocketId := [(''a1'', ''s1'')]\<rparr>"

lemma example_hmac_hex: "hex_output (cfg_hmac example_config k m)"
  by (simp add: hex_output_def example_config_def is_hex_hex_digit)
     (simp add: is_hex_def is_digit_def)

lemma sendToAgent_verifies_witness:
  "\<exists>packet. sent (snd (sendToAgent example_config ''a1'' ''command'' (JObj []) linked_hub)) =
      [AgentEmit ''s1'' ''command'' packet]
    \<and> fst (verify (cfg_hmac example_config) ''command'' packet (Some ''secret'')
         DEFAULT_MAX_CLOCK_SKEW_MS 1000 (Some newReplayGuard)) = VOk"
proof -
  have s: "getAgentSocket ''a1'' linked_hub = Some (''s1'', example_socket)" by code_simp
  have d: "fst (sendToAgent example_config ''a1'' ''command'' (JObj []) linked_hub)"
    using s by (auto simp: sendToAgent_True_iff example_socket_def falsy_def)
  obtain h' where h: "sendToAgent example_config ''a1'' ''command'' (JObj []) linked_hub = (True, h')"
    using d by (cases "sendToAgent example_config ''a1'' ''command'' (JObj []) linked_hub") auto
  have r: "cfg_random example_config n \<noteq> []" for n by (simp add: example_config_def)
  from sendToAgent_verifies [OF h example_hmac_hex r] s h show ?thesis
    by (auto simp: linked_hub_def init_hub_def example_socket_def)
qed

end
