(* ===== verification/Tokens.thy ===== *)
theory Tokens
  imports Store
begin

text \<open>
  \<open>src/auth/util/jwt.util.ts\<close>: the login token pair, its rotation with a grace window, its
  revocation, and the tokens with a purpose.

  Signing, verification and decoding of a JSON Web Token are the library's (\<open>cfg_signJwt\<close>,
  \<open>cfg_verifyJwt\<close>, \<open>cfg_decodeJwt\<close>). A missing setting makes \<open>getOrThrow\<close> throw.
\<close>

definition REFRESH_ROTATION_GRACE_MS :: int where
  "REFRESH_ROTATION_GRACE_MS = 10000"

fun TOKEN_TTL_CONFIG :: "token_purpose \<Rightarrow> string" where
  "TOKEN_TTL_CONFIG ACCESS = ''SECURITY_ACCESS_TTL''"
| "TOKEN_TTL_CONFIG REFRESH = ''SECURITY_REFRESH_TTL''"
| "TOKEN_TTL_CONFIG TERMINAL_SSH = ''SECURITY_TERMINAL_SSH_TTL''"
| "TOKEN_TTL_CONFIG VERIFY_REGISTER_TOTP = ''SECURITY_VERIFY_REGISTER_TOTP_TTL''"

fun LEGACY_TOKEN_TTL_CONFIG :: "token_purpose \<Rightarrow> string option" where
  "LEGACY_TOKEN_TTL_CONFIG ACCESS = Some ''SECURITY_ACCESS_EXPIRE_TIME''"
| "LEGACY_TOKEN_TTL_CONFIG REFRESH = Some ''SECURITY_REFRESH_EXPIRE_TIME''"
| "LEGACY_TOKEN_TTL_CONFIG p = None"

fun DEFAULT_TOKEN_TTL :: "token_purpose \<Rightarrow> string option" where
  "DEFAULT_TOKEN_TTL TERMINAL_SSH = Some ''2m''"
| "DEFAULT_TOKEN_TTL VERIFY_REGISTER_TOTP = Some ''5m''"
| "DEFAULT_TOKEN_TTL p = None"

definition getOrThrow :: "config \<Rightarrow> string \<Rightarrow> http_error + string" where
  "getOrThrow cfg key =
     (case cfg_text cfg key of
        None \<Rightarrow> Inl (InternalError (''Configuration key does not exist: '' @ key))
      | Some v \<Rightarrow> Inr v)"

definition getTokenTtl :: "config \<Rightarrow> token_purpose \<Rightarrow> http_error + string" where
  "getTokenTtl cfg purpose =
     (let configured = cfg_text cfg (TOKEN_TTL_CONFIG purpose)
      in if \<not> falsy configured then Inr (the configured)
         else case LEGACY_TOKEN_TTL_CONFIG purpose of
           Some legacyKey \<Rightarrow> getOrThrow cfg legacyKey
         | None \<Rightarrow>
             (case DEFAULT_TOKEN_TTL purpose of
                Some ttl \<Rightarrow> Inr ttl
              | None \<Rightarrow> getOrThrow cfg (TOKEN_TTL_CONFIG purpose)))"

definition access_claims :: "nat \<Rightarrow> claims" where
  "access_claims userIndex = \<lparr>cl_purpose = Some ACCESS, cl_userIndex = Some userIndex,
     cl_sub = None, cl_jti = None, cl_exp = None, cl_agentUuid = None\<rparr>"

definition refresh_claims :: "nat \<Rightarrow> string \<Rightarrow> claims" where
  "refresh_claims userIndex jwtid = \<lparr>cl_purpose = Some REFRESH, cl_userIndex = Some userIndex,
     cl_sub = None, cl_jti = Some jwtid, cl_exp = None, cl_agentUuid = None\<rparr>"

definition signLoginTokens ::
  "config \<Rightarrow> nat \<Rightarrow> hub \<Rightarrow> (http_error + string \<times> string) \<times> hub" where
  "signLoginTokens cfg userIndex h =
     (case getTokenTtl cfg ACCESS of
        Inl e \<Rightarrow> (Inl e, h)
      | Inr accessTtl \<Rightarrow>
     (let accessToken = cfg_signJwt cfg (access_claims userIndex) accessTtl (clock h);
          (jwtid, h1) = draw cfg h
      in case getTokenTtl cfg REFRESH of
        Inl e \<Rightarrow> (Inl e, h1)
      | Inr refreshTtl \<Rightarrow>
     (let refreshToken = cfg_signJwt cfg (refresh_claims userIndex jwtid) refreshTtl (clock h1)
      in (Inr (accessToken, refreshToken),
          h1\<lparr>refresh_tokens := refresh_tokens h1 @
               [\<lparr>token_index = next_token h1, token_owner = userIndex, token = refreshToken,
                 token_expired_at = None\<rparr>],
             next_token := Suc (next_token h1)\<rparr>))))"

definition decoded_user :: "config \<Rightarrow> string option \<Rightarrow> nat option" where
  "decoded_user cfg tok =
     (if falsy tok then None
      else case cfg_decodeJwt cfg (the tok) of None \<Rightarrow> None | Some c \<Rightarrow> cl_userIndex c)"

definition refresh ::
  "config \<Rightarrow> string option \<Rightarrow> hub \<Rightarrow> (http_error + (string \<times> string) option) \<times> hub" where
  "refresh cfg tok h =
     (case decoded_user cfg tok of
        None \<Rightarrow> (Inr None, h)
      | Some userIndex \<Rightarrow>
     (case find (\<lambda>r. token_owner r = userIndex \<and> token r = the tok \<and> token_expired_at r = None)
             (refresh_tokens h) of
        Some active \<Rightarrow>
          (let h1 = h\<lparr>refresh_tokens := update_rows (\<lambda>r. token_index r = token_index active)
                        (\<lambda>r. r\<lparr>token_expired_at := Some (clock h)\<rparr>) (refresh_tokens h)\<rparr>
           in case signLoginTokens cfg userIndex h1 of
                (Inl e, h2) \<Rightarrow> (Inl e, h2)
              | (Inr pair, h2) \<Rightarrow> (Inr (Some pair), h2))
      | None \<Rightarrow>
          if list_ex (\<lambda>r. token_owner r = userIndex \<and> token r = the tok \<and>
               (case token_expired_at r of None \<Rightarrow> False
                | Some t \<Rightarrow> t \<ge> clock h - REFRESH_ROTATION_GRACE_MS)) (refresh_tokens h)
          then (case signLoginTokens cfg userIndex h of
                  (Inl e, h2) \<Rightarrow> (Inl e, h2)
                | (Inr pair, h2) \<Rightarrow> (Inr (Some pair), h2))
          else (Inr None, h)))"

definition revokeRefreshToken :: "config \<Rightarrow> string option \<Rightarrow> hub \<Rightarrow> hub" where
  "revokeRefreshToken cfg tok h =
     (case decoded_user cfg tok of
        None \<Rightarrow> h
      | Some userIndex \<Rightarrow>
          h\<lparr>refresh_tokens := update_rows
              (\<lambda>r. token_owner r = userIndex \<and> token r = the tok \<and> token_expired_at r = None)
              (\<lambda>r. r\<lparr>token_expired_at := Some (clock h)\<rparr>) (refresh_tokens h)\<rparr>)"

definition signPurposeToken ::
  "config \<Rightarrow> nat \<Rightarrow> token_purpose \<Rightarrow> string option \<Rightarrow> hub \<Rightarrow> (http_error + string) \<times> hub" where
  "signPurposeToken cfg userIndex purpose agentUuid h =
     (let (jwtid, h1) = draw cfg h
      in (case getTokenTtl cfg purpose of
            Inl e \<Rightarrow> Inl e
          | Inr ttl \<Rightarrow>
              Inr (cfg_signJwt cfg \<lparr>cl_purpose = Some purpose, cl_userIndex = None,
                     cl_sub = Some userIndex, cl_jti = Some jwtid, cl_exp = None,
                     cl_agentUuid = agentUuid\<rparr> ttl (clock h1)), h1))"

definition verifyPurposeToken ::
  "config \<Rightarrow> string \<Rightarrow> token_purpose \<Rightarrow> int \<Rightarrow> http_error + claims" where
  "verifyPurposeToken cfg tok expectedPurpose now =
     (case cfg_verifyJwt cfg tok now of
        None \<Rightarrow> Inl (Unauthorized ''Invalid token.'')
      | Some payload \<Rightarrow>
          if cl_purpose payload \<noteq> Some expectedPurpose
          then Inl (Unauthorized ''Invalid token purpose.'')
          else Inr payload)"

end
