(* ===== verification/Console.thy ===== *)
theory Console
  imports AgentLink Tokens
begin

text \<open>
  \<open>src/agent/console.gateway.ts\<close>: the sockets of the web console, the workspace rooms, the
  forwarding of commands to agents, the metric requests and the terminal sessions.

  A payload is the JavaScript value received; a handler that would throw on it (an absent
  payload) changes nothing. The result of a handler that answers the client is an \<open>ack\<close>.
\<close>

section \<open>Numbers and cookies\<close>

text \<open>
  \<open>Number(text)\<close> for decimal integers; \<open>None\<close> is \<open>NaN\<close>. The numerals with a fraction, an
  exponent or a base prefix are not modelled (they are \<open>None\<close> too).
\<close>

definition js_number_text :: "string \<Rightarrow> int option" where
  "js_number_text s =
     (let t = js_trim s;
          (neg, ds) = (case t of c # cs \<Rightarrow> if c = CHR ''-'' then (True, cs)
                                         else if c = CHR ''+'' then (False, cs) else (False, t)
                       | [] \<Rightarrow> (False, []))
      in if t = [] then Some 0
         else if ds = [] \<or> \<not> list_all is_digit ds then None
         else Some (if neg then - int (dec_value ds) else int (dec_value ds)))"

text \<open>
  \<open>String(value)\<close>. The elements of an array are joined by commas, an absent one as the empty text.
  Dates and non-finite numbers do not occur in received values.
\<close>

fun js_string :: "jval \<Rightarrow> string" where
  "js_string JUndef = ''undefined''"
| "js_string JNull = ''null''"
| "js_string (JBool b) = (if b then ''true'' else ''false'')"
| "js_string (JNum n) = show_int n"
| "js_string JNonFinite = ''NaN''"
| "js_string (JStr s) = s"
| "js_string (JDate s) = s"
| "js_string (JArr xs) =
     js_join '','' (map (\<lambda>x. if x = JUndef \<or> x = JNull then [] else js_string x) xs)"
| "js_string (JObj ps) = ''[object Object]''"

text \<open>\<open>Number(value)\<close>; an array is read through its text.\<close>

fun js_number :: "jval \<Rightarrow> int option" where
  "js_number (JNum n) = Some n"
| "js_number (JStr s) = js_number_text s"
| "js_number JNull = Some 0"
| "js_number (JBool b) = Some (if b then 1 else 0)"
| "js_number (JArr xs) = js_number_text (js_string (JArr xs))"
| "js_number v = None"

fun str_field :: "string \<Rightarrow> jval \<Rightarrow> string option" where
  "str_field k p = (case field k p of JStr s \<Rightarrow> Some s | v \<Rightarrow> None)"

declare str_field.simps [simp del]

text \<open>\<open>decodeURIComponent\<close> on ASCII; an escape that is malformed or not ASCII makes it throw.\<close>

fun decode_uri :: "string \<Rightarrow> string option" where
  "decode_uri [] = Some []"
| "decode_uri (c # cs) =
     (if c = CHR ''%'' then
        (case cs of
           a # b # rest \<Rightarrow>
             (let la = lower_char a; lb = lower_char b
              in if is_hex la \<and> is_hex lb \<and> hex_value la < 8
                 then map_option ((#) (char_of (16 * hex_value la + hex_value lb))) (decode_uri rest)
                 else None)
         | _ \<Rightarrow> None)
      else map_option ((#) c) (decode_uri cs))"

text \<open>\<open>Inl\<close>: the decoding throws.\<close>

definition readCookie :: "string option \<Rightarrow> string \<Rightarrow> unit + string option" where
  "readCookie cookieHeader name =
     (if falsy cookieHeader then Inr None
      else case find (starts_with (name @ ''='')) (map js_trim (split_on (CHR '';'') (the cookieHeader))) of
        None \<Rightarrow> Inr None
      | Some cookie \<Rightarrow>
          (case decode_uri (drop (length name + 1) cookie) of
             None \<Rightarrow> Inl ()
           | Some v \<Rightarrow> Inr (Some v)))"

section \<open>Rooms and events\<close>

definition emitToWorkspace :: "nat \<Rightarrow> string \<Rightarrow> jval \<Rightarrow> hub \<Rightarrow> hub" where
  "emitToWorkspace workspaceIndex event payload h = emit (RoomEmit workspaceIndex event payload) h"

definition notifyAgentUpdated :: "hub \<Rightarrow> hub" where
  "notifyAgentUpdated h = emit (ConsoleBroadcast ''agent-updated'') h"

definition notifyWorkspaceUpdated :: "nat option \<Rightarrow> hub \<Rightarrow> hub" where
  "notifyWorkspaceUpdated workspaceIndex h =
     (case workspaceIndex of
        None \<Rightarrow> notifyAgentUpdated h
      | Some w \<Rightarrow> if w = 0 then notifyAgentUpdated h else emitToWorkspace w ''agent-updated'' JUndef h)"

definition console_connection :: "config \<Rightarrow> string \<Rightarrow> string option \<Rightarrow> hub \<Rightarrow> hub" where
  "console_connection cfg clientId cookieHeader h =
     (case readCookie cookieHeader ''accessToken'' of
        Inl _ \<Rightarrow> h
      | Inr accessToken \<Rightarrow>
          if falsy accessToken then emit (DisconnectSocket clientId) h
          else case cfg_verifyJwt cfg (the accessToken) (clock h) of
            None \<Rightarrow> emit (DisconnectSocket clientId) h
          | Some payload \<Rightarrow>
              (case cl_userIndex payload of
                 None \<Rightarrow> h\<lparr>consoleUsers := map_delete (consoleUsers h) clientId\<rparr>
               | Some u \<Rightarrow> h\<lparr>consoleUsers := map_set (consoleUsers h) clientId u\<rparr>))"

section \<open>Access checks\<close>

definition socket_user :: "string \<Rightarrow> hub \<Rightarrow> nat option" where
  "socket_user clientId h = map_get (consoleUsers h) clientId"

abbreviation owns_workspace :: "nat \<Rightarrow> workspaces_row \<Rightarrow> bool" where
  "owns_workspace u w \<equiv> workspace_owner w = u \<and> workspace_deleted_at w = None"

text \<open>The relation filter \<open>parent: { ... }\<close>: the agent's workspace exists and satisfies \<open>P\<close>.\<close>

definition parent_matches :: "hub \<Rightarrow> (workspaces_row \<Rightarrow> bool) \<Rightarrow> agents_row \<Rightarrow> bool" where
  "parent_matches h P a =
     (case agent_parent_workspace a of None \<Rightarrow> False
      | Some i \<Rightarrow> list_ex (\<lambda>w. workspace_index w = i \<and> P w) (workspaces h))"

definition canAccessWorkspace :: "string \<Rightarrow> int option \<Rightarrow> hub \<Rightarrow> bool" where
  "canAccessWorkspace clientId workspaceIndex h =
     (case (socket_user clientId h, workspaceIndex) of
        (Some u, Some i) \<Rightarrow>
          u \<noteq> 0 \<and> list_ex (\<lambda>w. int (workspace_index w) = i \<and> owns_workspace u w) (workspaces h)
      | _ \<Rightarrow> False)"

definition canAccessAgent :: "string \<Rightarrow> string option \<Rightarrow> int option \<Rightarrow> hub \<Rightarrow> bool" where
  "canAccessAgent clientId agentUuid workspaceIndex h =
     (case socket_user clientId h of
        None \<Rightarrow> False
      | Some u \<Rightarrow>
          u \<noteq> 0 \<and> \<not> falsy agentUuid \<and>
          list_ex (\<lambda>a. agent_uuid a = the agentUuid \<and> agent_connection a = Linked
                     \<and> agent_deleted_at a = None
                     \<and> parent_matches h (\<lambda>w. owns_workspace u w
                         \<and> (case workspaceIndex of None \<Rightarrow> True
                            | Some i \<Rightarrow> i = 0 \<or> int (workspace_index w) = i)) a)
            (agents h))"

definition canAccessService ::
  "string \<Rightarrow> int option \<Rightarrow> string option \<Rightarrow> int option \<Rightarrow> hub \<Rightarrow> bool" where
  "canAccessService clientId workspaceIndex agentUuid serviceIndex h =
     (case (socket_user clientId h, workspaceIndex, serviceIndex) of
        (Some u, Some i, Some j) \<Rightarrow>
          u \<noteq> 0 \<and> \<not> falsy agentUuid \<and>
          list_ex (\<lambda>s. int (service_index s) = j \<and> int (service_parent_workspace s) = i
               \<and> service_deleted_at s = None
               \<and> list_ex (\<lambda>w. workspace_index w = service_parent_workspace s
                     \<and> int (workspace_index w) = i \<and> owns_workspace u w) (workspaces h)
               \<and> list_ex (\<lambda>a. agent_index a = service_parent_agent s \<and> agent_uuid a = the agentUuid
                     \<and> agent_connection a = Linked \<and> agent_deleted_at a = None) (agents h))
            (services h)
      | _ \<Rightarrow> False)"

section \<open>Subscriptions and commands\<close>

definition join_room :: "string \<Rightarrow> nat \<Rightarrow> hub \<Rightarrow> hub" where
  "join_room clientId workspaceIndex h =
     (if (clientId, workspaceIndex) \<in> set (roomMembers h) then h
      else h\<lparr>roomMembers := roomMembers h @ [(clientId, workspaceIndex)]\<rparr>)"

definition handleSubscribeWorkspace :: "config \<Rightarrow> string \<Rightarrow> jval \<Rightarrow> hub \<Rightarrow> hub" where
  "handleSubscribeWorkspace cfg clientId payload h =
     (let workspaceIndex = js_number (field ''workspaceIndex'' payload)
      in if \<not> canAccessWorkspace clientId workspaceIndex h then h
         else
           (let w = nat (the workspaceIndex);
                h1 = join_room clientId w h;
                targets = filter (\<lambda>a. agent_parent_workspace a = Some w \<and> agent_connection a = Linked
                                     \<and> agent_deleted_at a = None) (agents h1)
            in fold (\<lambda>a h. snd (sendToAgent cfg (agent_uuid a) ''command''
                       (JObj [(''command'', JStr ''GET_CONTAINER_STATUS'')]) h)) targets h1))"

definition handleCommand :: "config \<Rightarrow> string \<Rightarrow> jval \<Rightarrow> hub \<Rightarrow> hub" where
  "handleCommand cfg clientId payload h =
     (let agentUuid = str_field ''agentUuid'' payload;
          rest = JObj (filter (\<lambda>(k, v). k \<noteq> ''agentUuid'') (spread payload))
      in if \<not> canAccessAgent clientId agentUuid None h then h
         else snd (sendToAgent cfg (the agentUuid) ''command'' rest h))"

definition handleSubscribeLog :: "config \<Rightarrow> string \<Rightarrow> jval \<Rightarrow> hub \<Rightarrow> hub" where
  "handleSubscribeLog cfg clientId payload h =
     (let workspaceIndex = js_number (field ''workspaceIndex'' payload);
          agentUuid = str_field ''agentUuid'' payload
      in if \<not> canAccessService clientId workspaceIndex agentUuid
               (js_number (field ''serviceIndex'' payload)) h
         then h
         else snd (sendToAgent cfg (the agentUuid) ''command''
                (JObj [(''command'', JStr ''STREAM_LOG''),
                       (''serviceIndex'', field ''serviceIndex'' payload),
                       (''serviceName'', field ''serviceName'' payload),
                       (''deployPreset'', field ''deployPreset'' payload)])
                (join_room clientId (nat (the workspaceIndex)) h)))"

text \<open>\<open>Number(undefined)\<close> is \<open>NaN\<close>, which is falsy: no workspace filter is applied then.\<close>

definition handleUnsubscribeLog :: "config \<Rightarrow> string \<Rightarrow> jval \<Rightarrow> hub \<Rightarrow> hub" where
  "handleUnsubscribeLog cfg clientId payload h =
     (let agentUuid = str_field ''agentUuid'' payload
      in if \<not> canAccessAgent clientId agentUuid (js_number (field ''workspaceIndex'' payload)) h then h
         else snd (sendToAgent cfg (the agentUuid) ''command''
                (JObj [(''command'', JStr ''STOP_LOG''),
                       (''serviceName'', field ''serviceName'' payload)]) h))"

section \<open>Metrics\<close>

datatype ack = AckOk "string option" | AckError string

definition METRIC_TIMEOUT_MS :: int where "METRIC_TIMEOUT_MS = 5000"

definition handleAgentMetricsRequest :: "config \<Rightarrow> string \<Rightarrow> jval \<Rightarrow> hub \<Rightarrow> ack \<times> hub" where
  "handleAgentMetricsRequest cfg clientId payload h =
     (let agentUuid = str_field ''agentUuid'' payload
      in if \<not> canAccessAgent clientId agentUuid None h then (AckError ''Agent access denied.'', h)
         else
           (let (requestId, h1) = draw cfg h;
                h2 = h1\<lparr>metricRequests := map_set (metricRequests h1) requestId
                       (\<lparr>consoleSocketId = clientId, session_agentUuid = the agentUuid\<rparr>,
                        clock h1 + METRIC_TIMEOUT_MS)\<rparr>;
                (delivered, h3) = sendToAgent cfg (the agentUuid) ''system-metrics-request''
                       (JObj [(''requestId'', JStr requestId)]) h2
            in if \<not> delivered
               then (AckError ''Agent is offline.'',
                     h3\<lparr>metricRequests := map_delete (metricRequests h3) requestId\<rparr>)
               else (AckOk None, h3)))"

definition fireMetricTimer :: "string \<Rightarrow> hub \<Rightarrow> hub" where
  "fireMetricTimer requestId h = h\<lparr>metricRequests := map_delete (metricRequests h) requestId\<rparr>"

definition forwardSystemMetrics :: "string \<Rightarrow> jval \<Rightarrow> hub \<Rightarrow> hub" where
  "forwardSystemMetrics agentUuid payload h =
     (case str_field ''requestId'' payload of
        None \<Rightarrow> h
      | Some requestId \<Rightarrow>
     (case map_get (metricRequests h) requestId of
        None \<Rightarrow> h
      | Some (request, due) \<Rightarrow>
          if session_agentUuid request \<noteq> agentUuid then h
          else emit (ConsoleEmit (consoleSocketId request) ''agent-metrics''
                 (JObj [(''agentUuid'', JStr agentUuid), (''metrics'', field ''metrics'' payload)]))
                 (h\<lparr>metricRequests := map_delete (metricRequests h) requestId\<rparr>)))"

end
