(* ===== verification/Outcome.thy ===== *)
theory Outcome
  imports Store
begin

text \<open>
  The composition of operations that may throw. An operation gives the exception or the result, and
  the Hub it leaves; what was done before an exception stays done, as in the code.
\<close>

named_theorems outcome_simps \<open>successful and failing compositions\<close>

definition throw :: "'e \<Rightarrow> 's \<Rightarrow> ('e + 'a) \<times> 's" where
  "throw e s = (Inl e, s)"

definition give :: "'a \<Rightarrow> 's \<Rightarrow> ('e + 'a) \<times> 's" where
  "give x s = (Inr x, s)"

definition check :: "'e + 'a \<Rightarrow> 's \<Rightarrow> ('e + 'a) \<times> 's" where
  "check r s = (r, s)"

definition andThen :: "('e + 'a) \<times> 's \<Rightarrow> ('a \<Rightarrow> 's \<Rightarrow> ('e + 'b) \<times> 's) \<Rightarrow> ('e + 'b) \<times> 's" where
  "andThen m f = (case m of (Inl e, s) \<Rightarrow> (Inl e, s) | (Inr x, s) \<Rightarrow> f x s)"

lemma andThen_simps [simp]:
  "andThen (Inl e, s) f = (Inl e, s)" "andThen (Inr x, s) f = f x s"
  by (simp_all add: andThen_def)

lemma andThen_give [simp, outcome_simps]:
  "andThen (give x s) f = f x s" "andThen (throw e s) f = (Inl e, s)"
  "andThen (check r s) f = (case r of Inl e \<Rightarrow> (Inl e, s) | Inr x \<Rightarrow> f x s)"
  by (simp_all add: give_def throw_def check_def andThen_def split: sum.split)

lemma give_eq [simp, outcome_simps]:
  "give x s = (Inr y, t) \<longleftrightarrow> x = y \<and> s = t" "give x s \<noteq> (Inl e, t)"
  "throw e s = (Inl d, t) \<longleftrightarrow> e = d \<and> s = t" "throw e s \<noteq> (Inr y, t)"
  by (auto simp: give_def throw_def)

lemma snd_give [simp]: "snd (give x s) = s" "snd (throw e s) = s" "snd (check r s) = s"
  by (simp_all add: give_def throw_def check_def)

lemma andThen_Inr:
  "andThen m f = (Inr y, t) \<longleftrightarrow> (\<exists>x s. m = (Inr x, s) \<and> f x s = (Inr y, t))"
  by (cases m) (auto simp: andThen_def split: sum.split)

lemma andThen_Inl:
  "andThen m f = (Inl e, t) \<longleftrightarrow>
     m = (Inl e, t) \<or> (\<exists>x s. m = (Inr x, s) \<and> f x s = (Inl e, t))"
  by (cases m) (auto simp: andThen_def split: sum.split)

text \<open>An invariant of both steps is one of the composition.\<close>

lemma andThen_snd:
  assumes "I (snd m)" and "\<And>x s. m = (Inr x, s) \<Longrightarrow> I (snd (f x s))"
  shows "I (snd (andThen m f))"
  using assms by (cases m) (auto simp: andThen_def split: sum.split)

lemma if_snd: "snd (if b then m else n) = (if b then snd m else snd n)"
  by simp

end
