(* ===== verification/Accounts.thy ===== *)
theory Accounts
  imports Console Tokens Outcome
begin

text \<open>
  \<open>src/auth/auth.service.ts\<close> and \<open>src/auth/2fa.service.ts\<close>: verification of an email address,
  registration, login, passwords, tokens with a purpose, and the second factor.

  Hashing and comparing passwords (bcrypt), checking a one-time password (otplib) and sending a
  mail are the libraries'. The address and the QR code that show a new secret to the user are
  renderings of the secret and are left out of the answer.
\<close>

section \<open>Users and codes\<close>

definition find_user :: "nat \<Rightarrow> hub \<Rightarrow> users_row option" where
  "find_user userIndex h = find (\<lambda>u. user_index u = userIndex) (users h)"

definition user_of_email :: "string \<Rightarrow> hub \<Rightarrow> users_row option" where
  "user_of_email email h = find (\<lambda>u. user_email u = email) (users h)"

definition set_user :: "nat \<Rightarrow> (users_row \<Rightarrow> users_row) \<Rightarrow> hub \<Rightarrow> hub" where
  "set_user userIndex f h = h\<lparr>users := update_rows (\<lambda>u. user_index u = userIndex) f (users h)\<rparr>"

definition set_verification :: "nat \<Rightarrow> (verification_row \<Rightarrow> verification_row) \<Rightarrow> hub \<Rightarrow> hub" where
  "set_verification i f h =
     h\<lparr>verifications := update_rows (\<lambda>v. verification_index v = i) f (verifications h)\<rparr>"

text \<open>\<open>findFirst\<close> with a descending order\<close>

definition latest :: "('r \<Rightarrow> int) \<Rightarrow> ('r \<Rightarrow> bool) \<Rightarrow> 'r list \<Rightarrow> 'r option" where
  "latest key P rows =
     (case js_sort (\<lambda>a b. key b - key a) (filter P rows) of [] \<Rightarrow> None | r # rs \<Rightarrow> Some r)"

definition checkEmail :: "string \<Rightarrow> hub \<Rightarrow> bool" where
  "checkEmail email h \<longleftrightarrow> user_of_email email h \<noteq> None"

definition verificationIssuedAfter :: "config \<Rightarrow> hub \<Rightarrow> int" where
  "verificationIssuedAfter cfg h = clock h - cfg_int cfg ''mail.verificationTtlMinutes'' * 60000"

definition cooldownSeconds :: "config \<Rightarrow> int" where
  "cooldownSeconds cfg = cfg_int cfg ''mail.verificationResendCooldownSeconds''"

text \<open>\<open>Math.ceil\<close> of the milliseconds left, in seconds\<close>

definition remainingSeconds :: "config \<Rightarrow> int \<Rightarrow> int" where
  "remainingSeconds cfg elapsedMs = (cooldownSeconds cfg * 1000 - elapsedMs + 999) div 1000"

definition issueOrReuseVerification ::
  "config \<Rightarrow> string \<Rightarrow> hub \<Rightarrow> (http_error + verification_row) \<times> hub" where
  "issueOrReuseVerification cfg email h =
     (let lastSent = latest verification_last_sent_at (\<lambda>v. verification_email v = email) (verifications h);
          remaining = (case lastSent of None \<Rightarrow> 0
             | Some v \<Rightarrow> remainingSeconds cfg (clock h - verification_last_sent_at v));
          reusableAfter = verificationIssuedAfter cfg h + cooldownSeconds cfg * 1000
      in if remaining > 0 then throw (TooManyRequests (nat remaining)) h
         else case latest verification_created_at
             (\<lambda>v. verification_email v = email \<and> verification_consumed_at v = None
                \<and> verification_created_at v \<ge> reusableAfter) (verifications h) of
           Some reusable \<Rightarrow>
             give (reusable\<lparr>verification_last_sent_at := clock h\<rparr>)
               (set_verification (verification_index reusable)
                 (\<lambda>v. v\<lparr>verification_last_sent_at := clock h\<rparr>) h)
         | None \<Rightarrow>
             (let (code, h1) = draw cfg h;
                  v = \<lparr>verification_index = next_verification h1, verification_email = email,
                       verification_code = code, verification_created_at = clock h1,
                       verification_last_sent_at = clock h1, verification_consumed_at = None\<rparr>
              in give v (h1\<lparr>verifications := verifications h1 @ [v],
                           next_verification := Suc (next_verification h1)\<rparr>)))"

definition send_mail :: "config \<Rightarrow> mail \<Rightarrow> hub \<Rightarrow> (http_error + unit) \<times> hub" where
  "send_mail cfg m h =
     (if cfg_mail_ok cfg then give () (h\<lparr>mails := mails h @ [m]\<rparr>)
      else throw (InternalError ''Failed to send mail'') h)"

definition verifyEmail :: "config \<Rightarrow> string \<Rightarrow> hub \<Rightarrow> (http_error + unit) \<times> hub" where
  "verifyEmail cfg email h =
     (if user_of_email email h \<noteq> None then throw (Conflict ''Already exists'') h
      else andThen (issueOrReuseVerification cfg email h) (\<lambda>v.
        send_mail cfg (VerificationMail email (verification_code v) (verification_created_at v))))"

definition requestExistingEmailVerification ::
  "config \<Rightarrow> nat \<Rightarrow> hub \<Rightarrow> (http_error + unit) \<times> hub" where
  "requestExistingEmailVerification cfg userIndex h =
     (case find_user userIndex h of
        None \<Rightarrow> throw (Unauthorized ''User Not Found.'') h
      | Some user \<Rightarrow>
          if user_permission user \<noteq> Unverified then throw (Conflict ''Email Already Verified.'') h
          else andThen (issueOrReuseVerification cfg (user_email user) h) (\<lambda>v.
            send_mail cfg (ExistingUserMail (user_email user) (verification_code v)
              (verification_created_at v))))"

text \<open>The code that registration and confirmation accept.\<close>

definition usable_verification :: "config \<Rightarrow> string \<Rightarrow> hub \<Rightarrow> verification_row option" where
  "usable_verification cfg code h =
     latest verification_created_at (\<lambda>v. verification_code v = code \<and> verification_consumed_at v = None
        \<and> verification_created_at v \<ge> verificationIssuedAfter cfg h) (verifications h)"

definition consume :: "verification_row \<Rightarrow> hub \<Rightarrow> hub" where
  "consume v h = set_verification (verification_index v)
     (\<lambda>v. v\<lparr>verification_consumed_at := Some (clock h)\<rparr>) h"

definition verifyExistingEmail :: "config \<Rightarrow> string \<Rightarrow> hub \<Rightarrow> (http_error + string) \<times> hub" where
  "verifyExistingEmail cfg code h =
     (case usable_verification cfg code h of
        None \<Rightarrow> throw (BadRequest ''Invalid or Expired Verification Code.'') h
      | Some v \<Rightarrow>
     (case user_of_email (verification_email v) h of
        None \<Rightarrow> throw (BadRequest ''No Account For This Verification Code.'') h
      | Some user \<Rightarrow>
          give (user_email user)
            (consume v (set_user (user_index user) (\<lambda>u. u\<lparr>user_permission := Verified\<rparr>) h))))"

datatype code_check = CodeNotFound | CodeConsumed | CodeExpired | CodeValid string

definition isValidVerificationCode :: "config \<Rightarrow> string \<Rightarrow> hub \<Rightarrow> code_check" where
  "isValidVerificationCode cfg code h =
     (case latest verification_created_at (\<lambda>v. verification_code v = code) (verifications h) of
        None \<Rightarrow> CodeNotFound
      | Some v \<Rightarrow>
          if verification_consumed_at v \<noteq> None then CodeConsumed
          else if verification_created_at v < verificationIssuedAfter cfg h then CodeExpired
          else CodeValid (verification_email v))"

section \<open>The second factor\<close>

text \<open>The setting is checked when the service starts: the period is positive.\<close>

definition getTimeStep :: "config \<Rightarrow> int option \<times> int \<Rightarrow> int" where
  "getTimeStep cfg result =
     (case fst result of Some step \<Rightarrow> step | None \<Rightarrow> snd result div cfg_int cfg ''TOTP_PERIOD_SECONDS'')"

definition verifyUserTotp ::
  "config \<Rightarrow> nat \<Rightarrow> string \<Rightarrow> bool \<Rightarrow> hub \<Rightarrow> http_error + int option \<times> int" where
  "verifyUserTotp cfg userIndex tok requireActive h =
     (if \<not> (length tok = 6 \<and> list_all is_digit tok)
      then Inl (BadRequest ''TOTP code must be 6 digits.'')
      else case find_user userIndex h of
        None \<Rightarrow> Inl (Unauthorized ''TOTP is not configured.'')
      | Some user \<Rightarrow>
          if falsy (user_totp_secret user) then Inl (Unauthorized ''TOTP is not configured.'')
          else if requireActive \<and> \<not> user_totp_active user then Inl (Unauthorized ''TOTP is not active.'')
          else case cfg_totp cfg (the (user_totp_secret user)) tok
              (cfg_int cfg ''TOTP_EPOCH_TOLERANCE_SECONDS'') (clock h) (last_used_totp_step user) of
            None \<Rightarrow> Inl (Unauthorized ''Invalid TOTP code.'')
          | Some result \<Rightarrow> Inr result)"

definition generate2FASecret :: "config \<Rightarrow> string \<Rightarrow> hub \<Rightarrow> (http_error + string) \<times> hub" where
  "generate2FASecret cfg userEmail h =
     (case user_of_email userEmail h of
        None \<Rightarrow> throw (InternalError ''Record to update not found.'') (snd (draw cfg h))
      | Some user \<Rightarrow>
          if user_totp_active user
          then throw (Conflict ''Disable the existing 2FA before setting up a new one.'') h
          else
            (let (secret, h1) = draw cfg h
             in give secret (h1\<lparr>users := update_rows (\<lambda>u. user_email u = userEmail)
                  (\<lambda>u. u\<lparr>user_totp_secret := Some secret, user_totp_active := False,
                         user_totp_active_at := None, last_used_totp_step := None\<rparr>) (users h1)\<rparr>)))"

definition confirm2FA :: "config \<Rightarrow> nat \<Rightarrow> string \<Rightarrow> hub \<Rightarrow> (http_error + bool) \<times> hub" where
  "confirm2FA cfg userIndex tok h =
     andThen (check (verifyUserTotp cfg userIndex tok False h) h) (\<lambda>result h.
       give True (set_user userIndex (\<lambda>u. u\<lparr>user_totp_active := True, user_totp_active_at := Some (clock h),
           last_used_totp_step := Some (getTimeStep cfg result)\<rparr>) h))"

definition verifyActiveUserTotp :: "config \<Rightarrow> nat \<Rightarrow> string \<Rightarrow> hub \<Rightarrow> (http_error + bool) \<times> hub" where
  "verifyActiveUserTotp cfg userIndex tok h =
     andThen (check (verifyUserTotp cfg userIndex tok True h) h) (\<lambda>result h.
       give True (set_user userIndex
         (\<lambda>u. u\<lparr>last_used_totp_step := Some (getTimeStep cfg result)\<rparr>) h))"

definition remove2FA :: "config \<Rightarrow> nat \<Rightarrow> string \<Rightarrow> hub \<Rightarrow> (http_error + unit) \<times> hub" where
  "remove2FA cfg userIndex tok h =
     andThen (check (verifyUserTotp cfg userIndex tok True h) h) (\<lambda>result h.
       give () (set_user userIndex (\<lambda>u. u\<lparr>user_totp_active := False, user_totp_secret := None,
           user_totp_active_at := None, last_used_totp_step := None\<rparr>) h))"

definition is2FAActive :: "nat \<Rightarrow> hub \<Rightarrow> bool option \<times> int option" where
  "is2FAActive userIndex h =
     (case find_user userIndex h of
        None \<Rightarrow> (None, None)
      | Some user \<Rightarrow> (Some (user_totp_active user), user_totp_active_at user))"

section \<open>Registration and login\<close>

definition hash_password :: "config \<Rightarrow> string \<Rightarrow> hub \<Rightarrow> string \<times> hub" where
  "hash_password cfg password h =
     (let (salt, h1) = draw cfg h
      in (cfg_bcrypt_hash cfg password (cfg_int cfg ''SECURITY_SALT_ROUND'') salt, h1))"

record register_form =
  rf_verificationCode :: string
  rf_password :: string
  rf_passwordConfirm :: string
  rf_display :: string

definition new_user :: "string \<Rightarrow> string \<Rightarrow> string \<Rightarrow> hub \<Rightarrow> nat \<times> hub" where
  "new_user email display hashedPassword h =
     (next_user h, h\<lparr>users := users h @
        [\<lparr>user_index = next_user h, user_display = display, user_email = email,
          user_password = hashedPassword, user_permission = Verified, user_restriction = False,
          user_totp_secret = None, user_totp_active = False, last_used_totp_step = None,
          user_totp_active_at = None\<rparr>],
        next_user := Suc (next_user h)\<rparr>)"

definition register_user :: "config \<Rightarrow> register_form \<Rightarrow> hub \<Rightarrow> (http_error + string \<times> string) \<times> hub" where
  "register_user cfg dto h =
     (if rf_password dto \<noteq> rf_passwordConfirm dto
      then throw (BadRequest ''Password Confirm Does Not Match.'') h
      else case usable_verification cfg (rf_verificationCode dto) h of
        None \<Rightarrow> throw (BadRequest ''Invalid or Expired Verification Code.'') h
      | Some v \<Rightarrow>
          if user_of_email (verification_email v) h \<noteq> None
          then throw (Conflict ''Already Using Email.'') h
          else
            (let (hashedPassword, h1) = hash_password cfg (rf_password dto) h;
                 (userIndex, h2) = new_user (verification_email v) (rf_display dto) hashedPassword h1
             in signLoginTokens cfg userIndex (consume v h2)))"

record login_form =
  lf_email :: string
  lf_password :: string
  lf_totpCode :: "string option"

definition login :: "config \<Rightarrow> login_form \<Rightarrow> hub \<Rightarrow> (http_error + string \<times> string) \<times> hub" where
  "login cfg dto h =
     (case user_of_email (lf_email dto) h of
        None \<Rightarrow> throw (Conflict ''Matching Email and Password Not Found.'') h
      | Some foundUser \<Rightarrow>
          if \<not> cfg_bcrypt_compare cfg (lf_password dto) (user_password foundUser)
          then throw (Conflict ''Matching Email and Password Not Found.'') h
          else if user_totp_active foundUser \<and> falsy (lf_totpCode dto) then throw TotpRequired h
          else andThen
            (if user_totp_active foundUser
             then verifyActiveUserTotp cfg (user_index foundUser) (the (lf_totpCode dto)) h
             else give True h)
            (\<lambda>ok. signLoginTokens cfg (user_index foundUser)))"

record password_form =
  pf_currentPassword :: string
  pf_newPassword :: string
  pf_newPasswordConfirm :: string

definition changePassword :: "config \<Rightarrow> nat \<Rightarrow> password_form \<Rightarrow> hub \<Rightarrow> (http_error + unit) \<times> hub" where
  "changePassword cfg userIndex dto h =
     (if pf_newPassword dto \<noteq> pf_newPasswordConfirm dto
      then throw (BadRequest ''Password Confirm Does Not Match.'') h
      else case find_user userIndex h of
        None \<Rightarrow> throw (Unauthorized ''User Not Found.'') h
      | Some user \<Rightarrow>
          if \<not> cfg_bcrypt_compare cfg (pf_currentPassword dto) (user_password user)
          then throw (Unauthorized ''Current Password Does Not Match.'') h
          else
            (let (hashedPassword, h1) = hash_password cfg (pf_newPassword dto) h
             in give () (set_user userIndex (\<lambda>u. u\<lparr>user_password := hashedPassword\<rparr>) h1)))"

definition mintPurposeToken ::
  "config \<Rightarrow> nat \<Rightarrow> token_purpose \<Rightarrow> string \<Rightarrow> hub \<Rightarrow> (http_error + string) \<times> hub" where
  "mintPurposeToken cfg userIndex purpose agentUuid h =
     (if purpose \<noteq> TERMINAL_SSH then throw (BadRequest ''Unsupported token purpose.'') h
      else if \<not> list_ex (\<lambda>a. agent_uuid a = agentUuid \<and> agent_connection a = Linked
                \<and> agent_deleted_at a = None \<and> parent_matches h (owns_workspace userIndex) a) (agents h)
      then throw (Forbidden ''Agent access denied.'') h
      else signPurposeToken cfg userIndex purpose (Some agentUuid) h)"

end
