(* ===== verification/Json.thy ===== *)
theory Json
  imports Payload
begin

text \<open>
  \<open>JSON.parse\<close>, as the services use it on text they stored with \<open>JSON.stringify\<close>
  (\<open>src/services/service.service.ts\<close>). \<open>None\<close> is a \<open>SyntaxError\<close>. Numerals with a fraction or an
  exponent, and escapes beyond \<open>\u00ff\<close>, have no value in \<open>jval\<close> and give \<open>None\<close> as well.

  The reader is bounded by fuel; \<open>parse_value_enough\<close> shows that twice the length of the text read is
  always enough, and \<open>JSON_parse_text\<close> is the round trip with the writer of Payload.
\<close>

section \<open>The reader\<close>

definition json_space :: "char \<Rightarrow> bool" where
  "json_space c \<longleftrightarrow> c \<in> {CHR '' '', CHR 0x09, CHR 0x0A, CHR 0x0D}"

definition skip_space :: "string \<Rightarrow> string" where
  "skip_space s = dropWhile json_space s"

definition simple_escape :: "char \<Rightarrow> char option" where
  "simple_escape e =
     (if e = CHR 0x22 \<or> e = CHR 0x5C \<or> e = CHR ''/'' then Some e
      else if e = CHR ''b'' then Some (CHR 0x08)
      else if e = CHR ''f'' then Some (CHR 0x0C)
      else if e = CHR ''n'' then Some (CHR 0x0A)
      else if e = CHR ''r'' then Some (CHR 0x0D)
      else if e = CHR ''t'' then Some (CHR 0x09)
      else None)"

definition hex_char :: "char \<Rightarrow> bool" where
  "hex_char c \<longleftrightarrow> is_digit c \<or> CHR ''a'' \<le> lower_char c \<and> lower_char c \<le> CHR ''f''"

definition hex_pair :: "char \<Rightarrow> char \<Rightarrow> char" where
  "hex_pair p q = char_of (16 * hex_value (lower_char p) + hex_value (lower_char q))"

definition push_char :: "char \<Rightarrow> (string \<times> string) option \<Rightarrow> (string \<times> string) option" where
  "push_char c = map_option (\<lambda>(s, r). (c # s, r))"

text \<open>The text up to the closing quotation mark, and what follows it.\<close>

fun parse_chars :: "string \<Rightarrow> (string \<times> string) option" where
  "parse_chars [] = None"
| "parse_chars (c # cs) =
     (if c = CHR 0x22 then Some ([], cs)
      else if c = CHR 0x5C then
        (case cs of
           [] \<Rightarrow> None
         | e # t \<Rightarrow>
             if e = CHR ''u'' then
               (case t of
                  a # b # p # q # t' \<Rightarrow>
                    if a = CHR ''0'' \<and> b = CHR ''0'' \<and> hex_char p \<and> hex_char q
                    then push_char (hex_pair p q) (parse_chars t') else None
                | _ \<Rightarrow> None)
             else (case simple_escape e of None \<Rightarrow> None | Some d \<Rightarrow> push_char d (parse_chars t)))
      else if (of_char c :: nat) < 32 then None
      else push_char c (parse_chars cs))"

definition parse_number :: "string \<Rightarrow> (jval \<times> string) option" where
  "parse_number s =
     (let neg = (s \<noteq> [] \<and> hd s = CHR ''-'');
          t = (if neg then tl s else s);
          ds = takeWhile is_digit t;
          r = dropWhile is_digit t
      in if ds = [] \<or> hd ds = CHR ''0'' \<and> length ds \<noteq> 1
            \<or> r \<noteq> [] \<and> hd r \<in> {CHR ''.'', CHR ''e'', CHR ''E''} then None
         else Some (JNum (if neg then - int (dec_value ds) else int (dec_value ds)), r))"

definition parse_word :: "string \<Rightarrow> (jval \<times> string) option" where
  "parse_word s =
     (if starts_with ''null'' s then Some (JNull, drop 4 s)
      else if starts_with ''true'' s then Some (JBool True, drop 4 s)
      else if starts_with ''false'' s then Some (JBool False, drop 5 s)
      else parse_number s)"

text \<open>A key that comes again keeps its place and takes the later value.\<close>

definition object_of :: "(string \<times> jval) list \<Rightarrow> jval" where
  "object_of ms = JObj (foldl (\<lambda>ps (k, v). map_set ps k v) [] ms)"

definition push_item :: "'a \<Rightarrow> ('a list \<times> string) option \<Rightarrow> ('a list \<times> string) option" where
  "push_item x = map_option (\<lambda>(xs, r). (x # xs, r))"

fun parse_value :: "nat \<Rightarrow> string \<Rightarrow> (jval \<times> string) option"
  and parse_elements :: "nat \<Rightarrow> string \<Rightarrow> (jval list \<times> string) option"
  and parse_members :: "nat \<Rightarrow> string \<Rightarrow> ((string \<times> jval) list \<times> string) option" where
  "parse_value 0 s = None"
| "parse_value (Suc n) s =
     (case skip_space s of
        [] \<Rightarrow> None
      | c # r \<Rightarrow>
          if c = CHR 0x22 then map_option (\<lambda>(t, r'). (JStr t, r')) (parse_chars r)
          else if c = CHR ''['' then
            (case skip_space r of
               [] \<Rightarrow> None
             | d # r' \<Rightarrow> if d = CHR '']'' then Some (JArr [], r')
                         else map_option (\<lambda>(xs, r''). (JArr xs, r'')) (parse_elements n r))
          else if c = CHR ''{'' then
            (case skip_space r of
               [] \<Rightarrow> None
             | d # r' \<Rightarrow> if d = CHR ''}'' then Some (JObj [], r')
                         else map_option (\<lambda>(ms, r''). (object_of ms, r'')) (parse_members n r))
          else parse_word (c # r))"
| "parse_elements 0 s = None"
| "parse_elements (Suc n) s =
     (case parse_value n s of
        None \<Rightarrow> None
      | Some (v, r) \<Rightarrow>
          (case skip_space r of
             [] \<Rightarrow> None
           | d # r' \<Rightarrow> if d = CHR '','' then push_item v (parse_elements n r')
                       else if d = CHR '']'' then Some ([v], r') else None))"
| "parse_members 0 s = None"
| "parse_members (Suc n) s =
     (case skip_space s of
        [] \<Rightarrow> None
      | q # r \<Rightarrow>
          if q \<noteq> CHR 0x22 then None
          else case parse_chars r of
            None \<Rightarrow> None
          | Some (k, r1) \<Rightarrow>
              (case skip_space r1 of
                 [] \<Rightarrow> None
               | d # r2 \<Rightarrow>
                   if d \<noteq> CHR '':'' then None
                   else case parse_value n r2 of
                     None \<Rightarrow> None
                   | Some (v, r3) \<Rightarrow>
                       (case skip_space r3 of
                          [] \<Rightarrow> None
                        | e # r4 \<Rightarrow> if e = CHR '','' then push_item (k, v) (parse_members n r4)
                                    else if e = CHR ''}'' then Some ([(k, v)], r4) else None)))"

definition JSON_parse :: "string \<Rightarrow> jval option" where
  "JSON_parse s =
     (case parse_value (2 * length s) s of
        None \<Rightarrow> None
      | Some (v, r) \<Rightarrow> if skip_space r = [] then Some v else None)"

section \<open>Enough fuel\<close>

lemma length_skip_space: "length (skip_space s) \<le> length s"
  by (simp add: skip_space_def length_dropWhile_le)

lemma skip_space_Cons: "skip_space s = c # r \<Longrightarrow> length r < length s"
  using length_skip_space [of s] by simp

lemma push_char_Some: "push_char c o1 = Some (t, r) \<longleftrightarrow> (\<exists>t'. o1 = Some (t', r) \<and> t = c # t')"
  by (cases o1) (auto simp: push_char_def)

lemma push_item_Some: "push_item x o1 = Some (ys, r) \<longleftrightarrow> (\<exists>xs. o1 = Some (xs, r) \<and> ys = x # xs)"
  by (cases o1) (auto simp: push_item_def)

lemma parse_chars_Nil: "parse_chars [] = None"
  by simp

lemma parse_chars_quote: "parse_chars (CHR 0x22 # cs) = Some ([], cs)"
  by simp

lemma parse_chars_plain:
  "c \<noteq> CHR 0x22 \<Longrightarrow> c \<noteq> CHR 0x5C \<Longrightarrow>
   parse_chars (c # cs) = (if (of_char c :: nat) < 32 then None else push_char c (parse_chars cs))"
  by simp

declare parse_chars.simps [simp del]

lemma parse_chars_hex:
  "parse_chars (CHR 0x5C # CHR ''u'' # t) =
     (case t of
        a # b # p # q # t' \<Rightarrow>
          if a = CHR ''0'' \<and> b = CHR ''0'' \<and> hex_char p \<and> hex_char q
          then push_char (hex_pair p q) (parse_chars t') else None
      | _ \<Rightarrow> None)"
  by (subst parse_chars.simps) simp

lemma parse_chars_escape:
  "e \<noteq> CHR ''u'' \<Longrightarrow> parse_chars (CHR 0x5C # e # t) =
     (case simple_escape e of None \<Rightarrow> None | Some d \<Rightarrow> push_char d (parse_chars t))"
  by (subst parse_chars.simps) simp

lemma parse_chars_slash: "parse_chars [CHR 0x5C] = None"
  by (subst parse_chars.simps) simp

lemma parse_chars_shorter: "parse_chars s = Some (t, r) \<Longrightarrow> length r < length s"
proof (induction s arbitrary: t rule: length_induct)
  case (1 s)
  then have IH: "parse_chars u = Some (t', r) \<Longrightarrow> length u < length s \<Longrightarrow> length r < length u" for u t'
    by blast
  from "1.prems" obtain c cs where s: "s = c # cs"
    by (cases s) (auto simp: parse_chars_Nil)
  consider "c = CHR 0x22" | "c \<noteq> CHR 0x22" "c \<noteq> CHR 0x5C" | "c = CHR 0x5C" by blast
  then show ?case
  proof cases
    case 1
    with "1.prems" show ?thesis by (simp add: s parse_chars_quote)
  next
    case 2
    with "1.prems" obtain t' where "parse_chars cs = Some (t', r)"
      by (auto simp: s parse_chars_plain push_char_Some split: if_splits)
    from IH [OF this] show ?thesis by (simp add: s)
  next
    case 3
    with "1.prems" obtain e u where cs: "cs = e # u"
      by (cases cs) (auto simp: s parse_chars_slash)
    have "\<exists>w t'. parse_chars w = Some (t', r) \<and> length w \<le> length u"
    proof (cases "e = CHR ''u''")
      case True
      with "1.prems" \<open>c = _\<close> show ?thesis
        by (fastforce simp: s cs parse_chars_hex push_char_Some split: list.splits if_splits)
    next
      case False
      with "1.prems" \<open>c = _\<close> show ?thesis
        by (fastforce simp: s cs parse_chars_escape push_char_Some split: option.splits)
    qed
    then obtain w t' where "parse_chars w = Some (t', r)" "length w \<le> length u" by blast
    with IH [of w t'] show ?thesis by (simp add: s cs)
  qed
qed

lemma digits_shorter: "takeWhile is_digit t \<noteq> [] \<Longrightarrow> length (dropWhile is_digit t) < length t"
  by (cases t) (auto simp: le_imp_less_Suc length_dropWhile_le split: if_splits)

lemma parse_number_shorter: "parse_number s = Some (v, r) \<Longrightarrow> length r < length s"
  using digits_shorter [of s] digits_shorter [of "tl s"]
  by (cases s) (auto simp: parse_number_def Let_def split: if_splits)

lemma parse_word_shorter: "parse_word s = Some (v, r) \<Longrightarrow> length r < length s"
  using parse_number_shorter [of s v r]
  by (cases s) (auto simp: parse_word_def starts_with_def split: if_splits)

text \<open>A reader of a list that has a value reads one item, a separator and the rest.\<close>

lemma parse_elements_Some:
  "parse_elements (Suc n) s = Some (vs, r) \<longleftrightarrow>
     (\<exists>v r1 r2. parse_value n s = Some (v, r1)
       \<and> (skip_space r1 = CHR '','' # r2 \<and> (\<exists>ws. parse_elements n r2 = Some (ws, r) \<and> vs = v # ws)
          \<or> skip_space r1 = CHR '']'' # r \<and> vs = [v]))"
  by (auto simp: push_item_Some split: option.splits list.splits if_splits)

lemma parse_members_Some:
  "parse_members (Suc n) s = Some (ms, r) \<longleftrightarrow>
     (\<exists>q k r1 r2 v r3 r4. skip_space s = CHR 0x22 # q \<and> parse_chars q = Some (k, r1)
       \<and> skip_space r1 = CHR '':'' # r2 \<and> parse_value n r2 = Some (v, r3)
       \<and> (skip_space r3 = CHR '','' # r4 \<and> (\<exists>ns. parse_members n r4 = Some (ns, r) \<and> ms = (k, v) # ns)
          \<or> skip_space r3 = CHR ''}'' # r \<and> ms = [(k, v)]))"
  by (auto simp: push_item_Some split: option.splits list.splits if_splits)

lemma parse_value_cases:
  assumes "parse_value (Suc n) s = Some (v, r)"
  obtains (string) q t where "skip_space s = CHR 0x22 # q" "parse_chars q = Some (t, r)" "v = JStr t"
  | (empty) q where "skip_space s = CHR ''['' # q" "skip_space q = CHR '']'' # r" "v = JArr []"
  | (array) q d q' xs where "skip_space s = CHR ''['' # q" "skip_space q = d # q'" "d \<noteq> CHR '']''"
      "parse_elements n q = Some (xs, r)" "v = JArr xs"
  | (none) q where "skip_space s = CHR ''{'' # q" "skip_space q = CHR ''}'' # r" "v = JObj []"
  | (object) q d q' ms where "skip_space s = CHR ''{'' # q" "skip_space q = d # q'" "d \<noteq> CHR ''}''"
      "parse_members n q = Some (ms, r)" "v = object_of ms"
  | (word) c q where "skip_space s = c # q" "c \<noteq> CHR 0x22" "c \<noteq> CHR ''[''" "c \<noteq> CHR ''{''"
      "parse_word (c # q) = Some (v, r)"
  using assms by (auto split: list.splits if_splits)

definition enough :: "nat \<Rightarrow> (nat \<Rightarrow> string \<Rightarrow> ('a \<times> string) option) \<Rightarrow> nat \<Rightarrow> bool" where
  "enough k f n \<longleftrightarrow> (\<forall>s v r. f n s = Some (v, r) \<longrightarrow>
     length r < length s \<and> (\<forall>m\<ge>2 * (length s - length r) + k. f m s = Some (v, r)))"

lemma enoughD:
  assumes "enough k f n" and "f n s = Some (v, r)"
  shows "length r < length s" and "2 * (length s - length r) + k \<le> m \<Longrightarrow> f m s = Some (v, r)"
  using assms unfolding enough_def by blast+

lemma enough_value:
  assumes "enough 1 parse_elements n" and "enough 1 parse_members n"
  shows "enough 0 parse_value (Suc n)"
  unfolding enough_def
proof (intro allI impI)
  fix s v r
  assume pv: "parse_value (Suc n) s = Some (v, r)"
  from pv show "length r < length s \<and> (\<forall>m\<ge>2 * (length s - length r) + 0. parse_value m s = Some (v, r))"
  proof (cases rule: parse_value_cases)
    case (string q t)
    have "length r < length s"
      using parse_chars_shorter [OF string(2)] skip_space_Cons [OF string(1)] by simp
    moreover have "parse_value m s = Some (v, r)" if "0 < m" for m
      using string that by (cases m) simp_all
    ultimately show ?thesis by simp
  next
    case (empty q)
    have "length r < length s"
      using skip_space_Cons [OF empty(1)] skip_space_Cons [OF empty(2)] by simp
    moreover have "parse_value m s = Some (v, r)" if "0 < m" for m
      using empty that by (cases m) simp_all
    ultimately show ?thesis by simp
  next
    case (none q)
    have "length r < length s"
      using skip_space_Cons [OF none(1)] skip_space_Cons [OF none(2)] by simp
    moreover have "parse_value m s = Some (v, r)" if "0 < m" for m
      using none that by (cases m) simp_all
    ultimately show ?thesis by simp
  next
    case (word c q)
    have "length r < length s"
      using parse_word_shorter [OF word(5)] skip_space_Cons [OF word(1)] by simp
    moreover have "parse_value m s = Some (v, r)" if "0 < m" for m
      using word that by (cases m) simp_all
    ultimately show ?thesis by simp
  next
    case (array q d q' xs)
    note l = enoughD(1) [OF assms(1) array(4)] and e = enoughD(2) [OF assms(1) array(4)]
    have qs: "length q < length s" by (rule skip_space_Cons [OF array(1)])
    have "parse_value m s = Some (v, r)" if "2 * (length s - length r) \<le> m" for m
      using array e [of "m - 1"] that l qs by (cases m) simp_all
    with l qs show ?thesis by simp
  next
    case (object q d q' ms)
    note l = enoughD(1) [OF assms(2) object(4)] and e = enoughD(2) [OF assms(2) object(4)]
    have qs: "length q < length s" by (rule skip_space_Cons [OF object(1)])
    have "parse_value m s = Some (v, r)" if "2 * (length s - length r) \<le> m" for m
      using object e [of "m - 1"] that l qs by (cases m) simp_all
    with l qs show ?thesis by simp
  qed
qed

lemma enough_elements:
  assumes "enough 0 parse_value n" and "enough 1 parse_elements n"
  shows "enough 1 parse_elements (Suc n)"
  unfolding enough_def
proof (intro allI impI)
  fix s vs r
  assume "parse_elements (Suc n) s = Some (vs, r)"
  then obtain v r1 r2 ws where v: "parse_value n s = Some (v, r1)"
    and "skip_space r1 = CHR '','' # r2 \<and> parse_elements n r2 = Some (ws, r) \<and> vs = v # ws
      \<or> skip_space r1 = CHR '']'' # r \<and> vs = [v]"
    unfolding parse_elements_Some by blast
  note lv = enoughD(1) [OF assms(1) v] and ev = enoughD(2) [OF assms(1) v]
  from \<open>_ \<or> _\<close>
  show "length r < length s \<and> (\<forall>m\<ge>2 * (length s - length r) + 1. parse_elements m s = Some (vs, r))"
  proof (elim disjE conjE)
    assume c: "skip_space r1 = CHR '','' # r2" and w: "parse_elements n r2 = Some (ws, r)" and vs: "vs = v # ws"
    note lw = enoughD(1) [OF assms(2) w] and ew = enoughD(2) [OF assms(2) w]
    have r2: "length r2 < length r1" by (rule skip_space_Cons [OF c])
    have "parse_elements m s = Some (vs, r)" if "2 * (length s - length r) + 1 \<le> m" for m
    proof (cases m)
      case (Suc k)
      have "parse_value k s = Some (v, r1)" "parse_elements k r2 = Some (ws, r)"
        using that Suc lv lw r2 by (auto intro!: ev ew)
      with c vs show ?thesis unfolding Suc parse_elements_Some by blast
    qed (use that in simp)
    with lv lw r2 show ?thesis by simp
  next
    assume c: "skip_space r1 = CHR '']'' # r" and vs: "vs = [v]"
    have r: "length r < length r1" by (rule skip_space_Cons [OF c])
    have "parse_elements m s = Some (vs, r)" if "2 * (length s - length r) + 1 \<le> m" for m
    proof (cases m)
      case (Suc k)
      have "parse_value k s = Some (v, r1)" using that Suc lv r by (auto intro!: ev)
      with c vs show ?thesis unfolding Suc parse_elements_Some by blast
    qed (use that in simp)
    with lv r show ?thesis by simp
  qed
qed

lemma enough_members:
  assumes "enough 0 parse_value n" and "enough 1 parse_members n"
  shows "enough 1 parse_members (Suc n)"
  unfolding enough_def
proof (intro allI impI)
  fix s ms r
  assume "parse_members (Suc n) s = Some (ms, r)"
  then obtain q k r1 r2 v r3 r4 ns where k: "skip_space s = CHR 0x22 # q" "parse_chars q = Some (k, r1)"
      "skip_space r1 = CHR '':'' # r2" and v: "parse_value n r2 = Some (v, r3)"
    and "skip_space r3 = CHR '','' # r4 \<and> parse_members n r4 = Some (ns, r) \<and> ms = (k, v) # ns
      \<or> skip_space r3 = CHR ''}'' # r \<and> ms = [(k, v)]"
    unfolding parse_members_Some by blast
  note lv = enoughD(1) [OF assms(1) v] and ev = enoughD(2) [OF assms(1) v]
  have l: "length r2 < length s"
    using skip_space_Cons [OF k(1)] parse_chars_shorter [OF k(2)] skip_space_Cons [OF k(3)] by simp
  from \<open>_ \<or> _\<close>
  show "length r < length s \<and> (\<forall>m\<ge>2 * (length s - length r) + 1. parse_members m s = Some (ms, r))"
  proof (elim disjE conjE)
    assume c: "skip_space r3 = CHR '','' # r4" and w: "parse_members n r4 = Some (ns, r)" and ms: "ms = (k, v) # ns"
    note lw = enoughD(1) [OF assms(2) w] and ew = enoughD(2) [OF assms(2) w]
    have r4: "length r4 < length r3" by (rule skip_space_Cons [OF c])
    have "parse_members m s = Some (ms, r)" if "2 * (length s - length r) + 1 \<le> m" for m
    proof (cases m)
      case (Suc j)
      have "parse_value j r2 = Some (v, r3)" "parse_members j r4 = Some (ns, r)"
        using that Suc lv lw r4 l by (auto intro!: ev ew)
      with c k ms show ?thesis unfolding Suc parse_members_Some by blast
    qed (use that in simp)
    with lv lw r4 l show ?thesis by simp
  next
    assume c: "skip_space r3 = CHR ''}'' # r" and ms: "ms = [(k, v)]"
    have r: "length r < length r3" by (rule skip_space_Cons [OF c])
    have "parse_members m s = Some (ms, r)" if "2 * (length s - length r) + 1 \<le> m" for m
    proof (cases m)
      case (Suc j)
      have "parse_value j r2 = Some (v, r3)" using that Suc lv r l by (auto intro!: ev)
      with c k ms show ?thesis unfolding Suc parse_members_Some by blast
    qed (use that in simp)
    with lv r l show ?thesis by simp
  qed
qed

lemma enough_all:
  "enough 0 parse_value n" "enough 1 parse_elements n" "enough 1 parse_members n"
proof (induction n)
  case 0
  { case 1 show ?case by (simp add: enough_def) next
    case 2 show ?case by (simp add: enough_def) next
    case 3 show ?case by (simp add: enough_def) }
next
  case (Suc n)
  { case 1 show ?case by (rule enough_value [OF Suc(2,3)]) next
    case 2 show ?case by (rule enough_elements [OF Suc(1,2)]) next
    case 3 show ?case by (rule enough_members [OF Suc(1,3)]) }
qed

text \<open>Whatever fuel reads a text, the fuel \<open>JSON_parse\<close> takes reads it too, with the same value.\<close>

lemma parse_value_enough:
  assumes "parse_value n s = Some (v, r)"
  shows "parse_value (2 * length s) s = Some (v, r)"
  using enoughD(2) [OF enough_all(1) assms, of "2 * length s"] by simp

section \<open>Reading back what was written\<close>

text \<open>
  The values \<open>JSON.stringify\<close> writes one for one: no \<open>undefined\<close>, no key twice, no key that the
  engine would move to the front.
\<close>

fun storable :: "jval \<Rightarrow> bool" where
  "storable (JArr xs) = list_all storable xs"
| "storable (JObj ps) =
     (distinct (map fst ps) \<and> list_all (\<lambda>(k, v). \<not> is_index k \<and> storable v) ps)"
| "storable JUndef = False"
| "storable JNonFinite = False"
| "storable (JDate s) = False"
| "storable v = True"

lemma storable_wire: "storable v \<Longrightarrow> wire v"
  by (induction v rule: wire.induct) (auto simp: list_all_iff)

lemma own_order_plain: "list_all (\<lambda>(k, v). \<not> is_index k) ps \<Longrightarrow> own_order ps = ps"
proof -
  assume "list_all (\<lambda>(k, v). \<not> is_index k) ps"
  then have "filter (\<lambda>p. is_index (fst p)) ps = []" "filter (\<lambda>p. \<not> is_index (fst p)) ps = ps"
    by (auto simp: list_all_iff filter_empty_conv filter_id_conv)
  then show ?thesis by (simp add: own_order_def)
qed

lemma parse_chars_written: "parse_chars (concat (map json_escape t) @ CHR 0x22 # x) = Some (t, x)"
proof (induction t)
  case Nil
  show ?case by (simp add: parse_chars_quote)
next
  case (Cons c t)
  show ?case
  proof (cases "c \<in> {CHR 0x22, CHR 0x5C, CHR 0x08, CHR 0x0C, CHR 0x0A, CHR 0x0D, CHR 0x09}")
    case True
    with Cons show ?thesis
      by (elim insertE) (simp_all add: json_escape_def parse_chars_escape simple_escape_def push_char_def)
  next
    case other: False
    show ?thesis
    proof (cases "(of_char c :: nat) < 32")
      case True
      with other have e: "json_escape c = [CHR 0x5C, CHR ''u'', CHR ''0'', CHR ''0'',
           hex_digit (of_char c div 16), hex_digit (of_char c mod 16)]"
        by (simp add: json_escape_def)
      have h: "hex_char (hex_digit n)" "hex_value (lower_char (hex_digit n)) = n" if "n < 16" for n
        using that hex_value_digit [of n]
        by (auto simp: hex_char_def hex_digit_def is_digit_iff lower_char_def is_upper_def less_eq_char_def)
      have "(of_char c :: nat) div 16 < 16" "(of_char c :: nat) mod 16 < 16" using True by simp_all
      with h e Cons show ?thesis by (simp add: parse_chars_hex push_char_def hex_pair_def)
    next
      case False
      with other Cons show ?thesis by (simp add: json_escape_def parse_chars_plain push_char_def)
    qed
  qed
qed

lemma show_nat_lead: "show_nat n = c # cs \<Longrightarrow> c = CHR ''0'' \<Longrightarrow> cs = []"
proof (induction n arbitrary: c cs rule: show_nat.induct)
  case (1 n)
  show ?case
  proof (cases "n < 10")
    case True
    with "1.prems" show ?thesis by (simp add: show_nat.simps [of n])
  next
    case False
    with "1.prems" have s: "show_nat (n div 10) @ [digit_char (n mod 10)] = c # cs"
      by (simp add: show_nat.simps [of n])
    then obtain ds where ds: "show_nat (n div 10) = c # ds"
      by (cases "show_nat (n div 10)") auto
    with "1.IH" False "1.prems"(2) have "show_nat (n div 10) = [CHR ''0'']" by simp
    then have "dec_value (show_nat (n div 10)) = 0" by (simp add: dec_value_def digit_val_def)
    with False show ?thesis by simp
  qed
qed

lemma takeWhile_digits:
  assumes "delim x"
  shows "takeWhile is_digit (show_nat n @ x) = show_nat n" and "dropWhile is_digit (show_nat n @ x) = x"
proof -
  have "x = [] \<or> \<not> is_digit (hd x)" using assms by (auto simp: delim_def is_digit_iff)
  then show "takeWhile is_digit (show_nat n @ x) = show_nat n" "dropWhile is_digit (show_nat n @ x) = x"
    using show_nat_digits [of _ n] by (cases x; auto simp: takeWhile_append dropWhile_append)+
qed

lemma parse_digits_written:
  assumes "delim x"
  shows "parse_number (show_nat n @ x) = Some (JNum (int n), x)"
    and "parse_number (CHR ''-'' # show_nat n @ x) = Some (JNum (- int n), x)"
proof -
  obtain c cs where c: "show_nat n = c # cs" "is_digit c" using show_nat_head by blast
  have neg: "c \<noteq> CHR ''-''" using c(2) by auto
  have x: "\<not> (x \<noteq> [] \<and> hd x \<in> {CHR ''.'', CHR ''e'', CHR ''E''})"
    using assms by (auto simp: delim_def)
  have z: "\<not> (hd (show_nat n) = CHR ''0'' \<and> length (show_nat n) \<noteq> 1)"
    using show_nat_lead [OF c(1)] c(1) by auto
  have "hd (show_nat n @ x) \<noteq> CHR ''-''" using c neg by simp
  then show "parse_number (show_nat n @ x) = Some (JNum (int n), x)"
    using x z by (simp add: parse_number_def Let_def takeWhile_digits [OF assms] del: dropWhile_eq_Nil_conv)
  show "parse_number (CHR ''-'' # show_nat n @ x) = Some (JNum (- int n), x)"
    using x z by (simp add: parse_number_def Let_def takeWhile_digits [OF assms] del: dropWhile_eq_Nil_conv)
qed

lemma parse_number_written: "delim x \<Longrightarrow> parse_number (show_int i @ x) = Some (JNum i, x)"
  using parse_digits_written [of x "nat i"] parse_digits_written [of x "nat (- i)"]
  by (simp add: show_int_def)

text \<open>\<open>f\<close> reads \<open>v\<close> from \<open>s\<close>, leaving \<open>r\<close>, with any fuel that is large enough.\<close>

definition reads :: "(nat \<Rightarrow> string \<Rightarrow> ('a \<times> string) option) \<Rightarrow> string \<Rightarrow> 'a \<Rightarrow> string \<Rightarrow> bool" where
  "reads f s v r \<longleftrightarrow> (\<exists>N. \<forall>m\<ge>N. f m s = Some (v, r))"

lemma readsI: "(\<And>m. N \<le> m \<Longrightarrow> f m s = Some (v, r)) \<Longrightarrow> reads f s v r"
  unfolding reads_def by blast

lemma skip_space_head: "\<not> json_space c \<Longrightarrow> skip_space (c # s) = c # s"
  by (simp add: skip_space_def)

lemma json_space_simps [simp]:
  "\<not> json_space (CHR 0x22)" "\<not> json_space (CHR '','')" "\<not> json_space (CHR '':'')"
  "\<not> json_space (CHR '']'')" "\<not> json_space (CHR ''}'')" "\<not> json_space (CHR ''['')"
  "\<not> json_space (CHR ''{'')" "\<not> json_space (CHR ''n'')" "\<not> json_space (CHR ''t'')" "\<not> json_space (CHR ''f'')"
  by (simp_all add: json_space_def)

lemma reads_word:
  assumes "s = c # q" and "\<not> json_space c" and "c \<noteq> CHR 0x22" and "c \<noteq> CHR ''[''" and "c \<noteq> CHR ''{''"
    and "parse_word s = Some (v, r)"
  shows "reads parse_value s v r"
proof (rule readsI [of 1])
  fix m :: nat
  assume "1 \<le> m"
  with assms show "parse_value m s = Some (v, r)" by (cases m) (simp_all add: skip_space_head)
qed

lemma reads_elements:
  assumes "\<And>v x. v \<in> set vs \<Longrightarrow> delim x \<Longrightarrow> reads parse_value (text_of v @ x) v x" and "vs \<noteq> []"
  shows "reads parse_elements (js_join '','' (map text_of vs) @ CHR '']'' # x) vs x"
  using assms
proof (induction vs)
  case (Cons v ws)
  show ?case
  proof (cases ws)
    case Nil
    obtain N where "\<And>m. N \<le> m \<Longrightarrow> parse_value m (text_of v @ CHR '']'' # x) = Some (v, CHR '']'' # x)"
      using Cons.prems(1) [of v "CHR '']'' # x"] by (auto simp: reads_def delim_def)
    then have "parse_elements m (text_of v @ CHR '']'' # x) = Some ([v], x)" if "Suc N \<le> m" for m
      using that by (cases m) (simp_all add: skip_space_head)
    then show ?thesis unfolding Nil by (intro readsI [of "Suc N"]) simp
  next
    case (Cons w us)
    let ?rest = "js_join '','' (map text_of ws) @ CHR '']'' # x"
    obtain N where N: "\<And>m. N \<le> m \<Longrightarrow> parse_value m (text_of v @ CHR '','' # ?rest) = Some (v, CHR '','' # ?rest)"
      using Cons.prems(1) [of v "CHR '','' # ?rest"] by (auto simp: reads_def delim_def)
    obtain M where M: "\<And>m. M \<le> m \<Longrightarrow> parse_elements m ?rest = Some (ws, x)"
      using Cons.IH Cons.prems Cons by (auto simp: reads_def)
    have "parse_elements m (text_of v @ CHR '','' # ?rest) = Some (v # ws, x)" if "Suc (N + M) \<le> m" for m
      using that N [of "m - 1"] M [of "m - 1"] by (cases m) (simp_all add: skip_space_head push_item_def)
    moreover have "js_join '','' (map text_of (v # ws)) @ CHR '']'' # x = text_of v @ CHR '','' # ?rest"
      using Cons by simp
    ultimately show ?thesis by (intro readsI [of "Suc (N + M)"]) simp
  qed
qed simp

lemma reads_members:
  assumes "\<And>k v x. (k, v) \<in> set ps \<Longrightarrow> delim x \<Longrightarrow> reads parse_value (text_of v @ x) v x" and "ps \<noteq> []"
  shows "reads parse_members (js_join '','' (map pair_text ps) @ CHR ''}'' # x) ps x"
  using assms
proof (induction ps)
  case (Cons p qs)
  obtain k v where p: "p = (k, v)" by (cases p)
  have key: "parse_chars (concat (map json_escape k) @ CHR 0x22 # z) = Some (k, z)" for z
    by (rule parse_chars_written)
  show ?case
  proof (cases qs)
    case Nil
    obtain N where "\<And>m. N \<le> m \<Longrightarrow> parse_value m (text_of v @ CHR ''}'' # x) = Some (v, CHR ''}'' # x)"
      using Cons.prems(1) [of k v "CHR ''}'' # x"] by (auto simp: reads_def delim_def p)
    then have "parse_members m (pair_text p @ CHR ''}'' # x) = Some ([p], x)" if "Suc N \<le> m" for m
      using that by (cases m) (simp_all add: skip_space_head p pair_text_def json_quote_def key)
    then show ?thesis unfolding Nil by (intro readsI [of "Suc N"]) simp
  next
    case (Cons q us)
    let ?rest = "js_join '','' (map pair_text qs) @ CHR ''}'' # x"
    obtain N where N: "\<And>m. N \<le> m \<Longrightarrow> parse_value m (text_of v @ CHR '','' # ?rest) = Some (v, CHR '','' # ?rest)"
      using Cons.prems(1) [of k v "CHR '','' # ?rest"] by (auto simp: reads_def delim_def p)
    have "reads parse_members ?rest qs x"
    proof (rule Cons.IH)
      show "reads parse_value (text_of v' @ x') v' x'" if "(k', v') \<in> set qs" "delim x'" for k' v' x'
        using Cons.prems(1) [of k' v' x'] that by simp
    qed (use Cons in simp)
    then obtain M where M: "\<And>m. M \<le> m \<Longrightarrow> parse_members m ?rest = Some (qs, x)"
      by (auto simp: reads_def)
    have "parse_members m (pair_text p @ CHR '','' # ?rest) = Some (p # qs, x)" if "Suc (N + M) \<le> m" for m
      using that N [of "m - 1"] M [of "m - 1"]
      by (cases m) (simp_all add: skip_space_head push_item_def p pair_text_def json_quote_def key)
    moreover have "js_join '','' (map pair_text (p # qs)) @ CHR ''}'' # x = pair_text p @ CHR '','' # ?rest"
      using Cons by simp
    ultimately show ?thesis by (intro readsI [of "Suc (N + M)"]) simp
  qed
qed simp

lemma map_set_new: "k \<notin> fst ` set ps \<Longrightarrow> map_set ps k v = ps @ [(k, v)]"
  by (induction ps) (auto simp: map_set_def)

lemma foldl_map_set:
  "distinct (map fst (ps @ qs)) \<Longrightarrow> foldl (\<lambda>m (k, v). map_set m k v) ps qs = ps @ qs"
proof (induction qs arbitrary: ps)
  case (Cons q qs)
  then show ?case by (cases q) (simp add: map_set_new Cons.IH [of "ps @ [q]"])
qed simp

lemma object_of_distinct: "distinct (map fst ps) \<Longrightarrow> object_of ps = JObj ps"
  using foldl_map_set [of "[]" ps] by (simp add: object_of_def)

lemma num_char_head: "num_char c \<Longrightarrow> \<not> json_space c \<and> c \<noteq> CHR 0x22 \<and> c \<noteq> CHR ''['' \<and> c \<noteq> CHR ''{''
    \<and> c \<noteq> CHR ''n'' \<and> c \<noteq> CHR ''t'' \<and> c \<noteq> CHR ''f'' \<and> c \<noteq> CHR '']''"
  by (auto simp: num_char_def is_digit_iff json_space_def)

lemma show_int_head: "\<exists>c q. show_int i = c # q \<and> num_char c"
  using show_int_chars [of "hd (show_int i)" i] by (cases "show_int i") (auto simp: num_char_def)

lemma reads_number: "delim x \<Longrightarrow> reads parse_value (show_int i @ x) (JNum i) x"
proof -
  assume x: "delim x"
  obtain c q where c: "show_int i = c # q" "num_char c"
    using show_int_head by blast
  note h = num_char_head [OF c(2)]
  have "parse_word (show_int i @ x) = Some (JNum i, x)"
    using c(1) h parse_number_written [OF x, of i] by (simp add: parse_word_def starts_with_def)
  with c(1) h show ?thesis by (intro reads_word [where c = c and q = "q @ x"]) simp_all
qed

lemma text_of_open: "storable v \<Longrightarrow> \<exists>h t. text_of v = h # t \<and> \<not> json_space h \<and> h \<noteq> CHR '']''"
proof (cases v)
  case (JNum n)
  with show_int_head [of n] num_char_head show ?thesis by fastforce
qed (simp_all add: json_quote_def)

lemma reads_text_of: "storable v \<Longrightarrow> delim x \<Longrightarrow> reads parse_value (text_of v @ x) v x"
proof (induction v arbitrary: x)
  case (JStr t)
  have "parse_value m (text_of (JStr t) @ x) = Some (JStr t, x)" if "1 \<le> m" for m
    using that parse_chars_written [of t x]
    by (cases m) (simp_all add: json_quote_def skip_space_head)
  then show ?case by (rule readsI)
next
  case (JArr vs)
  show ?case
  proof (cases vs)
    case Nil
    have "parse_value m (text_of (JArr vs) @ x) = Some (JArr vs, x)" if "1 \<le> m" for m
      using that Nil by (cases m) (simp_all add: skip_space_head)
    then show ?thesis by (rule readsI)
  next
    case (Cons w ws)
    let ?t = "js_join '','' (map text_of vs) @ CHR '']'' # x"
    have "reads parse_elements ?t vs x"
      using JArr Cons by (intro reads_elements) (auto simp: list_all_iff)
    then obtain N where N: "\<And>m. N \<le> m \<Longrightarrow> parse_elements m ?t = Some (vs, x)"
      by (auto simp: reads_def)
    obtain h t where "text_of w = h # t" "\<not> json_space h" "h \<noteq> CHR '']''"
      using text_of_open [of w] JArr.prems(1) Cons by auto
    then obtain q where "?t = h # q" "skip_space ?t = h # q"
      using Cons by (cases ws) (simp_all add: skip_space_head)
    then have "parse_value m (text_of (JArr vs) @ x) = Some (JArr vs, x)" if "Suc N \<le> m" for m
      using that N [of "m - 1"] \<open>h \<noteq> _\<close> by (cases m) (simp_all add: skip_space_head)
    then show ?thesis by (rule readsI)
  qed
next
  case (JObj ps)
  have own: "own_order ps = ps"
    using JObj.prems by (intro own_order_plain) (auto simp: list_all_iff)
  show ?case
  proof (cases ps)
    case Nil
    have "parse_value m (text_of (JObj ps) @ x) = Some (JObj ps, x)" if "1 \<le> m" for m
      using that Nil by (cases m) (simp_all add: skip_space_head own_order_def)
    then show ?thesis by (rule readsI)
  next
    case (Cons p qs)
    let ?t = "js_join '','' (map pair_text ps) @ CHR ''}'' # x"
    have "reads parse_members ?t ps x"
    proof (rule reads_members)
      show "reads parse_value (text_of v @ z) v z" if "(k, v) \<in> set ps" "delim z" for k v z
        using JObj.IH [OF that(1), of v z] JObj.prems(1) that by (auto simp: list_all_iff)
    qed (use Cons in simp)
    then obtain N where N: "\<And>m. N \<le> m \<Longrightarrow> parse_members m ?t = Some (ps, x)"
      by (auto simp: reads_def)
    obtain q where "?t = CHR 0x22 # q" "skip_space ?t = CHR 0x22 # q"
      using Cons by (cases qs) (simp_all add: pair_text_def json_quote_def skip_space_head)
    then have "parse_value m (text_of (JObj ps) @ x) = Some (JObj ps, x)" if "Suc N \<le> m" for m
      using that N [of "m - 1"] JObj.prems(1)
      by (cases m) (simp_all add: skip_space_head text_of_JObj own object_of_distinct del: text_of.simps(5))
    then show ?thesis by (rule readsI)
  qed
next
  case (JNum n)
  then show ?case using reads_number by simp
qed (auto intro!: reads_word simp: parse_word_def starts_with_def)

lemma JSON_parse_text: "storable v \<Longrightarrow> JSON_parse (text_of v) = Some v"
proof -
  assume "storable v"
  then have "reads parse_value (text_of v @ []) v []" by (intro reads_text_of) (simp_all add: delim_def)
  then obtain n where "parse_value n (text_of v) = Some (v, [])" by (auto simp: reads_def)
  from parse_value_enough [OF this] show ?thesis by (simp add: JSON_parse_def skip_space_def)
qed

lemma JSON_parse_stringify: "storable v \<Longrightarrow> stringify v = Some t \<Longrightarrow> JSON_parse t = Some v"
  using JSON_parse_text [of v] stringify_wire [OF storable_wire, of v] by simp

end
