(* ===== verification/ServiceForms.thy ===== *)
theory ServiceForms
  imports Console Json
begin

text \<open>
  The reading of the forms of \<open>src/services/service.service.ts\<close> (lines 22 to 195): source
  repositories, port mappings, endpoints, environment and subdomains, as they arrive in the body of
  a request or come back from a JSON column. An exception is the \<open>Inl\<close> of its status.
\<close>

section \<open>Data\<close>

record port_mapping =
  hostPort :: int
  containerPort :: int

record service_endpoint = port_mapping +
  componentName :: string
  subdomain :: "string option"

record source_repository =
  repo_url :: string
  repo_rootDirectory :: "string option"

text \<open>\<open>a ?? b\<close>\<close>

definition nullish :: "jval \<Rightarrow> jval \<Rightarrow> jval" where
  "nullish a b = (if a = JUndef \<or> a = JNull then b else a)"

text \<open>\<open>value \<and> typeof value === 'object'\<close>\<close>

fun is_object :: "jval \<Rightarrow> bool" where
  "is_object (JObj ps) = True"
| "is_object (JArr xs) = True"
| "is_object (JDate s) = True"
| "is_object v = False"

fun array_items :: "jval \<Rightarrow> jval list" where
  "array_items (JArr xs) = xs"
| "array_items v = []"

section \<open>Single values\<close>

definition parseServiceIndex :: "string \<Rightarrow> http_error + nat" where
  "parseServiceIndex serviceIdx =
     (case js_number_text serviceIdx of
        None \<Rightarrow> Inl (BadRequest ''Invalid Service Index.'')
      | Some n \<Rightarrow> if n < 1 then Inl (BadRequest ''Invalid Service Index.'') else Inr (nat n))"

fun normalizeEnv :: "jval \<Rightarrow> jval" where
  "normalizeEnv (JObj ps) = JObj (map (\<lambda>(k, v). (k, JStr (js_string v))) ps)"
| "normalizeEnv v = JObj []"

definition normalizeRootDirectory :: "jval \<Rightarrow> string option" where
  "normalizeRootDirectory rootDirectory =
     (let v = dropWhile (\<lambda>c. c = CHR ''/'') (js_trim (js_string (nullish rootDirectory (JStr []))))
      in if v = [] then None else Some v)"

definition normalizeServiceSubdomain :: "string option \<Rightarrow> string option" where
  "normalizeServiceSubdomain sub =
     (case sub of None \<Rightarrow> None
      | Some s \<Rightarrow> (let v = js_lower (js_trim s) in Some (if v = ''@'' then [] else v)))"

text \<open>The label \<open>^[a-z0-9]([a-z0-9-]{0,61}[a-z0-9])?$\<close>\<close>

definition label_char :: "char \<Rightarrow> bool" where
  "label_char c \<longleftrightarrow> is_lower c \<or> is_digit c \<or> c = CHR ''-''"

definition is_label :: "string \<Rightarrow> bool" where
  "is_label s \<longleftrightarrow>
     s \<noteq> [] \<and> length s \<le> 63 \<and> list_all label_char s \<and> hd s \<noteq> CHR ''-'' \<and> last s \<noteq> CHR ''-''"

definition assertServiceSubdomainFormat :: "string option \<Rightarrow> http_error + unit" where
  "assertServiceSubdomainFormat sub =
     (case sub of None \<Rightarrow> Inr ()
      | Some s \<Rightarrow> if s = [] \<or> is_label s then Inr ()
                  else Inl (BadRequest ''Invalid Service Subdomain.''))"

section \<open>Source repositories\<close>

definition source_entry :: "jval \<Rightarrow> source_repository" where
  "source_entry entry =
     (case entry of
        JStr s \<Rightarrow> \<lparr>repo_url = s, repo_rootDirectory = None\<rparr>
      | _ \<Rightarrow>
          if is_object entry then
            \<lparr>repo_url = js_trim (js_string
               (nullish (nullish (field ''url'' entry) (field ''sourceUrl'' entry)) (JStr []))),
             repo_rootDirectory = normalizeRootDirectory (field ''rootDirectory'' entry)\<rparr>
          else \<lparr>repo_url = [], repo_rootDirectory = None\<rparr>)"

definition source_entries :: "jval \<Rightarrow> jval \<Rightarrow> source_repository list" where
  "source_entries input fallbackRootDirectory =
     (case input of
        JStr s \<Rightarrow> [\<lparr>repo_url = s, repo_rootDirectory = normalizeRootDirectory fallbackRootDirectory\<rparr>]
      | JArr xs \<Rightarrow> map source_entry xs
      | _ \<Rightarrow> [])"

definition tidy_source :: "source_repository \<Rightarrow> source_repository" where
  "tidy_source e = \<lparr>repo_url = js_trim (repo_url e),
     repo_rootDirectory = normalizeRootDirectory (jopt (repo_rootDirectory e))\<rparr>"

definition normalizeSourceRepositories :: "jval \<Rightarrow> jval \<Rightarrow> http_error + source_repository list" where
  "normalizeSourceRepositories input fallbackRootDirectory =
     (let normalized = filter (\<lambda>e. repo_url e \<noteq> [])
            (map tidy_source (source_entries input fallbackRootDirectory))
      in if normalized = [] then Inl (BadRequest ''At least one source repository is required.'')
         else Inr normalized)"

definition source_json :: "source_repository \<Rightarrow> jval" where
  "source_json e = JObj [(''url'', JStr (repo_url e)), (''rootDirectory'', jopt (repo_rootDirectory e))]"

definition serializeSourceRepositories :: "source_repository list \<Rightarrow> string" where
  "serializeSourceRepositories entries =
     (if length entries = 1 \<and> falsy (repo_rootDirectory (hd entries)) then repo_url (hd entries)
      else the (stringify (JArr (map source_json entries))))"

text \<open>What a redeployment reads: the text as JSON where it is JSON, else the text itself.\<close>

definition parse_source :: "jval \<Rightarrow> jval" where
  "parse_source input =
     (case input of JStr s \<Rightarrow> (case JSON_parse s of None \<Rightarrow> JStr s | Some v \<Rightarrow> v) | v \<Rightarrow> v)"

section \<open>Port mappings\<close>

definition read_port :: "jval \<Rightarrow> int option" where
  "read_port v =
     (case js_number v of None \<Rightarrow> None | Some n \<Rightarrow> if n < 1 \<or> n > 65535 then None else Some n)"

definition port_entry :: "string \<Rightarrow> string \<Rightarrow> jval \<Rightarrow> port_mapping option" where
  "port_entry hostName containerName entry =
     (if \<not> is_object entry then None
      else case (read_port (nullish (field ''hostPort'' entry) (field hostName entry)),
                 read_port (nullish (field ''containerPort'' entry) (field containerName entry))) of
        (Some hp, Some cp) \<Rightarrow> Some \<lparr>hostPort = hp, containerPort = cp\<rparr>
      | _ \<Rightarrow> None)"

fun check_ports :: "port_mapping list \<Rightarrow> int list \<Rightarrow> int list \<Rightarrow> http_error + unit" where
  "check_ports [] hostPorts containerPorts = Inr ()"
| "check_ports (m # ms) hostPorts containerPorts =
     (if hostPort m \<in> set hostPorts then Inl (BadRequest (''Duplicate host port: '' @ show_int (hostPort m)))
      else if containerPort m \<in> set containerPorts
      then Inl (BadRequest (''Duplicate container port: '' @ show_int (containerPort m)))
      else check_ports ms (hostPort m # hostPorts) (containerPort m # containerPorts))"

definition normalizePortMappings ::
  "jval \<Rightarrow> int option \<Rightarrow> int option \<Rightarrow> http_error + port_mapping list" where
  "normalizePortMappings input fallbackHostPort fallbackContainerPort =
     (let read = List.map_filter (port_entry ''serviceHostPort'' ''serviceContainerPort'') (array_items input);
          mappings = (case (read, fallbackHostPort, fallbackContainerPort) of
              ([], Some hp, Some cp) \<Rightarrow> [\<lparr>hostPort = hp, containerPort = cp\<rparr>]
            | _ \<Rightarrow> read)
      in if mappings = [] then Inl (BadRequest ''At least one port mapping is required.'')
         else case check_ports mappings [] [] of Inl e \<Rightarrow> Inl e | Inr u \<Rightarrow> Inr mappings)"

section \<open>Endpoints\<close>

definition defaultComponentName :: "string \<Rightarrow> deploy_preset \<Rightarrow> string" where
  "defaultComponentName serviceName deployPreset =
     (if deployPreset = Compose then serviceName else ''app'')"

text \<open>One entry: \<open>Inr None\<close> is an entry that is left out, \<open>Inl\<close> an exception.\<close>

definition endpoint_entry :: "string \<Rightarrow> jval \<Rightarrow> http_error + service_endpoint option" where
  "endpoint_entry defaultName entry =
     (case port_entry ''endpointHostPort'' ''endpointContainerPort'' entry of
        None \<Rightarrow> Inr None
      | Some m \<Rightarrow>
          (let sub = normalizeServiceSubdomain
                 (if field ''subdomain'' entry = JUndef then None
                  else Some (js_string (field ''subdomain'' entry)));
               name = js_trim (js_string (nullish
                 (nullish (field ''componentName'' entry) (field ''endpointComponentName'' entry))
                 (JStr defaultName)))
           in case assertServiceSubdomainFormat sub of
                Inl e \<Rightarrow> Inl e
              | Inr u \<Rightarrow> Inr (Some \<lparr>hostPort = hostPort m, containerPort = containerPort m,
                  componentName = (if name = [] then defaultName else name), subdomain = sub\<rparr>)))"

fun endpoint_entries :: "string \<Rightarrow> jval list \<Rightarrow> http_error + service_endpoint list" where
  "endpoint_entries defaultName [] = Inr []"
| "endpoint_entries defaultName (x # xs) =
     (case endpoint_entry defaultName x of
        Inl e \<Rightarrow> Inl e
      | Inr r \<Rightarrow> (case endpoint_entries defaultName xs of
          Inl e \<Rightarrow> Inl e
        | Inr es \<Rightarrow> Inr ((case r of None \<Rightarrow> [] | Some ep \<Rightarrow> [ep]) @ es)))"

definition endpoint_of_mapping :: "string \<Rightarrow> string option \<Rightarrow> port_mapping \<Rightarrow> service_endpoint" where
  "endpoint_of_mapping name sub m =
     \<lparr>hostPort = hostPort m, containerPort = containerPort m, componentName = name, subdomain = sub\<rparr>"

definition normalizeEndpoints ::
  "jval \<Rightarrow> port_mapping list \<Rightarrow> string \<Rightarrow> deploy_preset \<Rightarrow> string option
    \<Rightarrow> http_error + service_endpoint list" where
  "normalizeEndpoints input portMappings serviceName deployPreset existingPrimarySubdomain =
     (let defaultName = defaultComponentName serviceName deployPreset
      in case endpoint_entries defaultName (array_items input) of
           Inl e \<Rightarrow> Inl e
         | Inr endpoints \<Rightarrow>
             if endpoints \<noteq> [] then Inr endpoints
             else case portMappings of
               [] \<Rightarrow> Inr []
             | m # ms \<Rightarrow> Inr (endpoint_of_mapping defaultName existingPrimarySubdomain m
                             # map (endpoint_of_mapping defaultName None) ms))"

end
