(* ===== verification/Requests.thy ===== *)
theory Requests
  imports Accounts ServiceForms
begin

text \<open>
  What every HTTP request passes on its way to a service: the origin check of \<open>src/main.ts\<close> and
  \<open>src/global/origin.util.ts\<close>, the guards under \<open>src/auth/interceptor/\<close>, the cookies, the exception
  filters of \<open>src/global/Global.filter.ts\<close> and the renaming of columns by \<open>toCamelCase\<close>.

  Environment variables are read as settings. The JWT library verifies the signature and the
  expiry of the access token; that it found it expired is its own answer (\<open>cfg_jwtExpired\<close>).
\<close>

section \<open>Origins\<close>

definition allowedOrigins :: "config \<Rightarrow> string list" where
  "allowedOrigins cfg =
     filter (\<lambda>s. s \<noteq> []) (map js_trim (split_on (CHR '','')
       (case cfg_text cfg ''CORS_ORIGIN'' of None \<Rightarrow> [] | Some s \<Rightarrow> s)))"

definition isAllowedOrigin :: "config \<Rightarrow> string option \<Rightarrow> bool" where
  "isAllowedOrigin cfg origin =
     (case origin of None \<Rightarrow> False | Some s \<Rightarrow> s \<in> set (allowedOrigins cfg))"

definition ORIGIN_EXEMPT_METHODS :: "string list" where
  "ORIGIN_EXEMPT_METHODS = [''GET'', ''HEAD'', ''OPTIONS'']"

definition origin_passes :: "config \<Rightarrow> string \<Rightarrow> string option \<Rightarrow> bool" where
  "origin_passes cfg method origin \<longleftrightarrow>
     method \<in> set ORIGIN_EXEMPT_METHODS \<or> origin = None \<or> isAllowedOrigin cfg origin"

text \<open>The same check at the handshake of a socket.\<close>

definition allowRequest :: "config \<Rightarrow> string option \<Rightarrow> bool" where
  "allowRequest cfg origin \<longleftrightarrow> origin = None \<or> isAllowedOrigin cfg origin"

section \<open>Guards\<close>

text \<open>
  \<open>JwtStrategy.validate\<close> looks the user up by the claim \<open>userIndex\<close>. Where the claim is missing the
  condition is \<open>undefined\<close>, which Prisma takes as no condition.
\<close>

definition jwt_validate :: "claims \<Rightarrow> hub \<Rightarrow> http_error + users_row" where
  "jwt_validate payload h =
     (case find (\<lambda>u. (case cl_userIndex payload of None \<Rightarrow> True | Some i \<Rightarrow> user_index u = i)
            \<and> \<not> user_restriction u) (users h) of
        None \<Rightarrow> Inl (Unauthorized ''The credentials are not valid.'')
      | Some exist \<Rightarrow> Inr exist)"

definition JwtGuard :: "config \<Rightarrow> string option \<Rightarrow> hub \<Rightarrow> http_error + users_row" where
  "JwtGuard cfg accessToken h =
     (if falsy accessToken then Inl (Unauthorized ''Unauthorized'')
      else if cfg_jwtExpired cfg (the accessToken) (clock h) then Inl TokenExpired
      else case cfg_verifyJwt cfg (the accessToken) (clock h) of
        None \<Rightarrow> Inl (Unauthorized ''Unauthorized'')
      | Some payload \<Rightarrow> jwt_validate payload h)"

definition extractToken :: "jval \<Rightarrow> jval \<Rightarrow> http_error + string" where
  "extractToken totpHeader body =
     (case nullish totpHeader (field ''totpCode'' body) of
        JArr xs \<Rightarrow> Inl (BadRequest ''TOTP code must be a single value.'')
      | JStr s \<Rightarrow> Inr (js_trim s)
      | v \<Rightarrow> Inl (BadRequest ''TOTP code is required.''))"

definition TwoFactorGuard ::
  "config \<Rightarrow> nat option \<Rightarrow> jval \<Rightarrow> jval \<Rightarrow> hub \<Rightarrow> (http_error + bool) \<times> hub" where
  "TwoFactorGuard cfg userIndex totpHeader body h =
     (case userIndex of
        None \<Rightarrow> throw (Unauthorized ''Authentication is required.'') h
      | Some i \<Rightarrow>
          if i = 0 then throw (Unauthorized ''Authentication is required.'') h
          else if (case find_user i h of None \<Rightarrow> True | Some u \<Rightarrow> \<not> user_totp_active u)
          then throw (Forbidden ''Two Factor Authentication must be enabled.'') h
          else andThen (check (extractToken totpHeader body) h) (\<lambda>tok. verifyActiveUserTotp cfg i tok))"

definition InternalSecretGuard :: "config \<Rightarrow> string option \<Rightarrow> http_error + bool" where
  "InternalSecretGuard cfg secret =
     (let expected = cfg_text cfg ''TUNNEL_INTERNAL_SECRET''
      in if falsy expected \<or> secret \<noteq> expected then Inl (Unauthorized ''Unauthorized'') else Inr True)"

definition PermissionGuard :: "user_permission list \<Rightarrow> users_row option \<Rightarrow> http_error + bool" where
  "PermissionGuard required user =
     (if required = [] then Inr True
      else case user of
        None \<Rightarrow> Inl (Unauthorized ''Unauthorized'')
      | Some u \<Rightarrow>
          if user_permission u \<notin> set required
          then Inl (Forbidden ''You do not have the permission for this.'') else Inr True)"

section \<open>Cookies\<close>

record cookie_options =
  co_httpOnly :: bool
  co_secure :: bool
  co_sameSite :: string

definition cookieOptions :: "config \<Rightarrow> cookie_options" where
  "cookieOptions cfg =
     (let isProd = (cfg_text cfg ''RUNNING_MODE'' = Some ''PRODUCTION'')
      in \<lparr>co_httpOnly = True, co_secure = isProd, co_sameSite = (if isProd then ''none'' else ''lax'')\<rparr>)"

datatype cookie_change = SetCookie string string cookie_options | ClearCookie string cookie_options

text \<open>The interceptor moves the tokens of an answer into cookies, an empty one not.\<close>

definition CookieInterceptor :: "config \<Rightarrow> string \<times> string \<Rightarrow> cookie_change list" where
  "CookieInterceptor cfg tokens =
     (if snd tokens \<noteq> [] then [SetCookie ''refreshToken'' (snd tokens) (cookieOptions cfg)] else [])
     @ (if fst tokens \<noteq> [] then [SetCookie ''accessToken'' (fst tokens) (cookieOptions cfg)] else [])"

definition setCookies :: "config \<Rightarrow> string \<Rightarrow> string \<Rightarrow> cookie_change list" where
  "setCookies cfg accessToken refreshToken =
     [SetCookie ''accessToken'' accessToken (cookieOptions cfg),
      SetCookie ''refreshToken'' refreshToken (cookieOptions cfg)]"

definition clearCookies :: "config \<Rightarrow> cookie_change list" where
  "clearCookies cfg =
     [ClearCookie ''accessToken'' (cookieOptions cfg), ClearCookie ''refreshToken'' (cookieOptions cfg)]"

section \<open>Answers and exception filters\<close>

text \<open>Codes of \<open>src/global/Code.enum.ts\<close>; \<open>resp_body\<close> is what the route puts into \<open>data\<close>.\<close>

definition SUCCESS_CODE :: string where "SUCCESS_CODE = ''F200''"
definition FAIL_CODE :: string where "FAIL_CODE = ''F400''"
definition NOT_IMPLEMENTED_CODE :: string where "NOT_IMPLEMENTED_CODE = ''F501''"
definition CONNECTED_CODE :: string where "CONNECTED_CODE = ''G0C1''"
definition LOGOUT_CODE :: string where "LOGOUT_CODE = ''A0F4''"
definition RETRY_CODE :: string where "RETRY_CODE = ''A0F5''"
definition TOTP_REQUIRED_CODE :: string where "TOTP_REQUIRED_CODE = ''A0F6''"

record 'a response =
  resp_status :: nat
  resp_code :: "string option"
  resp_message :: string
  resp_data :: "'a option"
  resp_cookies :: "cookie_change list"

definition please_log_in :: "config \<Rightarrow> 'a response" where
  "please_log_in cfg = \<lparr>resp_status = 401, resp_code = Some LOGOUT_CODE,
     resp_message = ''Please Re-Login.'', resp_data = None, resp_cookies = clearCookies cfg\<rparr>"

text \<open>\<open>TokenRefreshFilter\<close>: an expired access token is answered by a new pair of tokens.\<close>

definition TokenRefreshFilter ::
  "config \<Rightarrow> string option \<Rightarrow> hub \<Rightarrow> (http_error + 'a response) \<times> hub" where
  "TokenRefreshFilter cfg refreshToken h =
     (if falsy refreshToken then give (please_log_in cfg) h
      else andThen (refresh cfg refreshToken h) (\<lambda>pair h1.
        case pair of
          None \<Rightarrow> give (please_log_in cfg) h1
        | Some (access, fresh) \<Rightarrow>
            if access = [] \<or> fresh = [] then give (please_log_in cfg) h1
            else give \<lparr>resp_status = 200, resp_code = Some RETRY_CODE,
                   resp_message = ''Please Request Again.'', resp_data = None,
                   resp_cookies = setCookies cfg access fresh\<rparr> h1))"

text \<open>
  \<open>HttpExceptionFilter\<close> on the body an exception carries: a text, or an object whose \<open>message\<close> may be
  a list of texts.
\<close>

definition exception_message :: "jval \<Rightarrow> jval" where
  "exception_message errorResponse =
     (case errorResponse of
        JStr s \<Rightarrow> JStr s
      | v \<Rightarrow> (case field ''message'' v of
                JArr xs \<Rightarrow> JStr (js_join '' '' (map (\<lambda>x. if x = JUndef \<or> x = JNull then [] else js_string x) xs))
              | m \<Rightarrow> m))"

definition createResponseBody :: "jval \<Rightarrow> jval \<Rightarrow> nat \<Rightarrow> jval" where
  "createResponseBody errorResponse message error =
     (let extra = (case errorResponse of JObj ps \<Rightarrow> ps | v \<Rightarrow> [])
      in JObj (map_set (map_set extra ''message'' message) ''error'' (jnat error)))"

definition HttpExceptionFilter :: "jval \<Rightarrow> nat \<Rightarrow> jval" where
  "HttpExceptionFilter errorResponse statusCode =
     createResponseBody errorResponse (exception_message errorResponse) statusCode"

fun error_text :: "http_error \<Rightarrow> string" where
  "error_text (BadRequest m) = m"
| "error_text (Unauthorized m) = m"
| "error_text (Forbidden m) = m"
| "error_text (NotFound m) = m"
| "error_text (Conflict m) = m"
| "error_text (Gone m) = m"
| "error_text (ServiceUnavailable m) = m"
| "error_text AgentNotConnected = ''Agent is not connected with requested workspace.''"
| "error_text (TooManyRequests n) = ''Please wait before requesting another verification email.''"
| "error_text TotpRequired = ''TOTP code is required.''"
| "error_text TokenExpired = ''Access Token Expired''"
| "error_text (InternalError m) = m"

definition error_response :: "http_error \<Rightarrow> 'a response" where
  "error_response e = \<lparr>resp_status = http_status e,
     resp_code = (if e = TotpRequired then Some TOTP_REQUIRED_CODE else None),
     resp_message = error_text e, resp_data = None, resp_cookies = []\<rparr>"

section \<open>Column names\<close>

fun toCamel :: "string \<Rightarrow> string" where
  "toCamel (a # b # cs) =
     (if a = CHR ''_'' \<and> is_lower b then upper_char b # toCamel cs else a # toCamel (b # cs))"
| "toCamel s = s"

text \<open>\<open>Object.entries\<close> of a date is empty; of two keys with one name the later value stays.\<close>

fun toCamelCase :: "jval \<Rightarrow> jval" where
  "toCamelCase (JArr xs) = JArr (map toCamelCase xs)"
| "toCamelCase (JObj ps) =
     JObj (fold (\<lambda>(k, v) acc. map_set acc (toCamel k) v) (map (\<lambda>(k, v). (k, toCamelCase v)) ps) [])"
| "toCamelCase (JDate s) = JObj []"
| "toCamelCase v = v"

end
