(* ===== verification/Terminal.thy ===== *)
theory Terminal
  imports Console
begin

text \<open>
  The terminal sessions of \<open>src/agent/console.gateway.ts\<close>: opening with a token that is used up,
  input, resize and close from the console, output from the agent, and the cleanup when either
  side disconnects. \<open>consumedTerminalTokens\<close> maps a used token id to the time at which its
  deletion timer is due.
\<close>

section \<open>Opening\<close>

definition clampDimension :: "jval \<Rightarrow> int \<Rightarrow> int" where
  "clampDimension v fallback =
     (case v of JNum n \<Rightarrow> min 500 (max 1 n) | _ \<Rightarrow> fallback)"

definition tokenLifetimeMs :: "int option \<Rightarrow> int \<Rightarrow> int" where
  "tokenLifetimeMs exp now =
     max 1000 ((case exp of Some e \<Rightarrow> e | None \<Rightarrow> now div 1000 + 60) * 1000 - now)"

text \<open>
  The handler waits once, for the database to say whether the user may use the agent. Before that it
  checks the token, after that it uses it up: \<open>terminal_open_begin\<close> and \<open>terminal_open_end\<close> are the two
  parts, and \<open>handleTerminalOpen\<close> is the handler when nothing happens while it waits. Theory \<open>Races\<close> lets
  other handlers run in between.
\<close>

definition terminal_open_begin :: "config \<Rightarrow> string \<Rightarrow> jval \<Rightarrow> hub \<Rightarrow> ack + claims" where
  "terminal_open_begin cfg clientId payload h =
     (case str_field ''token'' payload of
        None \<Rightarrow> Inl (AckError ''Terminal authorization failed.'')
      | Some tok \<Rightarrow>
     (case verifyPurposeToken cfg tok TERMINAL_SSH (clock h) of
        Inl e \<Rightarrow> Inl (AckError ''Terminal authorization failed.'')
      | Inr t \<Rightarrow>
        if falsy (cl_jti t) \<or> map_get (consumedTerminalTokens h) (the (cl_jti t)) \<noteq> None
        then Inl (AckError ''Terminal token was already used.'')
        else if falsy (cl_agentUuid t) \<or> cl_sub t = None \<or> cl_sub t \<noteq> socket_user clientId h
        then Inl (AckError ''Terminal token does not match this session.'')
        else Inr t))"

definition terminal_open_end :: "config \<Rightarrow> string \<Rightarrow> jval \<Rightarrow> claims \<Rightarrow> bool \<Rightarrow> hub \<Rightarrow> ack \<times> hub" where
  "terminal_open_end cfg clientId payload t access h =
     (if \<not> access then (AckError ''Agent access denied.'', h)
      else
        (let agentUuid = the (cl_agentUuid t);
             (sessionId, h1) = draw cfg h;
             h2 = h1\<lparr>consumedTerminalTokens := map_set (consumedTerminalTokens h1) (the (cl_jti t))
                        (clock h1 + tokenLifetimeMs (cl_exp t) (clock h1)),
                     terminalSessions := map_set (terminalSessions h1) sessionId
                        \<lparr>consoleSocketId = clientId, session_agentUuid = agentUuid\<rparr>\<rparr>;
             (delivered, h3) = sendToAgent cfg agentUuid ''terminal-open''
                (JObj [(''sessionId'', JStr sessionId),
                       (''cols'', JNum (clampDimension (field ''cols'' payload) 80)),
                       (''rows'', JNum (clampDimension (field ''rows'' payload) 24))]) h2
         in if \<not> delivered
            then (AckError ''Agent is offline.'',
                  h3\<lparr>terminalSessions := map_delete (terminalSessions h3) sessionId\<rparr>)
            else (AckOk (Some sessionId), h3)))"

definition handleTerminalOpen :: "config \<Rightarrow> string \<Rightarrow> jval \<Rightarrow> hub \<Rightarrow> ack \<times> hub" where
  "handleTerminalOpen cfg clientId payload h =
     (case terminal_open_begin cfg clientId payload h of
        Inl a \<Rightarrow> (a, h)
      | Inr t \<Rightarrow> terminal_open_end cfg clientId payload t (canAccessAgent clientId (cl_agentUuid t) None h) h)"

lemmas terminal_open_defs = handleTerminalOpen_def terminal_open_begin_def terminal_open_end_def

definition fireTokenTimer :: "string \<Rightarrow> hub \<Rightarrow> hub" where
  "fireTokenTimer jti h =
     (case map_get (consumedTerminalTokens h) jti of
        None \<Rightarrow> h
      | Some due \<Rightarrow>
          if due \<le> clock h
          then h\<lparr>consumedTerminalTokens := map_delete (consumedTerminalTokens h) jti\<rparr> else h)"

section \<open>From the console\<close>

definition ownedTerminalSession :: "string \<Rightarrow> string option \<Rightarrow> hub \<Rightarrow> terminal_session option" where
  "ownedTerminalSession clientId sessionId h =
     (case sessionId of
        None \<Rightarrow> None
      | Some i \<Rightarrow>
     (case map_get (terminalSessions h) i of
        None \<Rightarrow> None
      | Some session \<Rightarrow> if consoleSocketId session = clientId then Some session else None))"

text \<open>\<open>Buffer.byteLength\<close> of an ASCII string is its length.\<close>

definition handleTerminalInput :: "config \<Rightarrow> string \<Rightarrow> jval \<Rightarrow> hub \<Rightarrow> hub" where
  "handleTerminalInput cfg clientId payload h =
     (case ownedTerminalSession clientId (str_field ''sessionId'' payload) h of
        None \<Rightarrow> h
      | Some session \<Rightarrow>
          (case field ''data'' payload of
             JStr d \<Rightarrow>
               if length d > 64 * 1024 then h
               else snd (sendToAgent cfg (session_agentUuid session) ''terminal-input'' payload h)
           | _ \<Rightarrow> h))"

definition handleTerminalResize :: "config \<Rightarrow> string \<Rightarrow> jval \<Rightarrow> hub \<Rightarrow> hub" where
  "handleTerminalResize cfg clientId payload h =
     (case ownedTerminalSession clientId (str_field ''sessionId'' payload) h of
        None \<Rightarrow> h
      | Some session \<Rightarrow>
          snd (sendToAgent cfg (session_agentUuid session) ''terminal-resize''
            (JObj [(''sessionId'', field ''sessionId'' payload),
                   (''cols'', JNum (clampDimension (field ''cols'' payload) 80)),
                   (''rows'', JNum (clampDimension (field ''rows'' payload) 24))]) h))"

definition handleTerminalClose :: "config \<Rightarrow> string \<Rightarrow> jval \<Rightarrow> hub \<Rightarrow> hub" where
  "handleTerminalClose cfg clientId payload h =
     (case ownedTerminalSession clientId (str_field ''sessionId'' payload) h of
        None \<Rightarrow> h
      | Some session \<Rightarrow>
          (let h1 = snd (sendToAgent cfg (session_agentUuid session) ''terminal-close'' payload h)
           in h1\<lparr>terminalSessions :=
                   map_delete (terminalSessions h1) (the (str_field ''sessionId'' payload))\<rparr>))"

section \<open>From the agent\<close>

definition agentTerminalSession :: "string \<Rightarrow> string option \<Rightarrow> hub \<Rightarrow> terminal_session option" where
  "agentTerminalSession agentUuid sessionId h =
     (case sessionId of
        None \<Rightarrow> None
      | Some i \<Rightarrow>
     (case map_get (terminalSessions h) i of
        None \<Rightarrow> None
      | Some session \<Rightarrow> if session_agentUuid session = agentUuid then Some session else None))"

definition forwardTerminalReady :: "string \<Rightarrow> jval \<Rightarrow> hub \<Rightarrow> hub" where
  "forwardTerminalReady agentUuid payload h =
     (case agentTerminalSession agentUuid (str_field ''sessionId'' payload) h of
        None \<Rightarrow> h
      | Some session \<Rightarrow> emit (ConsoleEmit (consoleSocketId session) ''terminal-ready'' payload) h)"

definition forwardTerminalOutput :: "string \<Rightarrow> jval \<Rightarrow> hub \<Rightarrow> hub" where
  "forwardTerminalOutput agentUuid payload h =
     (case agentTerminalSession agentUuid (str_field ''sessionId'' payload) h of
        None \<Rightarrow> h
      | Some session \<Rightarrow>
          (case field ''data'' payload of
             JStr d \<Rightarrow> emit (ConsoleEmit (consoleSocketId session) ''terminal-output'' payload) h
           | _ \<Rightarrow> h))"

definition forwardTerminalClosed :: "string \<Rightarrow> jval \<Rightarrow> hub \<Rightarrow> hub" where
  "forwardTerminalClosed agentUuid payload h =
     (case agentTerminalSession agentUuid (str_field ''sessionId'' payload) h of
        None \<Rightarrow> h
      | Some session \<Rightarrow>
          emit (ConsoleEmit (consoleSocketId session) ''terminal-closed'' payload)
            (h\<lparr>terminalSessions :=
                 map_delete (terminalSessions h) (the (str_field ''sessionId'' payload))\<rparr>))"

section \<open>Cleanup\<close>

definition close_from_console :: "config \<Rightarrow> string \<times> terminal_session \<Rightarrow> hub \<Rightarrow> hub" where
  "close_from_console cfg e h =
     (let h' = snd (sendToAgent cfg (session_agentUuid (snd e)) ''terminal-close''
                 (JObj [(''sessionId'', JStr (fst e))]) h)
      in h'\<lparr>terminalSessions := map_delete (terminalSessions h') (fst e)\<rparr>)"

definition close_from_agent :: "string \<times> terminal_session \<Rightarrow> hub \<Rightarrow> hub" where
  "close_from_agent e h =
     emit (ConsoleEmit (consoleSocketId (snd e)) ''terminal-closed''
       (JObj [(''sessionId'', JStr (fst e)), (''reason'', JStr ''Agent disconnected.'')]))
       (h\<lparr>terminalSessions := map_delete (terminalSessions h) (fst e)\<rparr>)"

definition console_disconnect :: "config \<Rightarrow> string \<Rightarrow> hub \<Rightarrow> hub" where
  "console_disconnect cfg clientId h =
     (let mine = filter (\<lambda>(i, s). consoleSocketId s = clientId) (terminalSessions h);
          h1 = fold (close_from_console cfg) mine h
      in h1\<lparr>metricRequests := filter (\<lambda>(i, r, due). consoleSocketId r \<noteq> clientId) (metricRequests h1),
            consoleUsers := map_delete (consoleUsers h1) clientId,
            roomMembers := filter (\<lambda>(c, w). c \<noteq> clientId) (roomMembers h1)\<rparr>)"

definition closeAgentConnections :: "string \<Rightarrow> hub \<Rightarrow> hub" where
  "closeAgentConnections agentUuid h =
     (let mine = filter (\<lambda>(i, s). session_agentUuid s = agentUuid) (terminalSessions h);
          h1 = fold close_from_agent mine h
      in h1\<lparr>metricRequests :=
              filter (\<lambda>(i, r, due). session_agentUuid r \<noteq> agentUuid) (metricRequests h1)\<rparr>)"

section \<open>Single use of terminal tokens\<close>

text \<open>
  A run of the Hub as far as terminal tokens are concerned: openings by any client with any
  payload, deletion timers, and any other step, which leaves the used tokens alone and never
  turns the clock back. The log holds the token and the answer of each opening.
\<close>

inductive terminal_run :: "config \<Rightarrow> hub \<Rightarrow> (string option \<times> ack) list \<Rightarrow> hub \<Rightarrow> bool"
  for cfg :: config and h0 :: hub where
  start: "terminal_run cfg h0 [] h0"
| open_terminal: "terminal_run cfg h0 log h \<Longrightarrow> handleTerminalOpen cfg clientId payload h = (a, h') \<Longrightarrow>
    terminal_run cfg h0 (log @ [(str_field ''token'' payload, a)]) h'"
| token_timer: "terminal_run cfg h0 log h \<Longrightarrow> terminal_run cfg h0 log (fireTokenTimer jti h)"
| other: "terminal_run cfg h0 log h \<Longrightarrow> consumedTerminalTokens h' = consumedTerminalTokens h \<Longrightarrow>
    clock h \<le> clock h' \<Longrightarrow> terminal_run cfg h0 log h'"

definition opened :: "string \<Rightarrow> (string option \<times> ack) list \<Rightarrow> nat" where
  "opened tok log = length (filter (\<lambda>(t, a). t = Some tok \<and> (\<exists>i. a = AckOk i)) log)"

lemma opened_simps [simp]:
  "opened tok [] = 0"
  "opened tok (log @ [(t, a)]) = opened tok log + (if t = Some tok \<and> (\<exists>i. a = AckOk i) then 1 else 0)"
  by (simp_all add: opened_def)

lemma handleTerminalOpen_clock: "clock (snd (handleTerminalOpen cfg c p h)) = clock h"
  by (auto simp: terminal_open_defs Let_def draw_def split_beta split: option.splits sum.splits)

text \<open>What an opening does to the used tokens, and when it succeeds.\<close>

lemma handleTerminalOpen_tokens:
  assumes "handleTerminalOpen cfg c p h = (a, h')"
  shows "consumedTerminalTokens h' = consumedTerminalTokens h \<and> (\<nexists>i. a = AckOk i) \<or>
    (\<exists>tok t j. str_field ''token'' p = Some tok \<and> verifyPurposeToken cfg tok TERMINAL_SSH (clock h) = Inr t
      \<and> cl_jti t = Some j \<and> map_get (consumedTerminalTokens h) j = None
      \<and> consumedTerminalTokens h' =
          map_set (consumedTerminalTokens h) j (clock h + tokenLifetimeMs (cl_exp t) (clock h)))"
  using assms
  by (auto simp: terminal_open_defs Let_def draw_def split_beta falsy_def
      split: option.splits sum.splits if_splits)

lemma verifyPurposeToken_Inr:
  "verifyPurposeToken cfg tok purpose now = Inr t \<longleftrightarrow>
     cfg_verifyJwt cfg tok now = Some t \<and> cl_purpose t = Some purpose"
  by (auto simp: verifyPurposeToken_def split: option.splits if_splits)

text \<open>The used token stays recorded until it has expired.\<close>

definition burnt :: "string \<Rightarrow> int \<Rightarrow> hub \<Rightarrow> bool" where
  "burnt jti expires h \<longleftrightarrow>
     expires \<le> clock h \<or> (\<exists>due. map_get (consumedTerminalTokens h) jti = Some due \<and> expires \<le> due)"

lemma burnt_timer: "burnt j e h \<Longrightarrow> burnt j e (fireTokenTimer jti h)"
  by (auto simp: burnt_def fireTokenTimer_def split: option.splits)

lemma burnt_open:
  assumes "burnt j e h" and "handleTerminalOpen cfg c p h = (a, h')"
  shows "burnt j e h'"
proof (cases "e \<le> clock h")
  case False
  then obtain due where due: "map_get (consumedTerminalTokens h) j = Some due" "e \<le> due"
    using assms(1) by (auto simp: burnt_def)
  from handleTerminalOpen_tokens [OF assms(2)] due(1)
  have "map_get (consumedTerminalTokens h') j = Some due" by auto
  with due(2) show ?thesis by (auto simp: burnt_def)
qed (use handleTerminalOpen_clock [of cfg c p h] assms(2) in \<open>auto simp: burnt_def\<close>)

lemma lifetime_covers: "e * 1000 \<le> now + tokenLifetimeMs (Some e) now"
  by (simp add: tokenLifetimeMs_def max_def)

lemma terminal_run_burnt:
  assumes "terminal_run cfg h0 log h"
    and tok: "\<And>now c. cfg_verifyJwt cfg tok now = Some c \<Longrightarrow> c = t \<and> now < e * 1000"
    and exp: "cl_exp t = Some e" and jti: "cl_jti t = Some j"
  shows "opened tok log \<le> 1 \<and> (opened tok log = 1 \<longrightarrow> burnt j (e * 1000) h)"
  using assms(1)
proof induction
  case (open_terminal log h c p a h')
  show ?case
  proof (cases "str_field ''token'' p = Some tok \<and> (\<exists>i. a = AckOk i)")
    case False
    with open_terminal burnt_open [of j "e * 1000" h cfg c p a h'] show ?thesis by auto
  next
    case True
    with handleTerminalOpen_tokens [OF open_terminal.hyps(2)] obtain t' j'
      where t': "verifyPurposeToken cfg tok TERMINAL_SSH (clock h) = Inr t'" "cl_jti t' = Some j'"
        and fresh: "map_get (consumedTerminalTokens h) j' = None"
        and cons: "consumedTerminalTokens h' = map_set (consumedTerminalTokens h) j'
                     (clock h + tokenLifetimeMs (cl_exp t') (clock h))"
      by auto
    have eq: "t' = t" "clock h < e * 1000" "j' = j"
      using t' tok jti by (auto simp: verifyPurposeToken_Inr)
    then have "\<not> burnt j (e * 1000) h"
      using fresh by (auto simp: burnt_def)
    moreover have "burnt j (e * 1000) h'"
      using cons lifetime_covers [of e "clock h"] exp eq by (auto simp: burnt_def)
    ultimately show ?thesis using open_terminal.IH True by auto
  qed
qed (auto simp: burnt_timer, auto simp: burnt_def)

text \<open>Openings that do not overlap use a token once. In every run of the Hub, whatever clients send
  and whenever the timers that forget used tokens fire, one token (a fixed set of claims with an
  id and an expiry, which verification enforces) is answered with a session at most once. Theory
  \<open>Races\<close> has openings that overlap.\<close>

theorem terminal_token_single_use:
  assumes "terminal_run cfg h0 log h"
    and "\<And>now c. cfg_verifyJwt cfg tok now = Some c \<Longrightarrow> c = t \<and> now < e * 1000"
    and "cl_exp t = Some e" and "cl_jti t = Some j"
  shows "length (filter (\<lambda>(t, a). t = Some tok \<and> (\<exists>i. a = AckOk i)) log) \<le> 1"
  using terminal_run_burnt [OF assms] by (simp add: opened_def)

definition example_terminal_claims :: claims where
  "example_terminal_claims = \<lparr>cl_purpose = Some TERMINAL_SSH, cl_userIndex = None, cl_sub = Some 7,
     cl_jti = Some ''j1'', cl_exp = Some 60, cl_agentUuid = Some ''a1''\<rparr>"

definition terminal_config :: config where
  "terminal_config = example_config\<lparr>cfg_verifyJwt := (\<lambda>tok now.
     if tok = ''t1'' \<and> now < 60000 then Some example_terminal_claims else None)\<rparr>"

definition example_agent :: agents_row where
  "example_agent = \<lparr>agent_index = 1, agent_ip = ''10.0.0.1'', agent_code = ''RED-FOX'',
     agent_uuid = ''a1'', agent_signing_secret = Some ''secret'', agent_protocol_version = Some 1,
     agent_name = ''RED-FOX'', agent_parent_workspace = Some 1, agent_connection = Linked,
     agent_status = Online, agent_version = Some ''0.6.0'', agent_update_phase = Idle,
     agent_update_target = None, agent_update_message = None, agent_update_started_at = None,
     agent_created_at = 0, agent_deleted_at = None, agent_last_online = 0\<rparr>"

definition example_workspace :: workspaces_row where
  "example_workspace = \<lparr>workspace_index = 1, workspace_owner = 7, workspace_name = ''w'',
     workspace_subdomain = Some ''acme'', workspace_subdomain_active = True,
     workspace_dns_record_id = Some ''r1'', workspace_created_at = 0, workspace_deleted_at = None\<rparr>"

definition owner_hub :: hub where
  "owner_hub = linked_hub\<lparr>agents := [example_agent], workspaces := [example_workspace],
     consoleUsers := [(''c1'', 7)]\<rparr>"

definition open_payload :: jval where
  "open_payload = JObj [(''token'', JStr ''t1''), (''cols'', JNum 900)]"

lemma open_twice:
  "fst (handleTerminalOpen terminal_config ''c1'' open_payload owner_hub) = AckOk (Some ''100'')"
  "fst (handleTerminalOpen terminal_config ''c1'' open_payload
     (snd (handleTerminalOpen terminal_config ''c1'' open_payload owner_hub))) =
     AckError ''Terminal token was already used.''"
  by code_simp+

lemma terminal_token_single_use_witness:
  "\<exists>h. terminal_run terminal_config owner_hub
     [(Some ''t1'', AckOk (Some ''100'')),
      (Some ''t1'', AckError ''Terminal token was already used.'')] h
   \<and> length (filter (\<lambda>(t, a). t = Some ''t1'' \<and> (\<exists>i. a = AckOk i))
     [(Some ''t1'', AckOk (Some ''100'')),
      (Some ''t1'', AckError ''Terminal token was already used.'')]) \<le> 1"
proof -
  let ?op = "handleTerminalOpen terminal_config ''c1'' open_payload"
  have tok: "str_field ''token'' open_payload = Some ''t1''" by code_simp
  have r1: "terminal_run terminal_config owner_hub [(Some ''t1'', AckOk (Some ''100''))] (snd (?op owner_hub))"
    using terminal_run.open_terminal [OF terminal_run.start, where cfg = terminal_config and clientId = "''c1''"
        and payload = open_payload]
      open_twice(1) by (cases "?op owner_hub") (simp add: tok)
  have r2: "terminal_run terminal_config owner_hub
     [(Some ''t1'', AckOk (Some ''100'')), (Some ''t1'', AckError ''Terminal token was already used.'')]
     (snd (?op (snd (?op owner_hub))))"
    using terminal_run.open_terminal [OF r1, where clientId = "''c1''" and payload = open_payload] open_twice(2)
    by (cases "?op (snd (?op owner_hub))") (simp add: tok)
  have v: "cfg_verifyJwt terminal_config ''t1'' now = Some c \<Longrightarrow>
      c = example_terminal_claims \<and> now < 60 * 1000" for now c
    by (simp add: terminal_config_def split: if_splits)
  have "cl_exp example_terminal_claims = Some 60" "cl_jti example_terminal_claims = Some ''j1''"
    by (simp_all add: example_terminal_claims_def)
  from terminal_token_single_use [OF r2 v this] r2 show ?thesis by blast
qed

section \<open>Who a terminal session belongs to\<close>



section \<open>Cleanup is exact\<close>

lemma map_delete_filter: "map_delete m k = filter (\<lambda>(k', v). k' \<noteq> k) m"
  by (induction m) (auto simp: map_delete_def)

definition closed_notice :: "string \<times> terminal_session \<Rightarrow> message" where
  "closed_notice e = ConsoleEmit (consoleSocketId (snd e)) ''terminal-closed''
     (JObj [(''sessionId'', JStr (fst e)), (''reason'', JStr ''Agent disconnected.'')])"

lemma close_fold:
  "terminalSessions (fold close_from_agent ms h) =
     filter (\<lambda>e. fst e \<notin> fst ` set ms) (terminalSessions h) \<and>
   sent (fold close_from_agent ms h) = sent h @ map closed_notice ms \<and>
   metricRequests (fold close_from_agent ms h) = metricRequests h"
proof (induction ms arbitrary: h)
  case (Cons m ms)
  have c: "terminalSessions (close_from_agent m h) = filter (\<lambda>e. fst e \<noteq> fst m) (terminalSessions h)"
    "sent (close_from_agent m h) = sent h @ [closed_notice m]"
    "metricRequests (close_from_agent m h) = metricRequests h"
    by (simp_all add: close_from_agent_def closed_notice_def map_delete_filter split_def)
  show ?case
    by (auto simp: Cons.IH [of "close_from_agent m h"] c intro!: filter_cong)
qed simp

lemma filter_mine:
  assumes "distinct (map fst es)"
  shows "filter (\<lambda>e. fst e \<notin> fst ` set (filter P es)) es = filter (\<lambda>e. \<not> P e) es"
proof (rule filter_cong [OF refl])
  fix e assume "e \<in> set es"
  then have "e' = e" if "e' \<in> set es" "fst e' = fst e" for e'
    using assms that by (metis eq_key_imp_eq_value prod.collapse)
  with \<open>e \<in> set es\<close> show "(fst e \<notin> fst ` set (filter P es)) = (\<not> P e)" by force
qed

text \<open>when an agent disconnects, exactly its terminal sessions and metric requests are dropped, and
  the console of each dropped session is told once, in the order the sessions were opened.\<close>

theorem closeAgentConnections_exact:
  assumes "distinct (map_keys (terminalSessions h))"
  shows "terminalSessions (closeAgentConnections agentUuid h) =
      filter (\<lambda>(i, s). session_agentUuid s \<noteq> agentUuid) (terminalSessions h)
    \<and> metricRequests (closeAgentConnections agentUuid h) =
      filter (\<lambda>(i, r, due). session_agentUuid r \<noteq> agentUuid) (metricRequests h)
    \<and> sent (closeAgentConnections agentUuid h) = sent h @
      map (\<lambda>(i, s). ConsoleEmit (consoleSocketId s) ''terminal-closed''
             (JObj [(''sessionId'', JStr i), (''reason'', JStr ''Agent disconnected.'')]))
        (filter (\<lambda>(i, s). session_agentUuid s = agentUuid) (terminalSessions h))"
proof -
  let ?mine = "filter (\<lambda>(i, s). session_agentUuid s = agentUuid) (terminalSessions h)"
  have n: "map (\<lambda>(i, s). ConsoleEmit (consoleSocketId s) ''terminal-closed''
             (JObj [(''sessionId'', JStr i), (''reason'', JStr ''Agent disconnected.'')])) ms =
           map closed_notice ms" for ms
    by (simp add: closed_notice_def split_def)
  have "filter (\<lambda>e. fst e \<notin> fst ` set ?mine) (terminalSessions h) =
      filter (\<lambda>(i, s). session_agentUuid s \<noteq> agentUuid) (terminalSessions h)"
    using filter_mine [OF assms, of "\<lambda>(i, s). session_agentUuid s = agentUuid"]
    by (simp add: split_def)
  then show ?thesis
    unfolding closeAgentConnections_def Let_def using close_fold [of ?mine h] by (simp add: n)
qed

lemma closeAgentConnections_exact_witness:
  "terminalSessions (closeAgentConnections ''a1'' (owner_hub\<lparr>terminalSessions :=
      [(''x'', \<lparr>consoleSocketId = ''c1'', session_agentUuid = ''a1''\<rparr>),
       (''y'', \<lparr>consoleSocketId = ''c2'', session_agentUuid = ''a2''\<rparr>)]\<rparr>)) =
   [(''y'', \<lparr>consoleSocketId = ''c2'', session_agentUuid = ''a2''\<rparr>)]"
  by (subst closeAgentConnections_exact [THEN conjunct1]) simp_all

section \<open>Who is in a workspace room\<close>

text \<open>
  A run as far as rooms are concerned: new console sockets, subscriptions, disconnections, and
  any other step, which leaves the rooms and the users of sockets alone and keeps every
  workspace with its owner (no operation removes the row of a workspace or changes its owner).
\<close>

definition owners :: "hub \<Rightarrow> (nat \<times> nat) set" where
  "owners h = set (map (\<lambda>w. (workspace_index w, workspace_owner w)) (workspaces h))"

inductive room_run :: "config \<Rightarrow> hub \<Rightarrow> hub \<Rightarrow> bool" for cfg :: config and h0 :: hub where
  start: "room_run cfg h0 h0"
| connect: "room_run cfg h0 h \<Longrightarrow> (\<nexists>w. (clientId, w) \<in> set (roomMembers h)) \<Longrightarrow>
    room_run cfg h0 (console_connection cfg clientId cookie h)"
| subscribe: "room_run cfg h0 h \<Longrightarrow> room_run cfg h0 (handleSubscribeWorkspace cfg clientId payload h)"
| subscribe_log: "room_run cfg h0 h \<Longrightarrow> room_run cfg h0 (handleSubscribeLog cfg clientId payload h)"
| disconnect: "room_run cfg h0 h \<Longrightarrow> room_run cfg h0 (console_disconnect cfg clientId h)"
| other: "room_run cfg h0 h \<Longrightarrow> roomMembers h' = roomMembers h \<Longrightarrow> consoleUsers h' = consoleUsers h \<Longrightarrow>
    owners h \<subseteq> owners h' \<Longrightarrow> room_run cfg h0 h'"

definition rooms_ok :: "hub \<Rightarrow> bool" where
  "rooms_ok h \<longleftrightarrow> (\<forall>(c, w)\<in>set (roomMembers h). \<exists>u. socket_user c h = Some u \<and> (w, u) \<in> owners h)"

lemma send_all_frame:
  "roomMembers (fold (\<lambda>a h. snd (sendToAgent cfg (f a) e p h)) as h) = roomMembers h"
  "consoleUsers (fold (\<lambda>a h. snd (sendToAgent cfg (f a) e p h)) as h) = consoleUsers h"
  "workspaces (fold (\<lambda>a h. snd (sendToAgent cfg (f a) e p h)) as h) = workspaces h"
  by (induction as arbitrary: h) simp_all

lemma join_room_simps [simp]:
  "set (roomMembers (join_room c w h)) = insert (c, w) (set (roomMembers h))"
  "consoleUsers (join_room c w h) = consoleUsers h" "workspaces (join_room c w h) = workspaces h"
  "agents (join_room c w h) = agents h"
  by (auto simp: join_room_def)

lemma rooms_ok_join:
  assumes "rooms_ok h" and "canAccessWorkspace c i h \<or> canAccessService c i a j h"
  shows "rooms_ok (join_room c (nat (the i)) h)"
proof -
  have "\<exists>u. socket_user c h = Some u \<and> (nat (the i), u) \<in> owners h"
    using assms(2) by (force simp: canAccessWorkspace_def canAccessService_def owners_def list_ex_iff
        split: option.splits)
  with assms(1) show ?thesis by (auto simp: rooms_ok_def socket_user_def owners_def)
qed

lemma rooms_ok_transfer:
  assumes "rooms_ok h" and "set (roomMembers h') \<subseteq> set (roomMembers h)"
    and "\<And>c w. (c, w) \<in> set (roomMembers h') \<Longrightarrow> socket_user c h' = socket_user c h"
    and "owners h \<subseteq> owners h'"
  shows "rooms_ok h'"
  unfolding rooms_ok_def
proof (intro ballI, clarify)
  fix c w assume cw: "(c, w) \<in> set (roomMembers h')"
  then obtain u where "socket_user c h = Some u" "(w, u) \<in> owners h"
    using assms(1,2) unfolding rooms_ok_def by blast
  then show "\<exists>u. socket_user c h' = Some u \<and> (w, u) \<in> owners h'"
    using assms(3) [OF cw] assms(4) by auto
qed

lemma rooms_ok_cong:
  "roomMembers h' = roomMembers h \<Longrightarrow> consoleUsers h' = consoleUsers h \<Longrightarrow> owners h \<subseteq> owners h' \<Longrightarrow>
   rooms_ok h \<Longrightarrow> rooms_ok h'"
  by (rule rooms_ok_transfer [of h]) (auto simp: socket_user_def)

lemma connection_frame:
  "roomMembers (console_connection cfg c cookie h) = roomMembers h"
  "workspaces (console_connection cfg c cookie h) = workspaces h"
  "d \<noteq> c \<Longrightarrow> socket_user d (console_connection cfg c cookie h) = socket_user d h"
  unfolding console_connection_def socket_user_def by (auto split: sum.split option.split)

lemma disconnect_frame:
  "roomMembers (console_disconnect cfg c h) = filter (\<lambda>(d, w). d \<noteq> c) (roomMembers h) \<and>
   consoleUsers (console_disconnect cfg c h) = map_delete (consoleUsers h) c \<and>
   workspaces (console_disconnect cfg c h) = workspaces h"
proof -
  have "roomMembers (fold (close_from_console cfg) ms h) = roomMembers h \<and>
        consoleUsers (fold (close_from_console cfg) ms h) = consoleUsers h \<and>
        workspaces (fold (close_from_console cfg) ms h) = workspaces h" for ms
    by (induction ms arbitrary: h) (simp_all add: close_from_console_def Let_def)
  then show ?thesis by (simp add: console_disconnect_def Let_def)
qed

lemma rooms_ok_run: "room_run cfg h0 h \<Longrightarrow> rooms_ok h0 \<Longrightarrow> rooms_ok h"
proof (induction rule: room_run.induct)
  case (connect h c cookie)
  show ?case
  proof (rule rooms_ok_transfer [of h])
    fix d w assume "(d, w) \<in> set (roomMembers (console_connection cfg c cookie h))"
    with connect.hyps(2) have "d \<noteq> c" by (auto simp: connection_frame)
    then show "socket_user d (console_connection cfg c cookie h) = socket_user d h"
      by (rule connection_frame)
  qed (use connect in \<open>simp_all add: connection_frame owners_def\<close>)
next
  case (subscribe h c p)
  then have ok: "rooms_ok h" by simp
  show ?case
  proof (cases "canAccessWorkspace c (js_number (field ''workspaceIndex'' p)) h")
    case True
    have "rooms_ok (join_room c (nat (the (js_number (field ''workspaceIndex'' p)))) h)"
      using rooms_ok_join [OF ok] True by blast
    then show ?thesis
      by (rule rooms_ok_cong [rotated -1])
        (simp_all add: handleSubscribeWorkspace_def Let_def True send_all_frame owners_def)
  qed (simp add: handleSubscribeWorkspace_def Let_def ok)
next
  case (subscribe_log h c p)
  then have ok: "rooms_ok h" by simp
  let ?i = "js_number (field ''workspaceIndex'' p)"
  let ?acc = "canAccessService c ?i (str_field ''agentUuid'' p) (js_number (field ''serviceIndex'' p)) h"
  show ?case
  proof (cases ?acc)
    case True
    have "rooms_ok (join_room c (nat (the ?i)) h)"
      using rooms_ok_join [OF ok] True by blast
    then show ?thesis
      by (rule rooms_ok_cong [rotated -1])
        (simp_all add: handleSubscribeLog_def Let_def True owners_def)
  qed (simp add: handleSubscribeLog_def Let_def ok)
next
  case (disconnect h c)
  show ?case
    by (rule rooms_ok_transfer [of h])
      (use disconnect disconnect_frame [of cfg c h] in \<open>auto simp: socket_user_def owners_def\<close>)
next
  case (other h h')
  then show ?case using rooms_ok_cong by blast
qed

text \<open>only the owner of a workspace hears what is sent to its room. In every run that starts with
  empty rooms, each socket in the room of a workspace belongs to the user who owns it.\<close>

theorem room_members_are_owners:
  assumes "room_run cfg h0 h" and "roomMembers h0 = []" and "(clientId, w) \<in> set (roomMembers h)"
  shows "\<exists>u ws. socket_user clientId h = Some u \<and> ws \<in> set (workspaces h)
    \<and> workspace_index ws = w \<and> workspace_owner ws = u"
proof -
  have "rooms_ok h" using rooms_ok_run [OF assms(1)] assms(2) by (simp add: rooms_ok_def)
  with assms(3) show ?thesis by (force simp: rooms_ok_def owners_def)
qed

lemma room_members_are_owners_witness:
  "let h = handleSubscribeWorkspace example_config ''c1'' (JObj [(''workspaceIndex'', JStr ''1'')]) owner_hub
   in roomMembers h = [(''c1'', 1)] \<and> (\<exists>ws\<in>set (workspaces h). workspace_owner ws = 7)"
proof -
  let ?h = "handleSubscribeWorkspace example_config ''c1'' (JObj [(''workspaceIndex'', JStr ''1'')]) owner_hub"
  have r: "room_run example_config owner_hub ?h"
    by (intro room_run.subscribe room_run.start)
  have 0: "roomMembers owner_hub = []" by code_simp
  have m: "roomMembers ?h = [(''c1'', 1)]" by code_simp
  have u: "socket_user ''c1'' ?h = Some 7" by code_simp
  show ?thesis
    using room_members_are_owners [OF r 0, of "''c1''" 1] m u by (auto simp: Let_def)
qed

end
