(* ===== verification/AgentUpdate.thy ===== *)
theory AgentUpdate
  imports Terminal
begin

text \<open>
  \<open>src/agent/agent-update.service.ts\<close>: the state machine of an agent that replaces itself. The
  Hub owns the phase, because the agent dies in between and the updater container cannot talk
  to the Hub.

  \<open>updateTimers\<close> holds, for each agent with an armed timeout, the time at which it is due. The
  messages shown to the user are Korean in the source and given in English here.
\<close>

section \<open>Constants and the tag pattern\<close>

definition UPDATE_TIMEOUT_MS :: int where "UPDATE_TIMEOUT_MS = 10 * 60 * 1000"

definition IN_FLIGHT :: "update_phase list" where
  "IN_FLIGHT = [UpdateRequested, Pulling, Restarting]"

definition is_alnum :: "char \<Rightarrow> bool" where
  "is_alnum c \<longleftrightarrow> is_digit c \<or> is_upper c \<or> is_lower c"

text \<open>The pattern \<open>/^[0-9A-Za-z][0-9A-Za-z._-]{0,127}$/\<close>.\<close>

definition TAG_PATTERN :: "string \<Rightarrow> bool" where
  "TAG_PATTERN s \<longleftrightarrow>
     (case s of [] \<Rightarrow> False
      | c # cs \<Rightarrow> is_alnum c \<and> length cs \<le> 127 \<and>
          list_all (\<lambda>d. is_alnum d \<or> d = CHR ''.'' \<or> d = CHR ''_'' \<or> d = CHR ''-'') cs)"

definition version_or :: "string option \<Rightarrow> string \<Rightarrow> string" where
  "version_or v fallback = (case v of None \<Rightarrow> fallback | Some s \<Rightarrow> s)"

section \<open>The transition\<close>

text \<open>The fields of \<open>transition\<close>: a field that is not given leaves its column alone.\<close>

record transition_fields =
  tf_target :: "string option option"
  tf_message :: "string option option"
  tf_startedAt :: "int option option"

definition only_message :: "string \<Rightarrow> transition_fields" where
  "only_message m = \<lparr>tf_target = None, tf_message = Some (Some m), tf_startedAt = None\<rparr>"

definition set_phase :: "update_phase \<Rightarrow> transition_fields \<Rightarrow> agents_row \<Rightarrow> agents_row" where
  "set_phase phase f a =
     a\<lparr>agent_update_phase := phase,
       agent_update_target := (case tf_target f of None \<Rightarrow> agent_update_target a | Some t \<Rightarrow> t),
       agent_update_message := (case tf_message f of None \<Rightarrow> agent_update_message a | Some m \<Rightarrow> m),
       agent_update_started_at :=
         (case tf_startedAt f of None \<Rightarrow> agent_update_started_at a | Some t \<Rightarrow> t)\<rparr>"

definition find_agent :: "string \<Rightarrow> hub \<Rightarrow> agents_row option" where
  "find_agent agentUuid h = find (\<lambda>a. agent_uuid a = agentUuid) (agents h)"

definition update_agents :: "(agents_row \<Rightarrow> bool) \<Rightarrow> (agents_row \<Rightarrow> agents_row) \<Rightarrow> hub \<Rightarrow> hub" where
  "update_agents P f h = h\<lparr>agents := update_rows P f (agents h)\<rparr>"

definition transition :: "string \<Rightarrow> update_phase \<Rightarrow> transition_fields \<Rightarrow> hub \<Rightarrow> hub" where
  "transition agentUuid phase f h =
     (let h1 = update_agents (\<lambda>a. agent_uuid a = agentUuid) (set_phase phase f) h
      in case find_agent agentUuid h1 of
           None \<Rightarrow> h1
         | Some a \<Rightarrow>
             (case agent_parent_workspace a of
                None \<Rightarrow> h1
              | Some w \<Rightarrow>
                  if w = 0 then h1
                  else emitToWorkspace w ''agent-update''
                    (JObj [(''agentUuid'', JStr agentUuid),
                           (''agentCode'', JStr (agent_code a)),
                           (''agentVersion'', jopt (agent_version a)),
                           (''updatePhase'', JStr (phase_name phase)),
                           (''updateTarget'', jopt (agent_update_target a)),
                           (''updateMessage'', jopt (agent_update_message a)),
                           (''updateStartedAt'', jopt_int (agent_update_started_at a))]) h1))"

section \<open>Timeouts\<close>

definition clearTimeout :: "string \<Rightarrow> hub \<Rightarrow> hub" where
  "clearTimeout agentUuid h = h\<lparr>updateTimers := map_delete (updateTimers h) agentUuid\<rparr>"

definition armTimeout :: "string \<Rightarrow> hub \<Rightarrow> hub" where
  "armTimeout agentUuid h =
     (let h1 = clearTimeout agentUuid h
      in h1\<lparr>updateTimers := map_set (updateTimers h1) agentUuid (clock h1 + UPDATE_TIMEOUT_MS)\<rparr>)"

definition expire :: "string \<Rightarrow> hub \<Rightarrow> hub" where
  "expire agentUuid h =
     (case find_agent agentUuid h of
        None \<Rightarrow> h
      | Some a \<Rightarrow>
          if agent_update_phase a \<notin> set IN_FLIGHT then h
          else
            (let h1 = transition agentUuid UpdateFailed
                   (only_message (version_or (agent_update_target a) ''Unknown Version'' @
                      '' did not finish in time.'')) h
             in if isAgentConnected agentUuid h1 then h1
                else update_agents (\<lambda>a. agent_uuid a = agentUuid)
                       (\<lambda>a. a\<lparr>agent_status := AgentOffline\<rparr>) h1))"

text \<open>The callback of \<open>armTimeout\<close>, run when the timer is due.\<close>

definition fireUpdateTimer :: "string \<Rightarrow> hub \<Rightarrow> hub" where
  "fireUpdateTimer agentUuid h =
     (case map_get (updateTimers h) agentUuid of
        None \<Rightarrow> h
      | Some due \<Rightarrow> if due \<le> clock h then expire agentUuid (clearTimeout agentUuid h) else h)"

section \<open>Operations\<close>

definition resetStalePhases :: "hub \<Rightarrow> hub" where
  "resetStalePhases h =
     update_agents (\<lambda>a. agent_update_phase a \<in> set IN_FLIGHT)
       (\<lambda>a. a\<lparr>agent_update_phase := UpdateFailed,
              agent_update_message := Some ''The Hub restarted; the result of the update is unknown.''\<rparr>) h"

definition requestUpdate ::
  "config \<Rightarrow> string \<Rightarrow> string \<Rightarrow> hub \<Rightarrow> (http_error + unit) \<times> hub" where
  "requestUpdate cfg agentUuid targetVersion h =
     (if \<not> TAG_PATTERN targetVersion then (Inl (BadRequest ''Invalid version format.''), h)
      else case find (\<lambda>a. agent_uuid a = agentUuid \<and> agent_deleted_at a = None) (agents h) of
        None \<Rightarrow> (Inl (NotFound ''Agent not found.''), h)
      | Some a \<Rightarrow>
        if agent_status a \<noteq> Online then (Inl (Conflict ''The agent is offline.''), h)
        else if \<not> supportsRemoteUpdate (agent_version a)
        then (Inl (Conflict (''OPTiCS Agent '' @ version_or (agent_version a) ''Unknown Version'' @
                '' does not support remote updates.'')), h)
        else if agent_update_phase a \<in> set IN_FLIGHT
        then (Inl (Conflict ''An update is already in progress.''), h)
        else case assertInstallable cfg targetVersion h of
          (Inl e, h1) \<Rightarrow> (Inl e, h1)
        | (Inr release, h1) \<Rightarrow>
            (let (delivered, h2) = sendToAgent cfg agentUuid ''update-agent''
                   (JObj [(''version'', JStr targetVersion)]) h1
             in if \<not> delivered then (Inl (Conflict ''The agent is not connected.''), h2)
                else (Inr (), armTimeout agentUuid
                       (transition agentUuid UpdateRequested
                          \<lparr>tf_target = Some (Some targetVersion),
                           tf_message = Some (Some
                             (if truthy (agent_version a)
                              then ''Requested update from '' @ the (agent_version a) @ '' to '' @ targetVersion
                              else ''Requested update to '' @ targetVersion)),
                           tf_startedAt = Some (Some (clock h2))\<rparr> h2))))"

definition recordProgress :: "string \<Rightarrow> string \<Rightarrow> hub \<Rightarrow> hub" where
  "recordProgress agentUuid line h =
     (case find_agent agentUuid h of
        None \<Rightarrow> h
      | Some a \<Rightarrow>
          if agent_update_phase a \<notin> set IN_FLIGHT then h
          else transition agentUuid
                 (if agent_update_phase a = UpdateRequested then Pulling else agent_update_phase a)
                 (only_message (take 2000 line)) h)"

definition recordFailure :: "string \<Rightarrow> string \<Rightarrow> hub \<Rightarrow> hub" where
  "recordFailure agentUuid msg h =
     (case find_agent agentUuid h of
        None \<Rightarrow> h
      | Some a \<Rightarrow>
          if agent_update_phase a \<notin> set IN_FLIGHT then h
          else transition agentUuid UpdateFailed
                 (only_message (''OPTiCS Agent '' @ version_or (agent_update_target a) ''?'' @
                    '' update failed. '' @ msg))
                 (clearTimeout agentUuid h))"

definition isExpectedRestart :: "string \<Rightarrow> hub \<Rightarrow> bool \<times> hub" where
  "isExpectedRestart agentUuid h =
     (case find_agent agentUuid h of
        None \<Rightarrow> (False, h)
      | Some a \<Rightarrow>
          if agent_update_phase a \<notin> set IN_FLIGHT then (False, h)
          else (True, transition agentUuid Restarting
                 (only_message (''OPTiCS Agent '' @
                    version_or (agent_update_target a) ''Unknown Version'' @ '' is restarting.''))
                 (update_agents (\<lambda>a. agent_uuid a = agentUuid)
                    (\<lambda>a. a\<lparr>agent_status := AgentRestarting\<rparr>) h)))"

definition handleReconnect :: "string \<Rightarrow> string option \<Rightarrow> hub \<Rightarrow> hub" where
  "handleReconnect agentUuid reportedVersion h =
     (case find_agent agentUuid h of
        None \<Rightarrow> h
      | Some a \<Rightarrow>
          if agent_update_phase a = Idle then h
          else if agent_update_phase a \<notin> set IN_FLIGHT then h
          else
            (let h1 = clearTimeout agentUuid h; target = agent_update_target a
             in if truthy reportedVersion \<and> truthy target \<and> reportedVersion = target
                then transition agentUuid Succeeded
                       (only_message (''OPTiCS Agent '' @ the target @ '' update finished.'')) h1
                else transition agentUuid RolledBack
                       (only_message (''OPTiCS Agent '' @ version_or target ''Unknown Version'' @
                          '' failed to start, rolled back to '' @
                          version_or reportedVersion ''Unknown Version'')) h1))"

definition acknowledge :: "string \<Rightarrow> hub \<Rightarrow> hub" where
  "acknowledge agentUuid h =
     transition agentUuid Idle
       \<lparr>tf_target = Some None, tf_message = Some None, tf_startedAt = Some None\<rparr> h"

section \<open>What the operations change\<close>

lemma emitToWorkspace_frame [simp, link_simps]:
  "agents (emitToWorkspace w e p h) = agents h" "clock (emitToWorkspace w e p h) = clock h"
  "services (emitToWorkspace w e p h) = services h" "sockets (emitToWorkspace w e p h) = sockets h"
  "workspaces (emitToWorkspace w e p h) = workspaces h"
  "service_components (emitToWorkspace w e p h) = service_components h"
  "service_endpoints (emitToWorkspace w e p h) = service_endpoints h"
  "updateTimers (emitToWorkspace w e p h) = updateTimers h"
  "agentUuidToSocketId (emitToWorkspace w e p h) = agentUuidToSocketId h"
  "offlineTimers (emitToWorkspace w e p h) = offlineTimers h"
  "workspaceIndexCache (emitToWorkspace w e p h) = workspaceIndexCache h"
  "sent (emitToWorkspace w e p h) = sent h @ [RoomEmit w e p]"
  by (simp_all add: emitToWorkspace_def)

lemma update_agents_frame [simp, link_simps]:
  "agents (update_agents P f h) = update_rows P f (agents h)" "clock (update_agents P f h) = clock h"
  "services (update_agents P f h) = services h" "sockets (update_agents P f h) = sockets h"
  "workspaces (update_agents P f h) = workspaces h"
  "updateTimers (update_agents P f h) = updateTimers h" "sent (update_agents P f h) = sent h"
  "agentUuidToSocketId (update_agents P f h) = agentUuidToSocketId h"
  "offlineTimers (update_agents P f h) = offlineTimers h"
  "workspaceIndexCache (update_agents P f h) = workspaceIndexCache h"
  by (simp_all add: update_agents_def)

lemma transition_cases:
  "\<exists>ms. transition u ph f h =
     (let h1 = update_agents (\<lambda>a. agent_uuid a = u) (set_phase ph f) h in h1\<lparr>sent := sent h1 @ ms\<rparr>)"
  by (auto simp: transition_def Let_def emitToWorkspace_def emit_def split: option.split
      intro: exI [of _ "[]"])

lemma transition_frame [simp, link_simps]:
  "agents (transition u ph f h) = update_rows (\<lambda>a. agent_uuid a = u) (set_phase ph f) (agents h)"
  "clock (transition u ph f h) = clock h" "updateTimers (transition u ph f h) = updateTimers h"
  "sockets (transition u ph f h) = sockets h" "services (transition u ph f h) = services h"
  "workspaces (transition u ph f h) = workspaces h"
  "agentUuidToSocketId (transition u ph f h) = agentUuidToSocketId h"
  "offlineTimers (transition u ph f h) = offlineTimers h"
  "workspaceIndexCache (transition u ph f h) = workspaceIndexCache h"
  using transition_cases [of u ph f h] by (auto simp: Let_def)

lemma clearTimeout_frame [simp, link_simps]:
  "agents (clearTimeout u h) = agents h" "clock (clearTimeout u h) = clock h"
  "updateTimers (clearTimeout u h) = map_delete (updateTimers h) u" "sockets (clearTimeout u h) = sockets h"
  "agentUuidToSocketId (clearTimeout u h) = agentUuidToSocketId h"
  "find_agent v (clearTimeout u h) = find_agent v h"
  by (simp_all add: clearTimeout_def find_agent_def)

lemma armTimeout_frame [simp, link_simps]:
  "agents (armTimeout u h) = agents h" "clock (armTimeout u h) = clock h"
  "sockets (armTimeout u h) = sockets h"
  "agentUuidToSocketId (armTimeout u h) = agentUuidToSocketId h"
  by (simp_all add: armTimeout_def Let_def)

lemma armTimeout_timer [simp]:
  "map_get (updateTimers (armTimeout u h)) v =
     (if v = u then Some (clock h + UPDATE_TIMEOUT_MS) else map_get (updateTimers h) v)"
  by (simp add: armTimeout_def Let_def)

lemma ensureFresh_frame [simp, link_simps]:
  "agents (ensureFresh cfg h) = agents h" "clock (ensureFresh cfg h) = clock h"
  "updateTimers (ensureFresh cfg h) = updateTimers h" "sockets (ensureFresh cfg h) = sockets h"
  "agentUuidToSocketId (ensureFresh cfg h) = agentUuidToSocketId h"
  by (auto simp: ensureFresh_def runSync_def split_beta split: github_response.split sum.split)

lemma assertInstallable_frame [simp, link_simps]:
  "snd (assertInstallable cfg v h) = ensureFresh cfg h"
  by (simp add: assertInstallable_def Let_def)

lemma set_phase_simps [simp]:
  "agent_uuid (set_phase ph f a) = agent_uuid a" "agent_update_phase (set_phase ph f a) = ph"
  "agent_update_started_at (set_phase ph f a) =
     (case tf_startedAt f of None \<Rightarrow> agent_update_started_at a | Some t \<Rightarrow> t)"
  "agent_status (set_phase ph f a) = agent_status a"
  by (simp_all add: set_phase_def)

lemma only_message_simps [simp]: "tf_startedAt (only_message m) = None" "tf_target (only_message m) = None"
  by (simp_all add: only_message_def)

lemma list_all2_update:
  "list_all2 R rs (update_rows P f rs) \<longleftrightarrow> (\<forall>r\<in>set rs. R r (if P r then f r else r))"
  by (auto simp: update_rows_def list_all2_conv_all_nth all_set_conv_all_nth)

section \<open>The state machine\<close>

text \<open>The phases of one agent and the steps between them: the contract of the component.\<close>

inductive phase_step :: "update_phase \<Rightarrow> update_phase \<Rightarrow> bool" where
  request: "p \<notin> set IN_FLIGHT \<Longrightarrow> phase_step p UpdateRequested"
| progress: "phase_step UpdateRequested Pulling"
| restart: "p \<in> set IN_FLIGHT \<Longrightarrow> phase_step p Restarting"
| success: "p \<in> set IN_FLIGHT \<Longrightarrow> phase_step p Succeeded"
| roll_back: "p \<in> set IN_FLIGHT \<Longrightarrow> phase_step p RolledBack"
| failure: "p \<in> set IN_FLIGHT \<Longrightarrow> phase_step p UpdateFailed"
| dismiss: "phase_step p Idle"

inductive_simps phase_step_Succeeded: "phase_step p Succeeded"
inductive_simps phase_step_Requested: "phase_step p UpdateRequested"

datatype update_event =
    EvRequest string string
  | EvProgress string string
  | EvFailure string string
  | EvDisconnect string
  | EvReconnect string "string option"
  | EvAcknowledge string
  | EvTimer string

fun event_agent :: "update_event \<Rightarrow> string" where
  "event_agent (EvRequest u v) = u"
| "event_agent (EvProgress u l) = u"
| "event_agent (EvFailure u m) = u"
| "event_agent (EvDisconnect u) = u"
| "event_agent (EvReconnect u v) = u"
| "event_agent (EvAcknowledge u) = u"
| "event_agent (EvTimer u) = u"

fun apply_event :: "config \<Rightarrow> update_event \<Rightarrow> hub \<Rightarrow> hub" where
  "apply_event cfg (EvRequest u v) h = snd (requestUpdate cfg u v h)"
| "apply_event cfg (EvProgress u l) h = recordProgress u l h"
| "apply_event cfg (EvFailure u m) h = recordFailure u m h"
| "apply_event cfg (EvDisconnect u) h = snd (isExpectedRestart u h)"
| "apply_event cfg (EvReconnect u v) h = handleReconnect u v h"
| "apply_event cfg (EvAcknowledge u) h = acknowledge u h"
| "apply_event cfg (EvTimer u) h = fireUpdateTimer u h"

definition row_step :: "string \<Rightarrow> agents_row \<Rightarrow> agents_row \<Rightarrow> bool" where
  "row_step u a a' \<longleftrightarrow>
     agent_uuid a' = agent_uuid a
     \<and> (agent_uuid a \<noteq> u \<longrightarrow> a' = a)
     \<and> (agent_update_phase a' = agent_update_phase a
        \<or> phase_step (agent_update_phase a) (agent_update_phase a'))"

lemma row_step_refl [simp]: "list_all2 (row_step u) as as"
  by (auto simp: row_step_def list_all2_same)

lemma find_agent_unique:
  assumes "distinct (map agent_uuid (agents h))" "find_agent u h = Some a"
    and "b \<in> set (agents h)" "agent_uuid b = u"
  shows "b = a"
  using assms by (metis (mono_tags, lifting) distinct_map find_SomeD find_agent_def inj_onD)

text \<open>Every operation sets the rows of one agent with an update that follows the machine.\<close>

lemma row_step_update:
  assumes "distinct (map agent_uuid (agents h))" "find_agent u h = Some a"
    and "\<And>b. agent_uuid (f b) = agent_uuid b"
    and "agent_update_phase (f a) = agent_update_phase a
       \<or> phase_step (agent_update_phase a) (agent_update_phase (f a))"
  shows "list_all2 (row_step u) (agents h) (update_rows (\<lambda>a. agent_uuid a = u) f (agents h))"
  using find_agent_unique [OF assms(1,2)] assms(3,4)
  by (auto simp: list_all2_update row_step_def)

lemma update_update:
  "(\<And>r. P r \<Longrightarrow> P (f r)) \<Longrightarrow> update_rows P g (update_rows P f rs) = update_rows P (\<lambda>r. g (f r)) rs"
  by (auto simp: update_rows_def)

lemma find_agent_transition:
  "find_agent u (transition v ph f h) =
     map_option (\<lambda>a. if agent_uuid a = v then set_phase ph f a else a) (find_agent u h)"
  by (simp add: find_agent_def find_update_same)

lemma requestUpdate_cases:
  "(\<exists>e. fst (requestUpdate cfg u v h) = Inl e) \<and> agents (snd (requestUpdate cfg u v h)) = agents h
      \<and> updateTimers (snd (requestUpdate cfg u v h)) = updateTimers h
      \<and> clock (snd (requestUpdate cfg u v h)) = clock h \<or>
   (\<exists>a h2 m. find (\<lambda>a. agent_uuid a = u \<and> agent_deleted_at a = None) (agents h) = Some a
      \<and> agent_update_phase a \<notin> set IN_FLIGHT \<and> agents h2 = agents h
      \<and> updateTimers h2 = updateTimers h \<and> clock h2 = clock h
      \<and> requestUpdate cfg u v h = (Inr (), armTimeout u (transition u UpdateRequested
           \<lparr>tf_target = Some (Some v), tf_message = m, tf_startedAt = Some (Some (clock h))\<rparr> h2)))"
proof (cases "find (\<lambda>a. agent_uuid a = u \<and> agent_deleted_at a = None) (agents h)")
  case (Some a)
  obtain r h1 where r: "assertInstallable cfg v h = (r, h1)" by force
  then have h1: "h1 = ensureFresh cfg h"
    using assertInstallable_frame [of cfg v h] by simp
  obtain b h2 where b: "sendToAgent cfg u ''update-agent'' (JObj [(''version'', JStr v)]) h1 = (b, h2)" by force
  then have h2e: "h2 = snd (sendToAgent cfg u ''update-agent'' (JObj [(''version'', JStr v)]) h1)" by simp
  have h2: "agents h2 = agents h" "updateTimers h2 = updateTimers h" "clock h2 = clock h"
    by (simp_all add: h2e h1)
  show ?thesis
    using Some r b h1 h2
    by (cases r; cases b) (auto simp: requestUpdate_def split_beta)
qed (simp add: requestUpdate_def)

text \<open>C8: the update of an agent follows its state machine. Each operation on an agent (a request, a
  progress line, a failure report, a lost connection, a reconnection, a dismissal, the timeout)
  changes no other agent, and changes its phase only along a step of the machine.\<close>

theorem update_follows_machine:
  assumes "distinct (map agent_uuid (agents h))"
  shows "list_all2 (row_step (event_agent e)) (agents h) (agents (apply_event cfg e h))"
proof (cases e)
  case (EvRequest u v)
  from requestUpdate_cases [of cfg u v h] show ?thesis
  proof (elim disjE exE conjE)
    fix a h2 m assume a: "find (\<lambda>a. agent_uuid a = u \<and> agent_deleted_at a = None) (agents h) = Some a"
      and ph: "agent_update_phase a \<notin> set IN_FLIGHT" and h2: "agents h2 = agents h"
      and r: "requestUpdate cfg u v h = (Inr (), armTimeout u (transition u UpdateRequested
           \<lparr>tf_target = Some (Some v), tf_message = m, tf_startedAt = Some (Some (clock h))\<rparr> h2))"
    have "find_agent u h = Some a"
      using a find_agent_unique [OF assms, of u] by (cases "find_agent u h")
        (auto simp: find_agent_def find_None_iff dest!: find_SomeD)
    from row_step_update [OF assms this] ph show ?thesis
      by (simp add: EvRequest r h2 phase_step.request)
  qed (simp add: EvRequest)
next
  case (EvProgress u l)
  then show ?thesis
    by (auto simp: recordProgress_def IN_FLIGHT_def phase_step.progress
        intro!: row_step_update [OF assms] split: option.split)
next
  case (EvFailure u m)
  then show ?thesis
    by (auto simp: recordFailure_def intro!: row_step_update [OF assms] phase_step.failure
        split: option.split)
next
  case (EvDisconnect u)
  then show ?thesis
    by (auto simp: isExpectedRestart_def update_update intro!: row_step_update [OF assms]
        phase_step.restart split: option.split)
next
  case (EvReconnect u v)
  then show ?thesis
    by (auto simp: handleReconnect_def Let_def intro!: row_step_update [OF assms]
        phase_step.success phase_step.roll_back split: option.split)
next
  case (EvAcknowledge u)
  show ?thesis
  proof (cases "find_agent u h")
    case None
    then have "update_rows (\<lambda>a. agent_uuid a = u) f (agents h) = agents h" for f
      by (intro update_rows_none) (auto simp: find_agent_def find_None_iff)
    with EvAcknowledge show ?thesis by (simp add: acknowledge_def)
  next
    case (Some a)
    from row_step_update [OF assms this] show ?thesis
      by (simp add: EvAcknowledge acknowledge_def phase_step.dismiss)
  qed
next
  case (EvTimer u)
  then show ?thesis
    by (auto simp: fireUpdateTimer_def expire_def Let_def update_update
        intro!: row_step_update [OF assms] phase_step.failure split: option.split)
qed

definition updating_agent :: "update_phase \<Rightarrow> agents_row" where
  "updating_agent p = example_agent\<lparr>agent_update_phase := p, agent_update_target := Some ''0.7.0''\<rparr>"

lemma update_follows_machine_witness:
  "list_all2 (row_step ''a1'') [updating_agent Pulling]
     (agents (handleReconnect ''a1'' (Some ''0.7.0'') (owner_hub\<lparr>agents := [updating_agent Pulling]\<rparr>))) \<and>
   map agent_update_phase
     (agents (handleReconnect ''a1'' (Some ''0.7.0'') (owner_hub\<lparr>agents := [updating_agent Pulling]\<rparr>)))
     = [Succeeded]"
proof
  show "list_all2 (row_step ''a1'') [updating_agent Pulling]
     (agents (handleReconnect ''a1'' (Some ''0.7.0'') (owner_hub\<lparr>agents := [updating_agent Pulling]\<rparr>)))"
    using update_follows_machine [of "owner_hub\<lparr>agents := [updating_agent Pulling]\<rparr>"
        "EvReconnect ''a1'' (Some ''0.7.0'')"] by simp
qed code_simp

section \<open>Timeouts\<close>

text \<open>
  A run of the component. \<open>other\<close> is any step of the rest of the Hub: it may register new
  agents and advance the clock, but not past a timer that is due (the event loop runs it
  first), and it touches neither the timers nor the updates in flight.
\<close>

definition flights :: "hub \<Rightarrow> (string \<times> update_phase \<times> int option) set" where
  "flights h = (\<lambda>a. (agent_uuid a, agent_update_phase a, agent_update_started_at a)) `
     {a \<in> set (agents h). agent_update_phase a \<in> set IN_FLIGHT}"

inductive update_run :: "config \<Rightarrow> hub \<Rightarrow> hub \<Rightarrow> bool" for cfg :: config and h0 :: hub where
  start: "update_run cfg h0 h0"
| event: "update_run cfg h0 h \<Longrightarrow> update_run cfg h0 (apply_event cfg e h)"
| other: "update_run cfg h0 h \<Longrightarrow> updateTimers h' = updateTimers h \<Longrightarrow> flights h' \<subseteq> flights h \<Longrightarrow>
    distinct (map agent_uuid (agents h')) \<Longrightarrow>
    (\<And>u due. map_get (updateTimers h') u = Some due \<Longrightarrow> clock h' \<le> due) \<Longrightarrow> update_run cfg h0 h'"

text \<open>Every update in flight has a timer, due ten minutes after its request.\<close>

definition timed :: "hub \<Rightarrow> bool" where
  "timed h \<longleftrightarrow> distinct (map agent_uuid (agents h))
     \<and> (\<forall>a\<in>set (agents h). agent_update_phase a \<in> set IN_FLIGHT \<longrightarrow>
          (\<exists>s. agent_update_started_at a = Some s
             \<and> map_get (updateTimers h) (agent_uuid a) = Some (s + UPDATE_TIMEOUT_MS)))
     \<and> (\<forall>u due. map_get (updateTimers h) u = Some due \<longrightarrow> clock h \<le> due)"

lemma updated_row_cases:
  assumes "a \<in> set (update_rows P f rs)"
  obtains (updated) r where "r \<in> set rs" "P r" "a = f r" | (kept) "a \<in> set rs" "\<not> P a"
  using assms by (auto simp: in_update_rows split: if_splits)

text \<open>The shapes of an operation that keep \<open>timed\<close>.\<close>

lemma timed_keep:
  assumes "timed h" and "clock h' = clock h" and "updateTimers h' = updateTimers h"
    and "agents h' = update_rows (\<lambda>a. agent_uuid a = u) f (agents h)"
    and "\<And>b. agent_uuid (f b) = agent_uuid b"
    and "\<And>b. b \<in> set (agents h) \<Longrightarrow> agent_uuid b = u \<Longrightarrow> agent_update_phase (f b) \<in> set IN_FLIGHT \<Longrightarrow>
       agent_update_phase b \<in> set IN_FLIGHT \<and> agent_update_started_at (f b) = agent_update_started_at b"
  shows "timed h'"
proof -
  have "map agent_uuid (agents h') = map agent_uuid (agents h)"
    unfolding assms(4) by (rule map_update_rows) (rule assms(5))
  with assms show ?thesis
    unfolding timed_def by (auto simp: in_update_rows)
qed

lemma timed_end:
  assumes "timed h" and "clock h' = clock h" and "updateTimers h' = map_delete (updateTimers h) u"
    and "agents h' = update_rows (\<lambda>a. agent_uuid a = u) f (agents h)"
    and "\<And>b. agent_uuid (f b) = agent_uuid b" and "\<And>b. agent_update_phase (f b) \<notin> set IN_FLIGHT"
  shows "timed h'"
proof -
  have "map agent_uuid (agents h') = map agent_uuid (agents h)"
    unfolding assms(4) by (rule map_update_rows) (rule assms(5))
  moreover have "a \<in> set (agents h) \<and> agent_uuid a \<noteq> u"
    if "a \<in> set (agents h')" "agent_update_phase a \<in> set IN_FLIGHT" for a
    using that(2) assms(6) by (cases rule: updated_row_cases [OF that(1) [unfolded assms(4)]]) auto
  ultimately show ?thesis
    using assms(1,2,3) unfolding timed_def by simp
qed

lemma timed_start:
  assumes "timed h" and "clock h' = clock h"
    and "updateTimers h' = updateTimers (armTimeout u h)"
    and "agents h' = update_rows (\<lambda>a. agent_uuid a = u) f (agents h)"
    and "\<And>b. agent_uuid (f b) = agent_uuid b"
    and "\<And>b. agent_update_started_at (f b) = Some (clock h)"
  shows "timed h'"
proof -
  have "map agent_uuid (agents h') = map agent_uuid (agents h)"
    unfolding assms(4) by (rule map_update_rows) (rule assms(5))
  moreover have "if agent_uuid a = u then agent_update_started_at a = Some (clock h) else a \<in> set (agents h)"
    if "a \<in> set (agents h')" for a
    using assms(5,6) by (cases rule: updated_row_cases [OF that [unfolded assms(4)]]) auto
  moreover have "0 \<le> UPDATE_TIMEOUT_MS" by (simp add: UPDATE_TIMEOUT_MS_def)
  ultimately show ?thesis
    using assms(1,2,3) unfolding timed_def by simp
qed

lemma timed_same:
  "timed h \<Longrightarrow> agents h' = agents h \<Longrightarrow> updateTimers h' = updateTimers h \<Longrightarrow> clock h' = clock h \<Longrightarrow> timed h'"
  by (simp add: timed_def)

lemma in_flight_simps [simp]:
  "Idle \<notin> set IN_FLIGHT" "Succeeded \<notin> set IN_FLIGHT" "RolledBack \<notin> set IN_FLIGHT"
  "UpdateFailed \<notin> set IN_FLIGHT" "UpdateRequested \<in> set IN_FLIGHT" "Pulling \<in> set IN_FLIGHT"
  "Restarting \<in> set IN_FLIGHT"
  by (simp_all add: IN_FLIGHT_def)

lemma timed_expire:
  assumes "timed h"
  shows "timed (expire u (clearTimeout u h))"
proof (cases "find_agent u h")
  case None
  then have "u \<noteq> agent_uuid a" if "a \<in> set (agents h)" for a
    using that by (auto simp: find_agent_def find_None_iff)
  with assms None show ?thesis by (fastforce simp: expire_def timed_def)
next
  case (Some a)
  show ?thesis
  proof (cases "agent_update_phase a \<in> set IN_FLIGHT")
    case True
    let ?m = "only_message (version_or (agent_update_target a) ''Unknown Version'' @
                '' did not finish in time.'')"
    show ?thesis
      by (rule timed_end [OF assms, where u = u and f = "\<lambda>b. if isAgentConnected u
             (transition u UpdateFailed ?m (clearTimeout u h)) then set_phase UpdateFailed ?m b
             else (set_phase UpdateFailed ?m b)\<lparr>agent_status := AgentOffline\<rparr>"])
        (simp_all add: expire_def Some True Let_def update_update)
  next
    case False
    have "agent_uuid b \<noteq> u" if "b \<in> set (agents h)" "agent_update_phase b \<in> set IN_FLIGHT" for b
      using find_agent_unique [OF _ Some that(1)] False that(2) assms by (auto simp: timed_def)
    with assms False Some show ?thesis by (simp add: expire_def timed_def)
  qed
qed

lemma timed_event:
  assumes "timed h"
  shows "timed (apply_event cfg e h)"
proof -
  have d: "distinct (map agent_uuid (agents h))" using assms by (simp add: timed_def)
  show ?thesis
proof (cases e)
  case (EvRequest u v)
  from requestUpdate_cases [of cfg u v h] show ?thesis
  proof (elim disjE exE conjE)
    fix a h2 m assume h2: "agents h2 = agents h" "updateTimers h2 = updateTimers h" "clock h2 = clock h"
      and r: "requestUpdate cfg u v h = (Inr (), armTimeout u (transition u UpdateRequested
           \<lparr>tf_target = Some (Some v), tf_message = m, tf_startedAt = Some (Some (clock h))\<rparr> h2))"
    show ?thesis
      by (rule timed_start [OF assms, where u = u and f = "set_phase UpdateRequested
           \<lparr>tf_target = Some (Some v), tf_message = m, tf_startedAt = Some (Some (clock h))\<rparr>"])
        (auto simp: EvRequest r h2 armTimeout_def Let_def)
  qed (rule timed_same [OF assms], simp_all add: EvRequest)
next
  case (EvProgress u l)
  show ?thesis
  proof (cases "find_agent u h")
    case (Some a)
    show ?thesis
    proof (cases "agent_update_phase a \<in> set IN_FLIGHT")
      case True
      let ?ph = "if agent_update_phase a = UpdateRequested then Pulling else agent_update_phase a"
      show ?thesis
        by (rule timed_keep [OF assms, where u = u and f = "set_phase ?ph (only_message (take 2000 l))"])
          (use find_agent_unique [OF d Some] True in \<open>auto simp: EvProgress recordProgress_def Some\<close>)
    qed (use assms in \<open>simp add: EvProgress recordProgress_def Some\<close>)
  qed (use assms in \<open>simp add: EvProgress recordProgress_def\<close>)
next
  case (EvFailure u m)
  with assms show ?thesis
    by (auto simp: recordFailure_def intro!: timed_end [OF assms, where u = u] split: option.split)
next
  case (EvDisconnect u)
  show ?thesis
  proof (cases "find_agent u h")
    case (Some a)
    show ?thesis
    proof (cases "agent_update_phase a \<in> set IN_FLIGHT")
      case True
      let ?m = "only_message (''OPTiCS Agent '' @
        version_or (agent_update_target a) ''Unknown Version'' @ '' is restarting.'')"
      show ?thesis
        by (rule timed_keep [OF assms, where u = u
              and f = "\<lambda>b. set_phase Restarting ?m (b\<lparr>agent_status := AgentRestarting\<rparr>)"])
          (use find_agent_unique [OF d Some] True
            in \<open>auto simp: EvDisconnect isExpectedRestart_def Some update_update\<close>)
    qed (use assms in \<open>simp add: EvDisconnect isExpectedRestart_def Some\<close>)
  qed (use assms in \<open>simp add: EvDisconnect isExpectedRestart_def\<close>)
next
  case (EvReconnect u v)
  with assms show ?thesis
    by (auto simp: handleReconnect_def Let_def intro!: timed_end [OF assms, where u = u]
        split: option.split)
next
  case (EvAcknowledge u)
  show ?thesis
    by (rule timed_keep [OF assms, where u = u and f = "set_phase Idle
          \<lparr>tf_target = Some None, tf_message = Some None, tf_startedAt = Some None\<rparr>"])
      (auto simp: EvAcknowledge acknowledge_def)
next
  case (EvTimer u)
  with assms timed_expire [OF assms, of u] show ?thesis
    by (auto simp: fireUpdateTimer_def split: option.split)
qed
qed

lemma timed_run: "update_run cfg h0 h \<Longrightarrow> timed h0 \<Longrightarrow> timed h"
proof (induction rule: update_run.induct)
  case (other h h')
  have "\<exists>s. agent_update_started_at a = Some s
      \<and> map_get (updateTimers h') (agent_uuid a) = Some (s + UPDATE_TIMEOUT_MS)"
    if a: "a \<in> set (agents h')" "agent_update_phase a \<in> set IN_FLIGHT" for a
  proof -
    from a have "(agent_uuid a, agent_update_phase a, agent_update_started_at a) \<in> flights h'"
      by (auto simp: flights_def)
    with other.hyps(3) obtain b where "b \<in> set (agents h)" "agent_update_phase b \<in> set IN_FLIGHT"
      "agent_uuid b = agent_uuid a" "agent_update_started_at b = agent_update_started_at a"
      by (auto simp: flights_def)
    with other.IH other.prems other.hyps(2) show ?thesis unfolding timed_def by metis
  qed
  with other show ?case unfolding timed_def by auto
qed (simp_all add: timed_event)

lemma timed_after_reset:
  assumes "distinct (map agent_uuid (agents h))" and "updateTimers h = []"
  shows "timed (resetStalePhases h)"
proof -
  have "map agent_uuid (agents (resetStalePhases h)) = map agent_uuid (agents h)"
    by (simp add: resetStalePhases_def map_update_rows)
  moreover have "agent_update_phase a \<notin> set IN_FLIGHT" if "a \<in> set (agents (resetStalePhases h))" for a
    using that unfolding resetStalePhases_def update_agents_frame
    by (cases rule: updated_row_cases) auto
  moreover have "updateTimers (resetStalePhases h) = []"
    using assms(2) by (simp add: resetStalePhases_def)
  ultimately show ?thesis
    using assms(1) by (simp add: timed_def)
qed

text \<open>C9: an update never hangs. After the Hub has started (stale phases reset, no timer armed), in every
  run in which due timers are run on time, an update in flight has its timer armed and was
  requested at most ten minutes ago.\<close>

theorem update_bounded:
  assumes "update_run cfg (resetStalePhases h0) h"
    and "distinct (map agent_uuid (agents h0))" and "updateTimers h0 = []"
    and "a \<in> set (agents h)" and "agent_update_phase a \<in> set IN_FLIGHT"
  shows "\<exists>s. agent_update_started_at a = Some s \<and> clock h \<le> s + 10 * 60 * 1000
     \<and> map_get (updateTimers h) (agent_uuid a) = Some (s + 10 * 60 * 1000)"
proof -
  have "timed h"
    using timed_run [OF assms(1) timed_after_reset [OF assms(2,3)]] .
  with assms(4,5) show ?thesis
    unfolding timed_def UPDATE_TIMEOUT_MS_def by blast
qed

text \<open>when the timeout of an update fires, the update is failed, its target and start are kept, and
  the agent is put offline exactly if no socket is registered for it.\<close>

theorem overdue_update_fails:
  assumes "map_get (updateTimers h) u = Some due" and "due \<le> clock h"
    and "distinct (map agent_uuid (agents h))"
    and "find_agent u h = Some a" and "agent_update_phase a \<in> set IN_FLIGHT"
  shows "\<exists>a'. find_agent u (fireUpdateTimer u h) = Some a' \<and> agent_update_phase a' = UpdateFailed
    \<and> agent_update_target a' = agent_update_target a
    \<and> agent_update_started_at a' = agent_update_started_at a
    \<and> agent_status a' = (if isAgentConnected u h then agent_status a else AgentOffline)
    \<and> map_get (updateTimers (fireUpdateTimer u h)) u = None"
proof -
  have u: "agent_uuid a = u" using assms(4) by (auto simp: find_agent_def dest: find_SomeD)
  have c: "isAgentConnected u (transition u ph f (clearTimeout u h)) = isAgentConnected u h" for ph f
    by (simp add: isAgentConnected_def)
  have e: "find_agent u (update_agents (\<lambda>a. agent_uuid a = u) (\<lambda>a. a\<lparr>agent_status := AgentOffline\<rparr>) g) =
      map_option (\<lambda>a. if agent_uuid a = u then a\<lparr>agent_status := AgentOffline\<rparr> else a) (find_agent u g)" for g
    by (simp add: find_agent_def find_update_same)
  show ?thesis
    using assms u
    by (simp add: fireUpdateTimer_def expire_def Let_def c e find_agent_transition set_phase_def)
qed

lemma overdue_update_fails_witness:
  "let h = owner_hub\<lparr>agents := [updating_agent Restarting], updateTimers := [(''a1'', 900)],
             agentUuidToSocketId := []\<rparr>
   in \<exists>a'. find_agent ''a1'' (fireUpdateTimer ''a1'' h) = Some a' \<and> agent_update_phase a' = UpdateFailed
        \<and> agent_status a' = AgentOffline"
proof -
  let ?h = "owner_hub\<lparr>agents := [updating_agent Restarting], updateTimers := [(''a1'', 900)],
              agentUuidToSocketId := []\<rparr>"
  have "map_get (updateTimers ?h) ''a1'' = Some 900" "(900::int) \<le> clock ?h"
    "distinct (map agent_uuid (agents ?h))" "find_agent ''a1'' ?h = Some (updating_agent Restarting)"
    "agent_update_phase (updating_agent Restarting) \<in> set IN_FLIGHT" "\<not> isAgentConnected ''a1'' ?h"
    by code_simp+
  with overdue_update_fails [of ?h "''a1''" 900 "updating_agent Restarting"] show ?thesis
    by (auto simp: Let_def)
qed

definition request_hub :: hub where
  "request_hub = owner_hub\<lparr>agent_releases := [example_release ''0.10.0'' ''stable'' 2]\<rparr>"

lemma update_bounded_witness:
  "let h = snd (requestUpdate example_config ''a1'' ''0.10.0'' request_hub)
   in \<exists>a\<in>set (agents h). agent_update_phase a = UpdateRequested
        \<and> map_get (updateTimers h) (agent_uuid a) = Some 601000"
proof -
  let ?h = "snd (requestUpdate example_config ''a1'' ''0.10.0'' request_hub)"
  have reset: "resetStalePhases request_hub = request_hub"
    by (simp add: resetStalePhases_def request_hub_def owner_hub_def update_agents_def
        example_agent_def update_rows_Cons)
  have run: "update_run example_config (resetStalePhases request_hub) ?h"
    using update_run.event [OF update_run.start, where cfg = example_config and e = "EvRequest ''a1'' ''0.10.0''"]
    by (simp add: reset)
  have phases: "map agent_update_phase (agents ?h) = [UpdateRequested]"
    and starts: "map agent_update_started_at (agents ?h) = [Some 1000]" by code_simp+
  then obtain a where a: "a \<in> set (agents ?h)" "agent_update_phase a = UpdateRequested"
    "agent_update_started_at a = Some 1000"
    by (cases "agents ?h") auto
  have "distinct (map agent_uuid (agents request_hub))" "updateTimers request_hub = []"
    by code_simp+
  from update_bounded [OF run this a(1)] a show ?thesis
    by (auto simp: Let_def intro!: bexI [of _ a])
qed

section \<open>Success means the requested version\<close>

text \<open>an update counts as successful exactly when the agent comes back with the version that was
  requested; an agent that comes back with another version, or without one, was rolled back,
  and a reconnection outside an update changes nothing.\<close>

theorem reconnect_decides_update:
  assumes "find_agent u h = Some a" and "agent_update_target a = Some target" and "target \<noteq> []"
  shows "if agent_update_phase a \<in> {UpdateRequested, Pulling, Restarting}
    then \<exists>a'. find_agent u (handleReconnect u reported h) = Some a' \<and>
           agent_update_phase a' = (if reported = Some target then Succeeded else RolledBack) \<and>
           agent_update_target a' = Some target \<and>
           map_get (updateTimers (handleReconnect u reported h)) u = None
    else handleReconnect u reported h = h"
proof -
  have u: "agent_uuid a = u" using assms(1) by (auto simp: find_agent_def dest: find_SomeD)
  show ?thesis
    using assms u
    by (cases reported)
      (auto simp: handleReconnect_def Let_def find_agent_transition set_phase_def IN_FLIGHT_def)
qed

lemma reconnect_decides_update_witness:
  "let h = owner_hub\<lparr>agents := [updating_agent Restarting]\<rparr>
   in \<exists>a'. find_agent ''a1'' (handleReconnect ''a1'' (Some ''0.6.0'') h) = Some a'
        \<and> agent_update_phase a' = RolledBack"
proof -
  let ?h = "owner_hub\<lparr>agents := [updating_agent Restarting]\<rparr>"
  have f: "find_agent ''a1'' ?h = Some (updating_agent Restarting)"
    and t: "agent_update_target (updating_agent Restarting) = Some ''0.7.0''"
      "agent_update_phase (updating_agent Restarting) = Restarting" by code_simp+
  from reconnect_decides_update [OF f t(1), of "Some ''0.6.0''"] t(2) show ?thesis
    by (auto simp: Let_def)
qed

end
