(* ===== verification/AgentService.thy ===== *)
theory AgentService
  imports AgentUpdate
begin

text \<open>
  \<open>src/agent/agent.service.ts\<close>: registration of agents and their signing secrets, accepting and
  rejecting a connection request, the list of agents of a workspace, and what happens to an
  agent and its services when it goes offline. A failure of the database is not modelled; a
  violated unique key is an \<open>InternalError\<close>.
\<close>

section \<open>Services of an agent that is gone\<close>

definition markServicesOffline :: "(agents_row \<Rightarrow> bool) \<Rightarrow> hub \<Rightarrow> hub" where
  "markServicesOffline agentWhere h =
     h\<lparr>services := update_rows
         (\<lambda>s. service_deleted_at s = None \<and> service_status s \<notin> {Removed, Offline}
            \<and> list_ex (\<lambda>a. agent_index a = service_parent_agent s \<and> agentWhere a) (agents h))
         (\<lambda>s. s\<lparr>service_status := Offline\<rparr>) (services h)\<rparr>"

definition agents_module_init :: "hub \<Rightarrow> hub" where
  "agents_module_init h =
     markServicesOffline (\<lambda>a. agent_deleted_at a = None)
       (update_agents (\<lambda>a. agent_deleted_at a = None)
          (\<lambda>a. a\<lparr>agent_status := AgentOffline, agent_last_online := clock h\<rparr>) h)"

definition markAgentOffline :: "string \<Rightarrow> hub \<Rightarrow> hub" where
  "markAgentOffline agentUuid h =
     (let parent = (case find_agent agentUuid h of None \<Rightarrow> None | Some a \<Rightarrow> agent_parent_workspace a);
          h1 = update_agents (\<lambda>a. agent_uuid a = agentUuid)
                 (\<lambda>a. a\<lparr>agent_status := AgentOffline, agent_last_online := clock h\<rparr>) h;
          h2 = markServicesOffline (\<lambda>a. agent_uuid a = agentUuid) h1
      in notifyWorkspaceUpdated parent h2)"

fun parse_service_status :: "string \<Rightarrow> service_status option" where
  "parse_service_status s =
     find (\<lambda>st. status_name st = s)
       [Waiting, Building, Starting, Running, Stopped, Offline, Failed, Removed]"

definition updateServiceStatus :: "nat \<Rightarrow> service_status \<Rightarrow> hub \<Rightarrow> hub" where
  "updateServiceStatus serviceIndex status h =
     h\<lparr>services := update_rows (\<lambda>s. service_index s = serviceIndex)
         (\<lambda>s. s\<lparr>service_status := status\<rparr>) (services h)\<rparr>"

section \<open>Connection requests\<close>

definition requested_agent :: "string \<Rightarrow> string \<Rightarrow> agents_row \<Rightarrow> bool" where
  "requested_agent agentCode agentUuid a \<longleftrightarrow>
     agent_code a = js_upper agentCode \<and> agent_uuid a = agentUuid \<and> agent_connection a = Requested"

definition handleAcceptConnectRequest ::
  "string \<Rightarrow> string \<Rightarrow> hub \<Rightarrow> (http_error + agents_row) \<times> hub" where
  "handleAcceptConnectRequest agentCode agentUuid h =
     (case find (requested_agent agentCode agentUuid) (agents h) of
        None \<Rightarrow> (Inl (NotFound ''Agent Not Found.''), h)
      | Some rawAgent \<Rightarrow>
          (let upd = (\<lambda>a. a\<lparr>agent_connection := Linked\<rparr>);
               h1 = update_agents (requested_agent agentCode agentUuid) upd h
           in (Inr (upd rawAgent), notifyWorkspaceUpdated (agent_parent_workspace rawAgent) h1)))"

definition handleRejectConnectRequest ::
  "string \<Rightarrow> string \<Rightarrow> hub \<Rightarrow> (http_error + agents_row) \<times> hub" where
  "handleRejectConnectRequest agentCode agentUuid h =
     (case find (requested_agent agentCode agentUuid) (agents h) of
        None \<Rightarrow> (Inl (NotFound ''Agent Not Found.''), h)
      | Some rawAgent \<Rightarrow>
          (let upd = (\<lambda>a. a\<lparr>agent_connection := Unlinked, agent_parent_workspace := None\<rparr>);
               h1 = update_agents (requested_agent agentCode agentUuid) upd h
           in (Inr (upd rawAgent), notifyWorkspaceUpdated (agent_parent_workspace rawAgent) h1)))"

section \<open>Registration\<close>

record registered =
  reg_ip :: string
  reg_code :: string
  reg_uuid :: string
  reg_signingSecret :: "string option"
  reg_parentWorkspace :: "nat option"

definition getSigningSecret :: "string \<Rightarrow> hub \<Rightarrow> string option" where
  "getSigningSecret agentUuid h =
     (case find_agent agentUuid h of None \<Rightarrow> None | Some a \<Rightarrow> agent_signing_secret a)"

definition new_agent ::
  "config \<Rightarrow> string \<Rightarrow> string option \<Rightarrow> int \<Rightarrow> hub \<Rightarrow> (http_error + registered) \<times> hub" where
  "new_agent cfg ip agentVersion protocolVersion h =
     (let (word1, h1) = draw cfg h;
          (word2, h2) = draw cfg h1;
          newCode = js_upper (word1 @ ''-'' @ word2);
          (newSecret, h3) = draw cfg h2;
          (newUuid, h4) = draw cfg h3;
          row = \<lparr>agent_index = next_agent h4, agent_ip = ip, agent_code = newCode,
                 agent_uuid = newUuid, agent_signing_secret = Some newSecret,
                 agent_protocol_version = Some protocolVersion, agent_name = newCode,
                 agent_parent_workspace = None, agent_connection = Unlinked, agent_status = Online,
                 agent_version = agentVersion, agent_update_phase = Idle,
                 agent_update_target = None, agent_update_message = None,
                 agent_update_started_at = None, agent_created_at = clock h4,
                 agent_deleted_at = None, agent_last_online = clock h4\<rparr>
      in if list_ex (\<lambda>a. agent_code a = newCode \<or> agent_uuid a = newUuid) (agents h4)
         then (Inl (InternalError ''Unique constraint failed''), h4)
         else (Inr \<lparr>reg_ip = ip, reg_code = newCode, reg_uuid = newUuid,
                    reg_signingSecret = Some newSecret, reg_parentWorkspace = None\<rparr>,
               h4\<lparr>agents := agents h4 @ [row], next_agent := Suc (next_agent h4)\<rparr>))"

text \<open>The branch for an agent that is found: \<open>agentVersion = None\<close> (undefined) keeps the column.\<close>

definition known_agent ::
  "config \<Rightarrow> string \<Rightarrow> agents_row \<Rightarrow> string option \<Rightarrow> int \<Rightarrow> hub
    \<Rightarrow> (http_error + registered) \<times> hub" where
  "known_agent cfg ip exist agentVersion protocolVersion h =
     (let (reissuedSecret, h1) =
            (if falsy (agent_signing_secret exist)
             then (case draw cfg h of (s, h') \<Rightarrow> (Some s, h')) else (None, h));
          h2 = update_agents (\<lambda>a. agent_uuid a = agent_uuid exist)
                 (\<lambda>a. a\<lparr>agent_status := Online, agent_ip := ip, agent_last_online := clock h1,
                        agent_protocol_version := Some protocolVersion,
                        agent_version := (case agentVersion of None \<Rightarrow> agent_version a
                                          | Some v \<Rightarrow> Some v),
                        agent_signing_secret := (if truthy reissuedSecret then reissuedSecret
                                                 else agent_signing_secret a)\<rparr>) h1
      in (Inr \<lparr>reg_ip = ip, reg_code = agent_code exist, reg_uuid = agent_uuid exist,
               reg_signingSecret = reissuedSecret,
               reg_parentWorkspace = agent_parent_workspace exist\<rparr>, h2))"

definition registerAgent ::
  "config \<Rightarrow> string \<Rightarrow> string option \<Rightarrow> string option \<Rightarrow> int \<Rightarrow> hub
    \<Rightarrow> (http_error + registered) \<times> hub" where
  "registerAgent cfg ip agentUuid agentVersion protocolVersion h =
     (if falsy agentUuid then new_agent cfg ip agentVersion protocolVersion h
      else case find_agent (the agentUuid) h of
        Some exist \<Rightarrow> known_agent cfg ip exist agentVersion protocolVersion h
      | None \<Rightarrow> new_agent cfg ip agentVersion protocolVersion h)"

section \<open>The list of agents\<close>

record agent_view =
  av_agentIndex :: nat
  av_agentIp :: "string option"
  av_agentCode :: string
  av_agentName :: string
  av_agentConnection :: connection_status
  av_agentStatus :: agent_status
  av_agentCreatedAt :: int
  av_agentLastOnline :: int
  av_workspaceName :: "string option"
  av_agentUuid :: string
  av_agentVersion :: "string option"
  av_updatePhase :: update_phase
  av_updateTarget :: "string option"
  av_updateMessage :: "string option"
  av_updateStartedAt :: "int option"
  av_upgrade :: "(string \<times> string option) option"
  av_versionBlocked :: "string option"
  av_remoteUpdateSupported :: bool

text \<open>The distinct elements in the order of their first occurrence, as a \<open>Set\<close> iterates.\<close>

definition js_set :: "'a list \<Rightarrow> 'a list" where
  "js_set xs = rev (remdups (rev xs))"

definition version_info ::
  "config \<Rightarrow> string option
    \<Rightarrow> (string, (string \<times> string option) option \<times> string option) jsmap \<times> hub
    \<Rightarrow> (string, (string \<times> string option) option \<times> string option) jsmap \<times> hub" where
  "version_info cfg version st =
     (let (info, h) = st;
          (upgrade, h1) = findUpgradeFor cfg version h
      in (map_set info (version_or version [])
            (map_option (\<lambda>v. (view_version v, view_notes v)) upgrade,
             blockedReasonForVersion version h1), h1))"

definition agent_to_view ::
  "(string, (string \<times> string option) option \<times> string option) jsmap \<Rightarrow> hub \<Rightarrow> agents_row \<Rightarrow> agent_view" where
  "agent_to_view info h a =
     \<lparr>av_agentIndex = agent_index a,
      av_agentIp = (if agent_connection a = Linked then Some (agent_ip a) else None),
      av_agentCode = agent_code a, av_agentName = agent_name a,
      av_agentConnection = agent_connection a, av_agentStatus = agent_status a,
      av_agentCreatedAt = agent_created_at a, av_agentLastOnline = agent_last_online a,
      av_workspaceName = (case agent_parent_workspace a of None \<Rightarrow> None
         | Some i \<Rightarrow> map_option workspace_name (find (\<lambda>w. workspace_index w = i) (workspaces h))),
      av_agentUuid = agent_uuid a, av_agentVersion = agent_version a,
      av_updatePhase = agent_update_phase a, av_updateTarget = agent_update_target a,
      av_updateMessage = agent_update_message a, av_updateStartedAt = agent_update_started_at a,
      av_upgrade = (case map_get info (version_or (agent_version a) []) of
         None \<Rightarrow> None | Some (up, bl) \<Rightarrow> up),
      av_versionBlocked = (case map_get info (version_or (agent_version a) []) of
         None \<Rightarrow> None | Some (up, bl) \<Rightarrow> bl),
      av_remoteUpdateSupported = supportsRemoteUpdate (agent_version a)\<rparr>"

definition getAgentList :: "config \<Rightarrow> nat \<Rightarrow> nat \<Rightarrow> hub \<Rightarrow> agent_view list \<times> hub" where
  "getAgentList cfg userIndex workspaceIdx h =
     (let rawAgents = js_sort (\<lambda>a b. agent_created_at b - agent_created_at a)
            (filter (\<lambda>a. agent_deleted_at a = None \<and> agent_connection a \<in> {Requested, Linked}
               \<and> parent_matches h (\<lambda>w. workspace_index w = workspaceIdx
                     \<and> owns_workspace userIndex w) a) (agents h));
          (info, h1) = fold (version_info cfg) (js_set (map agent_version rawAgents)) ([], h)
      in (map (agent_to_view info h) rawAgents, h1))"

section \<open>Lemmas and properties\<close>

lemma notify_frame [simp, link_simps]:
  "agents (notifyWorkspaceUpdated w h) = agents h" "services (notifyWorkspaceUpdated w h) = services h"
  "sockets (notifyWorkspaceUpdated w h) = sockets h" "clock (notifyWorkspaceUpdated w h) = clock h"
  "workspaces (notifyWorkspaceUpdated w h) = workspaces h"
  "service_endpoints (notifyWorkspaceUpdated w h) = service_endpoints h"
  "service_components (notifyWorkspaceUpdated w h) = service_components h"
  "agentUuidToSocketId (notifyWorkspaceUpdated w h) = agentUuidToSocketId h"
  "offlineTimers (notifyWorkspaceUpdated w h) = offlineTimers h"
  "updateTimers (notifyWorkspaceUpdated w h) = updateTimers h"
  "routeCache (notifyWorkspaceUpdated w h) = routeCache h"
  "workspaceIndexCache (notifyWorkspaceUpdated w h) = workspaceIndexCache h"
  by (simp_all add: notifyWorkspaceUpdated_def notifyAgentUpdated_def emitToWorkspace_def split: option.split)

lemma markServicesOffline_frame [simp, link_simps]:
  "agents (markServicesOffline P h) = agents h" "sockets (markServicesOffline P h) = sockets h"
  "agentUuidToSocketId (markServicesOffline P h) = agentUuidToSocketId h"
  "workspaces (markServicesOffline P h) = workspaces h" "clock (markServicesOffline P h) = clock h"
  by (simp_all add: markServicesOffline_def)

lemma list_ex_update:
  "(\<And>r. Q (f r) = Q r) \<Longrightarrow> list_ex Q (update_rows P f rs) = list_ex Q rs"
  by (induction rs) (auto simp: update_rows_Cons)

lemma same_status: "service_status s = Offline \<Longrightarrow> s\<lparr>service_status := Offline\<rparr> = s"
  by (cases s) simp

text \<open>when an agent goes offline, its row says so, with the time, and exactly its services that are
  neither deleted nor removed become offline; no other agent and no other service changes.\<close>

theorem markAgentOffline_exact:
  "agents (markAgentOffline u h) = map (\<lambda>a. if agent_uuid a = u
      then a\<lparr>agent_status := AgentOffline, agent_last_online := clock h\<rparr> else a) (agents h) \<and>
   services (markAgentOffline u h) = map (\<lambda>s. if service_deleted_at s = None \<and> service_status s \<noteq> Removed
        \<and> (\<exists>a\<in>set (agents h). agent_uuid a = u \<and> agent_index a = service_parent_agent s)
      then s\<lparr>service_status := Offline\<rparr> else s) (services h)"
proof
  show "services (markAgentOffline u h) = map (\<lambda>s. if service_deleted_at s = None \<and> service_status s \<noteq> Removed
        \<and> (\<exists>a\<in>set (agents h). agent_uuid a = u \<and> agent_index a = service_parent_agent s)
      then s\<lparr>service_status := Offline\<rparr> else s) (services h)"
    by (simp add: markAgentOffline_def Let_def markServicesOffline_def list_ex_update conj_commute)
      (simp add: update_rows_def list_ex_iff same_status Bex_def conj_ac)
qed (simp add: markAgentOffline_def Let_def update_rows_def)

lemma new_agent_agents:
  "new_agent cfg ip v p h = (Inr reg, h') \<Longrightarrow> \<exists>row. agents h' = agents h @ [row]
     \<and> agent_uuid row = reg_uuid reg \<and> agent_signing_secret row = reg_signingSecret reg
     \<and> agent_update_phase row = Idle \<and> agent_code row = reg_code reg
     \<and> reg_signingSecret reg = Some (cfg_random cfg (draws h + 2))
     \<and> (\<forall>a\<in>set (agents h). agent_uuid a \<noteq> reg_uuid reg) \<and> reg_parentWorkspace reg = None
     \<and> agent_parent_workspace row = None"
  by (auto simp: new_agent_def draw_def Let_def list_ex_iff split: if_splits)

lemma known_agent_agents:
  "known_agent cfg ip exist v p h = (r, h') \<Longrightarrow>
   \<exists>f. agents h' = update_rows (\<lambda>a. agent_uuid a = agent_uuid exist) f (agents h)
     \<and> (\<forall>a. agent_uuid (f a) = agent_uuid a \<and> agent_index (f a) = agent_index a
          \<and> agent_code (f a) = agent_code a \<and> agent_update_phase (f a) = agent_update_phase a
          \<and> agent_update_started_at (f a) = agent_update_started_at a
          \<and> agent_parent_workspace (f a) = agent_parent_workspace a
          \<and> agent_signing_secret (f a) =
              (if falsy (agent_signing_secret exist) \<and> cfg_random cfg (draws h) \<noteq> []
               then Some (cfg_random cfg (draws h)) else agent_signing_secret a))
     \<and> (\<exists>reg. r = Inr reg \<and> reg_uuid reg = agent_uuid exist \<and> reg_code reg = agent_code exist
          \<and> reg_parentWorkspace reg = agent_parent_workspace exist
          \<and> reg_signingSecret reg =
            (if falsy (agent_signing_secret exist) then Some (cfg_random cfg (draws h)) else None))"
  unfolding known_agent_def draw_def Let_def
  by (intro exI [of _ "\<lambda>a. a\<lparr>agent_status := Online, agent_ip := ip, agent_last_online := clock h,
        agent_protocol_version := Some p,
        agent_version := (case v of None \<Rightarrow> agent_version a | Some v \<Rightarrow> Some v),
        agent_signing_secret := (if falsy (agent_signing_secret exist) \<and> cfg_random cfg (draws h) \<noteq> []
               then Some (cfg_random cfg (draws h)) else agent_signing_secret a)\<rparr>"])
    (auto split: if_splits)

text \<open>C4: the signing secret of an agent is its identity and is never replaced. Registering under the
  uuid of an agent that has a secret keeps the secret and does not send it; an agent without one
  gets a fresh secret, which is stored and sent. Secrets of other agents do not change, and no
  row disappears.\<close>

theorem registration_keeps_secrets:
  assumes "registerAgent cfg ip agentUuid agentVersion protocolVersion h = (Inr reg, h')"
    and "distinct (map agent_uuid (agents h))" and "\<And>n. cfg_random cfg n \<noteq> []"
    and "a \<in> set (agents h)"
  shows "\<exists>a'\<in>set (agents h'). agent_uuid a' = agent_uuid a \<and> agent_index a' = agent_index a \<and>
    (if \<not> falsy (agent_signing_secret a) then
       agent_signing_secret a' = agent_signing_secret a \<and>
       (agentUuid = Some (agent_uuid a) \<longrightarrow> agent_uuid a \<noteq> [] \<longrightarrow> reg_signingSecret reg = None)
     else if agentUuid = Some (agent_uuid a) \<and> agent_uuid a \<noteq> [] then
       agent_signing_secret a' = Some (cfg_random cfg (draws h)) \<and>
       reg_signingSecret reg = Some (cfg_random cfg (draws h))
     else agent_signing_secret a' = agent_signing_secret a)"
proof (cases "\<exists>u exist. agentUuid = Some u \<and> u \<noteq> [] \<and> find_agent u h = Some exist")
  case True
  then obtain u exist where u: "agentUuid = Some u" "u \<noteq> []" "find_agent u h = Some exist" by blast
  then have e: "exist \<in> set (agents h)" "agent_uuid exist = u"
    by (auto simp: find_agent_def dest: find_SomeD)
  have "known_agent cfg ip exist agentVersion protocolVersion h = (Inr reg, h')"
    using assms(1) u by (simp add: registerAgent_def falsy_def)
  from known_agent_agents [OF this] obtain f where
    f: "agents h' = update_rows (\<lambda>a. agent_uuid a = agent_uuid exist) f (agents h)"
      "\<And>a. agent_uuid (f a) = agent_uuid a" "\<And>a. agent_index (f a) = agent_index a"
      "\<And>a. agent_signing_secret (f a) = (if falsy (agent_signing_secret exist)
          then Some (cfg_random cfg (draws h)) else agent_signing_secret a)"
    and reg: "reg_signingSecret reg =
      (if falsy (agent_signing_secret exist) then Some (cfg_random cfg (draws h)) else None)"
    using assms(3) by auto
  have same: "agent_uuid a = u \<Longrightarrow> a = exist"
    using find_agent_unique [OF assms(2) u(3) assms(4)] .
  have "(if agent_uuid a = u then f a else a) \<in> set (agents h')"
    using assms(4) e(2) unfolding f(1) in_update_rows by auto
  then show ?thesis
    using f(2-4) reg u(1,2) same
    by (intro bexI [of _ "if agent_uuid a = u then f a else a"]) auto
next
  case False
  then have "find_agent (the agentUuid) h = None" if "\<not> falsy agentUuid"
    using that by (cases agentUuid) (auto simp: falsy_def)
  then have "new_agent cfg ip agentVersion protocolVersion h = (Inr reg, h')"
    using assms(1) by (auto simp: registerAgent_def split: if_splits)
  from new_agent_agents [OF this] have a: "a \<in> set (agents h')" using assms(4) by auto
  have "\<not> (agentUuid = Some (agent_uuid a) \<and> agent_uuid a \<noteq> [])"
    using False assms(4) by (auto simp: find_agent_def find_None_iff)
  with a show ?thesis by auto
qed

lemma registration_keeps_secrets_witness:
  "\<exists>a'\<in>set (agents (snd (registerAgent example_config ''10.0.0.9'' (Some ''a1'') (Some ''0.7.0'') 1 owner_hub))).
     agent_uuid a' = ''a1'' \<and> agent_signing_secret a' = Some ''secret''"
proof -
  let ?op = "registerAgent example_config ''10.0.0.9'' (Some ''a1'') (Some ''0.7.0'') 1 owner_hub"
  let ?reg = "\<lparr>reg_ip = ''10.0.0.9'', reg_code = ''RED-FOX'', reg_uuid = ''a1'',
      reg_signingSecret = None, reg_parentWorkspace = Some 1\<rparr>"
  have "fst ?op = Inr ?reg" by code_simp
  then have op: "?op = (Inr ?reg, snd ?op)" by (cases ?op) simp
  have d: "distinct (map agent_uuid (agents owner_hub))" by code_simp
  have n: "cfg_random example_config n \<noteq> []" for n by (simp add: example_config_def)
  have a: "example_agent \<in> set (agents owner_hub)" by (simp add: owner_hub_def)
  from registration_keeps_secrets [OF op d n a] show ?thesis
    by (auto simp: example_agent_def falsy_def)
qed

end
