(* ===== verification/AgentGateway.thy ===== *)
theory AgentGateway
  imports AgentService
begin

text \<open>
  The incoming half of \<open>src/agent/agent.gateway.ts\<close>: registration of a socket, its
  disconnection, and the handlers of the events an agent sends, behind the packet guard of
  theory \<open>AgentLink\<close>.

  A payload is the JavaScript value received; the fields that are present have the types that
  the handler's signature declares, and an absent field is \<open>undefined\<close>. A Prisma filter that is
  \<open>undefined\<close> is no filter (documented behaviour), which \<open>getWorkspaceIndexForAgentService\<close> and
  \<open>syncServiceComponents\<close> meet when a packet has no \<open>serviceIndex\<close>. Here a registration is one step;
  theory \<open>Handshake\<close> takes it apart at its wait for the stored secret.
\<close>

section \<open>Whose service it is\<close>

definition WORKSPACE_INDEX_CACHE_TTL_MS :: int where "WORKSPACE_INDEX_CACHE_TTL_MS = 30000"

interpretation workspace_cache: ttl_cache map_get map_set map_delete WORKSPACE_INDEX_CACHE_TTL_MS
  by unfold_locales (simp add: WORKSPACE_INDEX_CACHE_TTL_MS_def)

definition index_filter :: "nat option \<Rightarrow> nat \<Rightarrow> bool" where
  "index_filter i n \<longleftrightarrow> (case i of None \<Rightarrow> True | Some j \<Rightarrow> n = j)"

definition index_text :: "nat option \<Rightarrow> string" where
  "index_text i = (case i of None \<Rightarrow> ''undefined'' | Some n \<Rightarrow> show_nat n)"

definition workspace_cache_key :: "string \<Rightarrow> nat option \<Rightarrow> string" where
  "workspace_cache_key agentUuid serviceIndex = agentUuid @ ''/'' @ index_text serviceIndex"

definition getWorkspaceIndexForAgentService ::
  "string \<Rightarrow> nat option \<Rightarrow> hub \<Rightarrow> nat option \<times> hub" where
  "getWorkspaceIndexForAgentService agentUuid serviceIndex h =
     (let cacheKey = workspace_cache_key agentUuid serviceIndex
      in case live_entry (clock h) (map_get (workspaceIndexCache h) cacheKey) of
        Some w \<Rightarrow> (Some w, h)
      | None \<Rightarrow>
     (case find (\<lambda>s. index_filter serviceIndex (service_index s) \<and> service_deleted_at s = None)
             (services h) of
        None \<Rightarrow> (None, h)
      | Some s \<Rightarrow>
          if find (\<lambda>a. agent_index a = service_parent_agent s \<and> agent_uuid a = agentUuid
                \<and> agent_connection a = Linked \<and> agent_deleted_at a = None) (agents h) = None
          then (None, h)
          else (Some (service_parent_workspace s),
                h\<lparr>workspaceIndexCache := map_set (workspaceIndexCache h) cacheKey
                    (service_parent_workspace s, clock h + WORKSPACE_INDEX_CACHE_TTL_MS)\<rparr>)))"

section \<open>Components reported by an agent\<close>

fun component_status_of :: "string \<Rightarrow> component_status option" where
  "component_status_of s =
     map_of [(''waiting'', CWaiting), (''building'', CBuilding), (''starting'', CStarting),
             (''running'', CRunning), (''stopped'', CStopped), (''failed'', CFailed),
             (''removed'', CRemoved), (''restarting'', CRestarting)] s"

definition normalizeComponentStatus :: "string \<Rightarrow> component_status" where
  "normalizeComponentStatus status =
     (case component_status_of status of Some c \<Rightarrow> c | None \<Rightarrow> CStopped)"

record container_report =
  cr_name :: string
  cr_status :: string
  cr_service :: "string option"
  cr_exitCode :: "int option"
  cr_health :: "string option"

definition componentName :: "services_row \<Rightarrow> container_report \<Rightarrow> string" where
  "componentName s c =
     (let trimmed = (case cr_service c of None \<Rightarrow> [] | Some t \<Rightarrow> js_trim t)
      in if trimmed \<noteq> [] then trimmed
         else if service_deploy_preset s = Compose then cr_name c else ''app'')"

definition upsert_component :: "nat \<Rightarrow> string \<Rightarrow> container_report \<Rightarrow> hub \<Rightarrow> hub" where
  "upsert_component serviceIndex name c h =
     (let same = (\<lambda>r. component_parent_service r = serviceIndex \<and> component_name r = name)
      in if list_ex same (service_components h)
         then h\<lparr>service_components := update_rows same
                 (\<lambda>r. r\<lparr>component_container_name := Some (cr_name c),
                        component_status := normalizeComponentStatus (cr_status c),
                        component_health := cr_health c, component_exit_code := cr_exitCode c,
                        component_deleted_at := None\<rparr>) (service_components h)\<rparr>
         else h\<lparr>service_components := service_components h @
                 [\<lparr>component_index = next_component h, component_parent_service = serviceIndex,
                   component_name = name, component_container_name = Some (cr_name c),
                   component_status = normalizeComponentStatus (cr_status c),
                   component_health = cr_health c, component_exit_code = cr_exitCode c,
                   component_deleted_at = None\<rparr>],
                next_component := Suc (next_component h)\<rparr>)"

fun upsert_containers ::
  "nat \<Rightarrow> services_row \<Rightarrow> container_report list \<Rightarrow> string list \<Rightarrow> hub \<Rightarrow> string list \<times> hub" where
  "upsert_containers serviceIndex s [] seenNames h = (seenNames, h)"
| "upsert_containers serviceIndex s (c # cs) seenNames h =
     (let name = componentName s c
      in if name = [] then upsert_containers serviceIndex s cs seenNames h
         else upsert_containers serviceIndex s cs (seenNames @ [name])
                (upsert_component serviceIndex name c h))"

text \<open>
  Without an index the upsert throws on the first container (a compound key cannot be
  \<open>undefined\<close>), and the caller logs it; an empty list goes straight to the \<open>updateMany\<close>, whose
  filter on the service is then no filter.
\<close>

definition syncServiceComponents :: "nat option \<Rightarrow> container_report list \<Rightarrow> hub \<Rightarrow> hub" where
  "syncServiceComponents serviceIndex containers h =
     (case find (\<lambda>s. index_filter serviceIndex (service_index s) \<and> service_deleted_at s = None)
             (services h) of
        None \<Rightarrow> h
      | Some s \<Rightarrow>
          if containers = [] then
            h\<lparr>service_components := update_rows
                (\<lambda>r. index_filter serviceIndex (component_parent_service r)
                   \<and> component_deleted_at r = None)
                (\<lambda>r. r\<lparr>component_status := CRemoved\<rparr>) (service_components h)\<rparr>
          else case serviceIndex of
            None \<Rightarrow>
              if \<exists>c\<in>set containers. componentName s c \<noteq> [] then h
              else h\<lparr>service_components := update_rows (\<lambda>r. component_deleted_at r = None)
                       (\<lambda>r. r\<lparr>component_status := CRemoved\<rparr>) (service_components h)\<rparr>
          | Some i \<Rightarrow>
              (let (seenNames, h1) = upsert_containers i s containers [] h
               in h1\<lparr>service_components := update_rows
                      (\<lambda>r. component_parent_service r = i \<and> component_deleted_at r = None
                         \<and> component_name r \<notin> set seenNames)
                      (\<lambda>r. r\<lparr>component_status := CRemoved\<rparr>) (service_components h1)\<rparr>))"

section \<open>Handlers of agent events\<close>

definition socket_data :: "string \<Rightarrow> hub \<Rightarrow> agent_socket option" where
  "socket_data clientId h = map_get (sockets h) clientId"

definition socket_agent :: "string \<Rightarrow> hub \<Rightarrow> string option" where
  "socket_agent clientId h =
     (case socket_data clientId h of None \<Rightarrow> None | Some s \<Rightarrow> data_agentUuid s)"

text \<open>\<open>{ agentCode, ...payload }\<close>\<close>

definition with_agent_code :: "string \<Rightarrow> jval \<Rightarrow> hub \<Rightarrow> jval" where
  "with_agent_code clientId payload h =
     (let code = (case socket_data clientId h of None \<Rightarrow> JUndef
                  | Some s \<Rightarrow> (case data_agentCode s of None \<Rightarrow> JUndef | Some c \<Rightarrow> JStr c))
      in JObj (fold (\<lambda>(k, v) m. map_set m k v) (spread payload) [(''agentCode'', code)]))"

definition index_field :: "jval \<Rightarrow> nat option" where
  "index_field payload = (case field ''serviceIndex'' payload of JNum n \<Rightarrow> Some (nat n) | _ \<Rightarrow> None)"

definition handleResponse :: "string \<Rightarrow> jval \<Rightarrow> hub \<Rightarrow> hub" where
  "handleResponse clientId payload h =
     (case socket_data clientId h of
        None \<Rightarrow> h
      | Some s \<Rightarrow>
          (case data_workspaceIndex s of
             None \<Rightarrow> h
           | Some w \<Rightarrow> if w = 0 then h else emitToWorkspace w ''response'' payload h))"

text \<open>The handlers that look up the workspace of the service and pass the event on to its room.\<close>

definition forward_service_event ::
  "string \<Rightarrow> string \<Rightarrow> jval \<Rightarrow> (hub \<Rightarrow> hub) \<Rightarrow> hub \<Rightarrow> hub" where
  "forward_service_event clientId event payload effect h =
     (case socket_agent clientId h of
        None \<Rightarrow> h
      | Some agentUuid \<Rightarrow>
          if agentUuid = [] then h
          else case getWorkspaceIndexForAgentService agentUuid (index_field payload) h of
            (None, h1) \<Rightarrow> h1
          | (Some w, h1) \<Rightarrow>
              if w = 0 then h1
              else emitToWorkspace w event (with_agent_code clientId payload h) (effect h1))"

definition report_of :: "jval \<Rightarrow> container_report" where
  "report_of v = \<lparr>cr_name = version_or (str_field ''name'' v) [],
     cr_status = version_or (str_field ''status'' v) [],
     cr_service = str_field ''service'' v,
     cr_exitCode = (case field ''exitCode'' v of JNum n \<Rightarrow> Some n | _ \<Rightarrow> None),
     cr_health = str_field ''health'' v\<rparr>"

definition containers_field :: "jval \<Rightarrow> container_report list option" where
  "containers_field payload =
     (case field ''containers'' payload of JArr vs \<Rightarrow> Some (map report_of vs) | _ \<Rightarrow> None)"

text \<open>Without \<open>containers\<close> the loop throws, which is logged; the event is still passed on.\<close>

definition handleContainerStatus :: "string \<Rightarrow> jval \<Rightarrow> hub \<Rightarrow> hub" where
  "handleContainerStatus clientId payload h =
     forward_service_event clientId ''container-status'' payload
       (case containers_field payload of
          None \<Rightarrow> (\<lambda>h. h)
        | Some containers \<Rightarrow> syncServiceComponents (index_field payload) containers) h"

text \<open>Status \<open>offline\<close> is not in the list of statuses an agent may set.\<close>

definition handleServiceStatus :: "string \<Rightarrow> jval \<Rightarrow> hub \<Rightarrow> hub" where
  "handleServiceStatus clientId payload h =
     forward_service_event clientId ''service-status'' payload
       (\<lambda>h. case (index_field payload, str_field ''status'' payload) of
              (Some i, Some t) \<Rightarrow>
                (case parse_service_status t of
                   Some st \<Rightarrow> if st = Offline then h else updateServiceStatus i st h
                 | None \<Rightarrow> h)
            | _ \<Rightarrow> h) h"

definition handleServiceLog :: "string \<Rightarrow> jval \<Rightarrow> hub \<Rightarrow> hub" where
  "handleServiceLog clientId payload h =
     forward_service_event clientId ''service-log'' payload (\<lambda>h. h) h"

definition handleLogLoadProgress :: "string \<Rightarrow> jval \<Rightarrow> hub \<Rightarrow> hub" where
  "handleLogLoadProgress clientId payload h =
     forward_service_event clientId ''log-load-progress'' payload (\<lambda>h. h) h"

definition handleServiceLogHistory :: "string \<Rightarrow> jval \<Rightarrow> hub \<Rightarrow> hub" where
  "handleServiceLogHistory clientId payload h =
     forward_service_event clientId ''service-log-history'' payload (\<lambda>h. h) h"

definition handleServiceLogMarkers :: "string \<Rightarrow> jval \<Rightarrow> hub \<Rightarrow> hub" where
  "handleServiceLogMarkers clientId payload h =
     forward_service_event clientId ''service-log-markers'' payload (\<lambda>h. h) h"

text \<open>The handlers that only need the agent of the socket.\<close>

definition for_agent :: "string \<Rightarrow> (string \<Rightarrow> hub \<Rightarrow> hub) \<Rightarrow> hub \<Rightarrow> hub" where
  "for_agent clientId action h =
     (case socket_agent clientId h of
        None \<Rightarrow> h
      | Some agentUuid \<Rightarrow> if agentUuid = [] then h else action agentUuid h)"

definition handleSystemMetrics :: "string \<Rightarrow> jval \<Rightarrow> hub \<Rightarrow> hub" where
  "handleSystemMetrics clientId payload h = for_agent clientId (\<lambda>u. forwardSystemMetrics u payload) h"

definition handleTerminalReady :: "string \<Rightarrow> jval \<Rightarrow> hub \<Rightarrow> hub" where
  "handleTerminalReady clientId payload h = for_agent clientId (\<lambda>u. forwardTerminalReady u payload) h"

definition handleTerminalOutput :: "string \<Rightarrow> jval \<Rightarrow> hub \<Rightarrow> hub" where
  "handleTerminalOutput clientId payload h = for_agent clientId (\<lambda>u. forwardTerminalOutput u payload) h"

definition handleTerminalClosed :: "string \<Rightarrow> jval \<Rightarrow> hub \<Rightarrow> hub" where
  "handleTerminalClosed clientId payload h = for_agent clientId (\<lambda>u. forwardTerminalClosed u payload) h"

definition handleUpdateLog :: "string \<Rightarrow> jval \<Rightarrow> hub \<Rightarrow> hub" where
  "handleUpdateLog clientId payload h =
     for_agent clientId (\<lambda>u h. case str_field ''line'' payload of
        None \<Rightarrow> h | Some line \<Rightarrow> recordProgress u line h) h"

text \<open>\<open>String(payload?.message ?? '')\<close> for a string or an absent message.\<close>

definition handleUpdateFailed :: "string \<Rightarrow> jval \<Rightarrow> hub \<Rightarrow> hub" where
  "handleUpdateFailed clientId payload h =
     for_agent clientId (\<lambda>u.
       recordFailure u (take 500 (version_or (str_field ''message'' payload) []))) h"

section \<open>Registration of a socket\<close>

definition MINIMUM_PROTOCOL_VERSION :: int where "MINIMUM_PROTOCOL_VERSION = 1"
definition MAXIMUM_PROTOCOL_VERSION :: int where "MAXIMUM_PROTOCOL_VERSION = 1"

definition normalizeIp :: "string \<Rightarrow> string" where
  "normalizeIp rawIp =
     (if rawIp = ''::1'' then ''127.0.0.1''
      else if starts_with ''::ffff:'' rawIp then drop 7 rawIp else rawIp)"

fun reason_name :: "verify_failure \<Rightarrow> string" where
  "reason_name NO_SECRET = ''no_secret''"
| "reason_name MISSING_SIGNATURE = ''missing_signature''"
| "reason_name MALFORMED_SIGNATURE = ''malformed_signature''"
| "reason_name MISSING_TIMESTAMP = ''missing_timestamp''"
| "reason_name MISSING_NONCE = ''missing_nonce''"
| "reason_name EXPIRED = ''expired''"
| "reason_name REPLAYED = ''replayed''"
| "reason_name INVALID_SIGNATURE = ''invalid_signature''"

definition refuse :: "string \<Rightarrow> string \<Rightarrow> jval \<Rightarrow> hub \<Rightarrow> hub" where
  "refuse clientId code data h =
     emit (DisconnectSocket clientId)
       (emit (AgentEmit clientId ''register'' (JObj [(''code'', JStr code), (''data'', data)])) h)"

definition registered_json :: "registered \<Rightarrow> jval" where
  "registered_json r = JObj [(''ip'', JStr (reg_ip r)), (''code'', JStr (reg_code r)),
     (''uuid'', JStr (reg_uuid r)), (''signingSecret'', jopt (reg_signingSecret r)),
     (''parentWorkspace'', jopt_nat (reg_parentWorkspace r))]"

definition fresh_socket :: agent_socket where
  "fresh_socket = \<lparr>data_agentCode = None, data_agentUuid = None, data_agentIp = None,
     data_workspaceIndex = None, data_signingSecret = None, data_replayGuard = newReplayGuard,
     data_packetGuardInstalled = False\<rparr>"

definition handleConnection :: "string \<Rightarrow> hub \<Rightarrow> hub" where
  "handleConnection clientId h = set_socket clientId fresh_socket h"

text \<open>What \<open>handleValidation\<close> does with the outcome of \<open>registerAgent\<close>: the identity of the socket and the route
  to it first; then, after a wait for the stored secret where none was issued, the secret and the guard.
  Here the two follow each other; the theory \<open>Handshake\<close> lets other steps happen between them. A socket that is
  gone by then gets nothing.\<close>

definition attach_begin :: "string \<Rightarrow> registered \<Rightarrow> hub \<Rightarrow> hub" where
  "attach_begin clientId agent h =
     (let h1 = clearOfflineTimer (reg_uuid agent) h;
          h2 = h1\<lparr>agentUuidToSocketId := map_set (agentUuidToSocketId h1) (reg_uuid agent) clientId\<rparr>
      in case socket_data clientId h2 of
           None \<Rightarrow> h2
         | Some s \<Rightarrow> set_socket clientId
             (s\<lparr>data_agentCode := Some (reg_code agent), data_agentUuid := Some (reg_uuid agent),
                data_agentIp := Some (reg_ip agent), data_workspaceIndex := reg_parentWorkspace agent\<rparr>) h2)"

definition attach_end :: "string \<Rightarrow> registered \<Rightarrow> string option \<Rightarrow> string option \<Rightarrow> hub \<Rightarrow> hub" where
  "attach_end clientId agent secret agentVersion h =
     (let h1 = (case socket_data clientId h of
            None \<Rightarrow> h
          | Some s \<Rightarrow>
              emit (AgentEmit clientId ''register''
                 (JObj [(''code'', JStr ''ok''), (''data'', registered_json agent)]))
               (set_socket clientId (guardIncomingPackets
                 (s\<lparr>data_signingSecret := secret, data_replayGuard := newReplayGuard\<rparr>)) h))
      in notifyWorkspaceUpdated (reg_parentWorkspace agent) (handleReconnect (reg_uuid agent) agentVersion h1))"

definition attach_socket :: "string \<Rightarrow> registered \<Rightarrow> string option \<Rightarrow> hub \<Rightarrow> hub" where
  "attach_socket clientId agent agentVersion h =
     (let h1 = attach_begin clientId agent h
      in attach_end clientId agent
           (case reg_signingSecret agent of None \<Rightarrow> getSigningSecret (reg_uuid agent) h1 | Some x \<Rightarrow> Some x)
           agentVersion h1)"

definition protocol_field :: "jval \<Rightarrow> int" where
  "protocol_field payload = (case field ''protocolVersion'' payload of JNum n \<Rightarrow> n | _ \<Rightarrow> 0)"

definition register_rejection :: "config \<Rightarrow> jval \<Rightarrow> hub \<Rightarrow> (string \<times> jval) option" where
  "register_rejection cfg payload h =
     (let p = protocol_field payload; agentUuid = str_field ''agentUuid'' payload
      in if p = 0 \<or> p < MINIMUM_PROTOCOL_VERSION \<or> p > MAXIMUM_PROTOCOL_VERSION
         then Some (if p > MAXIMUM_PROTOCOL_VERSION then ''unknown_protocol_version''
                    else ''deprecated_protocol_version'',
                    JObj [(''minimum'', JNum MINIMUM_PROTOCOL_VERSION),
                          (''maximum'', JNum MAXIMUM_PROTOCOL_VERSION)])
         else if falsy agentUuid then None
         else
           (let knownSecret = getSigningSecret (the agentUuid) h
            in if falsy knownSecret then None
               else case fst (verify (cfg_hmac cfg) ''register'' payload knownSecret
                                DEFAULT_MAX_CLOCK_SKEW_MS (clock h) None) of
                 VOk \<Rightarrow> None
               | VFail reason \<Rightarrow>
                   Some (''invalid_signature'', JObj [(''reason'', JStr (reason_name reason))])))"

definition handleValidation :: "config \<Rightarrow> string \<Rightarrow> string \<Rightarrow> jval \<Rightarrow> hub \<Rightarrow> hub" where
  "handleValidation cfg clientId rawIp payload h =
     (case register_rejection cfg payload h of
        Some (code, data) \<Rightarrow> refuse clientId code data h
      | None \<Rightarrow>
     (case registerAgent cfg (normalizeIp rawIp) (str_field ''agentUuid'' payload)
             (str_field ''agentVersion'' payload) (protocol_field payload) h of
        (Inl e, h1) \<Rightarrow> h1
      | (Inr agent, h1) \<Rightarrow> attach_socket clientId agent (str_field ''agentVersion'' payload) h1))"

section \<open>Disconnection\<close>

text \<open>\<open>authUuid\<close> is the \<open>agentUuid\<close> of the handshake. The namespace drops the socket.\<close>

definition handleDisconnect :: "string \<Rightarrow> string option \<Rightarrow> hub \<Rightarrow> hub" where
  "handleDisconnect clientId authUuid h =
     (case socket_data clientId h of
        None \<Rightarrow> h
      | Some s \<Rightarrow>
          (let h0 = h\<lparr>sockets := map_delete (sockets h) clientId\<rparr>;
               agentUuid = (case data_agentUuid s of None \<Rightarrow> authUuid | Some u \<Rightarrow> Some u)
           in if falsy (data_agentCode s) \<or> falsy agentUuid then h0
              else
                (let u = the agentUuid
                 in if map_get (agentUuidToSocketId h0) u \<noteq> Some clientId then h0
                    else
                      (let h1 = closeAgentConnections u h0;
                           h2 = h1\<lparr>agentUuidToSocketId := map_delete (agentUuidToSocketId h1) u,
                                   workspaceIndexCache := filter
                                     (\<lambda>(k, v). \<not> starts_with (u @ ''/'') k) (workspaceIndexCache h1)\<rparr>;
                           (expected, h3) = isExpectedRestart u h2
                       in if expected then h3 else scheduleOffline u h3))))"

definition fireOfflineTimer :: "string \<Rightarrow> hub \<Rightarrow> hub" where
  "fireOfflineTimer agentUuid h =
     (case map_get (offlineTimers h) agentUuid of
        None \<Rightarrow> h
      | Some due \<Rightarrow>
          if clock h < due then h
          else
            (let h1 = h\<lparr>offlineTimers := map_delete (offlineTimers h) agentUuid\<rparr>
             in if map_get (agentUuidToSocketId h1) agentUuid \<noteq> None then h1
                else markAgentOffline agentUuid h1))"

section \<open>One packet\<close>

definition dispatch :: "config \<Rightarrow> string \<Rightarrow> string \<Rightarrow> string \<Rightarrow> jval \<Rightarrow> hub \<Rightarrow> hub" where
  "dispatch cfg clientId rawIp event payload h =
     (if event = ''register'' then handleValidation cfg clientId rawIp payload h
      else if event = ''response'' then handleResponse clientId payload h
      else if event = ''system-metrics'' then handleSystemMetrics clientId payload h
      else if event = ''terminal-ready'' then handleTerminalReady clientId payload h
      else if event = ''terminal-output'' then handleTerminalOutput clientId payload h
      else if event = ''terminal-closed'' then handleTerminalClosed clientId payload h
      else if event = ''container-status'' then handleContainerStatus clientId payload h
      else if event = ''service-status'' then handleServiceStatus clientId payload h
      else if event = ''service-log'' then handleServiceLog clientId payload h
      else if event = ''log-load-progress'' then handleLogLoadProgress clientId payload h
      else if event = ''service-log-history'' then handleServiceLogHistory clientId payload h
      else if event = ''service-log-markers'' then handleServiceLogMarkers clientId payload h
      else if event = ''update-log'' then handleUpdateLog clientId payload h
      else if event = ''update-failed'' then handleUpdateFailed clientId payload h
      else h)"

definition receive :: "config \<Rightarrow> string \<Rightarrow> string \<Rightarrow> string \<Rightarrow> jval \<Rightarrow> hub \<Rightarrow> hub" where
  "receive cfg clientId rawIp event payload h =
     (let (pass, h1) = guardPacket cfg clientId event payload h
      in if pass then dispatch cfg clientId rawIp event payload h1 else h1)"

section \<open>Only signed packets act\<close>

text \<open>A socket that has an agent has its packet guard; a socket without one has no workspace.\<close>

definition guarded :: "agent_socket \<Rightarrow> bool" where
  "guarded s \<longleftrightarrow> data_packetGuardInstalled s \<or> data_agentUuid s = None \<and> data_workspaceIndex s = None"

lemma dispatch_unregistered:
  assumes "socket_data c h = Some s" "data_agentUuid s = None" "data_workspaceIndex s = None"
    and "event \<noteq> ''register''"
  shows "dispatch cfg c ip event payload h = h"
proof -
  have a: "socket_agent c h = None" using assms by (simp add: socket_agent_def)
  show ?thesis
    by (simp add: dispatch_def assms handleResponse_def handleSystemMetrics_def handleTerminalReady_def
        handleTerminalOutput_def handleTerminalClosed_def handleContainerStatus_def
        handleServiceStatus_def handleServiceLog_def handleLogLoadProgress_def
        handleServiceLogHistory_def handleServiceLogMarkers_def handleUpdateLog_def
        handleUpdateFailed_def for_agent_def forward_service_event_def a)
qed

lemma unsigned_packet_inert:
  assumes "socket_data clientId h = Some s" and "guarded s" and "event \<noteq> ''register''"
    and "data_packetGuardInstalled s \<Longrightarrow>
      fst (verify (cfg_hmac cfg) event payload (data_signingSecret s) DEFAULT_MAX_CLOCK_SKEW_MS (clock h)
        (Some (data_replayGuard s))) \<noteq> VOk"
  shows "\<exists>g. receive cfg clientId rawIp event payload h = h
     \<or> receive cfg clientId rawIp event payload h = set_socket clientId (s\<lparr>data_replayGuard := g\<rparr>) h"
proof (cases "data_packetGuardInstalled s")
  case False
  with assms(2) have "data_agentUuid s = None" "data_workspaceIndex s = None"
    by (auto simp: guarded_def)
  with assms(1,3) False show ?thesis
    by (simp add: receive_def guardPacket_def socket_data_def [symmetric] dispatch_unregistered)
next
  case True
  obtain r g where v: "verify (cfg_hmac cfg) event payload (data_signingSecret s)
      DEFAULT_MAX_CLOCK_SKEW_MS (clock h) (Some (data_replayGuard s)) = (r, g)" by force
  with assms(4) True have "r \<noteq> VOk" by simp
  with True v assms(1,3) show ?thesis
    by (auto simp: receive_def guardPacket_def socket_data_def UNVERIFIED_EVENTS_def split: option.splits)
qed

text \<open>C2: nobody registers as an agent that has a secret without proving it. A register packet that
  claims such a uuid and does not verify under the stored secret is answered with a refusal and
  a disconnection; nothing else of the Hub changes, and the agent keeps the socket it has.\<close>

theorem register_claim_needs_signature:
  assumes "str_field ''agentUuid'' payload = Some u" and "u \<noteq> []"
    and "getSigningSecret u h = Some secret" and "secret \<noteq> []"
    and "fst (verify (cfg_hmac cfg) ''register'' payload (Some secret) DEFAULT_MAX_CLOCK_SKEW_MS
           (clock h) None) \<noteq> VOk"
  shows "\<exists>code data. handleValidation cfg clientId rawIp payload h =
      h\<lparr>sent := sent h @ [AgentEmit clientId ''register'' (JObj [(''code'', JStr code), (''data'', data)]),
                         DisconnectSocket clientId]\<rparr>
    \<and> code \<noteq> ''ok''"
proof -
  obtain f where "fst (verify (cfg_hmac cfg) ''register'' payload (Some secret)
      DEFAULT_MAX_CLOCK_SKEW_MS (clock h) None) = VFail f"
    using assms(5) by (cases "fst (verify (cfg_hmac cfg) ''register'' payload (Some secret)
      DEFAULT_MAX_CLOCK_SKEW_MS (clock h) None)") auto
  moreover have "\<not> falsy (Some u)" "\<not> falsy (Some secret)"
    using assms(2,4) by (simp_all add: falsy_def)
  ultimately have "\<exists>data. register_rejection cfg payload h = Some (''invalid_signature'', data)
      \<or> register_rejection cfg payload h = Some (''unknown_protocol_version'', data)
      \<or> register_rejection cfg payload h = Some (''deprecated_protocol_version'', data)"
    by (simp add: register_rejection_def Let_def assms(1,3))
  then obtain code data where "register_rejection cfg payload h = Some (code, data)" "code \<noteq> ''ok''"
    by (elim exE disjE) simp_all
  then show ?thesis
    by (intro exI [of _ code] exI [of _ data]) (simp add: handleValidation_def refuse_def emit_def)
qed

definition forged_register :: jval where
  "forged_register = JObj [(''agentUuid'', JStr ''a1''), (''protocolVersion'', JNum 1),
     (''_ts'', JNum 1000), (''_nonce'', JStr ''n''), (''_sig'', JStr ''ffff'')]"

lemma register_claim_needs_signature_witness:
  "\<exists>code data. handleValidation example_config ''s9'' ''6.6.6.6'' forged_register owner_hub =
      owner_hub\<lparr>sent := sent owner_hub @
        [AgentEmit ''s9'' ''register'' (JObj [(''code'', JStr code), (''data'', data)]),
         DisconnectSocket ''s9'']\<rparr>
    \<and> code \<noteq> ''ok''"
proof (rule register_claim_needs_signature)
  show "str_field ''agentUuid'' forged_register = Some ''a1''" by code_simp
  show "getSigningSecret ''a1'' owner_hub = Some ''secret''" by code_simp
  show "fst (verify (cfg_hmac example_config) ''register'' forged_register (Some ''secret'')
     DEFAULT_MAX_CLOCK_SKEW_MS (clock owner_hub) None) \<noteq> VOk" by code_simp
qed simp_all

section \<open>The secret of a socket\<close>

text \<open>\<open>attached_socket h s\<close>: if \<open>s\<close> serves an agent, it carries the secret stored for that agent, behind an
  installed guard.\<close>

definition attached_socket :: "hub \<Rightarrow> agent_socket \<Rightarrow> bool" where
  "attached_socket h s \<longleftrightarrow>
     (case data_agentUuid s of
        None \<Rightarrow> data_workspaceIndex s = None
      | Some u \<Rightarrow> data_packetGuardInstalled s \<and> getSigningSecret u h = data_signingSecret s
          \<and> \<not> falsy (data_signingSecret s))"

definition secrets_kept :: "hub \<Rightarrow> hub \<Rightarrow> bool" where
  "secrets_kept h h' \<longleftrightarrow>
     (\<forall>u x. getSigningSecret u h = Some x \<longrightarrow> x \<noteq> [] \<longrightarrow> getSigningSecret u h' = Some x)"

lemma attached_socket_mono:
  "secrets_kept h h' \<Longrightarrow> attached_socket h s \<Longrightarrow> attached_socket h' s"
  by (auto simp: attached_socket_def secrets_kept_def falsy_def split: option.splits)

lemma secrets_same: "agents h' = agents h \<Longrightarrow> secrets_kept h h'"
  by (simp add: secrets_kept_def getSigningSecret_def find_agent_def)

lemma getSigningSecret_update:
  assumes "agents h' = update_rows P f (agents h)"
    and "\<And>a. agent_uuid (f a) = agent_uuid a"
    and "\<And>a. a \<in> set (agents h) \<Longrightarrow> P a \<Longrightarrow> falsy (agent_signing_secret a)
           \<or> agent_signing_secret (f a) = agent_signing_secret a"
  shows "secrets_kept h h'"
proof -
  have "find_agent u h' = map_option (\<lambda>a. if P a then f a else a) (find_agent u h)" for u
    unfolding find_agent_def assms(1) by (rule find_update_same) (simp add: assms(2))
  with assms(3) show ?thesis
    by (fastforce simp: secrets_kept_def getSigningSecret_def find_agent_def falsy_def
        split: option.splits dest!: find_SomeD)
qed

text \<open>Steps that touch neither the sockets nor the uuids and secrets of the agents.\<close>

definition identities :: "hub \<Rightarrow> (string \<times> string option) list" where
  "identities h = map (\<lambda>a. (agent_uuid a, agent_signing_secret a)) (agents h)"

definition quiet :: "hub \<Rightarrow> hub \<Rightarrow> bool" where
  "quiet h h' \<longleftrightarrow> sockets h' = sockets h \<and> identities h' = identities h"

lemma quiet_refl [simp]: "quiet h h"
  by (simp add: quiet_def)

lemma quiet_trans [trans]: "quiet h h1 \<Longrightarrow> quiet h1 h2 \<Longrightarrow> quiet h h2"
  by (simp add: quiet_def)

lemma quiet_same: "sockets h' = sockets h \<Longrightarrow> agents h' = agents h \<Longrightarrow> quiet h h'"
  by (simp add: quiet_def identities_def)

lemma secret_of_identities: "getSigningSecret u h =
    (case find (\<lambda>p. fst p = u) (identities h) of None \<Rightarrow> None | Some p \<Rightarrow> snd p)"
  by (simp add: getSigningSecret_def find_agent_def identities_def find_map comp_def split: option.split)

lemma quiet_transition: "quiet h (transition u ph f h)"
proof -
  have "map (\<lambda>a. (agent_uuid a, agent_signing_secret a)) (update_rows P (set_phase ph f) as) =
      map (\<lambda>a. (agent_uuid a, agent_signing_secret a)) as" for P as
    by (rule map_update_rows) (simp add: set_phase_def)
  then show ?thesis by (simp add: quiet_def identities_def)
qed

lemma quiet_progress: "quiet h (recordProgress u l h)"
  by (auto simp: recordProgress_def quiet_transition split: option.split)

lemma quiet_failure: "quiet h (recordFailure u m h)"
proof -
  have "quiet h (clearTimeout u h)" by (rule quiet_same) simp_all
  then show ?thesis
    by (auto simp: recordFailure_def intro: quiet_trans quiet_transition split: option.split)
qed

lemma quiet_reconnect: "quiet h (handleReconnect u v h)"
proof -
  have "quiet h (clearTimeout u h)" by (rule quiet_same) simp_all
  then show ?thesis
    by (auto simp: handleReconnect_def Let_def intro: quiet_trans quiet_transition split: option.split)
qed

lemma quiet_lookup: "getWorkspaceIndexForAgentService u i h = (r, h1) \<Longrightarrow> quiet h h1"
  by (rule quiet_same)
    (auto simp: getWorkspaceIndexForAgentService_def Let_def split: option.splits if_splits)

lemma upsert_containers_frame:
  "agents (snd (upsert_containers i s cs ns h)) = agents h"
  "sockets (snd (upsert_containers i s cs ns h)) = sockets h"
  by (induction cs arbitrary: ns h) (auto simp: Let_def upsert_component_def)

lemma quiet_sync: "quiet h (syncServiceComponents i cs h)"
  by (rule quiet_same)
    (auto simp: syncServiceComponents_def split_beta upsert_containers_frame split: option.split)

lemma quiet_forward:
  assumes "\<And>g. quiet g (effect g)"
  shows "quiet h (forward_service_event c e p effect h)"
proof (cases "socket_agent c h")
  case (Some u)
  obtain r h1 where l: "getWorkspaceIndexForAgentService u (index_field p) h = (r, h1)" by force
  note q = quiet_lookup [OF l]
  have "quiet h (emitToWorkspace w e v (effect h1))" for w v
  proof -
    have "quiet (effect h1) (emitToWorkspace w e v (effect h1))" by (rule quiet_same) simp_all
    with quiet_trans [OF q assms [of h1]] show ?thesis by (rule quiet_trans)
  qed
  with q Some l show ?thesis
    by (auto simp: forward_service_event_def split: option.split)
qed (simp add: forward_service_event_def)

lemma quiet_terminal:
  "quiet h (forwardSystemMetrics u p h)" "quiet h (forwardTerminalReady u p h)"
  "quiet h (forwardTerminalOutput u p h)" "quiet h (forwardTerminalClosed u p h)"
  by (rule quiet_same; auto simp: forwardSystemMetrics_def forwardTerminalReady_def
      forwardTerminalOutput_def forwardTerminalClosed_def split: option.split jval.split)+

lemma quiet_for_agent: "(\<And>u g. quiet g (f u g)) \<Longrightarrow> quiet h (for_agent c f h)"
  by (auto simp: for_agent_def split: option.split)

lemma quiet_status: "quiet h (updateServiceStatus i st h)"
  by (rule quiet_same) (simp_all add: updateServiceStatus_def)

lemma quiet_response: "quiet h (handleResponse c p h)"
  by (rule quiet_same) (simp_all add: handleResponse_def split: option.split)

lemma quiet_handlers:
  "quiet h (handleSystemMetrics c p h)" "quiet h (handleTerminalReady c p h)"
  "quiet h (handleTerminalOutput c p h)" "quiet h (handleTerminalClosed c p h)"
  unfolding handleSystemMetrics_def handleTerminalReady_def handleTerminalOutput_def handleTerminalClosed_def
  by (rule quiet_for_agent quiet_terminal)+

lemma quiet_service_handlers:
  "quiet h (handleServiceLog c p h)" "quiet h (handleLogLoadProgress c p h)"
  "quiet h (handleServiceLogHistory c p h)" "quiet h (handleServiceLogMarkers c p h)"
  unfolding handleServiceLog_def handleLogLoadProgress_def handleServiceLogHistory_def
    handleServiceLogMarkers_def
  by (rule quiet_forward quiet_refl)+

lemma quiet_container_status: "quiet h (handleContainerStatus c p h)"
  unfolding handleContainerStatus_def
  by (rule quiet_forward) (simp add: quiet_sync split: option.split)

lemma quiet_service_status: "quiet h (handleServiceStatus c p h)"
  unfolding handleServiceStatus_def
  by (rule quiet_forward) (simp add: quiet_status split: option.split)

lemma quiet_update_handlers: "quiet h (handleUpdateLog c p h)" "quiet h (handleUpdateFailed c p h)"
proof -
  show "quiet h (handleUpdateLog c p h)"
    unfolding handleUpdateLog_def
    by (rule quiet_for_agent) (simp add: quiet_progress split: option.split)
  show "quiet h (handleUpdateFailed c p h)"
    unfolding handleUpdateFailed_def by (rule quiet_for_agent) (rule quiet_failure)
qed

lemma quiet_dispatch: "event \<noteq> ''register'' \<Longrightarrow> quiet h (dispatch cfg c ip event p h)"
  by (simp add: dispatch_def quiet_response quiet_handlers quiet_service_handlers
      quiet_container_status quiet_service_status quiet_update_handlers)

section \<open>Registration and the invariant\<close>

lemma registerAgent_result:
  assumes "registerAgent cfg ip agentUuid v p h = (r, h1)" and "distinct (map agent_uuid (agents h))"
    and "\<And>n. cfg_random cfg n \<noteq> []"
  shows "secrets_kept h h1 \<and> distinct (map agent_uuid (agents h1)) \<and> sockets h1 = sockets h \<and>
    (\<forall>reg. r = Inr reg \<longrightarrow> (\<exists>x. x \<noteq> [] \<and> getSigningSecret (reg_uuid reg) h1 = Some x \<and>
        (reg_signingSecret reg = None \<or> reg_signingSecret reg = Some x)))"
proof (cases "\<exists>u exist. agentUuid = Some u \<and> u \<noteq> [] \<and> find_agent u h = Some exist")
  case True
  then obtain u exist where u: "agentUuid = Some u" "u \<noteq> []" "find_agent u h = Some exist" by blast
  then have e: "agent_uuid exist = u" "exist \<in> set (agents h)"
    by (auto simp: find_agent_def dest: find_SomeD)
  have k: "known_agent cfg ip exist v p h = (r, h1)"
    using assms(1) u by (simp add: registerAgent_def falsy_def)
  from known_agent_agents [OF k] obtain f reg where
    f: "agents h1 = update_rows (\<lambda>a. agent_uuid a = agent_uuid exist) f (agents h)"
      "\<And>a. agent_uuid (f a) = agent_uuid a"
      "\<And>a. agent_signing_secret (f a) = (if falsy (agent_signing_secret exist)
          then Some (cfg_random cfg (draws h)) else agent_signing_secret a)"
    and reg: "r = Inr reg" "reg_uuid reg = u" "reg_signingSecret reg =
      (if falsy (agent_signing_secret exist) then Some (cfg_random cfg (draws h)) else None)"
    using assms(3) e(1) by auto
  have "find_agent u h1 = Some (f exist)"
    using u(3) e(1) unfolding find_agent_def f(1) by (simp add: find_update_same f(2))
  then have "getSigningSecret u h1 = agent_signing_secret (f exist)"
    by (simp add: getSigningSecret_def)
  moreover have "secrets_kept h h1"
    by (rule getSigningSecret_update [OF f(1,2)])
      (use find_agent_unique [OF assms(2) u(3)] e(1) f(3) in auto)
  moreover have "distinct (map agent_uuid (agents h1))"
    using assms(2) unfolding f(1) by (simp add: map_update_rows f(2))
  moreover have "sockets h1 = sockets h"
    using k by (auto simp: known_agent_def draw_def Let_def split: if_splits)
  ultimately show ?thesis
    using reg f(3) [of exist] assms(3) by (auto simp: falsy_def)
next
  case False
  then have "find_agent (the agentUuid) h = None" if "\<not> falsy agentUuid"
    using that by (cases agentUuid) (auto simp: falsy_def)
  then have n: "new_agent cfg ip v p h = (r, h1)"
    using assms(1) by (auto simp: registerAgent_def split: if_splits)
  have s: "sockets h1 = sockets h"
    using n by (auto simp: new_agent_def draw_def Let_def split: if_splits)
  show ?thesis
  proof (cases r)
    case (Inl e)
    then have "agents h1 = agents h" using n by (auto simp: new_agent_def draw_def Let_def split: if_splits)
    with Inl s assms(2) show ?thesis by (simp add: secrets_same)
  next
    case (Inr reg)
    from new_agent_agents [OF n [unfolded Inr]] obtain row where row: "agents h1 = agents h @ [row]"
      "agent_uuid row = reg_uuid reg" "agent_signing_secret row = reg_signingSecret reg"
      "reg_signingSecret reg = Some (cfg_random cfg (draws h + 2))"
      "\<And>a. a \<in> set (agents h) \<Longrightarrow> agent_uuid a \<noteq> reg_uuid reg"
      by blast
    have f: "find_agent w h1 = (case find_agent w h of None \<Rightarrow>
        if reg_uuid reg = w then Some row else None | Some a \<Rightarrow> Some a)" for w
      by (simp add: find_agent_def row(1,2) find_snoc)
    have "find_agent (reg_uuid reg) h = None"
      using row(5) by (simp add: find_agent_def find_None_iff)
    then have "getSigningSecret (reg_uuid reg) h1 = Some (cfg_random cfg (draws h + 2))"
      using row(3,4) by (simp add: getSigningSecret_def f)
    moreover have "secrets_kept h h1"
      by (auto simp: secrets_kept_def getSigningSecret_def f split: option.splits)
    moreover have "distinct (map agent_uuid (agents h1))"
      using assms(2) row(5) by (fastforce simp: row(1,2))
    ultimately show ?thesis using s Inr row(4) assms(3) by auto
  qed
qed

lemma getSigningSecret_cong: "agents h' = agents h \<Longrightarrow> getSigningSecret u h' = getSigningSecret u h"
  by (simp add: getSigningSecret_def find_agent_def)

lemma quiet_close: "quiet h (closeAgentConnections u h)"
proof -
  have "sockets (fold close_from_agent ms h) = sockets h \<and> agents (fold close_from_agent ms h) = agents h" for ms
    by (induction ms arbitrary: h) (simp_all add: close_from_agent_def)
  then show ?thesis
    by (intro quiet_same) (simp_all add: closeAgentConnections_def Let_def)
qed

lemma quiet_expected: "quiet h (snd (isExpectedRestart u h))"
proof -
  have "map (\<lambda>a. (agent_uuid a, agent_signing_secret a))
      (update_rows P (\<lambda>a. a\<lparr>agent_status := st\<rparr>) as) =
      map (\<lambda>a. (agent_uuid a, agent_signing_secret a)) as" for P st as
    by (rule map_update_rows) simp
  then have "quiet h (update_agents P (\<lambda>a. a\<lparr>agent_status := st\<rparr>) h)" for P st
    by (simp add: quiet_def identities_def)
  then show ?thesis
    by (auto simp: isExpectedRestart_def intro!: quiet_trans [OF _ quiet_transition] split: option.split)
qed

definition register_payload :: jval where
  "register_payload = sign (cfg_hmac example_config) ''register''
     (JObj [(''agentUuid'', JStr ''a1''), (''agentVersion'', JStr ''0.6.0''), (''protocolVersion'', JNum 1)])
     (Some ''secret'') 1000 ''n1''"

definition idle_hub :: hub where
  "idle_hub = owner_hub\<lparr>sockets := [], agentUuidToSocketId := []\<rparr>"

definition registered_hub :: hub where
  "registered_hub = receive example_config ''s2'' ''10.0.0.1'' ''register'' register_payload
     (handleConnection ''s2'' idle_hub)"

section \<open>Losing the connection\<close>

text \<open>a lost connection is not yet an offline agent. When the socket of an agent disconnects, the
  route to it, its terminal sessions and its cached permissions go at once. If an update is in
  flight the agent is restarting and no offline timer runs; otherwise its row is as before and
  the offline timer is due three seconds later.\<close>

theorem disconnect_is_graceful:
  assumes "socket_data c h = Some s" and "data_agentUuid s = Some u" and "u \<noteq> []"
    and "\<not> falsy (data_agentCode s)" and "map_get (agentUuidToSocketId h) u = Some c"
    and "find_agent u h = Some a" and "distinct (map_keys (terminalSessions h))"
  shows "let h' = handleDisconnect c authUuid h in
    map_get (agentUuidToSocketId h') u = None
    \<and> (\<forall>k\<in>set (map_keys (workspaceIndexCache h')). \<not> starts_with (u @ ''/'') k)
    \<and> (if agent_update_phase a \<in> set IN_FLIGHT
       then (\<exists>a'. find_agent u h' = Some a' \<and> agent_status a' = AgentRestarting
               \<and> agent_update_phase a' = Restarting) \<and> offlineTimers h' = offlineTimers h
       else agents h' = agents h \<and> map_get (offlineTimers h') u = Some (clock h + 3000))"
proof -
  define h0 where "h0 = h\<lparr>sockets := map_delete (sockets h) c\<rparr>"
  define h1 where "h1 = closeAgentConnections u h0"
  define h2 where "h2 = h1\<lparr>agentUuidToSocketId := map_delete (agentUuidToSocketId h1) u,
     workspaceIndexCache := filter (\<lambda>(k, v). \<not> starts_with (u @ ''/'') k) (workspaceIndexCache h1)\<rparr>"
  have f: "offlineTimers (fold close_from_agent ms g) = offlineTimers g
      \<and> agents (fold close_from_agent ms g) = agents g \<and> clock (fold close_from_agent ms g) = clock g" for ms g
    by (induction ms arbitrary: g) (simp_all add: close_from_agent_def)
  have h1: "offlineTimers h1 = offlineTimers h" "agents h1 = agents h" "clock h1 = clock h"
    by (simp_all add: h1_def h0_def closeAgentConnections_def Let_def f)
  have h2: "agents h2 = agents h" "offlineTimers h2 = offlineTimers h" "clock h2 = clock h"
    "map_get (agentUuidToSocketId h2) u = None"
    "\<forall>k\<in>set (map_keys (workspaceIndexCache h2)). \<not> starts_with (u @ ''/'') k"
    by (auto simp: h2_def h1)
  have fa: "find_agent u h2 = Some a" using assms(6) h2(1) by (simp add: find_agent_def)
  have d: "handleDisconnect c authUuid h =
     (let (expected, h3) = isExpectedRestart u h2 in if expected then h3 else scheduleOffline u h3)"
  proof -
    have "\<not> falsy (Some u)" using assms(3) by (simp add: falsy_def)
    moreover have "map_get (agentUuidToSocketId h0) u = Some c" using assms(5) by (simp add: h0_def)
    ultimately show ?thesis
      by (simp add: handleDisconnect_def assms(1,2,4) Let_def h0_def [symmetric]
          h1_def [symmetric] h2_def [symmetric])
  qed
  show ?thesis
  proof (cases "agent_update_phase a \<in> set IN_FLIGHT")
    case True
    have uu: "agent_uuid a = u" using assms(6) by (auto simp: find_agent_def dest: find_SomeD)
    define m where "m = only_message (''OPTiCS Agent '' @
        version_or (agent_update_target a) ''Unknown Version'' @ '' is restarting.'')"
    have e: "isExpectedRestart u h2 = (True, transition u Restarting m
        (update_agents (\<lambda>a. agent_uuid a = u) (\<lambda>a. a\<lparr>agent_status := AgentRestarting\<rparr>) h2))"
      by (simp add: isExpectedRestart_def fa True m_def)
    have "find_agent u (update_agents (\<lambda>a. agent_uuid a = u) (\<lambda>a. a\<lparr>agent_status := AgentRestarting\<rparr>) h2)
        = Some (a\<lparr>agent_status := AgentRestarting\<rparr>)"
      using fa uu by (simp add: find_agent_def find_update_same)
    then have "find_agent u (handleDisconnect c authUuid h) =
        Some (set_phase Restarting m (a\<lparr>agent_status := AgentRestarting\<rparr>))"
      by (simp add: d e find_agent_transition uu)
    then show ?thesis
      using True h2 by (simp add: d e Let_def)
  next
    case False
    then have "isExpectedRestart u h2 = (False, h2)" by (simp add: isExpectedRestart_def fa)
    then show ?thesis
      using False h2 by (simp add: d Let_def scheduleOffline_def clearOfflineTimer_def OFFLINE_DELAY_MS_def)
  qed
qed

lemma disconnect_is_graceful_witness:
  "map_get (offlineTimers (handleDisconnect ''s1'' None owner_hub)) ''a1'' = Some 4000"
proof -
  have 1: "socket_data ''s1'' owner_hub = Some example_socket" by code_simp
  have 2: "data_agentUuid example_socket = Some ''a1''" "''a1'' \<noteq> []" "\<not> falsy (data_agentCode example_socket)"
    "map_get (agentUuidToSocketId owner_hub) ''a1'' = Some ''s1''"
    "find_agent ''a1'' owner_hub = Some example_agent" "distinct (map_keys (terminalSessions owner_hub))"
    by code_simp+
  have "agent_update_phase example_agent \<notin> set IN_FLIGHT" "clock owner_hub = 1000" by code_simp+
  with disconnect_is_graceful [OF 1 2, of None] show ?thesis by (simp add: Let_def)
qed

section \<open>A report without a service index\<close>

text \<open>a container report with no service index and no containers marks every component of every
  service as removed, whoever owns them, as long as the first service that is not deleted runs
  on the reporting agent. The filters on the service are \<open>undefined\<close>, hence no filters.\<close>

theorem status_without_index_marks_all:
  assumes "socket_agent c h = Some u" and "u \<noteq> []" and "field ''serviceIndex'' payload = JUndef"
    and "field ''containers'' payload = JArr []"
    and "find (\<lambda>s. service_deleted_at s = None) (services h) = Some s"
    and "service_parent_workspace s \<noteq> 0"
    and "a \<in> set (agents h)" and "agent_index a = service_parent_agent s" and "agent_uuid a = u"
    and "agent_connection a = Linked" and "agent_deleted_at a = None"
    and "workspaceIndexCache h = []"
  shows "service_components (handleContainerStatus c payload h) =
    map (\<lambda>r. if component_deleted_at r = None then r\<lparr>component_status := CRemoved\<rparr> else r)
      (service_components h)"
proof -
  have "find (\<lambda>a. agent_index a = service_parent_agent s \<and> agent_uuid a = u
      \<and> agent_connection a = Linked \<and> agent_deleted_at a = None) (agents h) \<noteq> None"
    using assms(7-11) by (auto simp: find_None_iff)
  then obtain h1 where l: "getWorkspaceIndexForAgentService u None h = (Some (service_parent_workspace s), h1)"
    and h1: "services h1 = services h" "service_components h1 = service_components h"
    using assms(5,12)
    by (auto simp: getWorkspaceIndexForAgentService_def Let_def index_filter_def)
  show ?thesis
    using assms(1-6) l h1
    by (simp add: handleContainerStatus_def forward_service_event_def index_field_def
        containers_field_def syncServiceComponents_def index_filter_def update_rows_def)
qed

section \<open>A register packet sent twice\<close>

lemma verify_checks_later:
  assumes "verify_checks hmac e p s skew now = Inr (n, t)" and "\<bar>now' - t\<bar> \<le> skew"
  shows "verify_checks hmac e p s skew now' = Inr (n, t)"
  using assms by (auto simp: verify_checks_def split: if_splits option.splits)

text \<open>a register packet can be replayed. The packet is verified without a replay guard, so within
  the clock skew a copy that arrives on another socket is accepted again, and the messages for
  the agent are then routed to that socket.\<close>

theorem register_replay_takes_route:
  assumes "str_field ''agentUuid'' payload = Some u" and "u \<noteq> []"
    and "register_rejection cfg payload h = None" and "getSigningSecret u h = Some x" and "x \<noteq> []"
    and "stamp payload = Some t" and "\<bar>clock h' - t\<bar> \<le> DEFAULT_MAX_CLOCK_SKEW_MS"
    and "getSigningSecret u h' = Some x" and "socket_data c h' = Some s"
  shows "map_get (agentUuidToSocketId (handleValidation cfg c rawIp payload h')) u = Some c"
proof -
  have x: "\<not> falsy (Some x)" using assms(5) by (simp add: falsy_def)
  have p: "\<not> (protocol_field payload = 0 \<or> protocol_field payload < MINIMUM_PROTOCOL_VERSION
      \<or> protocol_field payload > MAXIMUM_PROTOCOL_VERSION)"
    and v: "fst (verify (cfg_hmac cfg) ''register'' payload (Some x) DEFAULT_MAX_CLOCK_SKEW_MS (clock h) None) = VOk"
    using assms(1-5) x
    by (auto simp: register_rejection_def Let_def falsy_def split: if_splits verify_result.splits)
  from v obtain n t' where c: "verify_checks (cfg_hmac cfg) ''register'' payload (Some x)
      DEFAULT_MAX_CLOCK_SKEW_MS (clock h) = Inr (n, t')"
    by (auto simp: verify_def split: sum.splits)
  have "t' = t" using checks_stamp [OF c] assms(6) by simp
  with verify_checks_later [OF c] assms(7) have "fst (verify (cfg_hmac cfg) ''register'' payload (Some x)
      DEFAULT_MAX_CLOCK_SKEW_MS (clock h') None) = VOk"
    by (simp add: verify_def)
  then have r: "register_rejection cfg payload h' = None"
    using p assms(1,2,8) x by (simp add: register_rejection_def Let_def falsy_def)
  obtain exist where e: "find_agent u h' = Some exist" "agent_uuid exist = u"
    using assms(8) by (auto simp: getSigningSecret_def find_agent_def split: option.splits dest: find_SomeD)
  obtain r1 h1 where k: "known_agent cfg (normalizeIp rawIp) exist (str_field ''agentVersion'' payload)
      (protocol_field payload) h' = (r1, h1)" by force
  from known_agent_agents [OF k] e(2) obtain reg where reg: "r1 = Inr reg" "reg_uuid reg = u" by auto
  have m: "agentUuidToSocketId (handleReconnect w v g) = agentUuidToSocketId g" for w v g
    by (auto simp: handleReconnect_def Let_def split: option.split)
  have "agentUuidToSocketId (attach_end c a x v g) = agentUuidToSocketId g"
    and "map_get (agentUuidToSocketId (attach_begin c a g)) (reg_uuid a) = Some c" for a x v g
    by (simp_all add: attach_end_def attach_begin_def Let_def m set_socket_def split: option.split)
  then show ?thesis
    using r reg(1) k e assms(1,2) unfolding reg(2) [symmetric]
    by (simp add: handleValidation_def registerAgent_def falsy_def attach_socket_def Let_def)
qed

lemma register_replay_takes_route_witness:
  "map_get (agentUuidToSocketId (handleValidation example_config ''evil'' ''6.6.6.6'' register_payload
      (handleConnection ''evil'' registered_hub))) ''a1'' = Some ''evil''"
proof (rule register_replay_takes_route)
  show "str_field ''agentUuid'' register_payload = Some ''a1''" by code_simp
  show "register_rejection example_config register_payload idle_hub = None" by code_simp
  show "getSigningSecret ''a1'' idle_hub = Some ''secret''" by code_simp
  show "stamp register_payload = Some 1000" by code_simp
  show "\<bar>clock (handleConnection ''evil'' registered_hub) - 1000\<bar> \<le> DEFAULT_MAX_CLOCK_SKEW_MS" by code_simp
  show "getSigningSecret ''a1'' (handleConnection ''evil'' registered_hub) = Some ''secret''" by code_simp
  show "socket_data ''evil'' (handleConnection ''evil'' registered_hub) = Some fresh_socket" by code_simp
qed simp_all

definition example_service :: "nat \<Rightarrow> nat \<Rightarrow> nat \<Rightarrow> services_row" where
  "example_service i w a = \<lparr>service_index = i, service_name = ''web'', service_port = 3000,
     service_container_port = Some 80, service_host_port = Some 3000, service_port_mappings = None,
     service_source_url = ''https://git.example/web'', service_subdomain = None,
     service_root_directory = None, service_env = None, service_parent_workspace = w,
     service_parent_agent = a, service_status = Running, service_traffic_blocked_at = None,
     service_traffic_block_reason = None, service_traffic_block_mode = Notice,
     service_version = ''1'', service_deploy_preset = Dockerfile, service_created_at = 0,
     service_deleted_at = None\<rparr>"

definition running_component :: "nat \<Rightarrow> nat \<Rightarrow> components_row" where
  "running_component i s = \<lparr>component_index = i, component_parent_service = s, component_name = ''app'',
     component_container_name = Some ''web'', component_status = CRunning, component_health = None,
     component_exit_code = None, component_deleted_at = None\<rparr>"

definition two_tenants :: hub where
  "two_tenants = owner_hub\<lparr>services := [example_service 1 1 1, example_service 2 2 2],
     service_components := [running_component 1 1, running_component 2 2]\<rparr>"

lemma status_without_index_marks_all_witness:
  "map component_status (service_components
     (handleContainerStatus ''s1'' (JObj [(''containers'', JArr [])]) two_tenants)) = [CRemoved, CRemoved]"
proof -
  have "service_components (handleContainerStatus ''s1'' (JObj [(''containers'', JArr [])]) two_tenants) =
    map (\<lambda>r. if component_deleted_at r = None then r\<lparr>component_status := CRemoved\<rparr> else r)
      (service_components two_tenants)"
  proof (rule status_without_index_marks_all)
    show "socket_agent ''s1'' two_tenants = Some ''a1''" by code_simp
    show "find (\<lambda>s. service_deleted_at s = None) (services two_tenants) = Some (example_service 1 1 1)"
      by (simp add: two_tenants_def example_service_def)
    show "example_agent \<in> set (agents two_tenants)" by (simp add: two_tenants_def owner_hub_def)
    show "workspaceIndexCache two_tenants = []" by code_simp
  qed (simp_all add: example_service_def example_agent_def map_get_def)
  then show ?thesis by (simp add: two_tenants_def running_component_def)
qed

end
