(* ===== verification/Tunnel.thy ===== *)
theory Tunnel
  imports AgentGateway
begin

text \<open>
  \<open>src/tunnel/tunnel.service.ts\<close> and \<open>src/tunnel/tunnel-outcome.ts\<close>: what the Hub does for the
  gateway. It checks the signature of a preconnect line, and it resolves an address to an agent
  and a port and asks the agent to open a tunnel. The query times of a reply are measurements
  and are not modelled; nor is a failing database (\<open>db_error\<close> appears in the log only).
\<close>

section \<open>Outcomes\<close>

datatype tunnel_outcome =
    SUCCESS
  | WORKSPACE_NOT_FOUND
  | SERVICE_NOT_FOUND
  | SERVICE_BLOCKED
  | AGENT_NOT_FOUND
  | AGENT_OFFLINE
  | DB_ERROR
  | MISSING_HOST
  | INVALID_ROUTE
  | HUB_UNREACHABLE
  | HUB_REJECTED
  | AGENT_NO_TUNNEL

fun outcome_name :: "tunnel_outcome \<Rightarrow> string" where
  "outcome_name SUCCESS = ''success''"
| "outcome_name WORKSPACE_NOT_FOUND = ''workspace_not_found''"
| "outcome_name SERVICE_NOT_FOUND = ''service_not_found''"
| "outcome_name SERVICE_BLOCKED = ''service_blocked''"
| "outcome_name AGENT_NOT_FOUND = ''agent_not_found''"
| "outcome_name AGENT_OFFLINE = ''agent_offline''"
| "outcome_name DB_ERROR = ''db_error''"
| "outcome_name MISSING_HOST = ''missing_host''"
| "outcome_name INVALID_ROUTE = ''invalid_route''"
| "outcome_name HUB_UNREACHABLE = ''hub_unreachable''"
| "outcome_name HUB_REJECTED = ''hub_rejected''"
| "outcome_name AGENT_NO_TUNNEL = ''agent_no_tunnel''"

definition KNOWN_OUTCOMES :: "tunnel_outcome list" where
  "KNOWN_OUTCOMES = [SUCCESS, WORKSPACE_NOT_FOUND, SERVICE_NOT_FOUND, SERVICE_BLOCKED,
     AGENT_NOT_FOUND, AGENT_OFFLINE, DB_ERROR, MISSING_HOST, INVALID_ROUTE, HUB_UNREACHABLE,
     HUB_REJECTED, AGENT_NO_TUNNEL]"

definition isTunnelOutcome :: "jval \<Rightarrow> bool" where
  "isTunnelOutcome value =
     (case value of JStr s \<Rightarrow> list_ex (\<lambda>o1. outcome_name o1 = s) KNOWN_OUTCOMES | _ \<Rightarrow> False)"

section \<open>Preconnect lines\<close>

definition SIGNING_SECRET_TTL_MS :: int where "SIGNING_SECRET_TTL_MS = 60000"
definition ROUTE_CACHE_TTL_MS :: int where "ROUTE_CACHE_TTL_MS = 5000"

interpretation secret_cache: ttl_cache map_get map_set map_delete SIGNING_SECRET_TTL_MS
  by unfold_locales (simp add: SIGNING_SECRET_TTL_MS_def)

interpretation route_cache: ttl_cache map_get map_set map_delete ROUTE_CACHE_TTL_MS
  by unfold_locales (simp add: ROUTE_CACHE_TTL_MS_def)

record preconnect_request =
  pre_agentUuid :: string
  pre_timestamp :: int
  pre_nonce :: string
  pre_signature :: string

definition preconnect_envelope :: "preconnect_request \<Rightarrow> jval" where
  "preconnect_envelope r =
     JObj [(''agentUuid'', JStr (pre_agentUuid r)), (TIMESTAMP_FIELD, JNum (pre_timestamp r)),
           (NONCE_FIELD, JStr (pre_nonce r)), (SIGNATURE_FIELD, JStr (pre_signature r))]"

definition cacheSigningSecret :: "string \<Rightarrow> hub \<Rightarrow> string option \<times> hub" where
  "cacheSigningSecret agentUuid h =
     (let secret = getSigningSecret agentUuid h
      in (secret, h\<lparr>signingSecretCache := map_set (signingSecretCache h) agentUuid
                     (secret, clock h + SIGNING_SECRET_TTL_MS)\<rparr>))"

definition verify_with_guard ::
  "config \<Rightarrow> jval \<Rightarrow> string option \<Rightarrow> hub \<Rightarrow> verify_result \<times> hub" where
  "verify_with_guard cfg envelope secret h =
     (let (result, g) = verify (cfg_hmac cfg) ''tunnel:pre'' envelope secret
            DEFAULT_MAX_CLOCK_SKEW_MS (clock h) (Some (tunnelGuard h))
      in (result, case g of None \<Rightarrow> h | Some g' \<Rightarrow> h\<lparr>tunnelGuard := g'\<rparr>))"

definition verifyPreconnect :: "config \<Rightarrow> preconnect_request \<Rightarrow> hub \<Rightarrow> verify_result \<times> hub" where
  "verifyPreconnect cfg request h =
     (let envelope = preconnect_envelope request;
          cached = live_entry (clock h) (map_get (signingSecretCache h) (pre_agentUuid request));
          (secret, h1) = (case cached of
             Some s \<Rightarrow> (s, h) | None \<Rightarrow> cacheSigningSecret (pre_agentUuid request) h);
          (result, h2) = verify_with_guard cfg envelope secret h1
      in if result = VFail INVALID_SIGNATURE \<and> cached \<noteq> None
         then (let (fresh, h3) = cacheSigningSecret (pre_agentUuid request) h2
               in verify_with_guard cfg envelope fresh h3)
         else (result, h2))"

section \<open>Routing\<close>

definition dispatchToAgent ::
  "config \<Rightarrow> string \<Rightarrow> int \<Rightarrow> string \<Rightarrow> bool \<Rightarrow> hub \<Rightarrow> tunnel_outcome \<times> hub" where
  "dispatchToAgent cfg agentUuid servicePort tok preferPooled h =
     (if preferPooled then (SUCCESS, h)
      else
        (let (delivered, h1) = sendToAgent cfg agentUuid ''tunnel-connect''
               (JObj [(''token'', JStr tok), (''service_port'', JNum servicePort),
                      (''tunnel_port'', JNum 5220)]) h
         in (if delivered then SUCCESS else AGENT_OFFLINE, h1)))"

definition invalidateRouteCache :: "hub \<Rightarrow> hub" where
  "invalidateRouteCache h = h\<lparr>routeCache := []\<rparr>"

record proxy_reply =
  pr_outcome :: tunnel_outcome
  pr_request_id :: string
  pr_agent_uuid :: string
  pr_service_port :: int

text \<open>The exceptions of \<open>sendProxyInfo\<close>: a status and the outcome in the body.\<close>

datatype tunnel_error = TunnelError nat tunnel_outcome string

definition normalizeSubdomainPath :: "string \<Rightarrow> string" where
  "normalizeSubdomainPath s =
     (let t = js_lower (js_trim s) in if t = ''@'' then [] else t)"

definition dispatch_route ::
  "config \<Rightarrow> string \<Rightarrow> int \<Rightarrow> string \<Rightarrow> string \<Rightarrow> bool \<Rightarrow> hub
    \<Rightarrow> (tunnel_error + proxy_reply) \<times> hub" where
  "dispatch_route cfg agentUuid servicePort tok requestId preferPooled h =
     (let (outcome, h1) = dispatchToAgent cfg agentUuid servicePort tok preferPooled h
      in if outcome \<noteq> SUCCESS
         then (Inl (TunnelError 503 outcome ''Agent is probably offline''), h1)
         else (Inr \<lparr>pr_outcome = outcome, pr_request_id = requestId, pr_agent_uuid = agentUuid,
                    pr_service_port = servicePort\<rparr>, h1))"

definition service_of :: "hub \<Rightarrow> endpoints_row \<Rightarrow> services_row option" where
  "service_of h e = find (\<lambda>s. service_index s = endpoint_parent_service e) (services h)"

definition route_endpoint :: "hub \<Rightarrow> nat \<Rightarrow> string \<Rightarrow> endpoints_row option" where
  "route_endpoint h workspaceIndex subdomain =
     find (\<lambda>e. endpoint_parent_workspace e = workspaceIndex
             \<and> endpoint_subdomain e = Some subdomain \<and> endpoint_deleted_at e = None
             \<and> (case service_of h e of None \<Rightarrow> False | Some s \<Rightarrow> service_deleted_at s = None))
       (service_endpoints h)"

definition sendProxyInfo ::
  "config \<Rightarrow> string \<Rightarrow> string \<Rightarrow> string \<Rightarrow> string \<Rightarrow> bool \<Rightarrow> hub
    \<Rightarrow> (tunnel_error + proxy_reply) \<times> hub" where
  "sendProxyInfo cfg serviceSubdomain workspaceSubdomain tok requestId preferPooled h =
     (let subdomain = normalizeSubdomainPath serviceSubdomain;
          routeKey = workspaceSubdomain @ ''/'' @ subdomain
      in case live_entry (clock h) (map_get (routeCache h) routeKey) of
        Some (agentUuid, servicePort) \<Rightarrow>
          dispatch_route cfg agentUuid servicePort tok requestId preferPooled h
      | None \<Rightarrow>
     (case find (\<lambda>w. workspace_subdomain w = Some workspaceSubdomain \<and> workspace_subdomain_active w)
             (workspaces h) of
        None \<Rightarrow> (Inl (TunnelError 404 WORKSPACE_NOT_FOUND ''Workspace not found''), h)
      | Some w \<Rightarrow>
     (case route_endpoint h (workspace_index w) subdomain of
        None \<Rightarrow> (Inl (TunnelError 404 SERVICE_NOT_FOUND ''Service not found''), h)
      | Some e \<Rightarrow>
     (case service_of h e of
        None \<Rightarrow> (Inl (TunnelError 404 SERVICE_NOT_FOUND ''Service not found''), h)
      | Some s \<Rightarrow>
        if service_traffic_blocked_at s \<noteq> None then
          (if service_traffic_block_mode s = Hidden
           then (Inl (TunnelError 404 SERVICE_NOT_FOUND ''Service not found''), h)
           else (Inl (TunnelError 503 SERVICE_BLOCKED ''Service traffic is blocked''), h))
        else case find (\<lambda>a. agent_index a = service_parent_agent s) (agents h) of
          None \<Rightarrow> (Inl (TunnelError 404 AGENT_NOT_FOUND ''Agent not found''), h)
        | Some a \<Rightarrow>
            if agent_connection a \<noteq> Linked \<or> agent_deleted_at a \<noteq> None
            then (Inl (TunnelError 404 AGENT_NOT_FOUND ''Agent not found''), h)
            else
              dispatch_route cfg (agent_uuid a) (endpoint_host_port e) tok requestId preferPooled
                (h\<lparr>routeCache := map_set (routeCache h) routeKey
                    ((agent_uuid a, endpoint_host_port e), clock h + ROUTE_CACHE_TTL_MS)\<rparr>)))))"

section \<open>The controller\<close>

definition is_uuid :: "string \<Rightarrow> bool" where
  "is_uuid s \<longleftrightarrow>
     (let parts = split_on (CHR ''-'') s
      in map length parts = [8, 4, 4, 4, 12] \<and> list_all (\<lambda>p. list_all is_hex (js_lower p)) parts)"

definition connect_request_id :: "string option \<Rightarrow> string \<Rightarrow> string" where
  "connect_request_id requestId tok =
     (case requestId of Some r \<Rightarrow> if r \<noteq> [] \<and> is_uuid r then r else tok | None \<Rightarrow> tok)"

section \<open>Properties\<close>

lemma isTunnelOutcome_iff: "isTunnelOutcome v \<longleftrightarrow> (\<exists>o1. v = JStr (outcome_name o1))"
proof
  show "isTunnelOutcome v \<Longrightarrow> \<exists>o1. v = JStr (outcome_name o1)"
    by (auto simp: isTunnelOutcome_def list_ex_iff split: jval.splits)
  have "o1 \<in> set KNOWN_OUTCOMES" for o1 by (cases o1) (simp_all add: KNOWN_OUTCOMES_def)
  then show "\<exists>o1. v = JStr (outcome_name o1) \<Longrightarrow> isTunnelOutcome v"
    unfolding isTunnelOutcome_def list_ex_iff by (elim exE) (simp, blast)
qed

text \<open>\<open>secret_cache_ok\<close>: a cached secret is the stored one (secrets are never replaced).\<close>

definition secret_cache_ok :: "hub \<Rightarrow> bool" where
  "secret_cache_ok h \<longleftrightarrow> (\<forall>u x t. map_get (signingSecretCache h) u = Some (Some x, t) \<longrightarrow>
     x \<noteq> [] \<longrightarrow> getSigningSecret u h = Some x)"

lemma live_entry_eq_Some: "live_entry now e = Some v \<longleftrightarrow> (\<exists>t. e = Some (v, t) \<and> now < t)"
  by (cases e) (auto split: if_splits)

lemma verify_no_secret: "falsy secret \<Longrightarrow> verify hm e p secret k now g = (VFail NO_SECRET, g)"
  by (simp add: verify_def verify_checks_def)

lemma verify_invalid_keeps_guard:
  "verify hm e p s k now (Some g) = (VFail f, g') \<Longrightarrow> f \<noteq> REPLAYED \<Longrightarrow> g' = Some g"
  by (auto simp: verify_def split_beta split: sum.splits if_splits)

lemma verify_with_guard_eq:
  assumes "verify (cfg_hmac cfg) ''tunnel:pre'' env s DEFAULT_MAX_CLOCK_SKEW_MS (clock h)
      (Some (tunnelGuard h)) = (r, g)"
  shows "\<exists>g'. g = Some g' \<and> verify_with_guard cfg env s h = (r, h\<lparr>tunnelGuard := g'\<rparr>)"
proof -
  have "\<exists>g'. g = Some g'"
    using assms by (auto simp: verify_def split_beta split: sum.splits if_splits)
  with assms show ?thesis by (auto simp: verify_with_guard_def)
qed

text \<open>the cache of secrets does not change who is admitted. With a cache that agrees with the stored
  secrets, a preconnect line is accepted only if it verifies under the stored secret with the
  replay guard, and is accepted whenever it does, unless the cache still remembers that the
  agent had no secret; a line that is accepted leaves the guard that verification leaves.\<close>

theorem preconnect_matches_stored_secret:
  assumes "secret_cache_ok h"
    and "verify (cfg_hmac cfg) ''tunnel:pre'' (preconnect_envelope r)
           (getSigningSecret (pre_agentUuid r) h) DEFAULT_MAX_CLOCK_SKEW_MS (clock h)
           (Some (tunnelGuard h)) = (direct, g)"
    and "verifyPreconnect cfg r h = (result, h')"
  shows "(result = VOk \<longrightarrow> direct = VOk \<and> g = Some (tunnelGuard h')) \<and>
    (direct = VOk \<longrightarrow> result = VOk \<or>
      (\<exists>x. live_entry (clock h) (map_get (signingSecretCache h) (pre_agentUuid r)) = Some x \<and> falsy x))"
proof -
  let ?u = "pre_agentUuid r" and ?env = "preconnect_envelope r"
  obtain f h1 where c: "cacheSigningSecret ?u h = (f, h1)" by force
  then have h1: "f = getSigningSecret ?u h" "clock h1 = clock h" "tunnelGuard h1 = tunnelGuard h"
    by (auto simp: cacheSigningSecret_def Let_def)
  show ?thesis
  proof (cases "live_entry (clock h) (map_get (signingSecretCache h) ?u)")
    case None
    from verify_with_guard_eq [of cfg ?env f h1 direct g] assms(2) h1
    obtain g' where "g = Some g'" "verify_with_guard cfg ?env f h1 = (direct, h1\<lparr>tunnelGuard := g'\<rparr>)"
      by auto
    with assms(3) None c show ?thesis by (auto simp: verifyPreconnect_def Let_def)
  next
    case (Some x)
    show ?thesis
    proof (cases "falsy x")
      case True
      then have "verify_with_guard cfg ?env x h = (VFail NO_SECRET, h)"
        by (simp add: verify_with_guard_def verify_no_secret)
      with assms(3) Some True show ?thesis by (auto simp: verifyPreconnect_def Let_def)
    next
      case False
      then have x: "x = getSigningSecret ?u h"
        using assms(1) Some by (cases x) (auto simp: secret_cache_ok_def live_entry_eq_Some falsy_def)
      from verify_with_guard_eq [OF assms(2)] obtain g' where
        v: "g = Some g'" "verify_with_guard cfg ?env x h = (direct, h\<lparr>tunnelGuard := g'\<rparr>)"
        by (auto simp: x)
      show ?thesis
      proof (cases "direct = VFail INVALID_SIGNATURE")
        case True
        then have g': "g' = tunnelGuard h"
          using verify_invalid_keeps_guard [of _ _ _ _ _ _ "tunnelGuard h" INVALID_SIGNATURE g] assms(2) v(1)
          by auto
        then have "verify_with_guard cfg ?env x h = (direct, h)" using v by simp
        moreover have "fst (verify_with_guard cfg ?env f h1) = direct"
          using assms(2) h1 by (simp add: verify_with_guard_def)
        ultimately have "result = direct"
          using assms(3) Some True c by (auto simp: verifyPreconnect_def Let_def)
        with True show ?thesis by simp
      next
        case False
        with assms(3) Some v show ?thesis by (auto simp: verifyPreconnect_def Let_def)
      qed
    qed
  qed
qed

text \<open>A line signed by the agent of the example.\<close>

definition example_line :: preconnect_request where
  "example_line = \<lparr>pre_agentUuid = ''a1'', pre_timestamp = 1000, pre_nonce = ''aa'',
     pre_signature = digest (cfg_hmac example_config) ''tunnel:pre'' 1000 ''aa''
       (JObj [(''agentUuid'', JStr ''a1'')]) ''secret''\<rparr>"

lemma preconnect_matches_stored_secret_witness:
  "fst (verifyPreconnect example_config example_line owner_hub) = VOk \<and>
   fst (verify (cfg_hmac example_config) ''tunnel:pre'' (preconnect_envelope example_line)
     (Some ''secret'') DEFAULT_MAX_CLOCK_SKEW_MS 1000 (Some newReplayGuard)) = VOk"
proof -
  have ok: "secret_cache_ok owner_hub"
    by (simp add: secret_cache_ok_def owner_hub_def linked_hub_def init_hub_def)
  have s: "getSigningSecret (pre_agentUuid example_line) owner_hub = Some ''secret''"
    "clock owner_hub = 1000" "tunnelGuard owner_hub = newReplayGuard" by code_simp+
  have r: "fst (verifyPreconnect example_config example_line owner_hub) = VOk" by code_simp
  obtain d g where d: "verify (cfg_hmac example_config) ''tunnel:pre'' (preconnect_envelope example_line)
      (getSigningSecret (pre_agentUuid example_line) owner_hub) DEFAULT_MAX_CLOCK_SKEW_MS
      (clock owner_hub) (Some (tunnelGuard owner_hub)) = (d, g)" by force
  have "verifyPreconnect example_config example_line owner_hub =
      (VOk, snd (verifyPreconnect example_config example_line owner_hub))"
    using r by (metis prod.collapse)
  from preconnect_matches_stored_secret [OF ok d this] d r s show ?thesis by simp
qed

section \<open>What a route is\<close>

text \<open>
  \<open>routes_to h ws sub u port\<close>: the address is that of an active workspace and of an endpoint of
  a service that is neither deleted nor blocked, on a linked agent.
\<close>

definition routes_to :: "hub \<Rightarrow> string \<Rightarrow> string \<Rightarrow> string \<Rightarrow> int \<Rightarrow> bool" where
  "routes_to h ws sub u port \<longleftrightarrow>
     (\<exists>w\<in>set (workspaces h). \<exists>e\<in>set (service_endpoints h). \<exists>s\<in>set (services h). \<exists>a\<in>set (agents h).
        workspace_subdomain w = Some ws \<and> workspace_subdomain_active w
        \<and> endpoint_parent_workspace e = workspace_index w \<and> endpoint_subdomain e = Some sub
        \<and> endpoint_deleted_at e = None \<and> endpoint_host_port e = port
        \<and> service_index s = endpoint_parent_service e \<and> service_deleted_at s = None
        \<and> service_traffic_blocked_at s = None
        \<and> agent_index a = service_parent_agent s \<and> agent_uuid a = u
        \<and> agent_connection a = Linked \<and> agent_deleted_at a = None)"

lemma dispatch_route_Inr:
  "dispatch_route cfg u port tok rid pooled h = (Inr r, h') \<Longrightarrow>
   pr_agent_uuid r = u \<and> pr_service_port r = port \<and> pr_outcome r = SUCCESS \<and> pr_request_id r = rid
   \<and> (pooled \<longrightarrow> h' = h) \<and> (\<not> pooled \<longrightarrow> getAgentSocket u h \<noteq> None)"
  by (auto simp: dispatch_route_def dispatchToAgent_def Let_def split_beta sendToAgent_True_iff
      split: if_splits)

text \<open>C18: the Hub routes an address only where it should. A successful answer that does not come from
  the route cache names the agent and the port of an endpoint published at that address, in an
  active workspace, for a service that is neither deleted nor blocked and whose agent is linked.\<close>

theorem route_is_published:
  assumes "sendProxyInfo cfg sub ws tok rid pooled h = (Inr r, h')"
    and "live_entry (clock h) (map_get (routeCache h) (ws @ ''/'' @ normalizeSubdomainPath sub)) = None"
  shows "routes_to h ws (normalizeSubdomainPath sub) (pr_agent_uuid r) (pr_service_port r)"
proof -
  from assms obtain w e s a h1 where
    w: "find (\<lambda>w. workspace_subdomain w = Some ws \<and> workspace_subdomain_active w) (workspaces h) = Some w"
    and e: "route_endpoint h (workspace_index w) (normalizeSubdomainPath sub) = Some e"
    and s: "service_of h e = Some s" "service_traffic_blocked_at s = None"
    and a: "find (\<lambda>a. agent_index a = service_parent_agent s) (agents h) = Some a"
      "agent_connection a = Linked" "agent_deleted_at a = None"
    and d: "dispatch_route cfg (agent_uuid a) (endpoint_host_port e) tok rid pooled h1 = (Inr r, h')"
    by (auto simp: sendProxyInfo_def Let_def split: option.splits if_splits)
  have "endpoint_parent_workspace e = workspace_index w" "endpoint_deleted_at e = None"
    "endpoint_subdomain e = Some (normalizeSubdomainPath sub)" "e \<in> set (service_endpoints h)"
    "service_deleted_at s = None"
    using e s(1) by (auto simp: route_endpoint_def dest!: find_SomeD)
  moreover have "s \<in> set (services h)" "service_index s = endpoint_parent_service e"
    using s(1) by (auto simp: service_of_def dest!: find_SomeD)
  ultimately show ?thesis
    using find_SomeD [OF w] find_SomeD [OF a(1)] a(2,3) s(2) dispatch_route_Inr [OF d]
    unfolding routes_to_def
    by (intro bexI [of _ w] bexI [of _ e] bexI [of _ s] bexI [of _ a]) simp_all
qed

definition example_endpoint :: endpoints_row where
  "example_endpoint = \<lparr>endpoint_index = 1, endpoint_parent_workspace = 1, endpoint_parent_service = 1,
     endpoint_component_name = Some ''app'', endpoint_subdomain = Some ''www'',
     endpoint_host_port = 3000, endpoint_container_port = 80, endpoint_deleted_at = None\<rparr>"

definition published_hub :: hub where
  "published_hub = owner_hub\<lparr>services := [example_service 1 1 1], service_endpoints := [example_endpoint]\<rparr>"

lemma route_is_published_witness:
  "routes_to published_hub ''acme'' ''www'' ''a1'' 3000"
proof -
  let ?op = "sendProxyInfo example_config ''WWW'' ''acme'' ''tok'' ''rid'' True published_hub"
  let ?r = "\<lparr>pr_outcome = SUCCESS, pr_request_id = ''rid'', pr_agent_uuid = ''a1'', pr_service_port = 3000\<rparr>"
  have "fst ?op = Inr ?r" by code_simp
  then have op: "?op = (Inr ?r, snd ?op)" by (cases ?op) simp
  have n: "normalizeSubdomainPath ''WWW'' = ''www''" by code_simp
  have "live_entry (clock published_hub) (map_get (routeCache published_hub)
      (''acme'' @ ''/'' @ normalizeSubdomainPath ''WWW'')) = None" by code_simp
  from route_is_published [OF op this] show ?thesis by (simp add: n)
qed

text \<open>a service hidden from the network cannot be told from one that does not exist. The answer of
  the Hub for its address is the one it gives when the endpoint is not there, and in neither
  case does anything change or any agent get a message.\<close>

theorem hidden_service_looks_absent:
  assumes "live_entry (clock h) (map_get (routeCache h) (ws @ ''/'' @ normalizeSubdomainPath sub)) = None"
    and "find (\<lambda>w. workspace_subdomain w = Some ws \<and> workspace_subdomain_active w) (workspaces h) = Some w"
    and "route_endpoint h (workspace_index w) (normalizeSubdomainPath sub) = Some e"
    and "service_of h e = Some s" and "service_traffic_blocked_at s \<noteq> None"
    and "service_traffic_block_mode s = Hidden"
  shows "sendProxyInfo cfg sub ws tok rid pooled h =
      (Inl (TunnelError 404 SERVICE_NOT_FOUND ''Service not found''), h)
    \<and> (let absent = h\<lparr>service_endpoints := []\<rparr>
       in sendProxyInfo cfg sub ws tok rid pooled absent =
         (fst (sendProxyInfo cfg sub ws tok rid pooled h), absent))"
  using assms by (simp add: sendProxyInfo_def Let_def route_endpoint_def)

lemma hidden_service_looks_absent_witness:
  "let h = published_hub\<lparr>services := [(example_service 1 1 1)
        \<lparr>service_traffic_blocked_at := Some 900, service_traffic_block_mode := Hidden\<rparr>]\<rparr>
   in sendProxyInfo example_config ''www'' ''acme'' ''tok'' ''rid'' False h =
      (Inl (TunnelError 404 SERVICE_NOT_FOUND ''Service not found''), h)"
proof -
  let ?s = "(example_service 1 1 1)\<lparr>service_traffic_blocked_at := Some 900, service_traffic_block_mode := Hidden\<rparr>"
  let ?h = "published_hub\<lparr>services := [?s]\<rparr>"
  have "live_entry (clock ?h) (map_get (routeCache ?h) (''acme'' @ ''/'' @ normalizeSubdomainPath ''www'')) = None"
    "find (\<lambda>w. workspace_subdomain w = Some ''acme'' \<and> workspace_subdomain_active w) (workspaces ?h)
       = Some example_workspace"
    "route_endpoint ?h (workspace_index example_workspace) (normalizeSubdomainPath ''www'') = Some example_endpoint"
    "service_of ?h example_endpoint = Some ?s" "service_traffic_blocked_at ?s \<noteq> None"
    "service_traffic_block_mode ?s = Hidden"
    by code_simp+
  from hidden_service_looks_absent [OF this] show ?thesis by (simp add: Let_def)
qed

end
