(* ===== verification/Services.thy ===== *)
theory Services
  imports Tunnel ServiceForms Outcome
begin

text \<open>
  \<open>src/services/service.service.ts\<close>: creation, redeployment, removal and control of the services of
  a workspace, their endpoints, and the blocking of their traffic.

  The bodies hold values of the types the service declares; what the code normalises itself
  (port mappings, endpoints, sources, environment) is any received value. A request ends in an
  exception or a result; the Hub reached before an exception is kept.
\<close>

section \<open>Lookup and ownership\<close>

definition set_service :: "nat \<Rightarrow> (services_row \<Rightarrow> services_row) \<Rightarrow> hub \<Rightarrow> hub" where
  "set_service serviceIndex f h =
     h\<lparr>services := update_rows (\<lambda>s. service_index s = serviceIndex) f (services h)\<rparr>"

definition owned_service :: "nat \<Rightarrow> nat \<Rightarrow> hub \<Rightarrow> services_row option" where
  "owned_service owner serviceIndex h =
     find (\<lambda>s. service_index s = serviceIndex \<and> service_deleted_at s = None
        \<and> list_ex (\<lambda>w. workspace_index w = service_parent_workspace s \<and> owns_workspace owner w)
            (workspaces h)) (services h)"

definition service_agent :: "services_row \<Rightarrow> hub \<Rightarrow> agents_row option" where
  "service_agent s h =
     find (\<lambda>a. agent_index a = service_parent_agent s
        \<and> agent_parent_workspace a = Some (service_parent_workspace s)
        \<and> agent_connection a = Linked \<and> agent_deleted_at a = None) (agents h)"

definition findOwnedServiceAndAgent ::
  "nat \<Rightarrow> string \<Rightarrow> hub \<Rightarrow> (http_error + services_row \<times> agents_row option) \<times> hub" where
  "findOwnedServiceAndAgent owner serviceIdx h =
     andThen (check (parseServiceIndex serviceIdx) h) (\<lambda>serviceIndex h.
       case owned_service owner serviceIndex h of
         None \<Rightarrow> throw (NotFound ''Service Not Found.'') h
       | Some rawService \<Rightarrow> give (rawService, service_agent rawService h) h)"

definition ensureCommandSent :: "bool \<Rightarrow> hub \<Rightarrow> (http_error + unit) \<times> hub" where
  "ensureCommandSent sent_ok h =
     (if sent_ok then give () h else throw (ServiceUnavailable ''Agent is not connected.'') h)"

text \<open>The shared tail of the commands: a command that cannot be sent fails the service.\<close>

definition command_or_fail :: "bool \<Rightarrow> services_row \<Rightarrow> hub \<Rightarrow> (http_error + unit) \<times> hub" where
  "command_or_fail sent_ok s h =
     (if sent_ok then give () h
      else ensureCommandSent sent_ok
        (notifyWorkspaceUpdated (Some (service_parent_workspace s))
          (set_service (service_index s) (\<lambda>r. r\<lparr>service_status := Failed\<rparr>) h)))"

text \<open>\<open>a ?? b\<close> on columns that may be null\<close>

definition or_int :: "int option \<Rightarrow> int \<Rightarrow> int" where
  "or_int a b = (case a of None \<Rightarrow> b | Some x \<Rightarrow> x)"

definition or_else :: "'a option \<Rightarrow> 'a option \<Rightarrow> 'a option" where
  "or_else a b = (case a of None \<Rightarrow> b | Some x \<Rightarrow> Some x)"

section \<open>Endpoints and components\<close>

definition endpoint_subdomains :: "service_endpoint list \<Rightarrow> string list" where
  "endpoint_subdomains endpoints = List.map_filter subdomain endpoints"

definition new_endpoint :: "nat \<Rightarrow> nat \<Rightarrow> nat \<Rightarrow> service_endpoint \<Rightarrow> endpoints_row" where
  "new_endpoint i workspaceIndex serviceIndex ep =
     \<lparr>endpoint_index = i, endpoint_parent_workspace = workspaceIndex,
      endpoint_parent_service = serviceIndex, endpoint_component_name = Some (componentName ep),
      endpoint_subdomain = subdomain ep, endpoint_host_port = hostPort ep,
      endpoint_container_port = containerPort ep, endpoint_deleted_at = None\<rparr>"

definition add_endpoints :: "nat \<Rightarrow> nat \<Rightarrow> service_endpoint list \<Rightarrow> hub \<Rightarrow> hub" where
  "add_endpoints serviceIndex workspaceIndex endpoints h =
     h\<lparr>service_endpoints := service_endpoints h
         @ map (\<lambda>(i, ep). new_endpoint i workspaceIndex serviceIndex ep)
             (zip [next_endpoint h..<next_endpoint h + length endpoints] endpoints),
       next_endpoint := next_endpoint h + length endpoints\<rparr>"

definition subdomain_taken :: "nat \<Rightarrow> nat \<Rightarrow> string list \<Rightarrow> hub \<Rightarrow> bool" where
  "subdomain_taken serviceIndex workspaceIndex subs h =
     list_ex (\<lambda>e. endpoint_parent_workspace e = workspaceIndex \<and> endpoint_parent_service e \<noteq> serviceIndex
        \<and> (case endpoint_subdomain e of None \<Rightarrow> False | Some s \<Rightarrow> s \<in> set subs)
        \<and> endpoint_deleted_at e = None) (service_endpoints h)"

definition replaceServiceEndpoints ::
  "nat \<Rightarrow> nat \<Rightarrow> service_endpoint list \<Rightarrow> hub \<Rightarrow> (http_error + unit) \<times> hub" where
  "replaceServiceEndpoints serviceIndex workspaceIndex endpoints h =
     (let publicSubdomains = endpoint_subdomains endpoints
      in if \<not> distinct publicSubdomains then throw (Conflict ''Duplicate Endpoint Subdomain.'') h
         else if publicSubdomains \<noteq> [] \<and> subdomain_taken serviceIndex workspaceIndex publicSubdomains h
         then throw (Conflict ''Endpoint Subdomain Already In Use.'') h
         else give () (add_endpoints serviceIndex workspaceIndex endpoints
           (h\<lparr>service_endpoints :=
                filter (\<lambda>e. endpoint_parent_service e \<noteq> serviceIndex) (service_endpoints h)\<rparr>)))"

definition ensureDefaultComponent :: "nat \<Rightarrow> string \<Rightarrow> deploy_preset \<Rightarrow> hub \<Rightarrow> hub" where
  "ensureDefaultComponent serviceIndex serviceName deployPreset h =
     (let name = defaultComponentName serviceName deployPreset;
          same = (\<lambda>c. component_parent_service c = serviceIndex \<and> component_name c = name)
      in if list_ex same (service_components h)
         then h\<lparr>service_components :=
                  update_rows same (\<lambda>c. c\<lparr>component_deleted_at := None\<rparr>) (service_components h)\<rparr>
         else h\<lparr>service_components := service_components h @
                  [\<lparr>component_index = next_component h, component_parent_service = serviceIndex,
                    component_name = name,
                    component_container_name =
                      (if deployPreset = Compose then None else Some (js_lower serviceName)),
                    component_status = CWaiting, component_health = None,
                    component_exit_code = None, component_deleted_at = None\<rparr>],
                next_component := Suc (next_component h)\<rparr>)"

section \<open>Creation\<close>

record create_body =
  cb_workspaceIdx :: nat
  cb_serviceName :: string
  cb_servicePort :: "int option"
  cb_serviceContainerPort :: "int option"
  cb_serviceHostPort :: "int option"
  cb_servicePortMappings :: jval
  cb_serviceEndpoints :: jval
  cb_serviceSourceUrl :: jval
  cb_serviceRootDirectory :: jval
  cb_serviceVersion :: string
  cb_serviceDeployPreset :: deploy_preset
  cb_agentIndex :: nat
  cb_env :: jval

definition mapping_json :: "port_mapping \<Rightarrow> jval" where
  "mapping_json m = JObj [(''hostPort'', JNum (hostPort m)), (''containerPort'', JNum (containerPort m))]"

definition mappings_json :: "port_mapping list \<Rightarrow> jval" where
  "mappings_json ms = JArr (map mapping_json ms)"

definition name_in_use :: "nat \<Rightarrow> string \<Rightarrow> (services_row \<Rightarrow> bool) \<Rightarrow> hub \<Rightarrow> bool" where
  "name_in_use workspaceIndex name other h =
     list_ex (\<lambda>s. service_parent_workspace s = workspaceIndex \<and> service_name s = name
        \<and> service_deleted_at s = None \<and> service_status s \<noteq> Removed \<and> other s) (services h)"

definition new_service ::
  "create_body \<Rightarrow> source_repository list \<Rightarrow> port_mapping list \<Rightarrow> hub \<Rightarrow> services_row \<times> hub" where
  "new_service body sourceRepositories portMappings h =
     (let primary = hd portMappings;
          raw = \<lparr>service_index = next_service h, service_name = cb_serviceName body,
            service_port = hostPort primary, service_container_port = Some (containerPort primary),
            service_host_port = Some (hostPort primary),
            service_port_mappings = Some (mappings_json portMappings),
            service_source_url = serializeSourceRepositories sourceRepositories,
            service_subdomain = None,
            service_root_directory = repo_rootDirectory (hd sourceRepositories),
            service_env = Some (normalizeEnv (cb_env body)),
            service_parent_workspace = cb_workspaceIdx body,
            service_parent_agent = cb_agentIndex body, service_status = Waiting,
            service_traffic_blocked_at = None, service_traffic_block_reason = None,
            service_traffic_block_mode = Notice, service_version = cb_serviceVersion body,
            service_deploy_preset = cb_serviceDeployPreset body, service_created_at = clock h,
            service_deleted_at = None\<rparr>
      in (raw, h\<lparr>services := services h @ [raw], next_service := Suc (next_service h)\<rparr>))"

definition deploy_command ::
  "string \<Rightarrow> services_row \<Rightarrow> source_repository list \<Rightarrow> port_mapping list \<Rightarrow> jval \<Rightarrow> jval" where
  "deploy_command cmd s sourceRepositories portMappings env =
     JObj [(''command'', JStr cmd), (''serviceIndex'', jnat (service_index s)),
       (''sourceUrl'', JArr (map source_json sourceRepositories)),
       (''rootDirectory'', jopt (repo_rootDirectory (hd sourceRepositories))),
       (''deployPreset'', JStr (preset_name (service_deploy_preset s))),
       (''serviceName'', JStr (service_name s)),
       (''servicePort'', JNum (or_int (service_host_port s) (service_port s))),
       (''serviceHostPort'', JNum (or_int (service_host_port s) (service_port s))),
       (''serviceContainerPort'', JNum (or_int (service_container_port s) (service_port s))),
       (''servicePortMappings'', mappings_json portMappings),
       (''serviceVersion'', JStr (service_version s)), (''env'', env)]"

text \<open>The checks of \<open>handleCreateService\<close> before anything is written.\<close>

definition create_checks ::
  "nat \<Rightarrow> create_body \<Rightarrow> hub
    \<Rightarrow> http_error + agents_row \<times> source_repository list \<times> port_mapping list \<times> service_endpoint list" where
  "create_checks owner body h =
     (if \<not> list_ex (\<lambda>w. workspace_index w = cb_workspaceIdx body \<and> owns_workspace owner w) (workspaces h)
      then Inl (NotFound ''Workspace Not Found.'')
      else case find (\<lambda>a. agent_index a = cb_agentIndex body
             \<and> agent_parent_workspace a = Some (cb_workspaceIdx body)
             \<and> agent_connection a = Linked \<and> agent_deleted_at a = None) (agents h) of
        None \<Rightarrow> Inl (NotFound ''Agent Not Found.'')
      | Some agent \<Rightarrow>
      if name_in_use (cb_workspaceIdx body) (cb_serviceName body) (\<lambda>s. True) h
      then Inl (Conflict ''Service Name Already Exists in This Workspace.'')
      else case normalizeSourceRepositories (cb_serviceSourceUrl body) (cb_serviceRootDirectory body) of
        Inl e \<Rightarrow> Inl e
      | Inr sourceRepositories \<Rightarrow>
     (case normalizePortMappings (cb_servicePortMappings body)
             (or_else (cb_serviceHostPort body) (cb_servicePort body))
             (or_else (cb_serviceContainerPort body) (cb_servicePort body)) of
        Inl e \<Rightarrow> Inl e
      | Inr portMappings \<Rightarrow>
     (case normalizeEndpoints (cb_serviceEndpoints body) portMappings (cb_serviceName body)
             (cb_serviceDeployPreset body) None of
        Inl e \<Rightarrow> Inl e
      | Inr endpoints \<Rightarrow> Inr (agent, sourceRepositories, portMappings, endpoints))))"

definition handleCreateService ::
  "config \<Rightarrow> nat \<Rightarrow> create_body \<Rightarrow> hub \<Rightarrow> (http_error + services_row) \<times> hub" where
  "handleCreateService cfg owner body h =
     andThen (check (create_checks owner body h) h)
       (\<lambda>(agent, sourceRepositories, portMappings, endpoints) h.
     (let (raw, h1) = new_service body sourceRepositories portMappings h;
          h2 = ensureDefaultComponent (service_index raw) (service_name raw) (service_deploy_preset raw) h1
      in andThen (replaceServiceEndpoints (service_index raw) (cb_workspaceIdx body) endpoints h2) (\<lambda>u h3.
     (let (sent_ok, h4) = sendToAgent cfg (agent_uuid agent) ''command''
            (deploy_command ''DEPLOY'' raw sourceRepositories portMappings (normalizeEnv (cb_env body))) h3
      in andThen (command_or_fail sent_ok raw h4) (\<lambda>u h5.
         give raw (notifyWorkspaceUpdated (Some (cb_workspaceIdx body)) h5))))))"

section \<open>Commands to a running service\<close>

definition service_command :: "string \<Rightarrow> services_row \<Rightarrow> jval" where
  "service_command cmd s =
     JObj [(''command'', JStr cmd), (''serviceIndex'', jnat (service_index s)),
       (''serviceName'', JStr (service_name s)),
       (''servicePort'', JNum (or_int (service_host_port s) (service_port s))),
       (''serviceHostPort'', JNum (or_int (service_host_port s) (service_port s))),
       (''serviceContainerPort'', JNum (or_int (service_container_port s) (service_port s))),
       (''serviceVersion'', JStr (service_version s)),
       (''deployPreset'', JStr (preset_name (service_deploy_preset s)))]"

definition container_command :: "string \<Rightarrow> string \<Rightarrow> services_row \<Rightarrow> jval" where
  "container_command cmd containerName s =
     JObj [(''command'', JStr cmd), (''serviceIndex'', jnat (service_index s)),
       (''serviceName'', JStr (service_name s)),
       (''deployPreset'', JStr (preset_name (service_deploy_preset s))),
       (''containerName'', JStr containerName)]"

text \<open>
  The part the commands share: the service must not be removed and its agent must be linked; the
  command goes out, and if it cannot be sent the service has failed.
\<close>

definition control_service ::
  "config \<Rightarrow> nat \<Rightarrow> string \<Rightarrow> string \<Rightarrow> (services_row \<Rightarrow> jval) \<Rightarrow> hub
    \<Rightarrow> (http_error + services_row) \<times> hub" where
  "control_service cfg owner serviceIdx removedMessage payload h =
     andThen (findOwnedServiceAndAgent owner serviceIdx h) (\<lambda>(rawService, rawAgent) h.
       if service_status rawService = Removed then throw (Conflict removedMessage) h
       else case rawAgent of
         None \<Rightarrow> throw AgentNotConnected h
       | Some a \<Rightarrow>
           (let (sent_ok, h1) = sendToAgent cfg (agent_uuid a) ''command'' (payload rawService) h
            in andThen (command_or_fail sent_ok rawService h1) (\<lambda>u h2. give rawService h2)))"

definition handleStartService :: "config \<Rightarrow> nat \<Rightarrow> string \<Rightarrow> hub \<Rightarrow> (http_error + nat) \<times> hub" where
  "handleStartService cfg owner serviceIdx h =
     andThen (control_service cfg owner serviceIdx
         ''Removed service must be redeployed before it can be started.'' (service_command ''START'') h)
       (\<lambda>s h1. give (service_index s) (notifyWorkspaceUpdated (Some (service_parent_workspace s)) h1))"

definition handleStopService :: "config \<Rightarrow> nat \<Rightarrow> string \<Rightarrow> hub \<Rightarrow> (http_error + nat) \<times> hub" where
  "handleStopService cfg owner serviceIdx h =
     andThen (control_service cfg owner serviceIdx
         ''Removed service cannot be stopped.'' (service_command ''STOP'') h)
       (\<lambda>s h1. give (service_index s) (notifyWorkspaceUpdated (Some (service_parent_workspace s)) h1))"

definition handleStartContainer ::
  "config \<Rightarrow> nat \<Rightarrow> string \<Rightarrow> string \<Rightarrow> hub \<Rightarrow> (http_error + nat \<times> string) \<times> hub" where
  "handleStartContainer cfg owner serviceIdx containerName h =
     andThen (control_service cfg owner serviceIdx
         ''Removed service must be redeployed before containers can be started.''
         (container_command ''CONTAINER_START'' containerName) h)
       (\<lambda>s h1. give (service_index s, containerName) h1)"

definition handleStopContainer ::
  "config \<Rightarrow> nat \<Rightarrow> string \<Rightarrow> string \<Rightarrow> hub \<Rightarrow> (http_error + nat \<times> string) \<times> hub" where
  "handleStopContainer cfg owner serviceIdx containerName h =
     andThen (control_service cfg owner serviceIdx
         ''Removed service containers cannot be stopped.''
         (container_command ''CONTAINER_STOP'' containerName) h)
       (\<lambda>s h1. give (service_index s, containerName) h1)"

definition handleRestartContainer ::
  "config \<Rightarrow> nat \<Rightarrow> string \<Rightarrow> string \<Rightarrow> hub \<Rightarrow> (http_error + nat \<times> string) \<times> hub" where
  "handleRestartContainer cfg owner serviceIdx containerName h =
     andThen (control_service cfg owner serviceIdx
         ''Removed service must be redeployed before containers can be restarted.''
         (container_command ''CONTAINER_RESTART'' containerName) h)
       (\<lambda>s h1. give (service_index s, containerName) h1)"

text \<open>Removal. \<open>deleteScope\<close> is \<open>containers\<close> unless the body says \<open>service\<close>.\<close>

definition handleDeleteService ::
  "config \<Rightarrow> nat \<Rightarrow> string \<Rightarrow> string option \<Rightarrow> hub \<Rightarrow> (http_error + nat \<times> string) \<times> hub" where
  "handleDeleteService cfg owner serviceIdx deleteScope h =
     andThen (findOwnedServiceAndAgent owner serviceIdx h) (\<lambda>(rawService, rawAgent) h.
     (let scope = (if deleteScope = Some ''service'' then ''service'' else ''containers'')
      in case rawAgent of
        None \<Rightarrow> throw AgentNotConnected h
      | Some a \<Rightarrow>
     (let (sent_ok, h1) = sendToAgent cfg (agent_uuid a) ''command''
            (JObj [(''command'', JStr ''DELETE''), (''serviceIndex'', jnat (service_index rawService)),
              (''serviceName'', JStr (service_name rawService)),
              (''deployPreset'', JStr (preset_name (service_deploy_preset rawService))),
              (''deleteScope'', JStr scope)]) h
      in andThen (ensureCommandSent sent_ok h1) (\<lambda>u h2.
           give (service_index rawService, scope)
             (notifyWorkspaceUpdated (Some (service_parent_workspace rawService))
               (set_service (service_index rawService)
                 (\<lambda>s. s\<lparr>service_status := Removed,
                   service_deleted_at := (if scope = ''service'' then Some (clock h2) else None)\<rparr>) h2))))))"

section \<open>Redeployment\<close>

record redeploy_body =
  rb_agentIndex :: "nat option"
  rb_serviceName :: "string option"
  rb_servicePort :: "int option"
  rb_serviceContainerPort :: "int option"
  rb_serviceHostPort :: "int option"
  rb_servicePortMappings :: jval
  rb_serviceSourceUrl :: jval
  rb_serviceRootDirectory :: "string option"
  rb_serviceVersion :: "string option"
  rb_serviceDeployPreset :: "deploy_preset option"
  rb_env :: jval
  rb_serviceEndpoints :: jval

definition json_column :: "jval option \<Rightarrow> jval" where
  "json_column c = (case c of None \<Rightarrow> JNull | Some v \<Rightarrow> v)"

text \<open>An index that is left out is no filter: any online agent of the workspace will do.\<close>

definition redeploy_target :: "redeploy_body \<Rightarrow> services_row \<Rightarrow> hub \<Rightarrow> agents_row option" where
  "redeploy_target body rawService h =
     find (\<lambda>a. (case rb_agentIndex body of None \<Rightarrow> True | Some i \<Rightarrow> agent_index a = i)
        \<and> agent_parent_workspace a = Some (service_parent_workspace rawService)
        \<and> agent_status a = Online \<and> agent_deleted_at a = None) (agents h)"

text \<open>The old agent is told to stop the service when it moves to another one.\<close>

definition leave_old_agent ::
  "config \<Rightarrow> nat \<Rightarrow> redeploy_body \<Rightarrow> services_row \<Rightarrow> agents_row option \<Rightarrow> hub \<Rightarrow> (http_error + unit) \<times> hub" where
  "leave_old_agent cfg owner body rawService rawAgent h =
     (case (rb_agentIndex body, rawAgent) of
        (Some i, Some a) \<Rightarrow>
          if i \<noteq> 0 \<and> service_parent_agent rawService \<noteq> i \<and> agent_status a = Online
          then andThen (handleStopService cfg owner (show_nat (service_index rawService)) h) (\<lambda>u h1. give () h1)
          else give () h
      | _ \<Rightarrow> give () h)"

definition redeploy_sources :: "redeploy_body \<Rightarrow> services_row \<Rightarrow> http_error + source_repository list" where
  "redeploy_sources body rawService =
     normalizeSourceRepositories
       (parse_source (nullish (rb_serviceSourceUrl body) (JStr (service_source_url rawService))))
       (jopt (or_else (rb_serviceRootDirectory body) (service_root_directory rawService)))"

definition redeploy_ports :: "redeploy_body \<Rightarrow> services_row \<Rightarrow> http_error + port_mapping list" where
  "redeploy_ports body rawService =
     (let hp = or_else (or_else (or_else (rb_serviceHostPort body) (rb_servicePort body))
                 (service_host_port rawService)) (Some (service_port rawService));
          cp = or_else (or_else (or_else (rb_serviceContainerPort body) (rb_servicePort body))
                 (service_container_port rawService)) (Some (service_port rawService))
      in case normalizePortMappings (json_column (service_port_mappings rawService)) hp cp of
           Inl e \<Rightarrow> Inl e
         | Inr existing \<Rightarrow>
             if rb_servicePortMappings body \<noteq> JUndef
             then normalizePortMappings (rb_servicePortMappings body) hp cp else Inr existing)"

definition redeployed_row ::
  "redeploy_body \<Rightarrow> source_repository list \<Rightarrow> port_mapping list \<Rightarrow> jval \<Rightarrow> nat \<Rightarrow> services_row \<Rightarrow> services_row" where
  "redeployed_row body sourceRepositories portMappings env target s =
     (let primary = hd portMappings
      in s\<lparr>service_name := (case rb_serviceName body of None \<Rightarrow> service_name s | Some n \<Rightarrow> n),
           service_port := hostPort primary, service_host_port := Some (hostPort primary),
           service_container_port := Some (containerPort primary),
           service_port_mappings := Some (mappings_json portMappings),
           service_source_url := serializeSourceRepositories sourceRepositories,
           service_root_directory := repo_rootDirectory (hd sourceRepositories),
           service_env := Some env, service_parent_agent := target,
           service_version := (case rb_serviceVersion body of None \<Rightarrow> service_version s | Some v \<Rightarrow> v),
           service_deploy_preset :=
             (case rb_serviceDeployPreset body of None \<Rightarrow> service_deploy_preset s | Some p \<Rightarrow> p)\<rparr>)"

definition redeploy_name_taken :: "redeploy_body \<Rightarrow> services_row \<Rightarrow> hub \<Rightarrow> bool" where
  "redeploy_name_taken body rawService h =
     (case rb_serviceName body of None \<Rightarrow> False
      | Some n \<Rightarrow> n \<noteq> [] \<and> n \<noteq> service_name rawService
          \<and> name_in_use (service_parent_workspace rawService) n
              (\<lambda>s. service_index s \<noteq> service_index rawService) h)"

definition primary_subdomain :: "services_row \<Rightarrow> hub \<Rightarrow> string option" where
  "primary_subdomain rawService h =
     (case find (\<lambda>e. endpoint_parent_service e = service_index rawService \<and> endpoint_subdomain e \<noteq> None)
             (service_endpoints h) of
        None \<Rightarrow> service_subdomain rawService
      | Some e \<Rightarrow> endpoint_subdomain e)"

text \<open>The part of \<open>handleRedeployService\<close> that writes, from the update of the row on.\<close>

definition apply_redeploy ::
  "config \<Rightarrow> redeploy_body \<Rightarrow> services_row \<Rightarrow> agents_row \<Rightarrow> source_repository list \<Rightarrow> port_mapping list
    \<Rightarrow> string option \<Rightarrow> hub \<Rightarrow> (http_error + services_row) \<times> hub" where
  "apply_redeploy cfg body rawService targetAgent sourceRepositories portMappings existingSubdomain h =
     (let env = (if rb_env body \<noteq> JUndef then normalizeEnv (rb_env body)
                 else normalizeEnv (json_column (service_env rawService)));
          upd = redeployed_row body sourceRepositories portMappings env (agent_index targetAgent);
          h1 = set_service (service_index rawService) upd h
      in case find (\<lambda>s. service_index s = service_index rawService) (services h1) of
        None \<Rightarrow> throw (InternalError ''Record to update not found.'') h
      | Some updatedService \<Rightarrow>
     (case normalizeEndpoints (rb_serviceEndpoints body) portMappings (service_name updatedService)
             (service_deploy_preset updatedService) existingSubdomain of
        Inl e \<Rightarrow> throw e h1
      | Inr endpoints \<Rightarrow>
     (let h2 = ensureDefaultComponent (service_index updatedService) (service_name updatedService)
                 (service_deploy_preset updatedService) h1
      in andThen (replaceServiceEndpoints (service_index updatedService)
                    (service_parent_workspace updatedService) endpoints h2) (\<lambda>u h3.
     (let (sent_ok, h4) = sendToAgent cfg (agent_uuid targetAgent) ''command''
            (deploy_command ''REDEPLOY'' updatedService sourceRepositories portMappings env) h3
      in andThen (command_or_fail sent_ok updatedService h4) (\<lambda>u h5. give updatedService h5))))))"

definition handleRedeployService ::
  "config \<Rightarrow> nat \<Rightarrow> string \<Rightarrow> redeploy_body \<Rightarrow> hub \<Rightarrow> (http_error + services_row) \<times> hub" where
  "handleRedeployService cfg owner serviceIdx body h =
     andThen (findOwnedServiceAndAgent owner serviceIdx h) (\<lambda>(rawService, rawAgent) h.
       case redeploy_target body rawService h of
         None \<Rightarrow> throw (NotFound ''Target agent is offline or deleted.'') h
       | Some targetAgent \<Rightarrow>
           andThen (leave_old_agent cfg owner body rawService rawAgent h) (\<lambda>u h1.
             andThen (check (redeploy_sources body rawService) h1) (\<lambda>sourceRepositories h1.
               andThen (check (redeploy_ports body rawService) h1) (\<lambda>portMappings h1.
                 if redeploy_name_taken body rawService h1
                 then throw (Conflict ''Service Name Already Exists in This Workspace.'') h1
                 else apply_redeploy cfg body rawService targetAgent sourceRepositories portMappings
                        (primary_subdomain rawService h1) h1))))"

section \<open>Blocking traffic\<close>

record block_options =
  bo_mode :: "block_mode option"
  bo_reason :: "string option"

record block_view =
  bv_serviceIndex :: nat
  bv_trafficBlockedAt :: "int option"
  bv_trafficBlockMode :: block_mode
  bv_trafficBlockReason :: "string option"

definition toTrafficBlockView :: "services_row \<Rightarrow> block_view" where
  "toTrafficBlockView s =
     \<lparr>bv_serviceIndex = service_index s, bv_trafficBlockedAt = service_traffic_blocked_at s,
      bv_trafficBlockMode = service_traffic_block_mode s,
      bv_trafficBlockReason = service_traffic_block_reason s\<rparr>"

text \<open>\<open>update\<close> of the row, the emptied route cache and the notice to the console.\<close>

definition change_traffic ::
  "services_row \<Rightarrow> (services_row \<Rightarrow> services_row) \<Rightarrow> hub \<Rightarrow> (http_error + block_view) \<times> hub" where
  "change_traffic rawService upd h =
     (let h1 = set_service (service_index rawService) upd h
      in give (toTrafficBlockView (upd rawService))
           (notifyWorkspaceUpdated (Some (service_parent_workspace rawService)) (invalidateRouteCache h1)))"

definition blocked_row :: "block_options \<Rightarrow> int option \<Rightarrow> int \<Rightarrow> services_row \<Rightarrow> services_row" where
  "blocked_row options blockedAt now s =
     s\<lparr>service_traffic_blocked_at := (case blockedAt of None \<Rightarrow> Some now | Some t \<Rightarrow> Some t),
       service_traffic_block_mode := (case bo_mode options of None \<Rightarrow> Notice | Some m \<Rightarrow> m),
       service_traffic_block_reason := (case bo_reason options of None \<Rightarrow> None
          | Some r \<Rightarrow> if js_trim r = [] then None else Some (js_trim r))\<rparr>"

definition handleBlockServiceTraffic ::
  "nat \<Rightarrow> string \<Rightarrow> block_options \<Rightarrow> hub \<Rightarrow> (http_error + block_view) \<times> hub" where
  "handleBlockServiceTraffic owner serviceIdx options h =
     andThen (findOwnedServiceAndAgent owner serviceIdx h) (\<lambda>(rawService, rawAgent) h.
       if service_status rawService = Removed
       then throw (Conflict ''Removed service has no traffic to block.'') h
       else change_traffic rawService
              (blocked_row options (service_traffic_blocked_at rawService) (clock h)) h)"

definition handleUnblockServiceTraffic ::
  "nat \<Rightarrow> string \<Rightarrow> hub \<Rightarrow> (http_error + block_view) \<times> hub" where
  "handleUnblockServiceTraffic owner serviceIdx h =
     andThen (findOwnedServiceAndAgent owner serviceIdx h) (\<lambda>(rawService, rawAgent) h.
       change_traffic rawService
         (\<lambda>s. s\<lparr>service_traffic_blocked_at := None, service_traffic_block_reason := None,
                service_traffic_block_mode := Notice\<rparr>) h)"

section \<open>Subdomains and endpoints\<close>

definition handleUpdateServiceSubdomain ::
  "nat \<Rightarrow> string \<Rightarrow> string option \<Rightarrow> hub \<Rightarrow> (http_error + nat \<times> string option) \<times> hub" where
  "handleUpdateServiceSubdomain owner serviceIdx sub h =
     andThen (findOwnedServiceAndAgent owner serviceIdx h) (\<lambda>(rawService, rawAgent) h.
     (let i = service_index rawService;
          ws = service_parent_workspace rawService;
          normalizedSubdomain = normalizeServiceSubdomain sub
      in andThen (check (assertServiceSubdomainFormat normalizedSubdomain) h) (\<lambda>u h.
           if (case normalizedSubdomain of None \<Rightarrow> False | Some d \<Rightarrow> subdomain_taken i ws [d] h)
           then throw (Conflict ''Subdomain Already In Use.'') h
           else
             (let h1 =
                (case find (\<lambda>e. endpoint_parent_service e = i) (service_endpoints h) of
                   Some primaryEndpoint \<Rightarrow>
                     h\<lparr>service_endpoints := update_rows (\<lambda>e. endpoint_index e = endpoint_index primaryEndpoint)
                         (\<lambda>e. e\<lparr>endpoint_subdomain := normalizedSubdomain\<rparr>) (service_endpoints h)\<rparr>
                 | None \<Rightarrow>
                     if normalizedSubdomain = None then h
                     else add_endpoints i ws
                       [\<lparr>hostPort = or_int (service_host_port rawService) (service_port rawService),
                         containerPort = or_int (service_container_port rawService) (service_port rawService),
                         componentName = defaultComponentName (service_name rawService)
                           (service_deploy_preset rawService),
                         subdomain = normalizedSubdomain\<rparr>] h)
              in give (i, normalizedSubdomain)
                   (set_service i (\<lambda>s. s\<lparr>service_subdomain := normalizedSubdomain\<rparr>) h1)))))"

definition main_subdomain :: "service_endpoint list \<Rightarrow> string option" where
  "main_subdomain endpoints =
     (case find (\<lambda>ep. subdomain ep \<noteq> None) endpoints of
        Some ep \<Rightarrow> subdomain ep
      | None \<Rightarrow> (case endpoints of [] \<Rightarrow> None | ep # eps \<Rightarrow> subdomain ep))"

definition handleUpdateServiceEndpoints ::
  "nat \<Rightarrow> string \<Rightarrow> jval \<Rightarrow> hub
    \<Rightarrow> (http_error + nat \<times> string option \<times> service_endpoint list) \<times> hub" where
  "handleUpdateServiceEndpoints owner serviceIdx serviceEndpoints h =
     andThen (findOwnedServiceAndAgent owner serviceIdx h) (\<lambda>(rawService, rawAgent) h.
       andThen (check (normalizePortMappings (json_column (service_port_mappings rawService))
           (Some (or_int (service_host_port rawService) (service_port rawService)))
           (Some (or_int (service_container_port rawService) (service_port rawService)))) h)
         (\<lambda>fallbackPortMappings h.
       andThen (check (normalizeEndpoints serviceEndpoints fallbackPortMappings (service_name rawService)
           (service_deploy_preset rawService) (service_subdomain rawService)) h) (\<lambda>endpoints h.
       andThen (replaceServiceEndpoints (service_index rawService) (service_parent_workspace rawService)
           endpoints h) (\<lambda>u h1.
         give (service_index rawService, main_subdomain endpoints, endpoints)
           (notifyWorkspaceUpdated (Some (service_parent_workspace rawService))
             (set_service (service_index rawService)
               (\<lambda>s. s\<lparr>service_subdomain := main_subdomain endpoints\<rparr>) h1))))))"

section \<open>The list of services\<close>

record service_view =
  sv_service :: services_row
  sv_serviceHostPort :: int
  sv_serviceContainerPort :: int
  sv_servicePortMappings :: "port_mapping list"
  sv_serviceEnv :: jval
  sv_serviceSubdomain :: "string option"
  sv_agent :: "agents_row option"
  sv_components :: "components_row list"
  sv_endpoints :: "endpoints_row list"

text \<open>
  The view keeps the rows it copies columns from: \<open>sv_service\<close> for the columns that are passed on
  as they are, \<open>sv_agent\<close> for code, name and uuid of the agent.
\<close>

definition service_to_view :: "hub \<Rightarrow> services_row \<Rightarrow> http_error + service_view" where
  "service_to_view h s =
     (let hp = or_int (service_host_port s) (service_port s);
          cp = or_int (service_container_port s) (service_port s);
          components = filter (\<lambda>c. component_parent_service c = service_index s
                         \<and> component_deleted_at c = None) (service_components h);
          endpoints = filter (\<lambda>e. endpoint_parent_service e = service_index s
                         \<and> endpoint_deleted_at e = None) (service_endpoints h);
          endpointPortMappings = map (\<lambda>e. \<lparr>hostPort = endpoint_host_port e,
                         containerPort = endpoint_container_port e\<rparr>) endpoints;
          primary = (case find (\<lambda>e. endpoint_subdomain e \<noteq> None) endpoints of
                       Some e \<Rightarrow> endpoint_subdomain e | None \<Rightarrow> None)
      in case normalizePortMappings (json_column (service_port_mappings s)) (Some hp) (Some cp) of
           Inl e \<Rightarrow> Inl e
         | Inr fallbackPortMappings \<Rightarrow>
             Inr \<lparr>sv_service = s, sv_serviceHostPort = hp, sv_serviceContainerPort = cp,
               sv_servicePortMappings =
                 (if endpointPortMappings \<noteq> [] then endpointPortMappings else fallbackPortMappings),
               sv_serviceEnv = normalizeEnv (json_column (service_env s)),
               sv_serviceSubdomain = or_else primary (service_subdomain s),
               sv_agent = find (\<lambda>a. agent_index a = service_parent_agent s) (agents h),
               sv_components = components, sv_endpoints = endpoints\<rparr>)"

fun views_of :: "hub \<Rightarrow> services_row list \<Rightarrow> http_error + service_view list" where
  "views_of h [] = Inr []"
| "views_of h (s # ss) =
     (case service_to_view h s of
        Inl e \<Rightarrow> Inl e
      | Inr v \<Rightarrow> (case views_of h ss of Inl e \<Rightarrow> Inl e | Inr vs \<Rightarrow> Inr (v # vs)))"

definition handleGetServiceList :: "nat \<Rightarrow> nat \<Rightarrow> hub \<Rightarrow> (http_error + service_view list) \<times> hub" where
  "handleGetServiceList owner workspaceIdx h =
     (if \<not> list_ex (\<lambda>w. workspace_index w = workspaceIdx \<and> owns_workspace owner w) (workspaces h)
      then throw (NotFound ''Workspace Not Found.'') h
      else check (views_of h
        (js_sort (\<lambda>a b. service_created_at b - service_created_at a)
          (filter (\<lambda>s. service_parent_workspace s = workspaceIdx \<and> service_deleted_at s = None)
            (services h)))) h)"

end
