(* ===== verification/ServiceRules.thy ===== *)
theory ServiceRules
  imports Services
begin

text \<open>
  What the service operations guarantee: ownership, the separation of the published addresses,
  ports, stored sources, and the effect of a traffic block on routing.
\<close>

section \<open>Stored sources\<close>

lemma js_trim_Nil [simp]: "js_trim [] = []"
  by (simp add: js_trim_def)

lemma source_entry_json:
  assumes "tidy_source e = e"
  shows "source_entry (source_json e) = e"
proof -
  have "js_trim (repo_url e) = repo_url e" "normalizeRootDirectory (jopt (repo_rootDirectory e)) = repo_rootDirectory e"
    using assms by (cases e; simp add: tidy_source_def)+
  then show ?thesis
    by (simp add: source_entry_def source_json_def nullish_def map_get_def)
qed

lemma storable_sources: "storable (JArr (map source_json es))"
proof -
  have "storable (source_json e)" for e
    by (cases "repo_rootDirectory e") (simp_all add: source_json_def is_index_def is_digit_def less_eq_char_def)
  then show ?thesis by (simp add: list_all_iff)
qed

lemma filter_tidy:
  "(\<And>e. e \<in> set es \<Longrightarrow> tidy_source e = e \<and> repo_url e \<noteq> []) \<Longrightarrow>
   filter (\<lambda>e. repo_url e \<noteq> []) (map tidy_source es) = es"
  by (induction es) auto

text \<open>what a deployment stores about its sources, a redeployment reads back. For sources in the form the
  service keeps them (trimmed, the root directory without leading slashes), the stored text and the
  stored root directory give the same list, unless the text is a bare address that is itself JSON.\<close>

theorem stored_sources_survive:
  assumes "es \<noteq> []" and "\<And>e. e \<in> set es \<Longrightarrow> tidy_source e = e \<and> repo_url e \<noteq> []"
    and "\<And>e. es = [e] \<Longrightarrow> repo_rootDirectory e = None \<Longrightarrow> JSON_parse (repo_url e) = None"
  shows "normalizeSourceRepositories (parse_source (JStr (serializeSourceRepositories es)))
    (jopt (repo_rootDirectory (hd es))) = Inr es"
proof (cases "length es = 1 \<and> falsy (repo_rootDirectory (hd es))")
  case True
  then obtain e where e: "es = [e]" by (cases es) auto
  have "tidy_source e = e" using assms(2) e by simp
  moreover have "repo_rootDirectory e \<noteq> Some []"
  proof
    assume "repo_rootDirectory e = Some []"
    then have "repo_rootDirectory (tidy_source e) \<noteq> Some []"
      by (simp add: tidy_source_def normalizeRootDirectory_def Let_def)
    then show False using \<open>tidy_source e = e\<close> \<open>repo_rootDirectory e = Some []\<close> by simp
  qed
  ultimately have none: "repo_rootDirectory e = None" using True e by (cases "repo_rootDirectory e") (auto simp: falsy_def)
  have "normalizeRootDirectory JNull = None"
    by (simp add: normalizeRootDirectory_def nullish_def Let_def)
  then have "source_entries (JStr (repo_url e)) (jopt (repo_rootDirectory e)) = [e]"
    using none by (simp add: source_entries_def)
  then show ?thesis
    using assms(2) [of e] assms(3) [OF e none] True filter_tidy [of "[e]"] e none
    by (simp add: serializeSourceRepositories_def parse_source_def normalizeSourceRepositories_def Let_def)
next
  case False
  have "JSON_parse (the (stringify (JArr (map source_json es)))) = Some (JArr (map source_json es))"
    using stringify_wire [OF storable_wire [OF storable_sources]] JSON_parse_text [OF storable_sources]
    by (simp del: stringify.simps text_of.simps)
  moreover have "map source_entry (map source_json es) = es"
    using assms(2) source_entry_json by (simp add: map_idI)
  ultimately show ?thesis
    using assms(1,2) False filter_tidy [of es]
    by (auto simp: serializeSourceRepositories_def parse_source_def normalizeSourceRepositories_def
        source_entries_def Let_def simp del: stringify.simps)
qed

lemma stored_sources_survive_witness:
  "normalizeSourceRepositories (parse_source (JStr (serializeSourceRepositories
      [\<lparr>repo_url = ''https://git/a'', repo_rootDirectory = Some ''web''\<rparr>])))
    (jopt (Some ''web'')) = Inr [\<lparr>repo_url = ''https://git/a'', repo_rootDirectory = Some ''web''\<rparr>]"
proof -
  let ?e = "\<lparr>repo_url = ''https://git/a'', repo_rootDirectory = Some ''web''\<rparr>"
  have "tidy_source ?e = ?e" by code_simp
  then show ?thesis using stored_sources_survive [of "[?e]"] by simp
qed

section \<open>Ports\<close>

lemma read_port_range: "read_port v = Some n \<Longrightarrow> 1 \<le> n \<and> n \<le> 65535"
  by (auto simp: read_port_def split: option.splits if_splits)

lemma port_entry_range:
  "port_entry a b v = Some m \<Longrightarrow>
   1 \<le> hostPort m \<and> hostPort m \<le> 65535 \<and> 1 \<le> containerPort m \<and> containerPort m \<le> 65535"
  by (auto simp: port_entry_def dest!: read_port_range split: option.splits if_splits)

lemma check_ports_Inr:
  "check_ports ms hs cs = Inr u \<longleftrightarrow>
     distinct (map hostPort ms) \<and> distinct (map containerPort ms)
     \<and> set (map hostPort ms) \<inter> set hs = {} \<and> set (map containerPort ms) \<inter> set cs = {}"
  by (induction ms hs cs rule: check_ports.induct) auto

text \<open>port mappings that are accepted are usable. There is at least one, no host port and no container
  port is used twice, and every port is between 1 and 65535, unless the single mapping is the
  fallback of the request or the row, which is not checked.\<close>

theorem accepted_ports:
  assumes "normalizePortMappings input fallbackHost fallbackContainer = Inr ms"
  shows "ms \<noteq> [] \<and> distinct (map hostPort ms) \<and> distinct (map containerPort ms)
    \<and> ((\<forall>m\<in>set ms. hostPort m \<in> {1..65535} \<and> containerPort m \<in> {1..65535})
      \<or> (\<exists>hp cp. fallbackHost = Some hp \<and> fallbackContainer = Some cp
           \<and> ms = [\<lparr>hostPort = hp, containerPort = cp\<rparr>]))"
proof -
  let ?read = "List.map_filter (port_entry ''serviceHostPort'' ''serviceContainerPort'') (array_items input)"
  have "\<forall>m\<in>set ?read. hostPort m \<in> {1..65535} \<and> containerPort m \<in> {1..65535}"
    using port_entry_range by (fastforce simp: List.map_filter_def)
  then show ?thesis
    using assms
    by (auto simp: normalizePortMappings_def Let_def check_ports_Inr split: if_splits sum.splits list.splits option.splits)
qed

lemma accepted_ports_witness:
  "[\<lparr>hostPort = 8080, containerPort = 80\<rparr>] \<noteq> [] \<and> hostPort \<lparr>hostPort = 8080, containerPort = 80\<rparr> \<in> {1..65535}"
proof -
  have "normalizePortMappings (JArr [JObj [(''hostPort'', JNum 8080), (''containerPort'', JStr ''80'')]]) None None
      = Inr [\<lparr>hostPort = 8080, containerPort = 80\<rparr>]" by code_simp
  from accepted_ports [OF this] show ?thesis by simp
qed

section \<open>Ownership\<close>

lemma owned_service_SomeD:
  "owned_service owner i h = Some s \<Longrightarrow> s \<in> set (services h) \<and> service_index s = i
   \<and> service_deleted_at s = None
   \<and> (\<exists>w\<in>set (workspaces h). workspace_index w = service_parent_workspace s \<and> owns_workspace owner w)"
  by (auto simp: owned_service_def list_ex_iff dest!: find_SomeD)

lemma find_owned_Inr:
  "findOwnedServiceAndAgent owner idx h = (Inr (s, a), h') \<longleftrightarrow>
     (\<exists>i. parseServiceIndex idx = Inr i \<and> owned_service owner i h = Some s \<and> a = service_agent s h \<and> h' = h)"
  by (auto simp: findOwnedServiceAndAgent_def split: sum.split option.split)

lemma find_owned_frame: "findOwnedServiceAndAgent owner idx h = (r, h') \<Longrightarrow> h' = h"
  by (auto simp: findOwnedServiceAndAgent_def throw_def give_def split: sum.splits option.splits)

text \<open>The conditions under which a user owns a service that is not deleted.\<close>

definition owns_service :: "nat \<Rightarrow> nat \<Rightarrow> hub \<Rightarrow> bool" where
  "owns_service owner i h \<longleftrightarrow>
     (\<exists>s\<in>set (services h). service_index s = i \<and> service_deleted_at s = None
        \<and> (\<exists>w\<in>set (workspaces h). workspace_index w = service_parent_workspace s \<and> owns_workspace owner w))"

lemma owned_service_None: "\<not> owns_service owner i h \<Longrightarrow> owned_service owner i h = None"
  using owned_service_SomeD [of owner i h] unfolding owns_service_def
  by (cases "owned_service owner i h") blast+

lemma find_not_owned:
  "parseServiceIndex idx = Inr i \<Longrightarrow> \<not> owns_service owner i h \<Longrightarrow>
   findOwnedServiceAndAgent owner idx h = (Inl (NotFound ''Service Not Found.''), h)"
  by (simp add: findOwnedServiceAndAgent_def owned_service_None throw_def)

text \<open>C19: nobody reaches the services of another user. For a service index that is not a live service in a
  live workspace of the caller, every operation answers that there is no such service and changes
  nothing: no row, no cache, no command to an agent.\<close>

theorem services_of_others_untouched:
  assumes "parseServiceIndex idx = Inr i" and "\<not> owns_service owner i h"
  shows "handleDeleteService cfg owner idx scope h = (Inl (NotFound ''Service Not Found.''), h)
    \<and> handleRedeployService cfg owner idx body h = (Inl (NotFound ''Service Not Found.''), h)
    \<and> handleStartService cfg owner idx h = (Inl (NotFound ''Service Not Found.''), h)
    \<and> handleStopService cfg owner idx h = (Inl (NotFound ''Service Not Found.''), h)
    \<and> handleStartContainer cfg owner idx c h = (Inl (NotFound ''Service Not Found.''), h)
    \<and> handleStopContainer cfg owner idx c h = (Inl (NotFound ''Service Not Found.''), h)
    \<and> handleRestartContainer cfg owner idx c h = (Inl (NotFound ''Service Not Found.''), h)
    \<and> handleBlockServiceTraffic owner idx options h = (Inl (NotFound ''Service Not Found.''), h)
    \<and> handleUnblockServiceTraffic owner idx h = (Inl (NotFound ''Service Not Found.''), h)
    \<and> handleUpdateServiceSubdomain owner idx sub h = (Inl (NotFound ''Service Not Found.''), h)
    \<and> handleUpdateServiceEndpoints owner idx eps h = (Inl (NotFound ''Service Not Found.''), h)"
  using find_not_owned [OF assms]
  by (simp_all add: handleDeleteService_def handleRedeployService_def handleStartService_def
      handleStopService_def handleStartContainer_def handleStopContainer_def handleRestartContainer_def
      handleBlockServiceTraffic_def handleUnblockServiceTraffic_def handleUpdateServiceSubdomain_def
      handleUpdateServiceEndpoints_def control_service_def)

lemma services_of_others_untouched_witness:
  "handleStopService example_config 8 ''1'' published_hub = (Inl (NotFound ''Service Not Found.''), published_hub)"
proof -
  have "parseServiceIndex ''1'' = Inr 1" by code_simp
  moreover have "\<not> owns_service 8 1 published_hub"
    unfolding owns_service_def by code_simp
  ultimately show ?thesis using services_of_others_untouched by blast
qed

section \<open>Blocking\<close>

lemma service_of_cong: "services h = services h' \<Longrightarrow> service_of h = service_of h'"
  by (simp add: service_of_def fun_eq_iff)

lemma set_service_frame [simp]:
  "workspaces (set_service i f h) = workspaces h" "agents (set_service i f h) = agents h"
  "service_endpoints (set_service i f h) = service_endpoints h" "clock (set_service i f h) = clock h"
  "next_endpoint (set_service i f h) = next_endpoint h" "routeCache (set_service i f h) = routeCache h"
  "services (set_service i f h) = update_rows (\<lambda>s. service_index s = i) f (services h)"
  by (simp_all add: set_service_def)

lemma invalidate_frame [simp]:
  "routeCache (invalidateRouteCache h) = []" "services (invalidateRouteCache h) = services h"
  "workspaces (invalidateRouteCache h) = workspaces h" "clock (invalidateRouteCache h) = clock h"
  "service_endpoints (invalidateRouteCache h) = service_endpoints h"
  "agents (invalidateRouteCache h) = agents h" "next_endpoint (invalidateRouteCache h) = next_endpoint h"
  by (simp_all add: invalidateRouteCache_def)

lemma block_Inr:
  assumes "handleBlockServiceTraffic owner idx options h = (Inr v, h')"
  obtains s where "owned_service owner (bv_serviceIndex v) h = Some s"
    and "h' = notifyWorkspaceUpdated (Some (service_parent_workspace s)) (invalidateRouteCache
      (set_service (bv_serviceIndex v) (blocked_row options (service_traffic_blocked_at s) (clock h)) h))"
    and "v = toTrafficBlockView (blocked_row options (service_traffic_blocked_at s) (clock h) s)"
  using assms
  by (auto simp: handleBlockServiceTraffic_def andThen_Inr find_owned_Inr change_traffic_def Let_def
      toTrafficBlockView_def blocked_row_def split: if_splits dest: owned_service_SomeD)

text \<open>C21: a block takes effect at once. Whatever the route cache held, from the moment the block of a service
  is confirmed every request for one of its addresses is refused as blocked or, in hidden mode, as
  unknown; nothing is sent to its agent.\<close>

theorem block_takes_effect:
  assumes "handleBlockServiceTraffic owner idx options h = (Inr v, h')"
    and "find (\<lambda>w. workspace_subdomain w = Some ws \<and> workspace_subdomain_active w) (workspaces h') = Some w"
    and "route_endpoint h' (workspace_index w) (normalizeSubdomainPath sub) = Some e"
    and "endpoint_parent_service e = bv_serviceIndex v"
  shows "sendProxyInfo cfg sub ws tok rid pooled h' =
    (Inl (if bv_trafficBlockMode v = Hidden then TunnelError 404 SERVICE_NOT_FOUND ''Service not found''
          else TunnelError 503 SERVICE_BLOCKED ''Service traffic is blocked''), h')"
proof -
  obtain s where h': "h' = notifyWorkspaceUpdated (Some (service_parent_workspace s)) (invalidateRouteCache
      (set_service (bv_serviceIndex v) (blocked_row options (service_traffic_blocked_at s) (clock h)) h))"
    and v: "v = toTrafficBlockView (blocked_row options (service_traffic_blocked_at s) (clock h) s)"
    by (rule block_Inr [OF assms(1)])
  have "service_of h' e \<noteq> None"
    using assms(3) by (auto simp: route_endpoint_def dest!: find_SomeD split: option.splits)
  then obtain t where t: "service_of h' e = Some t" by blast
  then have "t \<in> set (services h')" "service_index t = bv_serviceIndex v"
    using assms(4) by (auto simp: service_of_def dest!: find_SomeD)
  then obtain r where "t = blocked_row options (service_traffic_blocked_at s) (clock h) r"
    by (auto simp: h' in_update_rows blocked_row_def split: if_splits)
  then have "service_traffic_blocked_at t \<noteq> None" "service_traffic_block_mode t = bv_trafficBlockMode v"
    by (simp_all add: v blocked_row_def toTrafficBlockView_def split: option.splits)
  moreover have "routeCache h' = []" by (simp add: h')
  ultimately show ?thesis
    using assms(2,3) t by (simp add: sendProxyInfo_def Let_def map_get_def live_entry_def)
qed

lemma block_takes_effect_witness:
  "let h' = snd (handleBlockServiceTraffic 7 ''1'' \<lparr>bo_mode = None, bo_reason = None\<rparr> published_hub)
   in sendProxyInfo example_config ''www'' ''acme'' ''tok'' ''rid'' False h' =
      (Inl (TunnelError 503 SERVICE_BLOCKED ''Service traffic is blocked''), h')"
proof -
  let ?op = "handleBlockServiceTraffic 7 ''1'' \<lparr>bo_mode = None, bo_reason = None\<rparr> published_hub"
  let ?v = "\<lparr>bv_serviceIndex = 1, bv_trafficBlockedAt = Some 1000, bv_trafficBlockMode = Notice, bv_trafficBlockReason = None\<rparr>"
  have "fst ?op = Inr ?v" by code_simp
  then have op: "?op = (Inr ?v, snd ?op)" by (cases ?op) simp
  have "find (\<lambda>w. workspace_subdomain w = Some ''acme'' \<and> workspace_subdomain_active w) (workspaces (snd ?op))
      = Some example_workspace"
    "route_endpoint (snd ?op) (workspace_index example_workspace) (normalizeSubdomainPath ''www'') = Some example_endpoint"
    "endpoint_parent_service example_endpoint = bv_serviceIndex ?v"
    by code_simp+
  from block_takes_effect [OF op this] show ?thesis by (simp add: Let_def)
qed

section \<open>Published addresses\<close>

text \<open>
  \<open>addresses_ok h\<close>: the indices of services and endpoints are distinct and below the next ones, an
  endpoint belongs to the workspace of its service, and no address of a workspace is published by
  two services.
\<close>

definition published :: "endpoints_row \<Rightarrow> bool" where
  "published e \<longleftrightarrow> endpoint_deleted_at e = None \<and> endpoint_subdomain e \<noteq> None"

definition separate :: "endpoints_row list \<Rightarrow> bool" where
  "separate es \<longleftrightarrow>
     (\<forall>e\<in>set es. \<forall>f\<in>set es. published e \<longrightarrow> published f
        \<longrightarrow> endpoint_parent_workspace e = endpoint_parent_workspace f
        \<longrightarrow> endpoint_subdomain e = endpoint_subdomain f
        \<longrightarrow> endpoint_parent_service e = endpoint_parent_service f)"

definition service_homes :: "hub \<Rightarrow> (nat \<times> nat) list" where
  "service_homes h = map (\<lambda>s. (service_index s, service_parent_workspace s)) (services h)"

definition at_home :: "hub \<Rightarrow> endpoints_row \<Rightarrow> bool" where
  "at_home h e \<longleftrightarrow> endpoint_parent_service e < next_service h
     \<and> (\<forall>w. (endpoint_parent_service e, w) \<in> set (service_homes h) \<longrightarrow> w = endpoint_parent_workspace e)"

definition addresses_ok :: "hub \<Rightarrow> bool" where
  "addresses_ok h \<longleftrightarrow>
     distinct (map endpoint_index (service_endpoints h))
     \<and> (\<forall>e\<in>set (service_endpoints h). endpoint_index e < next_endpoint h)
     \<and> distinct (map fst (service_homes h)) \<and> (\<forall>i\<in>fst ` set (service_homes h). i < next_service h)
     \<and> (\<forall>e\<in>set (service_endpoints h). at_home h e)
     \<and> separate (service_endpoints h)"

lemma addresses_ok_cong:
  "service_endpoints h' = service_endpoints h \<Longrightarrow> next_endpoint h' = next_endpoint h \<Longrightarrow>
   next_service h' = next_service h \<Longrightarrow> service_homes h' = service_homes h \<Longrightarrow>
   addresses_ok h' = addresses_ok h"
  by (simp add: addresses_ok_def at_home_def)

lemma separateD:
  "separate es \<Longrightarrow> e \<in> set es \<Longrightarrow> f \<in> set es \<Longrightarrow> published e \<Longrightarrow> published f \<Longrightarrow>
   endpoint_parent_workspace e = endpoint_parent_workspace f \<Longrightarrow>
   endpoint_subdomain e = endpoint_subdomain f \<Longrightarrow> endpoint_parent_service e = endpoint_parent_service f"
  unfolding separate_def by blast

lemma separate_subset: "separate es \<Longrightarrow> set fs \<subseteq> set es \<Longrightarrow> separate fs"
  unfolding separate_def by blast

text \<open>Rows of one service join the others when none of their addresses is taken.\<close>

lemma separate_append:
  assumes "separate es" and "\<And>f. f \<in> set fs \<Longrightarrow> endpoint_parent_service f = i"
    and "\<And>e f. e \<in> set es \<Longrightarrow> f \<in> set fs \<Longrightarrow> published e \<Longrightarrow> published f
       \<Longrightarrow> endpoint_parent_workspace e = endpoint_parent_workspace f
       \<Longrightarrow> endpoint_subdomain e = endpoint_subdomain f \<Longrightarrow> endpoint_parent_service e = i"
  shows "separate (es @ fs)"
  unfolding separate_def
proof (intro ballI impI)
  fix e f
  assume e: "e \<in> set (es @ fs)" "published e" and f: "f \<in> set (es @ fs)" "published f"
    and w: "endpoint_parent_workspace e = endpoint_parent_workspace f"
    and d: "endpoint_subdomain e = endpoint_subdomain f"
  consider "e \<in> set es" "f \<in> set es" | "e \<in> set es" "f \<in> set fs" | "e \<in> set fs" "f \<in> set es"
    | "e \<in> set fs" "f \<in> set fs" using e(1) f(1) by auto
  then show "endpoint_parent_service e = endpoint_parent_service f"
  proof cases
    case 1
    with assms(1) e(2) f(2) w d show ?thesis unfolding separate_def by blast
  next
    case 2
    with assms(2) [of f] assms(3) [of e f] e(2) f(2) w d show ?thesis by simp
  next
    case 3
    with assms(2) [of e] assms(3) [of f e] e(2) f(2) w d show ?thesis by simp
  next
    case 4
    with assms(2) show ?thesis by simp
  qed
qed

definition endpoint_batch :: "nat \<Rightarrow> nat \<Rightarrow> service_endpoint list \<Rightarrow> nat \<Rightarrow> endpoints_row list" where
  "endpoint_batch i ws eps n =
     map (\<lambda>(k, ep). new_endpoint k ws i ep) (zip [n..<n + length eps] eps)"

lemma endpoint_batch_index: "map endpoint_index (endpoint_batch i ws eps n) = [n..<n + length eps]"
  by (simp add: endpoint_batch_def new_endpoint_def comp_def case_prod_beta)

lemma in_endpoint_batch:
  "f \<in> set (endpoint_batch i ws eps n) \<Longrightarrow>
   endpoint_parent_service f = i \<and> endpoint_parent_workspace f = ws
   \<and> (\<forall>d. endpoint_subdomain f = Some d \<longrightarrow> d \<in> set (endpoint_subdomains eps))"
  by (force simp: endpoint_batch_def new_endpoint_def endpoint_subdomains_def List.map_filter_def
      dest: set_zip_rightD)

lemma add_endpoints_frame:
  "service_endpoints (add_endpoints i ws eps h) = service_endpoints h @ endpoint_batch i ws eps (next_endpoint h)"
  "next_endpoint (add_endpoints i ws eps h) = next_endpoint h + length eps"
  "next_service (add_endpoints i ws eps h) = next_service h"
  "service_homes (add_endpoints i ws eps h) = service_homes h"
  by (simp_all add: add_endpoints_def endpoint_batch_def service_homes_def)

lemma addresses_ok_add:
  assumes "addresses_ok h" and home: "(i, ws) \<in> set (service_homes h)"
    and free: "endpoint_subdomains eps \<noteq> [] \<Longrightarrow> \<not> subdomain_taken i ws (endpoint_subdomains eps) h"
  shows "addresses_ok (add_endpoints i ws eps h)"
proof -
  let ?new = "endpoint_batch i ws eps (next_endpoint h)"
  have idx: "endpoint_index f \<in> {next_endpoint h..<next_endpoint h + length eps}" if "f \<in> set ?new" for f
    using that endpoint_batch_index [of i ws eps "next_endpoint h"]
    by (metis imageI set_map set_upt)
  have "separate (service_endpoints h @ ?new)"
  proof (rule separate_append [where i = i])
    fix e f
    assume e: "e \<in> set (service_endpoints h)" "published e" and f: "f \<in> set ?new" "published f"
      and w: "endpoint_parent_workspace e = endpoint_parent_workspace f"
      and d: "endpoint_subdomain e = endpoint_subdomain f"
    obtain x where x: "endpoint_subdomain f = Some x" using f(2) by (auto simp: published_def)
    then have "x \<in> set (endpoint_subdomains eps)" using in_endpoint_batch [OF f(1)] by blast
    then show "endpoint_parent_service e = i"
      using free e w d x in_endpoint_batch [OF f(1)]
      by (force simp: subdomain_taken_def list_ex_iff published_def)
  qed (use assms(1) in_endpoint_batch in \<open>auto simp: addresses_ok_def\<close>)
  moreover have "distinct (map endpoint_index (service_endpoints h @ ?new))"
    using assms(1) idx endpoint_batch_index [of i ws eps "next_endpoint h"]
    by (fastforce simp: addresses_ok_def)
  moreover have "at_home h e" if "e \<in> set ?new" for e
  proof -
    have d: "distinct (map fst (service_homes h))" and "\<forall>i\<in>fst ` set (service_homes h). i < next_service h"
      using assms(1) unfolding addresses_ok_def by blast+
    then have "i < next_service h" using home by (metis fst_conv imageI)
    moreover have "w = ws" if "(i, w) \<in> set (service_homes h)" for w
      using eq_key_imp_eq_value [OF d home that] by simp
    ultimately show ?thesis using in_endpoint_batch [OF that] unfolding at_home_def by blast
  qed
  ultimately show ?thesis
    using assms(1) idx by (force simp: addresses_ok_def add_endpoints_frame at_home_def)
qed

lemma addresses_ok_replace:
  assumes "addresses_ok h" and "(i, ws) \<in> set (service_homes h)"
  shows "addresses_ok (snd (replaceServiceEndpoints i ws eps h))"
proof (cases "distinct (endpoint_subdomains eps)
    \<and> \<not> (endpoint_subdomains eps \<noteq> [] \<and> subdomain_taken i ws (endpoint_subdomains eps) h)")
  case True
  let ?h = "h\<lparr>service_endpoints := filter (\<lambda>e. endpoint_parent_service e \<noteq> i) (service_endpoints h)\<rparr>"
  have "addresses_ok ?h"
    using assms separate_subset [of "service_endpoints h" "service_endpoints ?h"]
    by (auto simp: addresses_ok_def at_home_def service_homes_def distinct_map_filter)
  moreover have "(i, ws) \<in> set (service_homes ?h)" using assms(2) by (simp add: service_homes_def)
  moreover have "\<not> subdomain_taken i ws ds ?h" if "\<not> subdomain_taken i ws ds h" for ds
    using that by (auto simp: subdomain_taken_def list_ex_iff)
  ultimately have "addresses_ok (add_endpoints i ws eps ?h)"
    using True by (intro addresses_ok_add) auto
  with True show ?thesis by (auto simp: replaceServiceEndpoints_def Let_def)
next
  case False
  with assms show ?thesis by (auto simp: replaceServiceEndpoints_def Let_def)
qed

named_theorems address_simps \<open>operations that leave the endpoint rows alone\<close>

lemma service_homes_set:
  "(\<And>s. service_index (f s) = service_index s \<and> service_parent_workspace (f s) = service_parent_workspace s) \<Longrightarrow>
   service_homes (set_service i f h) = service_homes h"
  by (simp add: service_homes_def update_rows_def comp_def if_distrib cong: if_cong)

lemma addresses_ok_set [address_simps]:
  "(\<And>s. service_index (f s) = service_index s \<and> service_parent_workspace (f s) = service_parent_workspace s) \<Longrightarrow>
   addresses_ok (set_service i f h) = addresses_ok h"
  by (rule addresses_ok_cong) (simp_all add: service_homes_set, simp add: set_service_def)

lemma homes_cong: "services h' = services h \<Longrightarrow> service_homes h' = service_homes h"
  by (simp add: service_homes_def)

lemma addresses_ok_quiet [address_simps]:
  "addresses_ok (notifyWorkspaceUpdated w h) = addresses_ok h"
  "addresses_ok (invalidateRouteCache h) = addresses_ok h"
  "addresses_ok (snd (sendToAgent cfg u e p h)) = addresses_ok h"
  "addresses_ok (ensureDefaultComponent i n d h) = addresses_ok h"
proof -
  show "addresses_ok (notifyWorkspaceUpdated w h) = addresses_ok h"
    by (rule addresses_ok_cong; simp add: service_homes_def notifyWorkspaceUpdated_def notifyAgentUpdated_def
        emitToWorkspace_def emit_def split: option.split)
  show "addresses_ok (invalidateRouteCache h) = addresses_ok h"
    by (rule addresses_ok_cong; simp add: service_homes_def invalidateRouteCache_def)
  show "addresses_ok (snd (sendToAgent cfg u e p h)) = addresses_ok h"
    using sendToAgent_cases [of cfg u e p h] by (intro addresses_ok_cong) (auto simp: service_homes_def)
  show "addresses_ok (ensureDefaultComponent i n d h) = addresses_ok h"
    by (rule addresses_ok_cong; simp add: service_homes_def ensureDefaultComponent_def Let_def)
qed

lemma addresses_ok_new:
  assumes "addresses_ok h"
  shows "addresses_ok (snd (new_service b rs ms h))"
proof -
  have homes: "service_homes (snd (new_service b rs ms h)) = service_homes h @ [(next_service h, cb_workspaceIdx b)]"
    by (simp add: new_service_def service_homes_def Let_def)
  show ?thesis
    using assms unfolding addresses_ok_def at_home_def homes
    by (fastforce simp: new_service_def Let_def)
qed

lemma row_keeps [simp]:
  "service_index (blocked_row options t now s) = service_index s"
  "service_parent_workspace (blocked_row options t now s) = service_parent_workspace s"
  "service_index (redeployed_row body rs ms env target s) = service_index s"
  "service_parent_workspace (redeployed_row body rs ms env target s) = service_parent_workspace s"
  by (simp_all add: blocked_row_def redeployed_row_def Let_def)

lemma homes_component [simp]: "service_homes (ensureDefaultComponent i n d h) = service_homes h"
  by (simp add: service_homes_def ensureDefaultComponent_def Let_def)

lemma in_homes: "s \<in> set (services h) \<Longrightarrow> (service_index s, service_parent_workspace s) \<in> set (service_homes h)"
  by (auto simp: service_homes_def)

lemma new_service_home:
  "(service_index (fst (new_service b rs ms h)), cb_workspaceIdx b) \<in> set (service_homes (snd (new_service b rs ms h)))"
  by (simp add: new_service_def service_homes_def Let_def)

lemma addresses_ok_command [address_simps]:
  "addresses_ok (snd (command_or_fail ok s h)) = addresses_ok h"
  "addresses_ok (snd (ensureCommandSent ok h)) = addresses_ok h"
  by (simp_all add: command_or_fail_def ensureCommandSent_def address_simps)

lemma addresses_ok_find [address_simps]:
  "addresses_ok (snd (findOwnedServiceAndAgent owner idx h)) = addresses_ok h"
  using find_owned_frame [of owner idx h] by (metis prod.collapse)

lemma andThen_addresses:
  assumes "addresses_ok (snd m)" and "\<And>x s. m = (Inr x, s) \<Longrightarrow> addresses_ok s \<Longrightarrow> addresses_ok (snd (f x s))"
  shows "addresses_ok (snd (andThen m f))"
  using assms by (cases m) (auto simp: andThen_def split: sum.split)

lemma sendToAgent_pair: "sendToAgent cfg u e p h = (ok, h1) \<Longrightarrow> addresses_ok h1 = addresses_ok h"
  by (metis address_simps(4) snd_conv)

lemma addresses_ok_control:
  "addresses_ok h \<Longrightarrow> addresses_ok (snd (control_service cfg owner idx msg payload h))"
  unfolding control_service_def
  by (intro andThen_addresses)
    (auto simp: address_simps find_owned_Inr split_beta Let_def intro!: andThen_addresses
      split: option.splits)

lemmas control_defs = handleStartService_def handleStopService_def handleStartContainer_def
  handleStopContainer_def handleRestartContainer_def

lemma addresses_ok_commands:
  assumes "addresses_ok h"
  shows "addresses_ok (snd (handleStartService cfg owner idx h))"
    and "addresses_ok (snd (handleStopService cfg owner idx h))"
    and "addresses_ok (snd (handleStartContainer cfg owner idx c h))"
    and "addresses_ok (snd (handleStopContainer cfg owner idx c h))"
    and "addresses_ok (snd (handleRestartContainer cfg owner idx c h))"
  unfolding control_defs
  by (auto intro!: andThen_addresses addresses_ok_control [OF assms] simp: address_simps)

lemma addresses_ok_delete:
  "addresses_ok h \<Longrightarrow> addresses_ok (snd (handleDeleteService cfg owner idx scope h))"
  unfolding handleDeleteService_def
  by (intro andThen_addresses)
    (auto simp: address_simps find_owned_Inr split_beta Let_def intro!: andThen_addresses
      split: option.splits)

lemma addresses_ok_traffic:
  "addresses_ok h \<Longrightarrow> addresses_ok (snd (handleBlockServiceTraffic owner idx options h))"
  "addresses_ok h \<Longrightarrow> addresses_ok (snd (handleUnblockServiceTraffic owner idx h))"
  unfolding handleBlockServiceTraffic_def handleUnblockServiceTraffic_def
  by (auto simp: address_simps find_owned_Inr change_traffic_def Let_def intro!: andThen_addresses)

lemma addresses_ok_endpoints:
  "addresses_ok h \<Longrightarrow> addresses_ok (snd (handleUpdateServiceEndpoints owner idx eps h))"
  unfolding handleUpdateServiceEndpoints_def
  by (intro andThen_addresses)
    (auto simp: address_simps find_owned_Inr intro!: andThen_addresses addresses_ok_replace in_homes dest: owned_service_SomeD split: sum.splits)

lemma addresses_ok_create:
  "addresses_ok h \<Longrightarrow> addresses_ok (snd (handleCreateService cfg owner body h))"
  unfolding handleCreateService_def
  by (intro andThen_addresses)
    (auto simp: address_simps split_beta Let_def check_def new_service_home intro!: andThen_addresses addresses_ok_replace addresses_ok_new)

lemma addresses_ok_leave:
  "addresses_ok h \<Longrightarrow> addresses_ok (snd (leave_old_agent cfg owner body s a h))"
  by (auto simp: leave_old_agent_def intro!: andThen_addresses addresses_ok_commands(2) split: option.split)

lemma addresses_ok_apply:
  assumes "addresses_ok h"
  shows "addresses_ok (snd (apply_redeploy cfg body s a rs ms sub h))"
proof -
  define env where "env = (if rb_env body \<noteq> JUndef then normalizeEnv (rb_env body)
      else normalizeEnv (json_column (service_env s)))"
  define h1 where "h1 = set_service (service_index s) (redeployed_row body rs ms env (agent_index a)) h"
  have h1: "addresses_ok h1" using assms by (simp add: h1_def address_simps)
  have "addresses_ok (snd (replaceServiceEndpoints (service_index t) (service_parent_workspace t) eps
      (ensureDefaultComponent i n d h1)))" if "find P (services h1) = Some t" for P t eps i n d
    using h1 that by (intro addresses_ok_replace) (auto simp: address_simps dest: find_SomeD intro: in_homes)
  then show ?thesis
    unfolding apply_redeploy_def Let_def env_def [symmetric] h1_def [symmetric]
    using assms h1 by (auto simp: address_simps split_beta intro!: andThen_addresses split: option.split sum.split)
qed

lemma addresses_ok_redeploy:
  "addresses_ok h \<Longrightarrow> addresses_ok (snd (handleRedeployService cfg owner idx body h))"
  unfolding handleRedeployService_def
  by (intro andThen_addresses)
    (auto simp: address_simps find_owned_Inr intro!: andThen_addresses addresses_ok_leave addresses_ok_apply
      split: option.splits sum.splits)

lemma addresses_ok_rename:
  assumes ok: "addresses_ok h" and e: "e \<in> set (service_endpoints h)" "endpoint_parent_service e = i"
    and ws: "endpoint_parent_workspace e = ws" and free: "\<And>x. d = Some x \<Longrightarrow> \<not> subdomain_taken i ws [x] h"
  shows "addresses_ok (h\<lparr>service_endpoints := update_rows (\<lambda>f. endpoint_index f = endpoint_index e)
      (\<lambda>f. f\<lparr>endpoint_subdomain := d\<rparr>) (service_endpoints h)\<rparr>)"
proof -
  let ?upd = "update_rows (\<lambda>f. endpoint_index f = endpoint_index e) (\<lambda>f. f\<lparr>endpoint_subdomain := d\<rparr>)
    (service_endpoints h)"
  have sep: "separate (service_endpoints h)" using ok unfolding addresses_ok_def by blast
  have only: "f = e" if "f \<in> set (service_endpoints h)" "endpoint_index f = endpoint_index e" for f
    using ok e(1) that unfolding addresses_ok_def by (meson inj_on_def distinct_map)
  have other: "endpoint_parent_service f = i"
    if "f \<in> set (service_endpoints h)" "published f" "endpoint_parent_workspace f = ws"
      "endpoint_subdomain f = d" for f
    using that free by (force simp: published_def subdomain_taken_def list_ex_iff)
  have "separate ?upd"
    unfolding separate_def
  proof (intro ballI impI)
    fix f' g'
    assume f': "f' \<in> set ?upd" "published f'" and g': "g' \<in> set ?upd" "published g'"
      and w: "endpoint_parent_workspace f' = endpoint_parent_workspace g'"
      and s: "endpoint_subdomain f' = endpoint_subdomain g'"
    obtain f where f: "f \<in> set (service_endpoints h)"
        "f' = (if endpoint_index f = endpoint_index e then f\<lparr>endpoint_subdomain := d\<rparr> else f)"
      using f'(1) unfolding in_update_rows by blast
    obtain g where g: "g \<in> set (service_endpoints h)"
        "g' = (if endpoint_index g = endpoint_index e then g\<lparr>endpoint_subdomain := d\<rparr> else g)"
      using g'(1) unfolding in_update_rows by blast
    show "endpoint_parent_service f' = endpoint_parent_service g'"
    proof (cases "endpoint_index f = endpoint_index e")
      case fe: True
      then have F: "f = e" using only f(1) by blast
      show ?thesis
      proof (cases "endpoint_index g = endpoint_index e")
        case True
        then have "g = e" using only g(1) by blast
        then show ?thesis using g f F by simp
      next
        case False
        with g g' have "published g" "g' = g" by simp_all
        then have "endpoint_parent_service g = i" using other [OF g(1)] f F w s ws by simp
        then show ?thesis using f F e(2) \<open>g' = g\<close> by simp
      qed
    next
      case fne: False
      with f f' have F: "published f" "f' = f" by simp_all
      show ?thesis
      proof (cases "endpoint_index g = endpoint_index e")
        case True
        then have "g = e" using only g(1) by blast
        then show ?thesis using other [OF f(1) F(1)] F g w s ws e(2) by simp
      next
        case False
        then have "published g" "g' = g" using g g' by simp_all
        then show ?thesis using separateD [OF sep f(1) g(1) F(1)] F w s by simp
      qed
    qed
  qed
  moreover have "map endpoint_index ?upd = map endpoint_index (service_endpoints h)"
    by (simp add: row_simps)
  moreover have "endpoint_index f < next_endpoint h \<and> at_home h f" if "f \<in> set ?upd" for f
    using ok that by (auto simp: in_update_rows addresses_ok_def at_home_def split: if_splits)
  ultimately show ?thesis
    using ok by (simp add: addresses_ok_def at_home_def service_homes_def)
qed

lemma addresses_ok_subdomain:
  assumes "addresses_ok h"
  shows "addresses_ok (snd (handleUpdateServiceSubdomain owner idx sub h))"
  unfolding handleUpdateServiceSubdomain_def Let_def
proof (intro andThen_addresses, goal_cases)
  case 1
  then show ?case using assms by (simp add: address_simps)
next
  case (2 x h0)
  obtain s a where x: "x = (s, a)" by (cases x)
  with 2(1) have s: "x = (s, service_agent s h)" "h0 = h" "s \<in> set (services h)"
    using owned_service_SomeD by (auto simp: find_owned_Inr)
  let ?i = "service_index s" and ?ws = "service_parent_workspace s" and ?d = "normalizeServiceSubdomain sub"
  have free: "addresses_ok (set_service ?i (\<lambda>s. s\<lparr>service_subdomain := ?d\<rparr>) h1)" if "addresses_ok h1" for h1
    using that by (simp add: address_simps)
  show ?case
  proof (cases "case ?d of None \<Rightarrow> False | Some d \<Rightarrow> subdomain_taken ?i ?ws [d] h")
    case True
    then show ?thesis using assms s by (auto split: sum.split)
  next
    case False
    show ?thesis
    proof (cases "find (\<lambda>e. endpoint_parent_service e = ?i) (service_endpoints h)")
      case (Some e)
      then have e: "e \<in> set (service_endpoints h)" "endpoint_parent_service e = ?i" by (auto dest: find_SomeD)
      then have "endpoint_parent_workspace e = ?ws"
        using assms in_homes [OF s(3)] by (auto simp: addresses_ok_def at_home_def)
      then have "addresses_ok (h\<lparr>service_endpoints := update_rows (\<lambda>f. endpoint_index f = endpoint_index e)
          (\<lambda>f. f\<lparr>endpoint_subdomain := ?d\<rparr>) (service_endpoints h)\<rparr>)"
        using False by (intro addresses_ok_rename [OF assms e]) (auto split: option.splits)
      then show ?thesis using assms s False Some free by (auto split: sum.split)
    next
      case None
      have "addresses_ok (add_endpoints ?i ?ws [ep] h)" if "subdomain ep = ?d" for ep
        using False that in_homes [OF s(3)] assms
        by (intro addresses_ok_add) (auto simp: endpoint_subdomains_def List.map_filter_def split: option.splits)
      then show ?thesis using assms s False None free by (auto split: sum.split)
    qed
  qed
qed

section \<open>All requests\<close>

datatype service_request =
    CreateService create_body
  | DeleteService string "string option"
  | RedeployService string redeploy_body
  | StartService string
  | StopService string
  | StartContainer string string
  | StopContainer string string
  | RestartContainer string string
  | BlockTraffic string block_options
  | UnblockTraffic string
  | UpdateSubdomain string "string option"
  | UpdateEndpoints string jval

fun serve :: "config \<Rightarrow> nat \<Rightarrow> service_request \<Rightarrow> hub \<Rightarrow> hub" where
  "serve cfg owner (CreateService body) h = snd (handleCreateService cfg owner body h)"
| "serve cfg owner (DeleteService i scope) h = snd (handleDeleteService cfg owner i scope h)"
| "serve cfg owner (RedeployService i body) h = snd (handleRedeployService cfg owner i body h)"
| "serve cfg owner (StartService i) h = snd (handleStartService cfg owner i h)"
| "serve cfg owner (StopService i) h = snd (handleStopService cfg owner i h)"
| "serve cfg owner (StartContainer i c) h = snd (handleStartContainer cfg owner i c h)"
| "serve cfg owner (StopContainer i c) h = snd (handleStopContainer cfg owner i c h)"
| "serve cfg owner (RestartContainer i c) h = snd (handleRestartContainer cfg owner i c h)"
| "serve cfg owner (BlockTraffic i options) h = snd (handleBlockServiceTraffic owner i options h)"
| "serve cfg owner (UnblockTraffic i) h = snd (handleUnblockServiceTraffic owner i h)"
| "serve cfg owner (UpdateSubdomain i sub) h = snd (handleUpdateServiceSubdomain owner i sub h)"
| "serve cfg owner (UpdateEndpoints i eps) h = snd (handleUpdateServiceEndpoints owner i eps h)"

lemma serve_keeps_addresses: "addresses_ok h \<Longrightarrow> addresses_ok (serve cfg owner r h)"
  by (cases r)
    (simp_all add: addresses_ok_create addresses_ok_delete addresses_ok_redeploy addresses_ok_commands
      addresses_ok_traffic addresses_ok_subdomain addresses_ok_endpoints)

text \<open>
  Runs of the Hub seen from the services: requests of any users, and any steps of the other
  components, which leave alone the endpoints and which services there are.
\<close>

inductive service_run :: "config \<Rightarrow> hub \<Rightarrow> hub \<Rightarrow> bool" for cfg where
  Idle: "service_run cfg h h"
| Request: "service_run cfg h h1 \<Longrightarrow> service_run cfg h (serve cfg owner r h1)"
| Elsewhere: "service_run cfg h h1 \<Longrightarrow> service_endpoints h2 = service_endpoints h1 \<Longrightarrow>
    next_endpoint h2 = next_endpoint h1 \<Longrightarrow> next_service h2 = next_service h1 \<Longrightarrow>
    service_homes h2 = service_homes h1 \<Longrightarrow> service_run cfg h h2"

lemma service_run_addresses: "service_run cfg h h' \<Longrightarrow> addresses_ok h \<Longrightarrow> addresses_ok h'"
proof (induction rule: service_run.induct)
  case (Elsewhere h h1 h2)
  then show ?case using addresses_ok_cong [of h2 h1] by simp
qed (simp_all add: serve_keeps_addresses)

text \<open>C20: two services never publish the same address. From an empty database, whatever requests any users
  send in whatever order, no two services of a workspace have endpoints under the same subdomain,
  so an address leads to one service at most.\<close>

theorem addresses_separate:
  assumes "service_run cfg (init_hub t) h"
    and "e \<in> set (service_endpoints h)" and "f \<in> set (service_endpoints h)"
    and "endpoint_deleted_at e = None" and "endpoint_deleted_at f = None"
    and "endpoint_parent_workspace e = endpoint_parent_workspace f"
    and "endpoint_subdomain e = Some d" and "endpoint_subdomain f = Some d"
  shows "endpoint_parent_service e = endpoint_parent_service f"
proof -
  have "addresses_ok (init_hub t)"
    by (simp add: addresses_ok_def separate_def init_hub_def service_homes_def)
  with service_run_addresses [OF assms(1)] have "separate (service_endpoints h)"
    unfolding addresses_ok_def by blast
  then show ?thesis using assms(2-) unfolding separate_def published_def by (metis option.distinct(1))
qed

definition example_create :: create_body where
  "example_create = \<lparr>cb_workspaceIdx = 1, cb_serviceName = ''web'', cb_servicePort = Some 3000,
     cb_serviceContainerPort = None, cb_serviceHostPort = None, cb_servicePortMappings = JUndef,
     cb_serviceEndpoints = JArr [JObj [(''hostPort'', JNum 3000), (''containerPort'', JNum 80),
         (''subdomain'', JStr ''WWW'')],
       JObj [(''hostPort'', JNum 3001), (''containerPort'', JNum 81), (''subdomain'', JStr ''api'')]],
     cb_serviceSourceUrl = JStr ''https://git/a'', cb_serviceRootDirectory = JUndef,
     cb_serviceVersion = ''1'', cb_serviceDeployPreset = Dockerfile, cb_agentIndex = 1, cb_env = JUndef\<rparr>"

definition tenant_hub :: hub where
  "tenant_hub = (init_hub 1000)\<lparr>workspaces := workspaces owner_hub, agents := agents owner_hub\<rparr>"

lemma tenant_hub_run: "service_run example_config (init_hub 1000) tenant_hub"
  by (rule service_run.Elsewhere [OF service_run.Idle]) (simp_all add: tenant_hub_def service_homes_def)

definition twice_hub :: hub where
  "twice_hub = serve example_config 7 (UpdateSubdomain ''1'' (Some ''api''))
     (serve example_config 7 (CreateService example_create) tenant_hub)"

lemma addresses_separate_witness:
  "\<exists>e f. service_run example_config (init_hub 1000) twice_hub \<and> service_endpoints twice_hub = [e, f]
     \<and> endpoint_index e \<noteq> endpoint_index f
     \<and> endpoint_subdomain e = Some ''api'' \<and> endpoint_subdomain f = Some ''api''
     \<and> endpoint_parent_service e = endpoint_parent_service f"
proof -
  let ?e = "\<lambda>i. \<lparr>endpoint_index = i, endpoint_parent_workspace = 1, endpoint_parent_service = 1,
     endpoint_component_name = Some ''app'', endpoint_subdomain = Some ''api'',
     endpoint_host_port = 2999 + int i, endpoint_container_port = 79 + int i, endpoint_deleted_at = None\<rparr>"
  have run: "service_run example_config (init_hub 1000) twice_hub"
    unfolding twice_hub_def by (intro service_run.Request tenant_hub_run)
  have es: "service_endpoints twice_hub = [?e 1, ?e 2]" by code_simp
  have "endpoint_parent_service (?e 1) = endpoint_parent_service (?e 2)"
    by (rule addresses_separate [OF run, where d = "''api''"]) (simp_all only: es, simp_all)
  with run es show ?thesis by (intro exI [of _ "?e 1"] exI [of _ "?e 2"]) simp
qed

section \<open>What is left behind\<close>

lemma create_checks_name:
  "create_checks owner body h = Inr x \<Longrightarrow>
   list_ex (\<lambda>w. workspace_index w = cb_workspaceIdx body \<and> owns_workspace owner w) (workspaces h)
   \<and> find (\<lambda>a. agent_index a = cb_agentIndex body
             \<and> agent_parent_workspace a = Some (cb_workspaceIdx body)
             \<and> agent_connection a = Linked \<and> agent_deleted_at a = None) (agents h) \<noteq> None"
  by (auto simp: create_checks_def split: if_splits option.splits sum.splits)

text \<open>a creation that is refused for its address leaves its service behind. When one of the subdomains is
  taken the request fails with a conflict, but the service is in the database, and repeating the
  request, with any addresses, fails for the name.\<close>

theorem refused_creation_leaves_service:
  assumes "create_checks owner body h = Inr (agent, sources, ports, eps)"
    and "distinct (endpoint_subdomains eps)" and "endpoint_subdomains eps \<noteq> []"
    and "subdomain_taken (next_service h) (cb_workspaceIdx body) (endpoint_subdomains eps) h"
    and "handleCreateService cfg owner body h = (r, h')"
  shows "r = Inl (Conflict ''Endpoint Subdomain Already In Use.'')
    \<and> (\<exists>s\<in>set (services h'). service_index s = next_service h \<and> service_name s = cb_serviceName body
         \<and> service_deleted_at s = None)
    \<and> fst (handleCreateService cfg owner (body\<lparr>cb_serviceEndpoints := other\<rparr>) h')
        = Inl (Conflict ''Service Name Already Exists in This Workspace.'')"
proof -
  let ?new = "new_service body sources ports h"
  let ?h2 = "ensureDefaultComponent (service_index (fst ?new)) (service_name (fst ?new))
    (service_deploy_preset (fst ?new)) (snd ?new)"
  have eps: "service_endpoints (ensureDefaultComponent i n d (snd ?new)) = service_endpoints h" for i n d
    by (simp add: ensureDefaultComponent_def new_service_def Let_def)
  have idx: "service_index (fst ?new) = next_service h"
    by (simp add: new_service_def Let_def)
  have "replaceServiceEndpoints (service_index (fst ?new)) (cb_workspaceIdx body) eps ?h2 =
      (Inl (Conflict ''Endpoint Subdomain Already In Use.''), ?h2)"
    using assms(2-4) by (simp add: replaceServiceEndpoints_def subdomain_taken_def eps idx throw_def)
  then have "handleCreateService cfg owner body h = (Inl (Conflict ''Endpoint Subdomain Already In Use.''), ?h2)"
    using assms(1) by (simp add: handleCreateService_def Let_def split_beta)
  then have r: "r = Inl (Conflict ''Endpoint Subdomain Already In Use.'')" and h': "h' = ?h2"
    using assms(5) by simp_all
  have rows: "services h' = services h @ [fst ?new]" "workspaces h' = workspaces h" "agents h' = agents h"
    by (simp_all add: h' ensureDefaultComponent_def new_service_def Let_def)
  have new: "service_name (fst ?new) = cb_serviceName body" "service_deleted_at (fst ?new) = None"
      "service_parent_workspace (fst ?new) = cb_workspaceIdx body" "service_status (fst ?new) = Waiting"
    by (simp_all add: new_service_def Let_def)
  have "create_checks owner (body\<lparr>cb_serviceEndpoints := other\<rparr>) h'
      = Inl (Conflict ''Service Name Already Exists in This Workspace.'')"
    using create_checks_name [OF assms(1)]
    by (auto simp: create_checks_def rows new name_in_use_def split: option.split)
  then show ?thesis using r rows new idx by (simp add: handleCreateService_def)
qed

definition taken_hub :: hub where
  "taken_hub = (serve example_config 7 (CreateService example_create) tenant_hub)"

lemma refused_creation_leaves_service_witness:
  "fst (handleCreateService example_config 7 (example_create\<lparr>cb_serviceName := ''two''\<rparr>) taken_hub)
    = Inl (Conflict ''Endpoint Subdomain Already In Use.'')"
proof -
  let ?body = "example_create\<lparr>cb_serviceName := ''two''\<rparr>"
  let ?eps = "[\<lparr>hostPort = 3000, containerPort = 80, componentName = ''app'', subdomain = Some ''www''\<rparr>,
     \<lparr>hostPort = 3001, containerPort = 81, componentName = ''app'', subdomain = Some ''api''\<rparr>]"
  have "create_checks 7 ?body taken_hub = Inr (example_agent,
      [\<lparr>repo_url = ''https://git/a'', repo_rootDirectory = None\<rparr>], [\<lparr>hostPort = 3000, containerPort = 3000\<rparr>], ?eps)"
    by code_simp
  moreover have "distinct (endpoint_subdomains ?eps)" "endpoint_subdomains ?eps \<noteq> []"
    "subdomain_taken (next_service taken_hub) (cb_workspaceIdx ?body) (endpoint_subdomains ?eps) taken_hub"
    by code_simp+
  ultimately show ?thesis using refused_creation_leaves_service [OF _ _ _ _ prod.collapse [symmetric]] by blast
qed

lemma delete_Inr:
  assumes "handleDeleteService cfg owner idx scope h = (Inr (i, sc), h')"
  obtains s :: services_row and h1 where "service_index s = i" and "services h1 = services h" and "service_endpoints h1 = service_endpoints h"
    and "h' = notifyWorkspaceUpdated (Some (service_parent_workspace s)) (set_service i
       (\<lambda>s. s\<lparr>service_status := Removed,
         service_deleted_at := (if sc = ''service'' then Some (clock h1) else None)\<rparr>) h1)"
    and "sc = (if scope = Some ''service'' then ''service'' else ''containers'')"
proof -
  obtain s a where f: "findOwnedServiceAndAgent owner idx h = (Inr (s, a), h)"
    using assms find_owned_frame by (fastforce simp: handleDeleteService_def andThen_Inr)
  let ?send = "\<lambda>b. sendToAgent cfg (agent_uuid b) ''command''
      (JObj [(''command'', JStr ''DELETE''), (''serviceIndex'', jnat (service_index s)),
        (''serviceName'', JStr (service_name s)),
        (''deployPreset'', JStr (preset_name (service_deploy_preset s))),
        (''deleteScope'', JStr (if scope = Some ''service'' then ''service'' else ''containers''))]) h"
  obtain b where "a = Some b" and "fst (?send b)"
    using assms f by (auto simp: handleDeleteService_def Let_def split_beta ensureCommandSent_def
        split: option.splits if_splits)
  then show thesis
    using assms f by (intro that [of s "snd (?send b)"])
      (auto simp: handleDeleteService_def Let_def split_beta ensureCommandSent_def)
qed

text \<open>the address of a deleted service stays taken. After a service is deleted for good its endpoints are
  still in the database, so no other service of the workspace can be given one of its subdomains.\<close>

theorem deleted_service_keeps_address:
  assumes "handleDeleteService cfg owner idx (Some ''service'') h = (Inr (i, scope), h')"
    and "e \<in> set (service_endpoints h)" and "endpoint_parent_service e = i"
    and "endpoint_deleted_at e = None" and "endpoint_subdomain e = Some d"
    and "j \<noteq> i" and "d \<in> set (endpoint_subdomains eps)" and "distinct (endpoint_subdomains eps)"
  shows "(\<forall>s\<in>set (services h'). service_index s = i \<longrightarrow> service_deleted_at s \<noteq> None)
    \<and> replaceServiceEndpoints j (endpoint_parent_workspace e) eps h'
        = (Inl (Conflict ''Endpoint Subdomain Already In Use.''), h')"
proof -
  obtain s :: services_row and h1 where h1: "services h1 = services h" "service_endpoints h1 = service_endpoints h"
    and e: "h' = notifyWorkspaceUpdated (Some (service_parent_workspace s)) (set_service i
       (\<lambda>s. s\<lparr>service_status := Removed,
         service_deleted_at := (if scope = ''service'' then Some (clock h1) else None)\<rparr>) h1)"
    and sc: "scope = ''service''"
    by (rule delete_Inr [OF assms(1)]) simp
  have rows: "services h' = update_rows (\<lambda>s. service_index s = i)
      (\<lambda>s. s\<lparr>service_status := Removed, service_deleted_at := Some (clock h1)\<rparr>) (services h)"
    by (simp add: e sc h1)
  have gone: "service_deleted_at t \<noteq> None" if t: "t \<in> set (services h')" "service_index t = i" for t
  proof -
    from t(1) obtain r where r: "t = (if service_index r = i
        then r\<lparr>service_status := Removed, service_deleted_at := Some (clock h1)\<rparr> else r)"
      unfolding rows in_update_rows by blast
    show ?thesis using t(2) r by (cases "service_index r = i") simp_all
  qed
  have h': "service_endpoints h' = service_endpoints h" by (simp add: e h1)
  have "subdomain_taken j (endpoint_parent_workspace e) (endpoint_subdomains eps) h'"
    using assms(2-7) by (auto simp: subdomain_taken_def list_ex_iff h' intro!: bexI [of _ e])
  moreover have "endpoint_subdomains eps \<noteq> []" using assms(7) by auto
  ultimately show ?thesis using assms(8) gone by (simp add: replaceServiceEndpoints_def throw_def)
qed

lemma deleted_service_keeps_address_witness:
  "let h' = snd (handleDeleteService example_config 7 ''1'' (Some ''service'') published_hub)
   in replaceServiceEndpoints 2 1 [\<lparr>hostPort = 80, containerPort = 80, componentName = ''app'',
        subdomain = Some ''www''\<rparr>] h' = (Inl (Conflict ''Endpoint Subdomain Already In Use.''), h')"
proof -
  let ?op = "handleDeleteService example_config 7 ''1'' (Some ''service'') published_hub"
  let ?eps = "[\<lparr>hostPort = 80, containerPort = 80, componentName = ''app'', subdomain = Some ''www''\<rparr>]"
  have "fst ?op = Inr (1, ''service'')" by code_simp
  then have op: "?op = (Inr (1, ''service''), snd ?op)" by (cases ?op) simp
  have "example_endpoint \<in> set (service_endpoints published_hub)" by (simp add: published_hub_def)
  from deleted_service_keeps_address [OF op this, where d = "''www''" and j = 2 and eps = ?eps] show ?thesis
    by (simp add: example_endpoint_def endpoint_subdomains_def List.map_filter_def Let_def)
qed

end
