(* ===== verification/Workspaces.thy ===== *)
theory Workspaces
  imports AgentService Outcome
begin

text \<open>
  \<open>src/workspaces/workspace.service.ts\<close>: the workspaces of a user, their subdomains with the DNS
  records, and the connection of agents to them. The DNS provider (\<open>src/utility/cloudflare.util.ts\<close>)
  is the parameter \<open>cfg_dns_*\<close>; the calls made are recorded in \<open>dnsCalls\<close>. Times in a payload are
  milliseconds.
\<close>

section \<open>Subdomains in use\<close>

definition set_workspace :: "nat \<Rightarrow> (workspaces_row \<Rightarrow> workspaces_row) \<Rightarrow> hub \<Rightarrow> hub" where
  "set_workspace i f h = h\<lparr>workspaces := update_rows (\<lambda>w. workspace_index w = i) f (workspaces h)\<rparr>"

definition SUBDOMAIN_ACTIVE_LIMIT :: "config \<Rightarrow> int" where
  "SUBDOMAIN_ACTIVE_LIMIT cfg = cfg_int cfg ''SUBDOMAIN_ACTIVE_LIMIT''"

abbreviation active_workspace :: "workspaces_row \<Rightarrow> bool" where
  "active_workspace w \<equiv> workspace_subdomain_active w \<and> workspace_deleted_at w = None"

definition countActiveSubdomains :: "hub \<Rightarrow> nat" where
  "countActiveSubdomains h = count_rows active_workspace (workspaces h)"

definition isSubdomainTaken :: "string \<Rightarrow> nat option \<Rightarrow> hub \<Rightarrow> bool" where
  "isSubdomainTaken sub excludeWorkspaceIdx h =
     list_ex (\<lambda>w. workspace_subdomain w = Some sub \<and> active_workspace w
        \<and> (case excludeWorkspaceIdx of None \<Rightarrow> True | Some i \<Rightarrow> i = 0 \<or> workspace_index w \<noteq> i))
       (workspaces h)"

section \<open>The DNS provider\<close>

text \<open>A call that throws gives \<open>None\<close>; it is recorded all the same.\<close>

definition createDnsRecord :: "config \<Rightarrow> string \<Rightarrow> hub \<Rightarrow> string option option \<times> hub" where
  "createDnsRecord cfg sub h = (cfg_dns_create cfg sub, h\<lparr>dnsCalls := dnsCalls h @ [DnsCreate sub]\<rparr>)"

definition updateDnsRecord :: "config \<Rightarrow> string \<Rightarrow> string \<Rightarrow> hub \<Rightarrow> bool option \<times> hub" where
  "updateDnsRecord cfg sub record_id h =
     (cfg_dns_update cfg sub record_id, h\<lparr>dnsCalls := dnsCalls h @ [DnsUpdate sub record_id]\<rparr>)"

definition deleteDnsRecord :: "config \<Rightarrow> string \<Rightarrow> hub \<Rightarrow> bool option \<times> hub" where
  "deleteDnsRecord cfg record_id h =
     (cfg_dns_delete cfg record_id, h\<lparr>dnsCalls := dnsCalls h @ [DnsDelete record_id]\<rparr>)"

definition tryActivateSubdomain :: "config \<Rightarrow> string \<Rightarrow> nat option \<Rightarrow> hub \<Rightarrow> string option \<times> hub" where
  "tryActivateSubdomain cfg sub excludeWorkspaceIdx h =
     (if int (countActiveSubdomains h) \<ge> SUBDOMAIN_ACTIVE_LIMIT cfg then (None, h)
      else if isSubdomainTaken sub excludeWorkspaceIdx h then (None, h)
      else (let (answer, h1) = createDnsRecord cfg sub h
            in ((case answer of None \<Rightarrow> None | Some record_id \<Rightarrow> record_id), h1)))"

section \<open>Workspaces\<close>

text \<open>The key \<open>(workspace_owner, workspace_name)\<close> is unique, deleted rows included.\<close>

definition handleCreateWorkspace ::
  "config \<Rightarrow> nat \<Rightarrow> string option \<Rightarrow> string option \<Rightarrow> hub \<Rightarrow> (http_error + workspaces_row) \<times> hub" where
  "handleCreateWorkspace cfg owner workspaceName workspaceSubdomain h =
     (let name = (case workspaceName of
            None \<Rightarrow> ''Unnamed Workspace ''
              @ show_nat (count_rows (\<lambda>w. workspace_owner w = owner) (workspaces h) + 1)
          | Some n \<Rightarrow> n);
          (dnsRecordId, h1) = (if falsy workspaceSubdomain then (None, h)
            else tryActivateSubdomain cfg (the workspaceSubdomain) None h)
      in if list_ex (\<lambda>w. workspace_owner w = owner \<and> workspace_name w = name) (workspaces h1)
         then throw (InternalError ''Unique constraint failed.'') h1
         else
           (let raw = \<lparr>workspace_index = next_workspace h1, workspace_owner = owner,
                  workspace_name = name, workspace_subdomain = workspaceSubdomain,
                  workspace_subdomain_active = (dnsRecordId \<noteq> None),
                  workspace_dns_record_id = dnsRecordId, workspace_created_at = clock h1,
                  workspace_deleted_at = None\<rparr>
            in give raw (h1\<lparr>workspaces := workspaces h1 @ [raw],
                           next_workspace := Suc (next_workspace h1)\<rparr>)))"

definition owned_workspace :: "nat \<Rightarrow> nat \<Rightarrow> hub \<Rightarrow> workspaces_row option" where
  "owned_workspace owner workspaceIdx h =
     find (\<lambda>w. workspace_index w = workspaceIdx \<and> owns_workspace owner w) (workspaces h)"

record subdomain_view =
  wv_workspaceIndex :: nat
  wv_workspaceSubdomain :: "string option"
  wv_workspaceSubdomainActive :: bool

definition subdomain_view_of :: "workspaces_row \<Rightarrow> subdomain_view" where
  "subdomain_view_of w =
     \<lparr>wv_workspaceIndex = workspace_index w, wv_workspaceSubdomain = workspace_subdomain w,
      wv_workspaceSubdomainActive = workspace_subdomain_active w\<rparr>"

text \<open>\<open>update\<close> of the row that was found, answered with the selected columns.\<close>

definition save_workspace ::
  "workspaces_row \<Rightarrow> (workspaces_row \<Rightarrow> workspaces_row) \<Rightarrow> hub \<Rightarrow> (http_error + subdomain_view) \<times> hub" where
  "save_workspace w upd h = give (subdomain_view_of (upd w)) (set_workspace (workspace_index w) upd h)"

text \<open>Deleting a record that may be absent; the answer is not used, an exception is logged.\<close>

definition drop_record :: "config \<Rightarrow> string option \<Rightarrow> hub \<Rightarrow> hub" where
  "drop_record cfg record_id h =
     (if falsy record_id then h else snd (deleteDnsRecord cfg (the record_id) h))"

definition activate_workspace ::
  "config \<Rightarrow> workspaces_row \<Rightarrow> hub \<Rightarrow> (http_error + subdomain_view) \<times> hub" where
  "activate_workspace cfg w h =
     (let sub = the (workspace_subdomain w)
      in if int (countActiveSubdomains h) \<ge> SUBDOMAIN_ACTIVE_LIMIT cfg
         then throw (Conflict ''Active Subdomain Limit Reached.'') h
         else if isSubdomainTaken sub (Some (workspace_index w)) h
         then throw (Conflict ''Subdomain Already In Use.'') h
         else
           (let (answer, h1) = createDnsRecord cfg sub h;
                dnsRecordId = (case answer of None \<Rightarrow> None | Some record_id \<Rightarrow> record_id)
            in if falsy dnsRecordId then throw (ServiceUnavailable ''Failed to Create DNS Record.'') h1
               else save_workspace w (\<lambda>w. w\<lparr>workspace_subdomain_active := True,
                      workspace_dns_record_id := dnsRecordId\<rparr>) h1))"

definition handleToggleWorkspaceSubdomain ::
  "config \<Rightarrow> nat \<Rightarrow> nat \<Rightarrow> bool \<Rightarrow> hub \<Rightarrow> (http_error + subdomain_view) \<times> hub" where
  "handleToggleWorkspaceSubdomain cfg owner workspaceIdx active h =
     (case owned_workspace owner workspaceIdx h of
        None \<Rightarrow> throw (NotFound ''Workspace Not Found.'') h
      | Some w \<Rightarrow>
          if falsy (workspace_subdomain w) then throw (BadRequest ''This Workspace Has No Subdomain.'') h
          else if workspace_subdomain_active w = active then give (subdomain_view_of w) h
          else if active then activate_workspace cfg w h
          else save_workspace w (\<lambda>w. w\<lparr>workspace_subdomain_active := False, workspace_dns_record_id := None\<rparr>)
                 (drop_record cfg (workspace_dns_record_id w) h))"

definition rename_record ::
  "config \<Rightarrow> workspaces_row \<Rightarrow> string \<Rightarrow> hub \<Rightarrow> (http_error + unit) \<times> hub" where
  "rename_record cfg w newSubdomain h =
     (if workspace_subdomain_active w \<and> \<not> falsy (workspace_dns_record_id w) then
        (if isSubdomainTaken newSubdomain (Some (workspace_index w)) h
         then throw (Conflict ''Subdomain Already In Use.'') h
         else
           (let (answer, h1) = updateDnsRecord cfg newSubdomain (the (workspace_dns_record_id w)) h
            in if answer \<noteq> Some True then throw (ServiceUnavailable ''Failed to Update DNS Record.'') h1
               else give () h1))
      else give () h)"

definition handleUpdateWorkspaceSubdomain ::
  "config \<Rightarrow> nat \<Rightarrow> nat \<Rightarrow> string option \<Rightarrow> hub \<Rightarrow> (http_error + subdomain_view) \<times> hub" where
  "handleUpdateWorkspaceSubdomain cfg owner workspaceIdx sub h =
     (case owned_workspace owner workspaceIdx h of
        None \<Rightarrow> throw (NotFound ''Workspace Not Found.'') h
      | Some w \<Rightarrow>
          (let newSubdomain = (case sub of None \<Rightarrow> None
                 | Some s \<Rightarrow> if js_trim s = [] then None else Some (js_trim s))
           in if newSubdomain = workspace_subdomain w then give (subdomain_view_of w) h
              else case newSubdomain of
                None \<Rightarrow>
                  save_workspace w (\<lambda>w. w\<lparr>workspace_subdomain := None, workspace_subdomain_active := False,
                      workspace_dns_record_id := None\<rparr>) (drop_record cfg (workspace_dns_record_id w) h)
              | Some d \<Rightarrow>
                  andThen (rename_record cfg w d h) (\<lambda>u h1.
                    save_workspace w (\<lambda>w. w\<lparr>workspace_subdomain := Some d\<rparr>) h1)))"

definition handleValidateWorkspace :: "nat \<Rightarrow> string \<Rightarrow> hub \<Rightarrow> bool" where
  "handleValidateWorkspace owner workspaceName h \<longleftrightarrow>
     js_trim workspaceName \<noteq> []
     \<and> \<not> list_ex (\<lambda>w. workspace_name w = workspaceName \<and> workspace_deleted_at w = None) (workspaces h)"

record workspace_item =
  wi_workspaceIndex :: nat
  wi_workspaceName :: string
  wi_workspaceSubdomain :: "string option"
  wi_workspaceSubdomainActive :: bool
  wi_linked :: bool
  wi_lastOnline :: "int option"

definition workspace_to_item :: "hub \<Rightarrow> workspaces_row \<Rightarrow> workspace_item" where
  "workspace_to_item h w =
     (let latest = take 1 (js_sort (\<lambda>a b. agent_last_online b - agent_last_online a)
            (filter (\<lambda>a. agent_parent_workspace a = Some (workspace_index w)
               \<and> agent_connection a = Linked) (agents h)))
      in \<lparr>wi_workspaceIndex = workspace_index w, wi_workspaceName = workspace_name w,
          wi_workspaceSubdomain = workspace_subdomain w,
          wi_workspaceSubdomainActive = workspace_subdomain_active w,
          wi_linked = (latest \<noteq> []),
          wi_lastOnline = (case latest of [] \<Rightarrow> None | a # as \<Rightarrow> Some (agent_last_online a))\<rparr>)"

definition handleGetWorkspaceList :: "nat \<Rightarrow> hub \<Rightarrow> workspace_item list" where
  "handleGetWorkspaceList owner h =
     map (workspace_to_item h) (filter (owns_workspace owner) (workspaces h))"

definition handleDeleteWorkspace ::
  "config \<Rightarrow> nat \<Rightarrow> nat \<Rightarrow> string \<Rightarrow> string \<Rightarrow> hub \<Rightarrow> (http_error + int) \<times> hub" where
  "handleDeleteWorkspace cfg owner workspaceIdx ownerDisplay confirmation h =
     (case owned_workspace owner workspaceIdx h of
        None \<Rightarrow> throw (NotFound ''Workspace Not Found'') h
      | Some w \<Rightarrow>
          if confirmation \<noteq> ownerDisplay @ ''/'' @ workspace_name w
          then throw (BadRequest ''Workspace delete confirmation does not match.'') h
          else
            (let (deleted, h1) = (if falsy (workspace_dns_record_id w) then (True, h)
                   else (let (answer, h1) = deleteDnsRecord cfg (the (workspace_dns_record_id w)) h
                         in (answer = Some True, h1)))
             in if \<not> deleted then throw (ServiceUnavailable ''Failed to Delete DNS Record.'') h1
                else give (clock h1)
                  (h1\<lparr>workspaces := update_rows
                        (\<lambda>v. workspace_index v = workspaceIdx \<and> owns_workspace owner v)
                        (\<lambda>v. v\<lparr>workspace_deleted_at := Some (clock h1), workspace_subdomain_active := False,
                              workspace_dns_record_id := None\<rparr>) (workspaces h1)\<rparr>)))"

section \<open>Connecting agents\<close>

definition link_agent :: "string \<Rightarrow> connection_status \<Rightarrow> nat option \<Rightarrow> hub \<Rightarrow> hub" where
  "link_agent code c parent h =
     update_agents (\<lambda>a. agent_code a = code)
       (\<lambda>a. a\<lparr>agent_connection := c, agent_parent_workspace := parent\<rparr>) h"

definition requestConnectWorkspaceAndAgent ::
  "config \<Rightarrow> nat \<Rightarrow> nat \<Rightarrow> string \<Rightarrow> string \<Rightarrow> hub \<Rightarrow> (http_error + agents_row) \<times> hub" where
  "requestConnectWorkspaceAndAgent cfg workspaceOwner targetWorkspaceIdx targetAgentCode workspaceOwnerName h =
     (case owned_workspace workspaceOwner targetWorkspaceIdx h of
        None \<Rightarrow> throw (NotFound ''Workspace Not Found.'') h
      | Some w \<Rightarrow>
     (case find (\<lambda>a. agent_code a = js_upper targetAgentCode) (agents h) of
        None \<Rightarrow> throw (NotFound ''Matching Agent Not Found.'') h
      | Some rawAgent \<Rightarrow>
          if agent_connection rawAgent = Requested
          then throw (Conflict ''This Agent Already Have Connection Request From Another Workspace.'') h
          else if agent_connection rawAgent = Linked
          then throw (Gone ''This Agent have valid Connection with Another Workspace.'') h
          else
            (let h1 = link_agent (agent_code rawAgent) Requested (Some targetWorkspaceIdx) h;
                 (sent_ok, h2) = sendToAgent cfg (agent_uuid rawAgent) ''connect-request''
                   (JObj [(''workspaceOwnerName'', JStr workspaceOwnerName),
                     (''workspaceName'', JStr (workspace_name w)),
                     (''workspaceCreatedAt'', JNum (workspace_created_at w)),
                     (''workspaceIndex'', jnat (workspace_index w)),
                     (''requestDatetime'', JNum (clock h))]) h1
             in if \<not> sent_ok
                then throw (ServiceUnavailable ''Agent is not connected.'')
                  (notifyWorkspaceUpdated (Some targetWorkspaceIdx)
                    (link_agent (agent_code rawAgent) Unlinked None h2))
                else give (rawAgent\<lparr>agent_connection := Requested,
                             agent_parent_workspace := Some targetWorkspaceIdx\<rparr>) h2)))"

definition workspace_agent :: "nat \<Rightarrow> nat \<Rightarrow> string \<Rightarrow> hub \<Rightarrow> agents_row option" where
  "workspace_agent workspaceOwner targetWorkspaceIdx targetAgentCode h =
     find (\<lambda>a. agent_code a = js_upper targetAgentCode
        \<and> agent_parent_workspace a = Some targetWorkspaceIdx \<and> agent_deleted_at a = None
        \<and> parent_matches h (owns_workspace workspaceOwner) a) (agents h)"

definition disconnectWorkspaceAgent ::
  "config \<Rightarrow> nat \<Rightarrow> nat \<Rightarrow> string \<Rightarrow> hub \<Rightarrow> (http_error + agents_row) \<times> hub" where
  "disconnectWorkspaceAgent cfg workspaceOwner targetWorkspaceIdx targetAgentCode h =
     (case workspace_agent workspaceOwner targetWorkspaceIdx targetAgentCode h of
        None \<Rightarrow> throw (NotFound ''Agent not found.'') h
      | Some rawAgent \<Rightarrow>
          if agent_connection rawAgent \<noteq> Linked then throw (BadRequest ''Not connected to the agent.'') h
          else
            (let h1 = link_agent (agent_code rawAgent) Unlinked None h;
                 (ok, h2) = disconnectAgent cfg (agent_uuid rawAgent) h1
             in give (rawAgent\<lparr>agent_connection := Unlinked, agent_parent_workspace := None\<rparr>)
                  (notifyWorkspaceUpdated (Some targetWorkspaceIdx) h2)))"

definition cancelWorkspaceAgentConnectionRequest ::
  "config \<Rightarrow> nat \<Rightarrow> nat \<Rightarrow> string \<Rightarrow> hub \<Rightarrow> (http_error + agents_row) \<times> hub" where
  "cancelWorkspaceAgentConnectionRequest cfg workspaceOwner targetWorkspaceIdx targetAgentCode h =
     (case workspace_agent workspaceOwner targetWorkspaceIdx targetAgentCode h of
        None \<Rightarrow> throw (NotFound ''Agent Not Found.'') h
      | Some rawAgent \<Rightarrow>
          if agent_connection rawAgent \<noteq> Requested
          then throw (BadRequest ''Agent connection is not requested.'') h
          else
            (let h1 = link_agent (agent_code rawAgent) Unlinked None h;
                 (ok, h2) = sendToAgent cfg (agent_uuid rawAgent) ''connect-request-cancelled''
                   (JObj [(''workspaceIndex'', jnat targetWorkspaceIdx),
                     (''requestCancelledAt'', JNum (clock h))]) h1
             in give (rawAgent\<lparr>agent_connection := Unlinked, agent_parent_workspace := None\<rparr>)
                  (notifyWorkspaceUpdated (Some targetWorkspaceIdx) h2)))"

section \<open>Information about a workspace\<close>

record workspace_info =
  in_workspaceIndex :: nat
  in_workspaceName :: string
  in_workspaceCreatedAt :: int
  in_agents :: "agents_row list"

definition handleGetWorkspaceInformation ::
  "nat \<Rightarrow> string \<Rightarrow> hub \<Rightarrow> (http_error + workspace_info) \<times> hub" where
  "handleGetWorkspaceInformation owner targetWorkspaceName h =
     (case find (\<lambda>w. owns_workspace owner w \<and> workspace_name w = targetWorkspaceName) (workspaces h) of
        None \<Rightarrow> throw (NotFound ''Target Workspace Not Found.'') h
      | Some w \<Rightarrow>
          give \<lparr>in_workspaceIndex = workspace_index w, in_workspaceName = workspace_name w,
            in_workspaceCreatedAt = workspace_created_at w,
            in_agents = filter (\<lambda>a. agent_connection a = Linked
               \<and> agent_parent_workspace a = Some (workspace_index w)) (agents h)\<rparr> h)"

end
