(* ===== verification/WorkspaceRules.thy ===== *)
theory WorkspaceRules
  imports Workspaces
begin

text \<open>
  The guarantees of the workspace operations: the subdomains that are active, and the connections
  between workspaces and agents.
\<close>

section \<open>Active subdomains\<close>

definition workspaces_ok :: "config \<Rightarrow> hub \<Rightarrow> bool" where
  "workspaces_ok cfg h \<longleftrightarrow>
     distinct (map workspace_index (workspaces h))
     \<and> (\<forall>w\<in>set (workspaces h). workspace_index w < next_workspace h \<and> 0 < workspace_index w)
     \<and> 0 < next_workspace h
     \<and> (\<forall>w\<in>set (workspaces h). workspace_subdomain_active w \<longrightarrow>
          workspace_deleted_at w = None \<and> workspace_subdomain w \<noteq> None \<and> \<not> falsy (workspace_dns_record_id w))
     \<and> (\<forall>w\<in>set (workspaces h). \<forall>v\<in>set (workspaces h). workspace_subdomain_active w
          \<longrightarrow> workspace_subdomain_active v \<longrightarrow> workspace_subdomain w = workspace_subdomain v
          \<longrightarrow> workspace_index w = workspace_index v)
     \<and> countActiveSubdomains h \<le> nat (SUBDOMAIN_ACTIVE_LIMIT cfg)"

lemma workspaces_ok_cong:
  "workspaces h' = workspaces h \<Longrightarrow> next_workspace h' = next_workspace h \<Longrightarrow>
   workspaces_ok cfg h' = workspaces_ok cfg h"
  by (simp add: workspaces_ok_def countActiveSubdomains_def)

lemma workspaces_okD:
  assumes "workspaces_ok cfg h"
  shows "w \<in> set (workspaces h) \<Longrightarrow> workspace_subdomain_active w \<Longrightarrow>
      workspace_deleted_at w = None \<and> workspace_subdomain w \<noteq> None \<and> \<not> falsy (workspace_dns_record_id w)"
    and "w \<in> set (workspaces h) \<Longrightarrow> 0 < workspace_index w \<and> workspace_index w < next_workspace h"
    and "countActiveSubdomains h \<le> nat (SUBDOMAIN_ACTIVE_LIMIT cfg)"
    and "distinct (map workspace_index (workspaces h))" and "0 < next_workspace h"
  using assms unfolding workspaces_ok_def by blast+

lemma count_update:
  "distinct (map k xs) \<Longrightarrow> x \<in> set xs \<Longrightarrow>
   count_rows P (update_rows (\<lambda>y. k y = k x) f xs) \<le> count_rows P xs + (if P (f x) \<and> \<not> P x then 1 else 0)"
proof (induction xs)
  case (Cons y ys)
  show ?case
  proof (cases "k y = k x")
    case True
    with Cons.prems have "y = x" "\<And>z. z \<in> set ys \<Longrightarrow> k z \<noteq> k x" by (auto simp: image_iff)
    then show ?thesis by (simp add: count_rows_def row_simps)
  next
    case False
    then have "x \<in> set ys" using Cons.prems by auto
    with Cons.IH Cons.prems False show ?thesis by (simp add: count_rows_def row_simps split: if_splits)
  qed
qed simp

text \<open>Changing one row keeps the invariant if the new row may stand beside the others.\<close>

lemma workspaces_ok_set:
  assumes ok: "workspaces_ok cfg h" and w: "w \<in> set (workspaces h)"
    and idx: "workspace_index (f w) = workspace_index w"
    and row: "workspace_subdomain_active (f w) \<Longrightarrow> workspace_deleted_at (f w) = None
      \<and> workspace_subdomain (f w) \<noteq> None \<and> \<not> falsy (workspace_dns_record_id (f w))"
    and free: "\<And>v. v \<in> set (workspaces h) \<Longrightarrow> workspace_index v \<noteq> workspace_index w \<Longrightarrow>
      workspace_subdomain_active v \<Longrightarrow> workspace_subdomain_active (f w) \<Longrightarrow>
      workspace_subdomain v \<noteq> workspace_subdomain (f w)"
    and limit: "active_workspace (f w) \<Longrightarrow> \<not> active_workspace w \<Longrightarrow>
      countActiveSubdomains h < nat (SUBDOMAIN_ACTIVE_LIMIT cfg)"
  shows "workspaces_ok cfg (set_workspace (workspace_index w) f h)"
proof -
  let ?h = "set_workspace (workspace_index w) f h"
  have only: "v = w" if "v \<in> set (workspaces h)" "workspace_index v = workspace_index w" for v
    using ok w that unfolding workspaces_ok_def by (meson inj_on_def distinct_map)
  have rows: "v \<in> set (workspaces ?h) \<longleftrightarrow>
      v = f w \<or> v \<in> set (workspaces h) \<and> workspace_index v \<noteq> workspace_index w" for v
  proof -
    have "v \<in> set (workspaces ?h) \<longleftrightarrow>
        (\<exists>u\<in>set (workspaces h). v = (if workspace_index u = workspace_index w then f u else u))"
      by (simp add: set_workspace_def in_update_rows)
    then show ?thesis using only w by (metis (full_types))
  qed
  have map_idx: "map workspace_index (workspaces ?h) = map workspace_index (workspaces h)"
  proof -
    have "workspace_index (if workspace_index v = workspace_index w then f v else v) = workspace_index v"
      if "v \<in> set (workspaces h)" for v
      using only [OF that] idx by auto
    then show ?thesis by (simp add: set_workspace_def update_rows_def)
  qed
  have okD: "distinct (map workspace_index (workspaces h))" "0 < next_workspace h"
    "\<And>v. v \<in> set (workspaces h) \<Longrightarrow> workspace_index v < next_workspace h \<and> 0 < workspace_index v"
    "\<And>v. v \<in> set (workspaces h) \<Longrightarrow> workspace_subdomain_active v \<Longrightarrow> workspace_deleted_at v = None
       \<and> workspace_subdomain v \<noteq> None \<and> \<not> falsy (workspace_dns_record_id v)"
    "\<And>u v. u \<in> set (workspaces h) \<Longrightarrow> v \<in> set (workspaces h) \<Longrightarrow> workspace_subdomain_active u \<Longrightarrow>
       workspace_subdomain_active v \<Longrightarrow> workspace_subdomain u = workspace_subdomain v \<Longrightarrow>
       workspace_index u = workspace_index v"
    "countActiveSubdomains h \<le> nat (SUBDOMAIN_ACTIVE_LIMIT cfg)"
    using ok unfolding workspaces_ok_def by blast+
  have count: "countActiveSubdomains ?h \<le> nat (SUBDOMAIN_ACTIVE_LIMIT cfg)"
    using count_update [OF okD(1) w, of active_workspace f] okD(6) limit
    by (auto simp: countActiveSubdomains_def set_workspace_def split: if_splits)
  show ?thesis
    unfolding workspaces_ok_def map_idx
  proof (intro conjI ballI impI)
    fix u v
    assume u: "u \<in> set (workspaces ?h)" "workspace_subdomain_active u"
      and v: "v \<in> set (workspaces ?h)" "workspace_subdomain_active v"
      and s: "workspace_subdomain u = workspace_subdomain v"
    show "workspace_index u = workspace_index v"
    proof (cases "u = f w")
      case True
      then show ?thesis using free [of v] u v s unfolding rows by metis
    next
      case False
      then show ?thesis using free [of u] okD(5) [of u v] u v s unfolding rows by metis
    qed
  next
    fix v
    assume v: "v \<in> set (workspaces ?h)"
    show "workspace_index v < next_workspace ?h" "0 < workspace_index v"
      using v okD(3) [of v] okD(3) [OF w] idx unfolding rows by (auto simp: set_workspace_def)
    assume act: "workspace_subdomain_active v"
    show "workspace_deleted_at v = None" "workspace_subdomain v \<noteq> None" "\<not> falsy (workspace_dns_record_id v)"
      using v okD(4) [of v] row act unfolding rows by metis+
  qed (use okD(1,2) count in \<open>simp_all add: set_workspace_def\<close>)
qed

lemma workspaces_ok_drop:
  assumes "workspaces_ok cfg h" and "w \<in> set (workspaces h)" and "workspace_index (f w) = workspace_index w"
    and "\<not> workspace_subdomain_active (f w)"
  shows "workspaces_ok cfg (set_workspace (workspace_index w) f h)"
  by (rule workspaces_ok_set [where f = f, OF assms(1-3)]) (simp_all add: assms(4))

lemma workspaces_ok_add:
  assumes ok: "workspaces_ok cfg h" and idx: "workspace_index w = next_workspace h"
    and row: "workspace_subdomain_active w \<Longrightarrow> workspace_deleted_at w = None
      \<and> workspace_subdomain w \<noteq> None \<and> \<not> falsy (workspace_dns_record_id w)
      \<and> countActiveSubdomains h < nat (SUBDOMAIN_ACTIVE_LIMIT cfg)
      \<and> (\<forall>v\<in>set (workspaces h). workspace_subdomain_active v \<longrightarrow> workspace_subdomain v \<noteq> workspace_subdomain w)"
  shows "workspaces_ok cfg (h\<lparr>workspaces := workspaces h @ [w], next_workspace := Suc (next_workspace h)\<rparr>)"
proof -
  have new: "next_workspace h \<notin> workspace_index ` set (workspaces h)"
    using workspaces_okD(2) [OF ok] by force
  have count: "countActiveSubdomains (h\<lparr>workspaces := workspaces h @ [w], next_workspace := Suc (next_workspace h)\<rparr>)
      \<le> nat (SUBDOMAIN_ACTIVE_LIMIT cfg)"
    using workspaces_okD(3) [OF ok] row by (cases "workspace_subdomain_active w")
      (simp_all add: countActiveSubdomains_def count_rows_def)
  let ?h = "h\<lparr>workspaces := workspaces h @ [w], next_workspace := Suc (next_workspace h)\<rparr>"
  show ?thesis
    unfolding workspaces_ok_def
  proof (intro conjI ballI impI count)
    show "distinct (map workspace_index (workspaces ?h))"
      using workspaces_okD(4) [OF ok] new idx by simp
  next
    fix u v
    assume u: "u \<in> set (workspaces ?h)" "workspace_subdomain_active u"
      and v: "v \<in> set (workspaces ?h)" "workspace_subdomain_active v"
      and s: "workspace_subdomain u = workspace_subdomain v"
    from u(1) v(1) consider "u = v" | "u = w" "v \<in> set (workspaces h)" | "v = w" "u \<in> set (workspaces h)"
      | "u \<in> set (workspaces h)" "v \<in> set (workspaces h)" by auto
    then show "workspace_index u = workspace_index v"
    proof cases
      case 4
      then show ?thesis using ok u v s unfolding workspaces_ok_def by blast
    qed (use row u(2) v(2) s in force)+
  next
    fix v
    assume v: "v \<in> set (workspaces ?h)"
    show "workspace_index v < next_workspace ?h" "0 < workspace_index v"
      using v workspaces_okD(2) [OF ok, of v] workspaces_okD(5) [OF ok] idx by auto
    assume act: "workspace_subdomain_active v"
    show "workspace_deleted_at v = None" "workspace_subdomain v \<noteq> None" "\<not> falsy (workspace_dns_record_id v)"
      using v act row workspaces_okD(1) [OF ok, of v] by auto
  qed (simp add: workspaces_okD(5) [OF ok])
qed

section \<open>Every operation keeps the active subdomains apart\<close>

lemma owned_workspace_in: "owned_workspace owner i h = Some w \<Longrightarrow>
    w \<in> set (workspaces h) \<and> workspace_index w = i \<and> owns_workspace owner w"
  by (auto simp: owned_workspace_def find_Some_iff)

lemma not_taken: "\<not> isSubdomainTaken d x h \<Longrightarrow> v \<in> set (workspaces h) \<Longrightarrow> workspace_subdomain_active v \<Longrightarrow>
    workspace_deleted_at v = None \<Longrightarrow> (case x of None \<Rightarrow> True | Some i \<Rightarrow> i = 0 \<or> workspace_index v \<noteq> i) \<Longrightarrow>
    workspace_subdomain v \<noteq> Some d"
  by (auto simp: isSubdomainTaken_def list_ex_iff)

lemma dns_frame [simp]:
  "workspaces (snd (createDnsRecord cfg d h)) = workspaces h"
  "next_workspace (snd (createDnsRecord cfg d h)) = next_workspace h"
  "workspaces (snd (updateDnsRecord cfg d r h)) = workspaces h"
  "next_workspace (snd (updateDnsRecord cfg d r h)) = next_workspace h"
  "workspaces (snd (deleteDnsRecord cfg r h)) = workspaces h"
  "next_workspace (snd (deleteDnsRecord cfg r h)) = next_workspace h"
  "workspaces (drop_record cfg x h) = workspaces h" "next_workspace (drop_record cfg x h) = next_workspace h"
  by (simp_all add: createDnsRecord_def updateDnsRecord_def deleteDnsRecord_def drop_record_def)

lemma tryActivate_frame [simp]:
  "workspaces (snd (tryActivateSubdomain cfg d x h)) = workspaces h"
  "next_workspace (snd (tryActivateSubdomain cfg d x h)) = next_workspace h"
  by (simp_all add: tryActivateSubdomain_def split_beta)

lemma tryActivate_Some: "fst (tryActivateSubdomain cfg d x h) = Some r \<Longrightarrow>
    countActiveSubdomains h < nat (SUBDOMAIN_ACTIVE_LIMIT cfg) \<and> \<not> isSubdomainTaken d x h
    \<and> cfg_dns_create cfg d = Some (Some r)"
  by (auto simp: tryActivateSubdomain_def createDnsRecord_def split: if_splits option.splits)

lemma ok_create:
  assumes ids: "\<And>d. cfg_dns_create cfg d \<noteq> Some (Some [])" and ok: "workspaces_ok cfg h"
  shows "workspaces_ok cfg (snd (handleCreateWorkspace cfg owner n d h))"
proof -
  define r where "r = (if falsy d then (None, h) else tryActivateSubdomain cfg (the d) None h)"
  have frame: "workspaces (snd r) = workspaces h" "next_workspace (snd r) = next_workspace h"
    by (simp_all add: r_def)
  have ok1: "workspaces_ok cfg (snd r)" using workspaces_ok_cong [OF frame] ok by simp
  have act: "fst r = Some x \<Longrightarrow> \<not> falsy d \<and> \<not> falsy (Some x)
      \<and> countActiveSubdomains (snd r) < nat (SUBDOMAIN_ACTIVE_LIMIT cfg) \<and> \<not> isSubdomainTaken (the d) None h" for x
    using tryActivate_Some [of cfg "the d" None h x] ids [of "the d"] frame(1)
    by (auto simp: r_def falsy_def countActiveSubdomains_def split: if_splits)
  have free: "workspace_subdomain v \<noteq> Some (the d)"
    if "fst r \<noteq> None" "v \<in> set (workspaces h)" "workspace_subdomain_active v" for v
    using that act not_taken [of "the d" None h v] workspaces_okD(1) [OF ok that(2,3)] by auto
  have d: "d = Some (the d)" if "fst r \<noteq> None" using act that by (auto simp: falsy_def)
  have add: "workspaces_ok cfg ((snd r)\<lparr>workspaces := workspaces (snd r) @ [w],
      next_workspace := Suc (next_workspace (snd r))\<rparr>)"
    if w: "workspace_index w = next_workspace (snd r)" "workspace_subdomain_active w = (fst r \<noteq> None)"
      "workspace_deleted_at w = None" "workspace_subdomain w = d" "workspace_dns_record_id w = fst r" for w
  proof (rule workspaces_ok_add [OF ok1 w(1)])
    assume "workspace_subdomain_active w"
    then obtain x where "fst r = Some x" using w by auto
    then show "workspace_deleted_at w = None \<and> workspace_subdomain w \<noteq> None
      \<and> \<not> falsy (workspace_dns_record_id w) \<and> countActiveSubdomains (snd r) < nat (SUBDOMAIN_ACTIVE_LIMIT cfg)
      \<and> (\<forall>v\<in>set (workspaces (snd r)). workspace_subdomain_active v \<longrightarrow> workspace_subdomain v \<noteq> workspace_subdomain w)"
      using w act free d frame(1) by (metis option.distinct(1))
  qed
  show ?thesis
    using add ok1 by (simp add: handleCreateWorkspace_def Let_def split_beta r_def [symmetric])
qed

lemma ok_activate:
  assumes ids: "\<And>d. cfg_dns_create cfg d \<noteq> Some (Some [])" and ok: "workspaces_ok cfg h"
    and w: "w \<in> set (workspaces h)" "owns_workspace owner w" "\<not> falsy (workspace_subdomain w)"
  shows "workspaces_ok cfg (snd (activate_workspace cfg w h))"
proof -
  define d where "d = the (workspace_subdomain w)"
  define h1 where "h1 = snd (createDnsRecord cfg d h)"
  define r where "r = (case fst (createDnsRecord cfg d h) of None \<Rightarrow> None | Some x \<Rightarrow> x)"
  have frame: "workspaces h1 = workspaces h" "next_workspace h1 = next_workspace h" by (simp_all add: h1_def)
  have d: "workspace_subdomain w = Some d" using w(3) by (auto simp: falsy_def d_def)
  have "workspaces_ok cfg (set_workspace (workspace_index w)
      (\<lambda>w. w\<lparr>workspace_subdomain_active := True, workspace_dns_record_id := r\<rparr>) h1)"
    if "\<not> isSubdomainTaken d (Some (workspace_index w)) h" "\<not> falsy r"
      "int (countActiveSubdomains h) < SUBDOMAIN_ACTIVE_LIMIT cfg"
  proof (rule workspaces_ok_set)
    show "workspaces_ok cfg h1" using workspaces_ok_cong [OF frame] ok by simp
    show "countActiveSubdomains h1 < nat (SUBDOMAIN_ACTIVE_LIMIT cfg)"
      using that(3) frame by (simp add: countActiveSubdomains_def)
    fix v
    assume v: "v \<in> set (workspaces h1)" "workspace_index v \<noteq> workspace_index w" "workspace_subdomain_active v"
    then show "workspace_subdomain v \<noteq> workspace_subdomain
        (w\<lparr>workspace_subdomain_active := True, workspace_dns_record_id := r\<rparr>)"
      using not_taken [OF that(1), of v] workspaces_okD(1) [OF ok, of v] frame d by simp
  qed (use w d that(2) frame in simp_all)
  moreover have "workspaces_ok cfg h1" using workspaces_ok_cong [OF frame] ok by simp
  ultimately show ?thesis
    using ok by (simp add: activate_workspace_def save_workspace_def Let_def split_beta d_def [symmetric]
        h1_def [symmetric] r_def [symmetric])
qed

lemma ok_toggle:
  assumes "\<And>d. cfg_dns_create cfg d \<noteq> Some (Some [])" and "workspaces_ok cfg h"
  shows "workspaces_ok cfg (snd (handleToggleWorkspaceSubdomain cfg owner i a h))"
proof (cases "owned_workspace owner i h")
  case (Some w)
  note w = owned_workspace_in [OF Some]
  have "workspaces_ok cfg (set_workspace (workspace_index w)
     (\<lambda>w. w\<lparr>workspace_subdomain_active := False, workspace_dns_record_id := None\<rparr>) (drop_record cfg x h))" for x
    by (rule workspaces_ok_drop) (use w in \<open>simp_all add: workspaces_ok_cong [where h = h] assms(2)\<close>)
  with Some w assms ok_activate [of cfg h w owner] show ?thesis
    by (simp add: handleToggleWorkspaceSubdomain_def save_workspace_def)
qed (use assms(2) in \<open>simp add: handleToggleWorkspaceSubdomain_def\<close>)

lemma ok_update:
  assumes ok: "workspaces_ok cfg h"
  shows "workspaces_ok cfg (snd (handleUpdateWorkspaceSubdomain cfg owner i d h))"
proof (cases "owned_workspace owner i h")
  case (Some w)
  note w = owned_workspace_in [OF Some]
  have drop: "workspaces_ok cfg (set_workspace (workspace_index w) (\<lambda>w. w\<lparr>workspace_subdomain := None,
      workspace_subdomain_active := False, workspace_dns_record_id := None\<rparr>) (drop_record cfg x h))" for x
    by (rule workspaces_ok_drop) (use w in \<open>simp_all add: workspaces_ok_cong [where h = h] ok\<close>)
  have keep: "workspaces_ok cfg (set_workspace (workspace_index w) (\<lambda>w. w\<lparr>workspace_subdomain := Some n\<rparr>) h1)"
    if h1: "workspaces h1 = workspaces h" "next_workspace h1 = next_workspace h"
      and free: "workspace_subdomain_active w \<Longrightarrow> \<not> isSubdomainTaken n (Some (workspace_index w)) h" for n h1
  proof (rule workspaces_ok_set)
    show "workspaces_ok cfg h1" using workspaces_ok_cong [OF h1] ok by simp
    fix v
    assume v: "v \<in> set (workspaces h1)" "workspace_index v \<noteq> workspace_index w" "workspace_subdomain_active v"
      and "workspace_subdomain_active (w\<lparr>workspace_subdomain := Some n\<rparr>)"
    then show "workspace_subdomain v \<noteq> workspace_subdomain (w\<lparr>workspace_subdomain := Some n\<rparr>)"
      using not_taken [OF free, of v] workspaces_okD(1) [OF ok, of v] h1 by simp
  qed (use w h1 workspaces_okD(1) [OF ok, of w] in simp_all)
  have rename: "workspaces_ok cfg (snd (andThen (rename_record cfg w n h)
      (\<lambda>u. save_workspace w (\<lambda>w. w\<lparr>workspace_subdomain := Some n\<rparr>))))" for n
  proof (rule andThen_snd)
    show "workspaces_ok cfg (snd (rename_record cfg w n h))"
      using ok workspaces_ok_cong [of "snd (updateDnsRecord cfg n (the (workspace_dns_record_id w)) h)" h]
      by (simp add: rename_record_def split_beta)
    fix u h1
    assume "rename_record cfg w n h = (Inr u, h1)"
    then have "workspaces h1 = workspaces h \<and> next_workspace h1 = next_workspace h
        \<and> (workspace_subdomain_active w \<longrightarrow> \<not> isSubdomainTaken n (Some (workspace_index w)) h)"
      using workspaces_okD(1) [OF ok, of w] w
      by (auto simp: rename_record_def split_beta split: if_splits)
    then show "workspaces_ok cfg (snd (save_workspace w (\<lambda>w. w\<lparr>workspace_subdomain := Some n\<rparr>) h1))"
      using keep [of h1 n] by (simp add: save_workspace_def)
  qed
  show ?thesis
    using ok drop rename Some
    by (simp add: handleUpdateWorkspaceSubdomain_def save_workspace_def Let_def split: option.split)
qed (use ok in \<open>simp add: handleUpdateWorkspaceSubdomain_def\<close>)

text \<open>The rows a deletion changes are those of the index, and these are one row.\<close>

lemma ok_delete:
  assumes ok: "workspaces_ok cfg h"
  shows "workspaces_ok cfg (snd (handleDeleteWorkspace cfg owner i o' c h))"
proof (cases "owned_workspace owner i h")
  case (Some w)
  note w = owned_workspace_in [OF Some]
  have del: "workspaces_ok cfg (h1\<lparr>workspaces := update_rows (\<lambda>v. workspace_index v = i \<and> owns_workspace owner v)
      (\<lambda>v. v\<lparr>workspace_deleted_at := Some t, workspace_subdomain_active := False,
             workspace_dns_record_id := None\<rparr>) (workspaces h1)\<rparr>)"
    if h1: "workspaces h1 = workspaces h" "next_workspace h1 = next_workspace h" for h1 t
  proof -
    let ?f = "\<lambda>v. v\<lparr>workspace_deleted_at := Some t, workspace_subdomain_active := False,
                    workspace_dns_record_id := None\<rparr>"
    have "(workspace_index v = i \<and> owns_workspace owner v) = (workspace_index v = workspace_index w)"
      if "v \<in> set (workspaces h)" for v
    proof -
      have "v = w" if "workspace_index v = i"
        using workspaces_okD(4) [OF ok] w that \<open>v \<in> set (workspaces h)\<close> by (metis distinct_map inj_onD)
      then show ?thesis using w by auto
    qed
    then have "update_rows (\<lambda>v. workspace_index v = i \<and> owns_workspace owner v) ?f (workspaces h1)
      = update_rows (\<lambda>v. workspace_index v = workspace_index w) ?f (workspaces h1)"
      by (auto simp: update_rows_def h1)
    moreover have "workspaces_ok cfg (set_workspace (workspace_index w) ?f h1)"
      by (rule workspaces_ok_drop) (use w h1 in \<open>simp_all add: workspaces_ok_cong [OF h1] ok\<close>)
    ultimately show ?thesis by (simp add: set_workspace_def)
  qed
  have dns: "workspaces_ok cfg (snd (deleteDnsRecord cfg r h))" for r
    by (simp add: workspaces_ok_cong [where h = h] ok)
  show ?thesis
    using Some ok del [of "snd (deleteDnsRecord cfg (the (workspace_dns_record_id w)) h)"] del [of h] dns
    by (simp add: handleDeleteWorkspace_def Let_def split_beta)
qed (use ok in \<open>simp add: handleDeleteWorkspace_def\<close>)

lemma disconnectAgent_workspaces:
  "workspaces (snd (disconnectAgent cfg u h)) = workspaces h"
  "next_workspace (snd (disconnectAgent cfg u h)) = next_workspace h"
proof -
  have "next_workspace (snd (sendToAgent cfg u e p h)) = next_workspace h" for e p
    using sendToAgent_cases [of cfg u e p h] by auto
  then show "workspaces (snd (disconnectAgent cfg u h)) = workspaces h"
    "next_workspace (snd (disconnectAgent cfg u h)) = next_workspace h"
    by (simp_all add: disconnectAgent_def clearOfflineTimer_def Let_def split: option.split prod.split)
qed

section \<open>All requests\<close>

datatype workspace_request =
    CreateWorkspace "string option" "string option"
  | ToggleWorkspaceSubdomain nat bool
  | UpdateWorkspaceSubdomain nat "string option"
  | DeleteWorkspace nat string string
  | RequestConnect nat string string
  | CancelRequest nat string
  | DisconnectAgent nat string

fun serve_workspace :: "config \<Rightarrow> nat \<Rightarrow> workspace_request \<Rightarrow> hub \<Rightarrow> hub" where
  "serve_workspace cfg owner (CreateWorkspace n d) h = snd (handleCreateWorkspace cfg owner n d h)"
| "serve_workspace cfg owner (ToggleWorkspaceSubdomain i a) h = snd (handleToggleWorkspaceSubdomain cfg owner i a h)"
| "serve_workspace cfg owner (UpdateWorkspaceSubdomain i d) h = snd (handleUpdateWorkspaceSubdomain cfg owner i d h)"
| "serve_workspace cfg owner (DeleteWorkspace i d c) h = snd (handleDeleteWorkspace cfg owner i d c h)"
| "serve_workspace cfg owner (RequestConnect i c n) h = snd (requestConnectWorkspaceAndAgent cfg owner i c n h)"
| "serve_workspace cfg owner (CancelRequest i c) h = snd (cancelWorkspaceAgentConnectionRequest cfg owner i c h)"
| "serve_workspace cfg owner (DisconnectAgent i c) h = snd (disconnectWorkspaceAgent cfg owner i c h)"

lemma sendToAgent_next_workspace [simp]: "next_workspace (snd (sendToAgent cfg u e p h)) = next_workspace h"
  using sendToAgent_cases [of cfg u e p h] by auto

lemma link_agent_frame [simp]:
  "workspaces (link_agent c s p h) = workspaces h" "next_workspace (link_agent c s p h) = next_workspace h"
  by (simp_all add: link_agent_def update_agents_def)

lemma notify_next_workspace [simp]:
  "workspaces (notifyWorkspaceUpdated x h) = workspaces h"
  "next_workspace (notifyWorkspaceUpdated x h) = next_workspace h"
  by (simp_all add: notifyWorkspaceUpdated_def notifyAgentUpdated_def emitToWorkspace_def emit_def split: option.split)

lemma connecting_keeps_workspaces:
  "workspaces (snd (requestConnectWorkspaceAndAgent cfg u i c n h)) = workspaces h"
  "next_workspace (snd (requestConnectWorkspaceAndAgent cfg u i c n h)) = next_workspace h"
  "workspaces (snd (cancelWorkspaceAgentConnectionRequest cfg u i c h)) = workspaces h"
  "next_workspace (snd (cancelWorkspaceAgentConnectionRequest cfg u i c h)) = next_workspace h"
  "workspaces (snd (disconnectWorkspaceAgent cfg u i c h)) = workspaces h"
  "next_workspace (snd (disconnectWorkspaceAgent cfg u i c h)) = next_workspace h"
  by (simp_all add: requestConnectWorkspaceAndAgent_def cancelWorkspaceAgentConnectionRequest_def
      disconnectWorkspaceAgent_def disconnectAgent_workspaces Let_def split_beta split: option.split)

lemma ok_connecting:
  "workspaces_ok cfg (snd (requestConnectWorkspaceAndAgent cfg u i c n h)) = workspaces_ok cfg h"
  "workspaces_ok cfg (snd (cancelWorkspaceAgentConnectionRequest cfg u i c h)) = workspaces_ok cfg h"
  "workspaces_ok cfg (snd (disconnectWorkspaceAgent cfg u i c h)) = workspaces_ok cfg h"
  by (rule workspaces_ok_cong; simp only: connecting_keeps_workspaces)+

lemma serve_workspace_ok:
  assumes "\<And>d. cfg_dns_create cfg d \<noteq> Some (Some [])" and "workspaces_ok cfg h"
  shows "workspaces_ok cfg (serve_workspace cfg owner r h)"
  using assms by (cases r)
    (simp_all add: ok_create ok_toggle ok_update ok_delete ok_connecting)

inductive workspace_run :: "config \<Rightarrow> hub \<Rightarrow> hub \<Rightarrow> bool" for cfg where
  Idle: "workspace_run cfg h h"
| Request: "workspace_run cfg h h1 \<Longrightarrow> workspace_run cfg h (serve_workspace cfg owner r h1)"
| Elsewhere: "workspace_run cfg h h1 \<Longrightarrow> workspaces h2 = workspaces h1 \<Longrightarrow>
    next_workspace h2 = next_workspace h1 \<Longrightarrow> workspace_run cfg h h2"

lemma workspace_run_ok:
  "workspace_run cfg h h' \<Longrightarrow> (\<And>d. cfg_dns_create cfg d \<noteq> Some (Some [])) \<Longrightarrow> workspaces_ok cfg h \<Longrightarrow>
   workspaces_ok cfg h'"
  proof (induction rule: workspace_run.induct)
  case (Elsewhere h h1 h2)
  then show ?case using workspaces_ok_cong [of h2 h1] by simp
qed (simp_all add: serve_workspace_ok)

text \<open>C23: the subdomains that are active are few and apart. From an empty database, whatever requests any users
  send in whatever order, there are never more active workspaces than the configured limit, each of
  them has a DNS record, and no two of them share a subdomain. The DNS provider is assumed never to
  name a new record by the empty text.\<close>

theorem active_subdomains_apart:
  assumes "\<And>d. cfg_dns_create cfg d \<noteq> Some (Some [])" and "workspace_run cfg (init_hub t) h"
  shows "countActiveSubdomains h \<le> nat (SUBDOMAIN_ACTIVE_LIMIT cfg)
    \<and> (\<forall>w\<in>set (workspaces h). workspace_subdomain_active w \<longrightarrow> \<not> falsy (workspace_dns_record_id w)
         \<and> (\<forall>v\<in>set (workspaces h). workspace_subdomain_active v \<longrightarrow>
              workspace_subdomain v = workspace_subdomain w \<longrightarrow> v = w))"
proof -
  have "workspaces_ok cfg (init_hub t)"
    by (simp add: workspaces_ok_def init_hub_def countActiveSubdomains_def count_rows_def)
  with workspace_run_ok [OF assms(2,1)] have ok: "workspaces_ok cfg h" by blast
  have "v = w" if "v \<in> set (workspaces h)" "w \<in> set (workspaces h)" "workspace_index v = workspace_index w" for v w
    using workspaces_okD(4) [OF ok] that by (metis distinct_map inj_onD)
  then show ?thesis using ok unfolding workspaces_ok_def by blast
qed

definition dns_config :: config where
  "dns_config = example_config\<lparr>cfg_dns_create := (\<lambda>d. Some (Some ''r1''))\<rparr>"

definition shared_hub :: hub where
  "shared_hub = serve_workspace dns_config 8 (ToggleWorkspaceSubdomain 2 True)
     (serve_workspace dns_config 8 (CreateWorkspace None (Some ''acme''))
       (serve_workspace dns_config 7 (CreateWorkspace (Some ''first'') (Some ''acme'')) (init_hub 5)))"

lemma active_subdomains_apart_witness:
  "map (\<lambda>w. (workspace_name w, workspace_subdomain w, workspace_subdomain_active w)) (workspaces shared_hub)
     = [(''first'', Some ''acme'', True), (''Unnamed Workspace 1'', Some ''acme'', False)]
   \<and> countActiveSubdomains shared_hub \<le> nat (SUBDOMAIN_ACTIVE_LIMIT dns_config)"
proof
  show "map (\<lambda>w. (workspace_name w, workspace_subdomain w, workspace_subdomain_active w)) (workspaces shared_hub)
     = [(''first'', Some ''acme'', True), (''Unnamed Workspace 1'', Some ''acme'', False)]" by code_simp
  have "workspace_run dns_config (init_hub 5) shared_hub"
    unfolding shared_hub_def by (intro workspace_run.intros)
  from active_subdomains_apart [OF _ this]
  show "countActiveSubdomains shared_hub \<le> nat (SUBDOMAIN_ACTIVE_LIMIT dns_config)"
    by (simp add: dns_config_def)
qed

section \<open>Connections between workspaces and agents\<close>

text \<open>
  The connection of an agent as a state machine. The owner of a workspace asks, withdraws and cuts;
  whoever runs the agent accepts or rejects, proving it by the agent's code and uuid.
\<close>

datatype link_request =
    Ask nat nat string string
  | Withdraw nat nat string
  | Cut nat nat string
  | AcceptLink string string
  | RejectLink string string

fun serve_link :: "config \<Rightarrow> link_request \<Rightarrow> hub \<Rightarrow> hub" where
  "serve_link cfg (Ask owner w code name) h = snd (requestConnectWorkspaceAndAgent cfg owner w code name h)"
| "serve_link cfg (Withdraw owner w code) h = snd (cancelWorkspaceAgentConnectionRequest cfg owner w code h)"
| "serve_link cfg (Cut owner w code) h = snd (disconnectWorkspaceAgent cfg owner w code h)"
| "serve_link cfg (AcceptLink code uuid) h = snd (handleAcceptConnectRequest code uuid h)"
| "serve_link cfg (RejectLink code uuid) h = snd (handleRejectConnectRequest code uuid h)"

fun addressed :: "link_request \<Rightarrow> agents_row \<Rightarrow> bool" where
  "addressed (Ask owner w code name) a \<longleftrightarrow> agent_code a = js_upper code"
| "addressed (Withdraw owner w code) a \<longleftrightarrow> agent_code a = js_upper code"
| "addressed (Cut owner w code) a \<longleftrightarrow> agent_code a = js_upper code"
| "addressed (AcceptLink code uuid) a \<longleftrightarrow> agent_code a = js_upper code \<and> agent_uuid a = uuid"
| "addressed (RejectLink code uuid) a \<longleftrightarrow> agent_code a = js_upper code \<and> agent_uuid a = uuid"

definition link_of :: "agents_row \<Rightarrow> connection_status \<times> nat option" where
  "link_of a = (agent_connection a, agent_parent_workspace a)"

inductive link_step ::
  "hub \<Rightarrow> link_request \<Rightarrow> connection_status \<times> nat option \<Rightarrow> connection_status \<times> nat option \<Rightarrow> bool" for h where
  Asked: "owned_workspace owner w h \<noteq> None \<Longrightarrow>
    link_step h (Ask owner w code name) (Unlinked, p) (Requested, Some w)"
| Unsent: "owned_workspace owner w h \<noteq> None \<Longrightarrow>
    link_step h (Ask owner w code name) (Unlinked, p) (Unlinked, None)"
| Withdrawn: "owned_workspace owner w h \<noteq> None \<Longrightarrow>
    link_step h (Withdraw owner w code) (Requested, Some w) (Unlinked, None)"
| Cut_off: "owned_workspace owner w h \<noteq> None \<Longrightarrow>
    link_step h (Cut owner w code) (Linked, Some w) (Unlinked, None)"
| Accepted: "link_step h (AcceptLink code uuid) (Requested, p) (Linked, p)"
| Rejected: "link_step h (RejectLink code uuid) (Requested, p) (Unlinked, None)"

inductive_simps link_step_simps:
  "link_step h (Ask owner w code name) a b" "link_step h (Withdraw owner w code) a b"
  "link_step h (Cut owner w code) a b" "link_step h (AcceptLink code uuid) a b"
  "link_step h (RejectLink code uuid) a b"

definition follows :: "hub \<Rightarrow> link_request \<Rightarrow> agents_row \<Rightarrow> agents_row \<Rightarrow> bool" where
  "follows h r a b \<longleftrightarrow> b = a \<or> addressed r a \<and> link_step h r (link_of a) (link_of b)
     \<and> b = a\<lparr>agent_connection := agent_connection b, agent_parent_workspace := agent_parent_workspace b\<rparr>"

lemma follows_refl [simp]: "follows h r a a"
  by (simp add: follows_def)

lemma follows_update:
  assumes "\<And>a. a \<in> set as \<Longrightarrow> P a \<Longrightarrow> follows h r a (f a)"
  shows "list_all2 (follows h r) as (update_rows P f as)"
  using assms by (auto simp: update_rows_def list_all2_conv_all_nth)

lemma by_code: "distinct (map agent_code as) \<Longrightarrow> a \<in> set as \<Longrightarrow> b \<in> set as \<Longrightarrow>
    agent_code a = agent_code b \<Longrightarrow> a = b"
  by (meson distinct_map inj_onD)

lemma link_agent_follows:
  assumes "distinct (map agent_code (agents h0))" and "a \<in> set (agents h0)" and "addressed r a"
    and "link_step h r (link_of a) (c, p)"
  shows "list_all2 (follows h r) (agents h0) (agents (link_agent (agent_code a) c p h0))"
  unfolding link_agent_def update_agents_def
  by simp (rule follows_update, use assms by_code [OF assms(1,2)] in \<open>force simp: follows_def link_of_def\<close>)

lemma link_agent_twice:
  "agents h2 = agents (link_agent c s' p' h) \<Longrightarrow> agents (link_agent c s p h2) = agents (link_agent c s p h)"
  by (auto simp: link_agent_def update_agents_def update_rows_def)

lemma agents_frame [simp]:
  "agents (notifyWorkspaceUpdated x h) = agents h" "agents (snd (disconnectAgent cfg u h)) = agents h"
  "owned_workspace o' w (link_agent c s p h) = owned_workspace o' w h"
  by (auto simp: notifyWorkspaceUpdated_def notifyAgentUpdated_def emitToWorkspace_def emit_def disconnectAgent_def
      clearOfflineTimer_def owned_workspace_def Let_def split: option.split prod.split)

lemma workspace_agentD:
  "workspace_agent owner w code h = Some a \<Longrightarrow> a \<in> set (agents h) \<and> agent_code a = js_upper code
     \<and> agent_parent_workspace a = Some w \<and> owned_workspace owner w h \<noteq> None"
  by (auto simp: workspace_agent_def owned_workspace_def parent_matches_def list_ex_iff find_None_iff
      dest!: find_SomeD)

text \<open>C22: the connection of an agent to a workspace follows its state machine. Each of the five requests leaves
  every agent row alone but the one it names, of which it changes only the connection and the
  workspace, by the step it stands for: only the owner of an existing workspace can ask an unlinked
  agent for it, withdraw the request or cut the link, and an agent gets linked only by accepting a
  request, to the workspace that asked. Agent codes are a unique column.\<close>

theorem connection_follows_machine:
  assumes "distinct (map agent_code (agents h))"
  shows "list_all2 (follows h r) (agents h) (agents (serve_link cfg r h))"
proof (cases r)
  case (Ask owner w code name)
  have same: "list_all2 (follows h r) (agents h) (agents h)" by (simp add: list_all2_conv_all_nth)
  show ?thesis
  proof (cases "find (\<lambda>a. agent_code a = js_upper code) (agents h)")
    case (Some a)
    then have a: "a \<in> set (agents h)" "addressed r a" by (auto simp: Ask dest: find_SomeD)
    have "list_all2 (follows h r) (agents h) (agents (link_agent (agent_code a) c p h))"
      if "owned_workspace owner w h \<noteq> None" "agent_connection a = Unlinked"
        "(c, p) \<in> {(Requested, Some w), (Unlinked, None)}" for c p
      using that by (intro link_agent_follows [OF assms a]) (auto simp: Ask link_step_simps link_of_def)
    with Some same show ?thesis
      by (cases "agent_connection a")
        (auto simp: Ask requestConnectWorkspaceAndAgent_def split_beta Let_def
          link_agent_twice [where h = h and s' = Requested and p' = "Some w"] split: option.split)
  qed (use same in \<open>auto simp: Ask requestConnectWorkspaceAndAgent_def split: option.split\<close>)
next
  case (Withdraw owner w code)
  show ?thesis
    using link_agent_follows [OF assms, where h = h and r = r and c = Unlinked and p = None] workspace_agentD [of owner w code h]
    by (auto simp: Withdraw cancelWorkspaceAgentConnectionRequest_def split_beta link_of_def link_step_simps
        list_all2_refl split: option.split)
next
  case (Cut owner w code)
  show ?thesis
    using link_agent_follows [OF assms, where h = h and r = r and c = Unlinked and p = None] workspace_agentD [of owner w code h]
    by (auto simp: Cut disconnectWorkspaceAgent_def split_beta link_of_def link_step_simps
        list_all2_refl split: option.split)
next
  case (AcceptLink code uuid)
  show ?thesis
    by (auto simp: AcceptLink handleAcceptConnectRequest_def update_agents_def list_all2_refl Let_def
        split: option.split intro!: follows_update)
      (auto simp: follows_def link_of_def link_step_simps requested_agent_def)
next
  case (RejectLink code uuid)
  show ?thesis
    by (auto simp: RejectLink handleRejectConnectRequest_def update_agents_def list_all2_refl Let_def
        split: option.split intro!: follows_update)
      (auto simp: follows_def link_of_def link_step_simps requested_agent_def)
qed

lemma connection_follows_machine_witness:
  "list_all2 (follows owner_hub (Cut 7 1 ''red-fox''))
      (agents owner_hub) (agents (serve_link example_config (Cut 7 1 ''red-fox'') owner_hub))
   \<and> map link_of (agents owner_hub) = [(Linked, Some 1)]
   \<and> map link_of (agents (serve_link example_config (Cut 7 1 ''red-fox'') owner_hub)) = [(Unlinked, None)]"
proof -
  have "distinct (map agent_code (agents owner_hub))" by code_simp
  from connection_follows_machine [OF this] show ?thesis by (intro conjI) (blast | code_simp)+
qed

lemma deleted_rows:
  assumes "handleDeleteWorkspace cfg owner i display confirmation h = (Inr t, h')"
  shows "workspaces h' = update_rows (\<lambda>v. workspace_index v = i \<and> owns_workspace owner v)
      (\<lambda>v. v\<lparr>workspace_deleted_at := Some (clock h), workspace_subdomain_active := False,
             workspace_dns_record_id := None\<rparr>) (workspaces h) \<and> agents h' = agents h"
proof -
  obtain v where v: "owned_workspace owner i h = Some v"
    using assms by (cases "owned_workspace owner i h") (simp_all add: handleDeleteWorkspace_def)
  let ?h = "if falsy (workspace_dns_record_id v) then h
    else h\<lparr>dnsCalls := dnsCalls h @ [DnsDelete (the (workspace_dns_record_id v))]\<rparr>"
  have "confirmation = display @ ''/'' @ workspace_name v
    \<and> (falsy (workspace_dns_record_id v) \<or> cfg_dns_delete cfg (the (workspace_dns_record_id v)) = Some True)"
  proof (rule ccontr)
    assume "\<not> ?thesis"
    then have "\<exists>e. fst (handleDeleteWorkspace cfg owner i display confirmation h) = Inl e"
      using v by (simp add: handleDeleteWorkspace_def deleteDnsRecord_def throw_def)
    then show False by (simp add: assms)
  qed
  then have "handleDeleteWorkspace cfg owner i display confirmation h = (Inr (clock ?h), ?h\<lparr>workspaces :=
      update_rows (\<lambda>v. workspace_index v = i \<and> owns_workspace owner v)
        (\<lambda>v. v\<lparr>workspace_deleted_at := Some (clock ?h), workspace_subdomain_active := False,
               workspace_dns_record_id := None\<rparr>) (workspaces ?h)\<rparr>)"
    using v by (auto simp: handleDeleteWorkspace_def deleteDnsRecord_def Let_def)
  then show ?thesis using assms by simp
qed

text \<open>C24: deleting a workspace strands its agents. The deletion leaves the agents linked to it as they are,
  and afterwards no user can free such an agent: asking for it, withdrawing and cutting are each answered with
  an error and leave the whole state of the hub as it was, whichever user asks and whatever workspace is named.\<close>

theorem deleted_workspace_strands_agents:
  assumes "handleDeleteWorkspace cfg owner i display confirmation h = (Inr t, h')"
    and "distinct (map workspace_index (workspaces h))" and "distinct (map agent_code (agents h))"
    and "a \<in> set (agents h)" and "agent_connection a = Linked" and "agent_parent_workspace a = Some i"
    and "js_upper code = agent_code a"
  shows "a \<in> set (agents h')
    \<and> (\<exists>e. requestConnectWorkspaceAndAgent cfg u w code n h' = (Inl e, h'))
    \<and> (\<exists>e. cancelWorkspaceAgentConnectionRequest cfg u w code h' = (Inl e, h'))
    \<and> (\<exists>e. disconnectWorkspaceAgent cfg u w code h' = (Inl e, h'))"
proof -
  obtain v where v: "owned_workspace owner i h = Some v"
    using assms(1) by (cases "owned_workspace owner i h") (auto simp: handleDeleteWorkspace_def)
  have rows: "workspaces h' = update_rows (\<lambda>v. workspace_index v = i \<and> owns_workspace owner v)
      (\<lambda>v. v\<lparr>workspace_deleted_at := Some (clock h), workspace_subdomain_active := False,
             workspace_dns_record_id := None\<rparr>) (workspaces h)" and ag: "agents h' = agents h"
    using deleted_rows [OF assms(1)] by simp_all
  have gone: "workspace_deleted_at x \<noteq> None" if x_in: "x \<in> set (workspaces h')" "workspace_index x = i" for x
  proof -
    obtain y where y: "y \<in> set (workspaces h)" and x: "x = (if workspace_index y = i \<and> owns_workspace owner y
        then y\<lparr>workspace_deleted_at := Some (clock h), workspace_subdomain_active := False,
               workspace_dns_record_id := None\<rparr> else y)"
      using x_in(1) unfolding rows in_update_rows by blast
    then have "workspace_index y = i" using x_in(2) by (simp split: if_splits)
    then have "y = v" using y owned_workspace_in [OF v] assms(2) by (metis distinct_map inj_onD)
    then show ?thesis using x owned_workspace_in [OF v] by simp
  qed
  have the_a: "b = a" if "b \<in> set (agents h)" "agent_code b = js_upper code" for b
    using by_code [OF assms(3) that(1) assms(4)] that(2) assms(7) by simp
  have found: "find (\<lambda>b. agent_code b = js_upper code) (agents h') = Some a"
  proof (cases "find (\<lambda>b. agent_code b = js_upper code) (agents h')")
    case None
    then show ?thesis using assms(4,7) by (auto simp: ag find_None_iff)
  next
    case (Some b)
    then show ?thesis using the_a [of b] find_SomeD [OF Some] by (simp add: ag)
  qed
  have none: "workspace_agent u w code h' = None"
  proof (rule ccontr)
    assume "workspace_agent u w code h' \<noteq> None"
    then obtain b where b: "workspace_agent u w code h' = Some b" by blast
    with workspace_agentD [OF b] the_a have "b = a" "w = i" using assms(6) by (auto simp: ag)
    moreover obtain y where "owned_workspace u w h' = Some y" using workspace_agentD [OF b] by blast
    ultimately show False using gone [of y] owned_workspace_in [of u w h' y] by simp
  qed
  show ?thesis
    using assms(4,5) found none
    by (auto simp: ag requestConnectWorkspaceAndAgent_def cancelWorkspaceAgentConnectionRequest_def
        disconnectWorkspaceAgent_def throw_def split: option.split)
qed

lemma deleted_workspace_strands_agents_witness:
  "\<exists>h'. handleDeleteWorkspace example_config 7 1 ''me'' ''me/w'' owner_hub = (Inr (clock owner_hub), h')
     \<and> example_agent \<in> set (agents h')
     \<and> (\<exists>e. disconnectWorkspaceAgent example_config 7 1 ''RED-FOX'' h' = (Inl e, h'))"
proof -
  let ?r = "handleDeleteWorkspace example_config 7 1 ''me'' ''me/w'' owner_hub"
  have "fst ?r = Inr (clock owner_hub)" by code_simp
  then have del: "?r = (Inr (clock owner_hub), snd ?r)" by (cases ?r) simp
  have "distinct (map workspace_index (workspaces owner_hub))" "distinct (map agent_code (agents owner_hub))"
    "example_agent \<in> set (agents owner_hub)" "agent_connection example_agent = Linked"
    "agent_parent_workspace example_agent = Some 1" "js_upper ''RED-FOX'' = agent_code example_agent"
    by code_simp+
  from deleted_workspace_strands_agents [OF del this] del show ?thesis by blast
qed

end
