(* ===== verification/Api.thy ===== *)
theory Api
  imports Requests ServiceRules WorkspaceRules AgentGateway
begin

text \<open>
  The HTTP interface: the controllers under \<open>src/*/v1/\<close> with their guards and the rules of their
  request bodies, and the way of a request through origin check, guards, validation, handler and
  exception filter. A body holds values of the declared types; of the class-validator rules those
  with a pattern, a length or a list of reserved names are checked here, those that only name a
  validator of the library (an email address, a uuid) are taken as passed.
\<close>

section \<open>Answers\<close>

datatype answer =
    NoData
  | EmailExists bool
  | CodeAnswer code_check
  | EmailAnswer string
  | SecretAnswer string
  | ActiveAnswer bool
  | TotpStatus "bool option" "int option"
  | TokenAnswer string
  | MeAnswer string string user_permission
  | ServiceAnswer services_row
  | ServicesAnswer "service_view list"
  | IndexAnswer nat
  | ScopeAnswer nat string
  | ContainerAnswer nat string
  | BlockAnswer block_view
  | AddressAnswer nat "string option"
  | EndpointsAnswer nat "string option" "service_endpoint list"
  | WorkspaceAnswer workspaces_row
  | ValidAnswer bool
  | WorkspacesAnswer "workspace_item list"
  | DeletedAnswer int
  | AgentAnswer agents_row
  | SubdomainAnswer subdomain_view
  | InfoAnswer workspace_info
  | AgentsAnswer "agent_view list"
  | ReleasesAnswer "release_view list"
  | BlockedAnswer string string
  | VersionAnswer string

definition envelope :: "string \<Rightarrow> string \<Rightarrow> answer \<Rightarrow> answer response" where
  "envelope code message x = \<lparr>resp_status = 200, resp_code = Some code, resp_message = message,
     resp_data = Some x, resp_cookies = []\<rparr>"

type_synonym reply = "(http_error + answer response) \<times> hub"

definition reply_with ::
  "string \<Rightarrow> ('a \<Rightarrow> string) \<Rightarrow> ('a \<Rightarrow> answer) \<Rightarrow> (http_error + 'a) \<times> hub \<Rightarrow> reply" where
  "reply_with code message f m = andThen m (\<lambda>x. give (envelope code (message x) (f x)))"

lemma snd_reply_with [simp]: "snd (reply_with code message f m) = snd m"
  by (cases m) (auto simp: reply_with_def andThen_def split: sum.split)

text \<open>A path parameter read by \<open>parseInt\<close>: no digits make a query that Prisma refuses; no row has a
  negative index.\<close>

definition parseInt :: "string \<Rightarrow> int option" where
  "parseInt s =
     (let t = dropWhile is_space s;
          negative = (t \<noteq> [] \<and> hd t = CHR ''-'');
          digits = takeWhile is_digit (if t \<noteq> [] \<and> hd t \<in> {CHR ''-'', CHR ''+''} then tl t else t)
      in if digits = [] then None
         else Some (if negative then - int (dec_value digits) else int (dec_value digits)))"

definition with_index :: "string \<Rightarrow> hub \<Rightarrow> (nat \<Rightarrow> hub \<Rightarrow> reply) \<Rightarrow> reply" where
  "with_index param h k =
     (case parseInt param of
        None \<Rightarrow> throw (InternalError ''Internal server error'') h
      | Some i \<Rightarrow> k (nat i) h)"

section \<open>Accounts\<close>

datatype auth_route =
    CheckEmail string
  | VerifyEmail string
  | CheckCode string
  | VerifyMe
  | ConfirmEmail string
  | Register register_form
  | Login login_form
  | Logout
  | Setup2FA
  | Confirm2FA jval
  | Remove2FA jval
  | Status2FA
  | MintToken token_purpose string jval
  | Me
  | Password password_form

definition with_tokens :: "config \<Rightarrow> string \<Rightarrow> (http_error + string \<times> string) \<times> hub \<Rightarrow> reply" where
  "with_tokens cfg message m =
     andThen m (\<lambda>tokens. give ((envelope SUCCESS_CODE message NoData)
       \<lparr>resp_cookies := CookieInterceptor cfg tokens\<rparr>))"

definition text_token :: "jval \<Rightarrow> http_error + string" where
  "text_token tok =
     (case tok of JStr s \<Rightarrow> Inr (js_trim s) | v \<Rightarrow> Inl (BadRequest ''TOTP code must be a string.''))"

definition six_digits :: "jval \<Rightarrow> bool" where
  "six_digits v = (case v of JStr s \<Rightarrow> length s = 6 \<and> list_all is_digit s | w \<Rightarrow> False)"

text \<open>The routes open to anyone, and those behind \<open>JwtGuard\<close>, which get the user.\<close>

fun auth_open :: "config \<Rightarrow> auth_route \<Rightarrow> string option \<Rightarrow> hub \<Rightarrow> reply option" where
  "auth_open cfg (CheckEmail email) tok h =
     Some (give \<lparr>resp_status = 200, resp_code = None, resp_message = [],
       resp_data = Some (EmailExists (checkEmail email h)), resp_cookies = []\<rparr> h)"
| "auth_open cfg (VerifyEmail email) tok h =
     Some (reply_with SUCCESS_CODE (\<lambda>u. ''Verification Email Sent.'') (\<lambda>u. NoData) (verifyEmail cfg email h))"
| "auth_open cfg (CheckCode code) tok h =
     (let r = isValidVerificationCode cfg code h
      in Some (give (case r of
           CodeValid e \<Rightarrow> envelope SUCCESS_CODE ''Valid Verification Code.'' (CodeAnswer r)
         | _ \<Rightarrow> envelope FAIL_CODE ''Invalid Verification Code.'' (CodeAnswer r)) h))"
| "auth_open cfg (ConfirmEmail code) tok h =
     Some (reply_with SUCCESS_CODE (\<lambda>e. ''Email Verified.'') EmailAnswer (verifyExistingEmail cfg code h))"
| "auth_open cfg (Register dto) tok h =
     Some (with_tokens cfg ''Register and Logged In Successfully.'' (register_user cfg dto h))"
| "auth_open cfg (Login dto) tok h =
     Some (with_tokens cfg ''Logged In Successfully.'' (login cfg dto h))"
| "auth_open cfg Logout tok h =
     Some (give ((envelope SUCCESS_CODE ''Logged Out Successfully.'' NoData)
       \<lparr>resp_cookies := clearCookies cfg\<rparr>) (revokeRefreshToken cfg tok h))"
| "auth_open cfg r tok h = None"

fun auth_guarded :: "config \<Rightarrow> auth_route \<Rightarrow> users_row \<Rightarrow> jval \<Rightarrow> hub \<Rightarrow> reply" where
  "auth_guarded cfg VerifyMe u hdr h =
     reply_with SUCCESS_CODE (\<lambda>u. ''Verification Email Sent.'') (\<lambda>u. NoData)
       (requestExistingEmailVerification cfg (user_index u) h)"
| "auth_guarded cfg Setup2FA u hdr h =
     reply_with SUCCESS_CODE (\<lambda>s. ''Two-factor authentication setup is ready.'') SecretAnswer
       (generate2FASecret cfg (user_email u) h)"
| "auth_guarded cfg (Confirm2FA tok) u hdr h =
     reply_with SUCCESS_CODE (\<lambda>b. ''Two-factor authentication is enabled.'') (\<lambda>b. ActiveAnswer True)
       (andThen (check (text_token tok) h) (\<lambda>t. confirm2FA cfg (user_index u) t))"
| "auth_guarded cfg (Remove2FA tok) u hdr h =
     reply_with SUCCESS_CODE (\<lambda>b. ''Two-factor authentication is disabled.'') (\<lambda>b. ActiveAnswer False)
       (andThen (check (text_token tok) h) (\<lambda>t. remove2FA cfg (user_index u) t))"
| "auth_guarded cfg Status2FA u hdr h =
     give (envelope SUCCESS_CODE ''OK'' (case is2FAActive (user_index u) h of (a, t) \<Rightarrow> TotpStatus a t)) h"
| "auth_guarded cfg (MintToken purpose agentUuid totp) u hdr h =
     andThen (TwoFactorGuard cfg (Some (user_index u)) hdr (JObj [(''totpCode'', totp)]) h) (\<lambda>ok h1.
       if \<not> six_digits totp then throw (BadRequest ''totpCode must match the pattern'') h1
       else reply_with SUCCESS_CODE (\<lambda>t. ''Terminal access granted.'') TokenAnswer
              (mintPurposeToken cfg (user_index u) purpose agentUuid h1))"
| "auth_guarded cfg Me u hdr h =
     give (envelope SUCCESS_CODE ''Verified.''
       (MeAnswer (user_display u) (user_email u) (user_permission u))) h"
| "auth_guarded cfg (Password dto) u hdr h =
     reply_with SUCCESS_CODE (\<lambda>u. ''Password changed successfully.'') (\<lambda>u. NoData)
       (changePassword cfg (user_index u) dto h)"
| "auth_guarded cfg r u hdr h = throw (NotFound ''Not Found'') h"

section \<open>Services\<close>

fun service_controller :: "config \<Rightarrow> nat \<Rightarrow> service_request \<Rightarrow> hub \<Rightarrow> reply" where
  "service_controller cfg u (CreateService body) h =
     reply_with SUCCESS_CODE (\<lambda>x. ''Service Created Successfully.'') ServiceAnswer
       (handleCreateService cfg u body h)"
| "service_controller cfg u (DeleteService i scope) h =
     reply_with SUCCESS_CODE (\<lambda>x. ''Delete Command Sent.'') (\<lambda>(n, s). ScopeAnswer n s)
       (handleDeleteService cfg u i scope h)"
| "service_controller cfg u (RedeployService i body) h =
     reply_with SUCCESS_CODE (\<lambda>x. ''Redeploy Command Sent.'') ServiceAnswer
       (handleRedeployService cfg u i body h)"
| "service_controller cfg u (StartService i) h =
     reply_with SUCCESS_CODE (\<lambda>x. ''Server Start Commend Sent.'') IndexAnswer (handleStartService cfg u i h)"
| "service_controller cfg u (StopService i) h =
     reply_with SUCCESS_CODE (\<lambda>x. ''Server Stop Command Sent.'') IndexAnswer (handleStopService cfg u i h)"
| "service_controller cfg u (StartContainer i c) h =
     reply_with SUCCESS_CODE (\<lambda>x. ''Container Start Command Sent.'') (\<lambda>(n, s). ContainerAnswer n s)
       (handleStartContainer cfg u i c h)"
| "service_controller cfg u (StopContainer i c) h =
     reply_with SUCCESS_CODE (\<lambda>x. ''Container Stop Command Sent.'') (\<lambda>(n, s). ContainerAnswer n s)
       (handleStopContainer cfg u i c h)"
| "service_controller cfg u (RestartContainer i c) h =
     reply_with SUCCESS_CODE (\<lambda>x. ''Container Restart Command Sent.'') (\<lambda>(n, s). ContainerAnswer n s)
       (handleRestartContainer cfg u i c h)"
| "service_controller cfg u (BlockTraffic i options) h =
     reply_with SUCCESS_CODE (\<lambda>x. ''Service Traffic Blocked.'') BlockAnswer
       (handleBlockServiceTraffic u i options h)"
| "service_controller cfg u (UnblockTraffic i) h =
     reply_with SUCCESS_CODE (\<lambda>x. ''Service Traffic Unblocked.'') BlockAnswer
       (handleUnblockServiceTraffic u i h)"
| "service_controller cfg u (UpdateSubdomain i sub) h =
     reply_with SUCCESS_CODE (\<lambda>x. ''Subdomain Updated Successfully.'') (\<lambda>(n, s). AddressAnswer n s)
       (handleUpdateServiceSubdomain u i sub h)"
| "service_controller cfg u (UpdateEndpoints i eps) h =
     reply_with SUCCESS_CODE (\<lambda>x. ''Endpoints Updated Successfully.'') (\<lambda>(n, s, es). EndpointsAnswer n s es)
       (handleUpdateServiceEndpoints u i eps h)"

definition found :: "'a list \<Rightarrow> string \<Rightarrow> string" where
  "found xs what = ''Found '' @ show_nat (length xs) @ what"

definition service_list_controller :: "nat \<Rightarrow> string \<Rightarrow> hub \<Rightarrow> reply" where
  "service_list_controller u param h =
     with_index param h (\<lambda>i h. reply_with SUCCESS_CODE (\<lambda>xs. found xs '' Services.'') ServicesAnswer
       (handleGetServiceList u i h))"

section \<open>Workspaces\<close>

datatype workspace_route =
    PostWorkspace "string option" "string option"
  | CheckWorkspaceName string
  | ListWorkspaces
  | DeleteWorkspaceRoute string "string option"
  | ConnectAgent string string
  | DisconnectAgentRoute string string
  | CancelAgentRequest string string
  | PatchSubdomain string "string option"
  | PatchSubdomainActive string bool
  | WorkspaceInformation string

fun workspace_controller :: "config \<Rightarrow> users_row \<Rightarrow> workspace_route \<Rightarrow> hub \<Rightarrow> reply" where
  "workspace_controller cfg u (PostWorkspace name sub) h =
     reply_with SUCCESS_CODE (\<lambda>x. ''Created Successfully.'') WorkspaceAnswer
       (handleCreateWorkspace cfg (user_index u) name sub h)"
| "workspace_controller cfg u (CheckWorkspaceName name) h =
     (let v = handleValidateWorkspace (user_index u) name h
      in give (envelope SUCCESS_CODE (if v then ''This Workspace Name is Valid.''
           else ''This Workspace Name is Already Using.'') (ValidAnswer v)) h)"
| "workspace_controller cfg u ListWorkspaces h =
     (let xs = handleGetWorkspaceList (user_index u) h
      in give (envelope SUCCESS_CODE (found xs '' Workspaces Successfully.'') (WorkspacesAnswer xs)) h)"
| "workspace_controller cfg u (DeleteWorkspaceRoute param confirmation) h =
     with_index param h (\<lambda>i h. reply_with SUCCESS_CODE (\<lambda>x. ''Deleted Workspace Successfully.'') DeletedAnswer
       (handleDeleteWorkspace cfg (user_index u) i (user_display u)
         (case confirmation of None \<Rightarrow> [] | Some c \<Rightarrow> c) h))"
| "workspace_controller cfg u (ConnectAgent param code) h =
     with_index param h (\<lambda>i h. reply_with SUCCESS_CODE
       (\<lambda>x. ''Connect Request Sent. Please Check Agent-Side Dashboard.'') AgentAnswer
       (requestConnectWorkspaceAndAgent cfg (user_index u) i code (user_display u) h))"
| "workspace_controller cfg u (DisconnectAgentRoute param code) h =
     with_index param h (\<lambda>i h. reply_with SUCCESS_CODE (\<lambda>x. ''Agent Disconnected Successfully.'') AgentAnswer
       (disconnectWorkspaceAgent cfg (user_index u) i code h))"
| "workspace_controller cfg u (CancelAgentRequest param code) h =
     with_index param h (\<lambda>i h. reply_with SUCCESS_CODE
       (\<lambda>x. ''Agent Connection Request Cancelled Successfully.'') AgentAnswer
       (cancelWorkspaceAgentConnectionRequest cfg (user_index u) i code h))"
| "workspace_controller cfg u (PatchSubdomain param sub) h =
     with_index param h (\<lambda>i h. reply_with SUCCESS_CODE (\<lambda>x. ''Subdomain Updated Successfully.'') SubdomainAnswer
       (handleUpdateWorkspaceSubdomain cfg (user_index u) i sub h))"
| "workspace_controller cfg u (PatchSubdomainActive param active) h =
     with_index param h (\<lambda>i h. reply_with SUCCESS_CODE
       (\<lambda>x. if active then ''Subdomain Activated Successfully.'' else ''Subdomain Deactivated Successfully.'')
       SubdomainAnswer (handleToggleWorkspaceSubdomain cfg (user_index u) i active h))"
| "workspace_controller cfg u (WorkspaceInformation name) h =
     reply_with NOT_IMPLEMENTED_CODE (\<lambda>x. ''Success.'') InfoAnswer
       (handleGetWorkspaceInformation (user_index u) name h)"

section \<open>Agents and releases\<close>

datatype agent_route = AgentList string | PostUpdate string string | AcknowledgeUpdate string

fun agent_controller :: "config \<Rightarrow> nat \<Rightarrow> agent_route \<Rightarrow> hub \<Rightarrow> reply" where
  "agent_controller cfg u (AgentList param) h =
     with_index param h (\<lambda>i h. case getAgentList cfg u i h of (xs, h1) \<Rightarrow>
       give (envelope SUCCESS_CODE (found xs '' Agents.'') (AgentsAnswer xs)) h1)"
| "agent_controller cfg u (PostUpdate agentUuid version) h =
     reply_with SUCCESS_CODE (\<lambda>x. ''Update requested.'') (\<lambda>x. NoData) (requestUpdate cfg agentUuid version h)"
| "agent_controller cfg u (AcknowledgeUpdate agentUuid) h =
     give (envelope SUCCESS_CODE ''Acknowledged.'' NoData) (acknowledge agentUuid h)"

datatype agent_open_route = AcceptConnect string string | RejectConnect string string | Heartbeat

fun agent_open_controller :: "agent_open_route \<Rightarrow> hub \<Rightarrow> reply" where
  "agent_open_controller (AcceptConnect code uuid) h =
     reply_with CONNECTED_CODE (\<lambda>x. ''Accepted Connection Request.'') (\<lambda>x. NoData)
       (handleAcceptConnectRequest code uuid h)"
| "agent_open_controller (RejectConnect code uuid) h =
     reply_with CONNECTED_CODE (\<lambda>x. ''Rejected Connection Request.'') (\<lambda>x. NoData)
       (handleRejectConnectRequest code uuid h)"
| "agent_open_controller Heartbeat h =
     give \<lparr>resp_status = 200, resp_code = None, resp_message = [], resp_data = None, resp_cookies = []\<rparr> h"

definition MAX_BLOCK_REASON_LENGTH :: nat where
  "MAX_BLOCK_REASON_LENGTH = 200"

datatype release_route =
    ListReleases "string option"
  | BlockRelease string "string option"
  | UnblockRelease string
  | SyncReleases

fun release_controller :: "config \<Rightarrow> users_row \<Rightarrow> release_route \<Rightarrow> hub \<Rightarrow> reply" where
  "release_controller cfg u (ListReleases channel) h =
     (case listReleases cfg (channel = Some ''beta'') h of (xs, h1) \<Rightarrow>
       give (envelope SUCCESS_CODE (found xs '' releases.'') (ReleasesAnswer xs)) h1)"
| "release_controller cfg u (BlockRelease version reason) h =
     andThen (check (PermissionGuard [Administrator] (Some u)) h) (\<lambda>ok h.
     (let r = (case reason of None \<Rightarrow> [] | Some s \<Rightarrow> js_trim s)
      in if r = [] then throw (BadRequest ''A reason is required.'') h
         else if length r > MAX_BLOCK_REASON_LENGTH then throw (BadRequest ''The reason is too long.'') h
         else reply_with SUCCESS_CODE (\<lambda>x. ''Blocked agent release '' @ version @ ''.'')
                (\<lambda>x. BlockedAnswer version r) (blockRelease version r h)))"
| "release_controller cfg u (UnblockRelease version) h =
     andThen (check (PermissionGuard [Administrator] (Some u)) h) (\<lambda>ok h.
       reply_with SUCCESS_CODE (\<lambda>x. ''Unblocked agent release '' @ version @ ''.'')
         (\<lambda>x. VersionAnswer version) (unblockRelease version h))"
| "release_controller cfg u SyncReleases h =
     reply_with SUCCESS_CODE (\<lambda>x. ''Release catalog synced.'') (\<lambda>x. NoData) (runSync cfg h)"

section \<open>The way of a request\<close>

datatype route =
    Auth auth_route
  | Services service_request
  | ServiceList string
  | Workspaces workspace_route
  | Agents agent_route
  | AgentsOpen agent_open_route
  | Releases release_route

record http_request =
  rq_origin :: "string option"
  rq_accessToken :: "string option"
  rq_refreshToken :: "string option"
  rq_totpHeader :: jval
  rq_route :: route

fun http_method :: "route \<Rightarrow> string" where
  "http_method (Auth r) =
     (case r of Remove2FA t \<Rightarrow> ''DELETE'' | Status2FA \<Rightarrow> ''GET'' | Me \<Rightarrow> ''GET'' | Password f \<Rightarrow> ''PATCH''
      | _ \<Rightarrow> ''POST'')"
| "http_method (Services r) =
     (case r of DeleteService i s \<Rightarrow> ''DELETE'' | UpdateSubdomain i s \<Rightarrow> ''PATCH'' | UpdateEndpoints i e \<Rightarrow> ''PATCH''
      | _ \<Rightarrow> ''POST'')"
| "http_method (ServiceList p) = ''GET''"
| "http_method (Workspaces r) =
     (case r of ListWorkspaces \<Rightarrow> ''GET'' | WorkspaceInformation n \<Rightarrow> ''GET'' | DeleteWorkspaceRoute p c \<Rightarrow> ''DELETE''
      | DisconnectAgentRoute p c \<Rightarrow> ''DELETE'' | CancelAgentRequest p c \<Rightarrow> ''DELETE''
      | PatchSubdomain p s \<Rightarrow> ''PATCH'' | PatchSubdomainActive p a \<Rightarrow> ''PATCH'' | _ \<Rightarrow> ''POST'')"
| "http_method (Agents r) = (case r of AgentList p \<Rightarrow> ''GET'' | _ \<Rightarrow> ''POST'')"
| "http_method (AgentsOpen r) = ''POST''"
| "http_method (Releases r) =
     (case r of ListReleases c \<Rightarrow> ''GET'' | UnblockRelease v \<Rightarrow> ''DELETE'' | _ \<Rightarrow> ''POST'')"

definition RESERVED_WORKSPACE_SUBDOMAINS :: "string list" where
  "RESERVED_WORKSPACE_SUBDOMAINS = [''api'', ''docs'', ''console'', ''admin'', ''tunnel'', ''proxy'']"

text \<open>The rules of the bodies with a pattern, a length or a list.\<close>

definition workspace_label :: "string option \<Rightarrow> bool" where
  "workspace_label sub =
     (case sub of None \<Rightarrow> True | Some s \<Rightarrow> is_label s \<and> s \<notin> set RESERVED_WORKSPACE_SUBDOMAINS)"

definition service_label :: "string option \<Rightarrow> bool" where
  "service_label sub = (case sub of None \<Rightarrow> True | Some s \<Rightarrow> s = [] \<or> s = ''@'' \<or> is_label s)"

definition password_length :: "string \<Rightarrow> bool" where
  "password_length s \<longleftrightarrow> 8 \<le> length s \<and> length s \<le> 255"

fun valid_body :: "route \<Rightarrow> bool" where
  "valid_body (Auth (Register dto)) \<longleftrightarrow> rf_verificationCode dto \<noteq> [] \<and> rf_display dto \<noteq> []
     \<and> password_length (rf_password dto) \<and> password_length (rf_passwordConfirm dto)"
| "valid_body (Auth (Login dto)) \<longleftrightarrow> lf_password dto \<noteq> []
     \<and> (case lf_totpCode dto of None \<Rightarrow> True | Some t \<Rightarrow> six_digits (JStr t))"
| "valid_body (Auth (Password dto)) \<longleftrightarrow> pf_currentPassword dto \<noteq> []
     \<and> password_length (pf_newPassword dto) \<and> password_length (pf_newPasswordConfirm dto)"
| "valid_body (Services (UpdateSubdomain i sub)) \<longleftrightarrow> service_label sub"
| "valid_body (Services (BlockTraffic i options)) \<longleftrightarrow>
     (case bo_reason options of None \<Rightarrow> True | Some r \<Rightarrow> length r \<le> 500)"
| "valid_body (Workspaces (PostWorkspace name sub)) \<longleftrightarrow> workspace_label sub"
| "valid_body (Workspaces (PatchSubdomain p sub)) \<longleftrightarrow> workspace_label sub"
| "valid_body (Workspaces (CheckWorkspaceName name)) \<longleftrightarrow> name \<noteq> []"
| "valid_body (Workspaces (ConnectAgent p code)) \<longleftrightarrow> code \<noteq> []"
| "valid_body (AgentsOpen (AcceptConnect code uuid)) \<longleftrightarrow> code \<noteq> [] \<and> uuid \<noteq> []"
| "valid_body (AgentsOpen (RejectConnect code uuid)) \<longleftrightarrow> code \<noteq> [] \<and> uuid \<noteq> []"
| "valid_body r \<longleftrightarrow> True"

definition validated :: "route \<Rightarrow> hub \<Rightarrow> (hub \<Rightarrow> reply) \<Rightarrow> reply" where
  "validated r h k = (if valid_body r then k h else throw (BadRequest ''Bad Request'') h)"

text \<open>The routes that need no login, \<open>None\<close> for the others.\<close>

definition open_route :: "config \<Rightarrow> http_request \<Rightarrow> hub \<Rightarrow> reply option" where
  "open_route cfg rq h =
     (case rq_route rq of
        Auth r \<Rightarrow>
          (case auth_open cfg r (rq_refreshToken rq) h of
             None \<Rightarrow> None | Some m \<Rightarrow> Some (if valid_body (Auth r) then m else throw (BadRequest ''Bad Request'') h))
      | AgentsOpen r \<Rightarrow> Some (validated (AgentsOpen r) h (agent_open_controller r))
      | r \<Rightarrow> None)"

fun guarded_route :: "config \<Rightarrow> users_row \<Rightarrow> jval \<Rightarrow> route \<Rightarrow> hub \<Rightarrow> reply" where
  "guarded_route cfg u hdr (Auth r) h = auth_guarded cfg r u hdr h"
| "guarded_route cfg u hdr (Services r) h = service_controller cfg (user_index u) r h"
| "guarded_route cfg u hdr (ServiceList p) h = service_list_controller (user_index u) p h"
| "guarded_route cfg u hdr (Workspaces r) h = workspace_controller cfg u r h"
| "guarded_route cfg u hdr (Agents r) h = agent_controller cfg (user_index u) r h"
| "guarded_route cfg u hdr (Releases r) h = release_controller cfg u r h"
| "guarded_route cfg u hdr (AgentsOpen r) h = throw (NotFound ''Not Found'') h"

definition dispatch_request :: "config \<Rightarrow> http_request \<Rightarrow> hub \<Rightarrow> reply" where
  "dispatch_request cfg rq h =
     (case open_route cfg rq h of
        Some m \<Rightarrow> m
      | None \<Rightarrow> andThen (check (JwtGuard cfg (rq_accessToken rq) h) h) (\<lambda>u h.
          validated (rq_route rq) h (guarded_route cfg u (rq_totpHeader rq) (rq_route rq))))"

definition handle_request :: "config \<Rightarrow> http_request \<Rightarrow> hub \<Rightarrow> answer response \<times> hub" where
  "handle_request cfg rq h =
     (let method = http_method (rq_route rq)
      in if \<not> origin_passes cfg method (rq_origin rq)
         then (\<lparr>resp_status = 403, resp_code = None, resp_message = ''Origin not allowed.'',
                resp_data = None, resp_cookies = []\<rparr>, h)
         else case dispatch_request cfg rq h of
           (Inr r, h1) \<Rightarrow> (if method = ''POST'' then r\<lparr>resp_status := 201\<rparr> else r, h1)
         | (Inl e, h1) \<Rightarrow>
             if e = TokenExpired
             then (case TokenRefreshFilter cfg (rq_refreshToken rq) h1 of
                     (Inr r, h2) \<Rightarrow> (r, h2) | (Inl e2, h2) \<Rightarrow> (error_response e2, h2))
             else (error_response e, h1))"

end
