(* ===== verification/StoreRules.thy ===== *)
theory StoreRules
  imports Api
begin

text \<open>
  The tables stay well typed: every row has a key of its own below the next key, every reference names
  a row that exists, and an agent has a workspace exactly if it is asked for or linked. The database
  checks most of this by itself (\<open>prisma/schema.prisma\<close>); here it is a consequence of what the
  services check before they write, for every HTTP request and every packet of an agent.
\<close>

section \<open>Well typed tables\<close>

definition user_keys :: "hub \<Rightarrow> nat list" where
  "user_keys h = map user_index (users h)"

definition workspace_refs :: "hub \<Rightarrow> (nat \<times> nat) list" where
  "workspace_refs h = map (\<lambda>w. (workspace_index w, workspace_owner w)) (workspaces h)"

definition agent_refs :: "hub \<Rightarrow> (nat \<times> connection_status \<times> nat option) list" where
  "agent_refs h = map (\<lambda>a. (agent_index a, agent_connection a, agent_parent_workspace a)) (agents h)"

definition service_refs :: "hub \<Rightarrow> (nat \<times> nat \<times> nat) list" where
  "service_refs h = map (\<lambda>s. (service_index s, service_parent_workspace s, service_parent_agent s)) (services h)"

definition component_refs :: "hub \<Rightarrow> (nat \<times> nat) list" where
  "component_refs h = map (\<lambda>c. (component_index c, component_parent_service c)) (service_components h)"

definition endpoint_refs :: "hub \<Rightarrow> (nat \<times> nat \<times> nat) list" where
  "endpoint_refs h =
     map (\<lambda>e. (endpoint_index e, endpoint_parent_workspace e, endpoint_parent_service e)) (service_endpoints h)"

definition keyed :: "nat list \<Rightarrow> nat \<Rightarrow> bool" where
  "keyed ks n \<longleftrightarrow> distinct ks \<and> (\<forall>k\<in>set ks. k < n)"

definition link_ok :: "nat set \<Rightarrow> connection_status \<Rightarrow> nat option \<Rightarrow> bool" where
  "link_ok W c parent \<longleftrightarrow>
     (case parent of None \<Rightarrow> c = Unlinked | Some w \<Rightarrow> c \<noteq> Unlinked \<and> w \<in> W)"

definition keys_ok :: "hub \<Rightarrow> bool" where
  "keys_ok h \<longleftrightarrow> keyed (user_keys h) (next_user h) \<and> keyed (map fst (workspace_refs h)) (next_workspace h)
     \<and> keyed (map fst (agent_refs h)) (next_agent h) \<and> keyed (map fst (service_refs h)) (next_service h)
     \<and> keyed (map fst (component_refs h)) (next_component h)
     \<and> keyed (map fst (endpoint_refs h)) (next_endpoint h)"

definition refs_ok :: "hub \<Rightarrow> bool" where
  "refs_ok h \<longleftrightarrow>
     (\<forall>(i, owner)\<in>set (workspace_refs h). owner \<in> set (user_keys h))
     \<and> (\<forall>(i, c, parent)\<in>set (agent_refs h). link_ok (fst ` set (workspace_refs h)) c parent)
     \<and> (\<forall>(i, w, a)\<in>set (service_refs h). w \<in> fst ` set (workspace_refs h) \<and> a \<in> fst ` set (agent_refs h))
     \<and> (\<forall>(i, s)\<in>set (component_refs h). s \<in> fst ` set (service_refs h))
     \<and> (\<forall>(i, w, s)\<in>set (endpoint_refs h). \<exists>a. (s, w, a) \<in> set (service_refs h))"

definition typed :: "hub \<Rightarrow> bool" where
  "typed h \<longleftrightarrow> keys_ok h \<and> refs_ok h"

section \<open>Operations that keep keys and references\<close>

definition shape :: "hub \<Rightarrow> (nat list \<times> nat) \<times> ((nat \<times> nat) list \<times> nat)
    \<times> ((nat \<times> connection_status \<times> nat option) list \<times> nat) \<times> ((nat \<times> nat \<times> nat) list \<times> nat)
    \<times> ((nat \<times> nat) list \<times> nat) \<times> ((nat \<times> nat \<times> nat) list \<times> nat)" where
  "shape h = ((user_keys h, next_user h), (workspace_refs h, next_workspace h), (agent_refs h, next_agent h),
     (service_refs h, next_service h), (component_refs h, next_component h), (endpoint_refs h, next_endpoint h))"

lemmas refs_defs = user_keys_def workspace_refs_def agent_refs_def service_refs_def component_refs_def
  endpoint_refs_def

named_theorems shape_simps \<open>operations that keep all keys and references\<close>

lemma typed_cong: "shape h2 = shape h \<Longrightarrow> typed h2 = typed h"
  by (simp add: shape_def typed_def keys_ok_def refs_ok_def)

lemma shape_fields [shape_simps]:
  "shape (sent_update f1 h) = shape h" "shape (draws_update f2 h) = shape h" "shape (clock_update f3 h) = shape h"
  "shape (mails_update f4 h) = shape h" "shape (dnsCalls_update f5 h) = shape h"
  "shape (verifications_update f6 h) = shape h" "shape (next_verification_update f7 h) = shape h"
  "shape (refresh_tokens_update f8 h) = shape h" "shape (next_token_update f9 h) = shape h"
  "shape (agent_releases_update g1 h) = shape h" "shape (routeCache_update g2 h) = shape h"
  "shape (sockets_update g3 h) = shape h" "shape (agentUuidToSocketId_update g4 h) = shape h"
  "shape (offlineTimers_update g5 h) = shape h" "shape (pendingDisconnects_update g6 h) = shape h"
  "shape (workspaceIndexCache_update g7 h) = shape h" "shape (updateTimers_update g8 h) = shape h"
  "shape (consoleUsers_update g9 h) = shape h" "shape (roomMembers_update k1 h) = shape h"
  "shape (terminalSessions_update k2 h) = shape h" "shape (metricRequests_update k3 h) = shape h"
  "shape (lastSyncedAt_update k4 h) = shape h" "shape (lastAttemptAt_update k5 h) = shape h"
  "shape (syncTimer_update k6 h) = shape h"
  by (simp_all add: shape_def refs_defs)

lemma map_updated_rows: "(\<And>r. g (f r) = g r) \<Longrightarrow> map g (update_rows P f rows) = map g rows"
  by (simp add: update_rows_def)

lemma shape_rows [shape_simps]:
  "(\<And>r. user_index (f1 r) = user_index r) \<Longrightarrow> shape (h\<lparr>users := update_rows P1 f1 (users h)\<rparr>) = shape h"
  "(\<And>r. workspace_index (f2 r) = workspace_index r \<and> workspace_owner (f2 r) = workspace_owner r) \<Longrightarrow>
   shape (h\<lparr>workspaces := update_rows P2 f2 (workspaces h)\<rparr>) = shape h"
  "(\<And>r. agent_index (f3 r) = agent_index r \<and> agent_connection (f3 r) = agent_connection r
      \<and> agent_parent_workspace (f3 r) = agent_parent_workspace r) \<Longrightarrow>
   shape (update_agents P3 f3 h) = shape h"
  "(\<And>r. service_index (f4 r) = service_index r \<and> service_parent_workspace (f4 r) = service_parent_workspace r
      \<and> service_parent_agent (f4 r) = service_parent_agent r) \<Longrightarrow>
   shape (h\<lparr>services := update_rows P4 f4 (services h)\<rparr>) = shape h"
  "(\<And>r. component_index (f5 r) = component_index r \<and> component_parent_service (f5 r) = component_parent_service r) \<Longrightarrow>
   shape (h\<lparr>service_components := update_rows P5 f5 (service_components h)\<rparr>) = shape h"
  "(\<And>r. endpoint_index (f6 r) = endpoint_index r \<and> endpoint_parent_workspace (f6 r) = endpoint_parent_workspace r
      \<and> endpoint_parent_service (f6 r) = endpoint_parent_service r) \<Longrightarrow>
   shape (h\<lparr>service_endpoints := update_rows P6 f6 (service_endpoints h)\<rparr>) = shape h"
  by (simp_all add: shape_def refs_defs update_agents_def map_updated_rows)

lemma shape_agent [shape_simps]:
  "shape (snd (draw cfg h)) = shape h" "shape (emit m h) = shape h"
  "shape (snd (sendToAgent cfg u e p h)) = shape h" "shape (emitToWorkspace w e p h) = shape h"
  "shape (notifyWorkspaceUpdated w2 h) = shape h" "shape (snd (disconnectAgent cfg u h)) = shape h"
  by (auto simp: draw_def emit_def emitToWorkspace_def notifyWorkspaceUpdated_def notifyAgentUpdated_def
      sendToAgent_def disconnectAgent_def clearOfflineTimer_def Let_def shape_simps split_beta split: option.split)

lemma shape_andThen:
  "shape (snd m) = shape h \<Longrightarrow> (\<And>x s. m = (Inr x, s) \<Longrightarrow> shape (snd (f x s)) = shape s) \<Longrightarrow>
   shape (snd (andThen m f)) = shape h"
  by (cases m) (auto simp: andThen_def split: sum.split)

lemma typed_andThen:
  "typed (snd m) \<Longrightarrow> (\<And>x s. m = (Inr x, s) \<Longrightarrow> typed s \<Longrightarrow> typed (snd (f x s))) \<Longrightarrow> typed (snd (andThen m f))"
  by (cases m) (auto simp: andThen_def split: sum.split)

lemma shape_check [shape_simps]: "shape (snd (andThen (check r h) f)) = (case r of Inl e \<Rightarrow> shape h | Inr x \<Rightarrow> shape (snd (f x h)))"
  by (simp add: check_def split: sum.split)

section \<open>Accounts\<close>

lemma shape_set_user [shape_simps]: "(\<And>u. user_index (f u) = user_index u) \<Longrightarrow> shape (set_user i f h) = shape h"
  by (simp add: set_user_def shape_simps)

lemma shape_set_verification [shape_simps]: "shape (set_verification i f h) = shape h"
  by (simp add: set_verification_def shape_simps)

lemma shape_tokens [shape_simps]:
  "shape (snd (signLoginTokens cfg u h)) = shape h" "shape (revokeRefreshToken cfg tok h) = shape h"
  "shape (snd (signPurposeToken cfg u p a h)) = shape h"
  by (auto simp: signLoginTokens_def revokeRefreshToken_def signPurposeToken_def Let_def split_beta shape_simps
      split: sum.split option.split)

lemma shape_refresh [shape_simps]: "shape (snd (refresh cfg tok h)) = shape h"
proof -
  have sign: "shape h2 = shape g" if "signLoginTokens cfg u g = (r, h2)" for u g r h2
    using shape_tokens(1) [of cfg u g] that by simp
  show ?thesis by (auto simp: refresh_def Let_def shape_simps dest: sign split: option.split sum.split prod.split)
qed

lemma shape_TokenRefreshFilter [shape_simps]: "shape (snd (TokenRefreshFilter cfg tok h)) = shape h"
  unfolding TokenRefreshFilter_def
  by (auto simp: shape_simps give_def intro!: shape_andThen split: option.split)

lemma shape_totp [shape_simps]:
  "shape (snd (confirm2FA cfg i tok h)) = shape h" "shape (snd (remove2FA cfg i tok h)) = shape h"
  "shape (snd (verifyActiveUserTotp cfg i tok h)) = shape h" "shape (snd (TwoFactorGuard cfg j hdr b h)) = shape h"
  by (auto simp: confirm2FA_def remove2FA_def verifyActiveUserTotp_def TwoFactorGuard_def shape_simps
      split: option.split sum.split)

lemma shape_generate2FASecret [shape_simps]: "shape (snd (generate2FASecret cfg e h)) = shape h"
  by (simp add: generate2FASecret_def Let_def split_beta shape_simps split: option.split)
    (simp add: shape_def refs_defs map_updated_rows)

lemma shape_mails [shape_simps]:
  "shape (snd (issueOrReuseVerification cfg e h)) = shape h" "shape (snd (send_mail cfg m h)) = shape h"
  by (auto simp: issueOrReuseVerification_def send_mail_def Let_def split_beta shape_simps split: option.split)

lemma shape_verify [shape_simps]:
  "shape (snd (verifyEmail cfg e h)) = shape h" "shape (snd (requestExistingEmailVerification cfg u h)) = shape h"
  "shape (snd (verifyExistingEmail cfg code h)) = shape h"
  by (auto simp: verifyEmail_def requestExistingEmailVerification_def verifyExistingEmail_def consume_def shape_simps
      intro!: shape_andThen split: option.split)

lemma shape_login [shape_simps]:
  "shape (snd (login cfg dto h)) = shape h" "shape (snd (changePassword cfg u form h)) = shape h"
  "shape (snd (mintPurposeToken cfg u p a h)) = shape h"
  by (auto simp: login_def changePassword_def hash_password_def mintPurposeToken_def Let_def split_beta shape_simps
      intro!: shape_andThen split: option.split)

lemma keyed_snoc: "keyed ks n \<Longrightarrow> keyed (ks @ [n]) (Suc n)"
  by (auto simp: keyed_def less_Suc_eq)

lemma typed_new_user:
  assumes "typed h"
  shows "typed (snd (new_user e d p h))"
  using assms by (auto simp: typed_def keys_ok_def refs_ok_def new_user_def refs_defs keyed_snoc)

lemma typed_register_user:
  assumes "typed h"
  shows "typed (snd (register_user cfg dto h))"
proof -
  have "typed (snd (draw cfg h))" using assms typed_cong [OF shape_agent(1)] by simp
  then have "typed (snd (new_user e d p (snd (draw cfg h))))" for e d p by (rule typed_new_user)
  then have "typed (snd (signLoginTokens cfg u (consume v (snd (new_user e d p (snd (draw cfg h)))))))" for u v e d p
    by (simp add: typed_cong [OF shape_tokens(1)] typed_cong [OF shape_set_verification] consume_def)
  with assms show ?thesis by (auto simp: register_user_def hash_password_def Let_def split_beta split: option.split)
qed

section \<open>Workspaces and agents\<close>

lemma typed_new_workspace:
  assumes "typed h" and "owner \<in> set (user_keys h)" and "rows = workspaces h" "n = next_workspace h"
    and "workspace_index raw = n" "workspace_owner raw = owner"
  shows "typed (h\<lparr>workspaces := rows @ [raw], next_workspace := Suc n\<rparr>)"
proof -
  have "link_ok (insert i W) c parent" if "link_ok W c parent" for i W c parent
    using that by (auto simp: link_ok_def split: option.split)
  then show ?thesis
    using assms by (auto simp: typed_def keys_ok_def refs_ok_def refs_defs keyed_snoc)
qed

lemma typed_new_agent:
  assumes "typed h" and "agent_index a = next_agent h" "agent_connection a = Unlinked" "agent_parent_workspace a = None"
  shows "typed (h\<lparr>agents := agents h @ [a], next_agent := Suc (next_agent h)\<rparr>)"
  using assms by (auto simp: typed_def keys_ok_def refs_ok_def refs_defs keyed_snoc link_ok_def)

text \<open>Changing the connection of agents.\<close>

lemma typed_relink:
  assumes "typed h" and "\<And>a. agent_index (f a) = agent_index a"
    and "\<And>a. a \<in> set (agents h) \<Longrightarrow> P a \<Longrightarrow>
      link_ok (fst ` set (workspace_refs h)) (agent_connection (f a)) (agent_parent_workspace (f a))"
  shows "typed (update_agents P f h)"
proof -
  let ?h = "update_agents P f h"
  have keys: "map fst (agent_refs ?h) = map fst (agent_refs h)"
    using assms(2) by (simp add: agent_refs_def update_agents_def update_rows_def)
  then have ids: "fst ` set (agent_refs ?h) = fst ` set (agent_refs h)" by (metis list.set_map)
  have frame: "user_keys ?h = user_keys h" "workspace_refs ?h = workspace_refs h" "service_refs ?h = service_refs h"
    "component_refs ?h = component_refs h" "endpoint_refs ?h = endpoint_refs h"
    "next_user ?h = next_user h" "next_workspace ?h = next_workspace h" "next_agent ?h = next_agent h"
    "next_service ?h = next_service h" "next_component ?h = next_component h" "next_endpoint ?h = next_endpoint h"
    by (simp_all add: update_agents_def refs_defs)
  have "link_ok (fst ` set (workspace_refs h)) c parent" if "(i, c, parent) \<in> set (agent_refs ?h)" for i c parent
  proof -
    from that obtain b where b: "b \<in> set (agents ?h)" "c = agent_connection b" "parent = agent_parent_workspace b"
      by (auto simp: agent_refs_def)
    then obtain a where a: "a \<in> set (agents h)" "b = (if P a then f a else a)"
      by (auto simp: update_agents_def in_update_rows)
    have "link_ok (fst ` set (workspace_refs h)) (agent_connection a) (agent_parent_workspace a)"
      using assms(1) a(1) by (auto simp: typed_def refs_ok_def agent_refs_def)
    then show ?thesis using a b assms(3) by (auto split: if_splits)
  qed
  then show ?thesis using assms(1) by (auto simp: typed_def keys_ok_def refs_ok_def keys ids frame)
qed

section \<open>Workspace requests\<close>

lemma shape_dns [shape_simps]:
  "shape (snd (createDnsRecord cfg sub h)) = shape h" "shape (snd (updateDnsRecord cfg sub rid h)) = shape h"
  "shape (snd (deleteDnsRecord cfg rid h)) = shape h" "shape (drop_record cfg rid2 h) = shape h"
  "shape (snd (tryActivateSubdomain cfg sub i h)) = shape h" "shape (snd (rename_record cfg w sub h)) = shape h"
  by (auto simp: createDnsRecord_def updateDnsRecord_def deleteDnsRecord_def drop_record_def tryActivateSubdomain_def
      rename_record_def Let_def split_beta shape_simps)

lemma shape_save [shape_simps]:
  "(\<And>w. workspace_index (f w) = workspace_index w \<and> workspace_owner (f w) = workspace_owner w) \<Longrightarrow>
   shape (snd (save_workspace w f h)) = shape h"
  by (simp add: save_workspace_def set_workspace_def shape_simps)

lemma shape_subdomains [shape_simps]:
  "shape (snd (activate_workspace cfg w h)) = shape h"
  "shape (snd (handleToggleWorkspaceSubdomain cfg owner i active h)) = shape h"
  "shape (snd (handleUpdateWorkspaceSubdomain cfg owner i sub h)) = shape h"
  by (auto simp: activate_workspace_def handleToggleWorkspaceSubdomain_def handleUpdateWorkspaceSubdomain_def Let_def
      split_beta shape_simps intro!: shape_andThen split: option.split)

lemma shape_delete_workspace [shape_simps]: "shape (snd (handleDeleteWorkspace cfg owner i d c h)) = shape h"
  by (auto simp: handleDeleteWorkspace_def deleteDnsRecord_def Let_def split_beta shape_simps split: option.split)

lemma typed_create_workspace:
  assumes "typed h" and "owner \<in> set (user_keys h)"
  shows "typed (snd (handleCreateWorkspace cfg owner name sub h))"
proof -
  let ?h1 = "snd (if falsy sub then (None, h) else tryActivateSubdomain cfg (the sub) None h)"
  have s: "shape ?h1 = shape h" by (simp add: shape_simps)
  then have "typed ?h1" "owner \<in> set (user_keys ?h1)" using assms typed_cong [OF s] by (simp_all add: shape_def)
  then show ?thesis by (auto simp: handleCreateWorkspace_def Let_def split_beta intro!: typed_new_workspace)
qed

lemma owned_workspace_key: "owned_workspace owner i h = Some w \<Longrightarrow> i \<in> fst ` set (workspace_refs h)"
  by (force simp: owned_workspace_def workspace_refs_def image_iff dest: find_SomeD)

lemma typed_link_agent:
  "typed h \<Longrightarrow> link_ok (fst ` set (workspace_refs h)) c parent \<Longrightarrow> typed (link_agent code c parent h)"
  unfolding link_agent_def by (rule typed_relink) auto

lemma workspace_refs_frame [simp]:
  "workspace_refs (link_agent code c parent h) = workspace_refs h"
  "workspace_refs (snd (sendToAgent cfg u e p h)) = workspace_refs h"
  by (simp_all add: workspace_refs_def link_agent_def update_agents_def)

lemma unlinked_ok [simp]: "link_ok W Unlinked None"
  by (simp add: link_ok_def)

lemma typed_ask:
  assumes "typed h"
  shows "typed (snd (requestConnectWorkspaceAndAgent cfg owner i code name h))"
proof -
  have "typed (snd (sendToAgent cfg u e p (link_agent c Requested (Some i) h)))"
    if "owned_workspace owner i h = Some w" for u e p c w
    using assms that by (simp add: typed_cong [OF shape_agent(3)] typed_link_agent owned_workspace_key link_ok_def)
  with assms show ?thesis
    by (auto simp: requestConnectWorkspaceAndAgent_def Let_def split_beta typed_cong [OF shape_agent(5)]
        intro!: typed_link_agent split: option.split)
qed

lemma typed_cut:
  assumes "typed h"
  shows "typed (snd (disconnectWorkspaceAgent cfg owner i code h))"
    and "typed (snd (cancelWorkspaceAgentConnectionRequest cfg owner i code h))"
  using assms
  by (auto simp: disconnectWorkspaceAgent_def cancelWorkspaceAgentConnectionRequest_def Let_def split_beta
      typed_cong [OF shape_agent(5)] typed_cong [OF shape_agent(3)] typed_cong [OF shape_agent(6)]
      intro!: typed_link_agent split: option.split)

lemma typed_answer:
  assumes "typed h"
  shows "typed (snd (handleAcceptConnectRequest code uuid h))" "typed (snd (handleRejectConnectRequest code uuid h))"
proof -
  have ok: "link_ok (fst ` set (workspace_refs h)) (agent_connection a) (agent_parent_workspace a)" if "a \<in> set (agents h)" for a
    using assms that by (auto simp: typed_def refs_ok_def agent_refs_def)
  have "typed (update_agents (requested_agent code uuid) (\<lambda>a. a\<lparr>agent_connection := Linked\<rparr>) h)"
    using assms
  proof (rule typed_relink)
    fix a assume "a \<in> set (agents h)" "requested_agent code uuid a"
    with ok [of a] show "link_ok (fst ` set (workspace_refs h)) (agent_connection (a\<lparr>agent_connection := Linked\<rparr>))
        (agent_parent_workspace (a\<lparr>agent_connection := Linked\<rparr>))"
      by (auto simp: link_ok_def requested_agent_def split: option.splits)
  qed simp
  then show "typed (snd (handleAcceptConnectRequest code uuid h))"
    using assms by (auto simp: handleAcceptConnectRequest_def Let_def typed_cong [OF shape_agent(5)] split: option.split)
  have "typed (update_agents (requested_agent code uuid)
      (\<lambda>a. a\<lparr>agent_connection := Unlinked, agent_parent_workspace := None\<rparr>) h)"
    using assms by (rule typed_relink) simp_all
  then show "typed (snd (handleRejectConnectRequest code uuid h))"
    using assms by (auto simp: handleRejectConnectRequest_def Let_def typed_cong [OF shape_agent(5)] split: option.split)
qed

section \<open>Service requests\<close>

lemma shape_set_service [shape_simps]:
  "(\<And>r. service_index (f r) = service_index r \<and> service_parent_workspace (f r) = service_parent_workspace r
      \<and> service_parent_agent (f r) = service_parent_agent r) \<Longrightarrow> shape (set_service i f h) = shape h"
  by (simp add: set_service_def shape_simps)

lemma shape_command [shape_simps]:
  "shape (snd (ensureCommandSent ok h)) = shape h" "shape (snd (command_or_fail ok s h)) = shape h"
  "shape (invalidateRouteCache h) = shape h" "shape (snd (findOwnedServiceAndAgent owner idx h)) = shape h"
  by (auto simp: ensureCommandSent_def command_or_fail_def invalidateRouteCache_def findOwnedServiceAndAgent_def
      shape_simps split: option.split sum.split)

lemma shape_control [shape_simps]: "shape (snd (control_service cfg owner idx m p h)) = shape h"
  unfolding control_service_def
  by (auto simp: shape_simps split_beta Let_def intro!: shape_andThen split: option.split)

lemma shape_controls [shape_simps]:
  "shape (snd (handleStartService cfg owner idx h)) = shape h" "shape (snd (handleStopService cfg owner idx h)) = shape h"
  "shape (snd (handleStartContainer cfg owner idx c h)) = shape h"
  "shape (snd (handleStopContainer cfg owner idx c h)) = shape h"
  "shape (snd (handleRestartContainer cfg owner idx c h)) = shape h"
  unfolding control_defs by (auto simp: shape_simps intro!: shape_andThen)

lemma shape_delete_service [shape_simps]: "shape (snd (handleDeleteService cfg owner idx scope h)) = shape h"
  unfolding handleDeleteService_def
  by (auto simp: shape_simps split_beta Let_def intro!: shape_andThen split: option.split)

lemma blocked_row_agent [simp]: "service_parent_agent (blocked_row options t now s) = service_parent_agent s"
  by (simp add: blocked_row_def)

lemma shape_traffic [shape_simps]:
  "shape (snd (handleBlockServiceTraffic owner idx options h)) = shape h"
  "shape (snd (handleUnblockServiceTraffic owner idx h)) = shape h"
  unfolding handleBlockServiceTraffic_def handleUnblockServiceTraffic_def change_traffic_def Let_def
  by (auto simp: shape_simps split_beta intro!: shape_andThen)

lemma keyed_append_range: "keyed ks n \<Longrightarrow> keyed (ks @ [n..<n + k]) (n + k)"
  by (auto simp: keyed_def)

lemma map_fst_zip: "map fst (zip [n..<n + length xs] xs) = [n..<n + length xs]"
  by simp

lemma typed_add_endpoints:
  assumes "typed h" and "(i, ws, a) \<in> set (service_refs h)"
  shows "typed (add_endpoints i ws eps h)"
proof -
  have new: "map (\<lambda>e. (endpoint_index e, endpoint_parent_workspace e, endpoint_parent_service e))
      (map (\<lambda>(k, ep). new_endpoint k ws i ep) (zip ks eps)) = map (\<lambda>(k, ep). (k, ws, i)) (zip ks eps)" for ks
    by (auto simp: new_endpoint_def)
  have refs: "endpoint_refs (add_endpoints i ws eps h) = endpoint_refs h
      @ map (\<lambda>(k, ep). (k, ws, i)) (zip [next_endpoint h..<next_endpoint h + length eps] eps)"
    unfolding endpoint_refs_def add_endpoints_def using new by simp
  have keys: "map fst (map (\<lambda>(k, ep). (k, ws, i)) zs) = map fst zs" for zs :: "(nat \<times> service_endpoint) list"
    by (simp add: split_beta comp_def)
  have "map fst (endpoint_refs (add_endpoints i ws eps h))
      = map fst (endpoint_refs h) @ [next_endpoint h..<next_endpoint h + length eps]"
    unfolding refs map_append keys by (simp only: map_fst_zip)
  then have "keyed (map fst (endpoint_refs (add_endpoints i ws eps h))) (next_endpoint (add_endpoints i ws eps h))"
    using assms(1) keyed_append_range by (simp add: typed_def keys_ok_def add_endpoints_def)
  moreover have "\<exists>a. (s, w, a) \<in> set (service_refs h)" if "(k, w, s) \<in> set (endpoint_refs (add_endpoints i ws eps h))" for k w s
    using that assms unfolding refs by (auto simp: typed_def refs_ok_def)
  moreover have "user_keys (add_endpoints i ws eps h) = user_keys h" "workspace_refs (add_endpoints i ws eps h) = workspace_refs h"
    "agent_refs (add_endpoints i ws eps h) = agent_refs h" "service_refs (add_endpoints i ws eps h) = service_refs h"
    "component_refs (add_endpoints i ws eps h) = component_refs h"
    by (simp_all add: add_endpoints_def refs_defs)
  ultimately show ?thesis using assms(1)
    by (simp add: typed_def keys_ok_def refs_ok_def) (auto simp: add_endpoints_def)
qed

lemma keyed_filter: "keyed (map f xs) n \<Longrightarrow> keyed (map f (filter P xs)) n"
  by (auto simp: keyed_def distinct_map_filter)

lemma typed_replace:
  assumes "typed h" and "(i, ws, a) \<in> set (service_refs h)"
  shows "typed (snd (replaceServiceEndpoints i ws eps h))"
proof -
  let ?h = "h\<lparr>service_endpoints := filter (\<lambda>e. endpoint_parent_service e \<noteq> i) (service_endpoints h)\<rparr>"
  have "typed ?h" using assms(1) unfolding typed_def keys_ok_def refs_ok_def
    by (auto simp: refs_defs comp_def intro: keyed_filter)
  then have "typed (add_endpoints i ws eps ?h)" by (rule typed_add_endpoints) (use assms(2) in \<open>simp add: service_refs_def\<close>)
  with assms(1) show ?thesis by (simp add: replaceServiceEndpoints_def Let_def)
qed

lemma service_refs_frame [simp]:
  "service_refs (ensureDefaultComponent i n d h) = service_refs h"
  "service_refs (snd (replaceServiceEndpoints i ws eps h)) = service_refs h"
  by (simp_all add: service_refs_def ensureDefaultComponent_def replaceServiceEndpoints_def add_endpoints_def Let_def)

lemma typed_add_component:
  assumes "typed h" and "component_parent_service c \<in> fst ` set (service_refs h)" and "component_index c = next_component h"
  shows "typed (h\<lparr>service_components := service_components h @ [c], next_component := Suc (next_component h)\<rparr>)"
  using assms by (auto simp: typed_def keys_ok_def refs_ok_def refs_defs keyed_snoc)

lemma typed_default_component:
  assumes "typed h" and "i \<in> fst ` set (service_refs h)"
  shows "typed (ensureDefaultComponent i n d h)"
  using assms typed_add_component [OF assms(1)] by (simp add: ensureDefaultComponent_def Let_def typed_cong [OF shape_rows(5)])

lemma create_checks_refs:
  assumes "create_checks owner body h = Inr x"
  shows "cb_workspaceIdx body \<in> fst ` set (workspace_refs h)" "cb_agentIndex body \<in> fst ` set (agent_refs h)"
  using assms
  by (force simp: create_checks_def list_ex_iff workspace_refs_def agent_refs_def image_iff dest: find_SomeD
      split: if_splits option.splits)+

lemma typed_new_service:
  assumes "typed h" and "cb_workspaceIdx body \<in> fst ` set (workspace_refs h)" and "cb_agentIndex body \<in> fst ` set (agent_refs h)"
  shows "typed (snd (new_service body rs ms h))"
    and "(service_index (fst (new_service body rs ms h)), cb_workspaceIdx body, cb_agentIndex body)
      \<in> set (service_refs (snd (new_service body rs ms h)))"
proof -
  have refs: "service_refs (snd (new_service body rs ms h))
      = service_refs h @ [(next_service h, cb_workspaceIdx body, cb_agentIndex body)]"
    by (simp add: new_service_def service_refs_def Let_def)
  have "user_keys (snd (new_service body rs ms h)) = user_keys h" "workspace_refs (snd (new_service body rs ms h)) = workspace_refs h"
    "agent_refs (snd (new_service body rs ms h)) = agent_refs h" "endpoint_refs (snd (new_service body rs ms h)) = endpoint_refs h"
    "component_refs (snd (new_service body rs ms h)) = component_refs h"
    "next_service (snd (new_service body rs ms h)) = Suc (next_service h)"
    "next_user (snd (new_service body rs ms h)) = next_user h" "next_agent (snd (new_service body rs ms h)) = next_agent h"
    "next_workspace (snd (new_service body rs ms h)) = next_workspace h"
    "next_component (snd (new_service body rs ms h)) = next_component h"
    "next_endpoint (snd (new_service body rs ms h)) = next_endpoint h"
    by (simp_all add: new_service_def refs_defs Let_def)
  then show "typed (snd (new_service body rs ms h))"
    using assms by (auto simp: typed_def keys_ok_def refs_ok_def refs keyed_snoc)
  show "(service_index (fst (new_service body rs ms h)), cb_workspaceIdx body, cb_agentIndex body)
      \<in> set (service_refs (snd (new_service body rs ms h)))"
    unfolding refs by (simp add: new_service_def Let_def)
qed

lemma typed_sent:
  "typed (snd (sendToAgent cfg u e p h)) = typed h" "typed (notifyWorkspaceUpdated w h) = typed h"
  "typed (snd (command_or_fail ok s h)) = typed h"
  by (rule typed_cong; simp add: shape_simps)+

lemma typed_create_service:
  assumes "typed h"
  shows "typed (snd (handleCreateService cfg owner body h))"
proof (cases "create_checks owner body h")
  case (Inl e)
  then show ?thesis using assms by (simp add: handleCreateService_def check_def)
next
  case (Inr x)
  obtain agent rs ms eps where x: "x = (agent, rs, ms, eps)" by (cases x)
  let ?new = "new_service body rs ms h"
  let ?h2 = "ensureDefaultComponent (service_index (fst ?new)) (service_name (fst ?new)) (service_deploy_preset (fst ?new)) (snd ?new)"
  note new = typed_new_service [OF assms create_checks_refs [OF Inr], of rs ms]
  have "typed ?h2" using new by (intro typed_default_component) (force simp: image_iff)+
  then have "typed (snd (replaceServiceEndpoints (service_index (fst ?new)) (cb_workspaceIdx body) eps ?h2))"
    by (rule typed_replace) (use new(2) in simp)
  then show ?thesis
    by (auto simp: handleCreateService_def check_def Inr x Let_def split_beta typed_sent intro!: typed_andThen)
qed

lemma service_in_refs:
  "s \<in> set (services h) \<Longrightarrow> (service_index s, service_parent_workspace s, service_parent_agent s) \<in> set (service_refs h)"
  by (auto simp: service_refs_def)

lemma typed_move:
  assumes "typed h" and "\<And>s. service_index (f s) = service_index s \<and> service_parent_workspace (f s) = service_parent_workspace s
      \<and> service_parent_agent (f s) = a" and "a \<in> fst ` set (agent_refs h)"
  shows "typed (set_service i f h)"
proof -
  let ?h = "set_service i f h"
  have keys: "map fst (service_refs ?h) = map fst (service_refs h)"
    using assms(2) by (simp add: service_refs_def set_service_def update_rows_def)
  then have ids: "fst ` set (service_refs ?h) = fst ` set (service_refs h)" by (metis list.set_map)
  have old: "\<exists>b'. (s, w, b') \<in> set (service_refs ?h)" if "(s, w, b) \<in> set (service_refs h)" for s w b
  proof -
    from that obtain r where r: "r \<in> set (services h)" "service_index r = s" "service_parent_workspace r = w"
      by (auto simp: service_refs_def)
    then have "(if service_index r = i then f r else r) \<in> set (services ?h)"
      by (auto simp: set_service_def in_update_rows)
    from service_in_refs [OF this] show ?thesis using r assms(2) by (auto split: if_splits)
  qed
  have new: "w \<in> fst ` set (workspace_refs h) \<and> b \<in> fst ` set (agent_refs h)" if "(s, w, b) \<in> set (service_refs ?h)" for s w b
  proof -
    from that obtain t where t: "t \<in> set (services ?h)" "w = service_parent_workspace t" "b = service_parent_agent t"
      by (auto simp: service_refs_def)
    then obtain r where r: "r \<in> set (services h)" "t = (if service_index r = i then f r else r)"
      by (auto simp: set_service_def in_update_rows)
    then have "w = service_parent_workspace r" "b = (if service_index r = i then a else service_parent_agent r)"
      using t assms(2) by auto
    with service_in_refs [OF r(1)] assms(1,3) show ?thesis by (auto simp: typed_def refs_ok_def)
  qed
  have "user_keys ?h = user_keys h" "workspace_refs ?h = workspace_refs h" "agent_refs ?h = agent_refs h"
    "component_refs ?h = component_refs h" "endpoint_refs ?h = endpoint_refs h" "next_user ?h = next_user h"
    "next_workspace ?h = next_workspace h" "next_agent ?h = next_agent h" "next_service ?h = next_service h"
    "next_component ?h = next_component h" "next_endpoint ?h = next_endpoint h"
    by (simp_all add: set_service_def refs_defs)
  moreover have "\<exists>b. (s, w, b) \<in> set (service_refs ?h)" if "(k, w, s) \<in> set (endpoint_refs h)" for k w s
    using that assms(1) old by (fastforce simp: typed_def refs_ok_def)
  ultimately show ?thesis using assms(1) new
    by (simp add: typed_def keys_ok_def refs_ok_def keys ids) blast
qed

lemma redeployed_row_agent [simp]: "service_parent_agent (redeployed_row body rs ms env a s) = a"
  by (simp add: redeployed_row_def Let_def)

lemma typed_apply:
  assumes "typed h" and "agent_index a \<in> fst ` set (agent_refs h)"
  shows "typed (snd (apply_redeploy cfg body s a rs ms sub h))"
proof -
  define env where "env = (if rb_env body \<noteq> JUndef then normalizeEnv (rb_env body)
      else normalizeEnv (json_column (service_env s)))"
  define h1 where "h1 = set_service (service_index s) (redeployed_row body rs ms env (agent_index a)) h"
  have h1: "typed h1" unfolding h1_def by (rule typed_move [OF assms(1) _ assms(2)]) simp
  have "typed (snd (replaceServiceEndpoints (service_index t) (service_parent_workspace t) eps
      (ensureDefaultComponent (service_index t) n d h1)))" if "find P (services h1) = Some t" for P t eps n d
  proof -
    have t: "(service_index t, service_parent_workspace t, service_parent_agent t) \<in> set (service_refs h1)"
      using find_SomeD [OF that] by (simp add: service_in_refs)
    then have "typed (ensureDefaultComponent (service_index t) n d h1)" using h1
      by (intro typed_default_component) (force simp: image_iff)+
    then show ?thesis by (rule typed_replace) (use t in simp)
  qed
  then show ?thesis
    unfolding apply_redeploy_def Let_def env_def [symmetric] h1_def [symmetric]
    using assms(1) h1 by (auto simp: split_beta typed_sent intro!: typed_andThen split: option.split sum.split)
qed

lemma shape_leave [shape_simps]: "shape (snd (leave_old_agent cfg owner body s a h)) = shape h"
  by (auto simp: leave_old_agent_def shape_simps intro!: shape_andThen split: option.split)

lemma typed_apply_target:
  assumes "typed g" and "redeploy_target body s h = Some a" and "leave_old_agent cfg owner body s r h = (Inr (), g)"
  shows "typed (snd (apply_redeploy cfg body s a rs ms sub g))"
proof (rule typed_apply [OF assms(1)])
  have "agent_refs g = agent_refs h"
    using shape_leave [of cfg owner body s r h] assms(3) by (simp add: shape_def)
  moreover have "agent_index a \<in> fst ` set (agent_refs h)"
    using assms(2) by (force simp: redeploy_target_def agent_refs_def image_iff dest: find_SomeD)
  ultimately show "agent_index a \<in> fst ` set (agent_refs g)" by simp
qed

lemma typed_frames:
  "typed (snd (findOwnedServiceAndAgent owner idx h)) = typed h"
  "typed (snd (leave_old_agent cfg owner body s a h)) = typed h"
  "(\<And>r. service_index (f r) = service_index r \<and> service_parent_workspace (f r) = service_parent_workspace r
      \<and> service_parent_agent (f r) = service_parent_agent r) \<Longrightarrow> typed (set_service i f h) = typed h"
  by (rule typed_cong; simp add: shape_simps)+

lemma typed_redeploy:
  "typed h \<Longrightarrow> typed (snd (handleRedeployService cfg owner idx body h))"
  unfolding handleRedeployService_def
  by (intro typed_andThen)
    (auto simp: typed_frames intro!: typed_andThen split: option.splits sum.splits, rule typed_apply_target)

lemma typed_owned:
  assumes "typed h" and "owned_service owner i h = Some s"
  shows "typed (add_endpoints (service_index s) (service_parent_workspace s) eps h)"
    and "typed (snd (replaceServiceEndpoints (service_index s) (service_parent_workspace s) eps h))"
  using assms typed_add_endpoints typed_replace service_in_refs owned_service_SomeD by blast+

lemma typed_endpoints:
  "typed h \<Longrightarrow> typed (snd (handleUpdateServiceEndpoints owner idx eps h))"
  unfolding handleUpdateServiceEndpoints_def
  by (intro typed_andThen)
    (auto simp: typed_frames typed_sent find_owned_Inr intro!: typed_andThen intro: typed_owned split: sum.splits)

lemma typed_subdomain:
  "typed h \<Longrightarrow> typed (snd (handleUpdateServiceSubdomain owner idx sub h))"
  unfolding handleUpdateServiceSubdomain_def Let_def
  by (intro typed_andThen)
    (auto simp: typed_frames typed_cong [OF shape_rows(6)] find_owned_Inr intro!: typed_andThen intro: typed_owned
      split: option.splits sum.splits)

end
