(* ===== verification/HubRules.thy ===== *)
theory HubRules
  imports StoreRules
begin

text \<open>
  The tables stay well typed over the whole life of the Hub: every HTTP request
  (\<open>handle_request\<close>), every packet of an agent (\<open>receive\<close>), a lost connection, the due timers and the
  passing of time keep the invariant \<open>typed\<close> of theory \<open>StoreRules\<close>.
\<close>

section \<open>Releases and updates of agents\<close>

lemma shape_catalog [shape_simps]:
  "shape (snd (runSync cfg h)) = shape h" "shape (ensureFresh cfg h) = shape h"
  "shape (snd (set_manual_block v b h)) = shape h" "shape (snd (blockRelease v2 r h)) = shape h"
  "shape (snd (unblockRelease v3 h)) = shape h"
  by (auto simp: runSync_def ensureFresh_def set_manual_block_def blockRelease_def unblockRelease_def Let_def
      split_beta shape_simps split: github_response.split sum.split)

lemma shape_schedule [shape_simps]: "shape (fireSyncTimer cfg h) = shape h"
  by (simp add: fireSyncTimer_def runScheduledSync_def shape_simps split: option.split)

lemma shape_listing [shape_simps]:
  "shape (snd (listReleases cfg b h)) = shape h" "shape (snd (findUpgradeFor cfg v h)) = shape h"
  by (simp_all add: listReleases_def findUpgradeFor_def Let_def split_beta shape_simps)

lemma shape_infos: "shape (snd (fold (version_info cfg) vs st)) = shape (snd st)"
  by (induction vs arbitrary: st) (simp_all add: version_info_def Let_def split_beta shape_simps)

lemma shape_getAgentList [shape_simps]: "shape (snd (getAgentList cfg u i h)) = shape h"
  by (simp add: getAgentList_def Let_def split_beta shape_infos)

lemma set_phase_keys [simp]:
  "agent_index (set_phase ph f a) = agent_index a" "agent_connection (set_phase ph f a) = agent_connection a"
  "agent_parent_workspace (set_phase ph f a) = agent_parent_workspace a"
  by (simp_all add: set_phase_def)

lemma shape_transition [shape_simps]:
  "shape (transition u ph f h) = shape h" "shape (clearTimeout u h) = shape h" "shape (armTimeout u h) = shape h"
  by (auto simp: transition_def clearTimeout_def armTimeout_def Let_def shape_simps split: option.split)

lemma shape_update [shape_simps]:
  "shape (recordProgress u l h) = shape h" "shape (recordFailure u l h) = shape h"
  "shape (handleReconnect u v h) = shape h" "shape (acknowledge u h) = shape h"
  "shape (snd (isExpectedRestart u h)) = shape h" "shape (fireUpdateTimer u h) = shape h"
  by (auto simp: recordProgress_def recordFailure_def handleReconnect_def acknowledge_def isExpectedRestart_def
      fireUpdateTimer_def expire_def Let_def shape_simps split: option.split)

lemma shape_requestUpdate [shape_simps]: "shape (snd (requestUpdate cfg u v h)) = shape h"
proof -
  have fresh: "shape h1 = shape h" if "assertInstallable cfg v h = (r, h1)" for r h1
    using assertInstallable_frame [of cfg v h] that by (simp add: shape_simps)
  show ?thesis
    by (auto simp: requestUpdate_def Let_def split_beta shape_simps dest: fresh split: option.split sum.split prod.split)
qed

section \<open>The controllers\<close>

lemma snd_with_cookies [simp]: "snd (with_tokens cfg msg m) = snd m"
  by (cases m) (auto simp: with_tokens_def andThen_def give_def split: sum.split)

lemmas typed_keeps = shape_verify [THEN typed_cong] shape_login [THEN typed_cong] shape_tokens [THEN typed_cong]
  shape_controls [THEN typed_cong] shape_delete_service [THEN typed_cong] shape_traffic [THEN typed_cong]
  shape_subdomains [THEN typed_cong] shape_delete_workspace [THEN typed_cong] shape_getAgentList [THEN typed_cong]
  shape_requestUpdate [THEN typed_cong] shape_update [THEN typed_cong]

lemma typed_open:
  assumes "typed h" and "auth_open cfg r tok h = Some m"
  shows "typed (snd m)"
  using assms
  by (cases r) (auto simp: give_def Let_def typed_register_user typed_keeps)

lemma shape_guarded [shape_simps]: "shape (snd (auth_guarded cfg r u hdr h)) = shape h"
  by (cases r) (auto simp: give_def throw_def shape_simps intro!: shape_andThen split: prod.split sum.split)

lemma typed_service_controller: "typed h \<Longrightarrow> typed (snd (service_controller cfg u r h))"
  by (cases r) (simp_all add: typed_create_service typed_redeploy typed_endpoints typed_subdomain typed_keeps)

lemma snd_with_index:
  "snd (with_index p h k) = (case parseInt p of None \<Rightarrow> h | Some i \<Rightarrow> snd (k (nat i) h))"
  by (simp add: with_index_def throw_def split: option.split)

lemma typed_workspace_controller:
  assumes "typed h" and "user_index u \<in> set (user_keys h)"
  shows "typed (snd (workspace_controller cfg u r h))"
  using assms
  by (cases r) (auto simp: snd_with_index typed_create_workspace typed_ask typed_cut give_def Let_def
      typed_keeps handleGetWorkspaceInformation_def split: option.split)

lemma typed_agent_controllers:
  "typed (snd (agent_controller cfg u r h)) = typed h"
  "typed h \<Longrightarrow> typed (snd (agent_open_controller ro h))"
  by (cases r; auto simp: snd_with_index split_beta give_def typed_keeps split: option.split)
    (cases ro; auto simp: typed_answer give_def)

lemma shape_release_controller [shape_simps]: "shape (snd (release_controller cfg u r h)) = shape h"
  by (cases r) (auto simp: split_beta give_def throw_def Let_def shape_simps split: sum.split)

lemma JwtGuard_user: "JwtGuard cfg tok h = Inr u \<Longrightarrow> user_index u \<in> set (user_keys h)"
  by (auto simp: JwtGuard_def jwt_validate_def user_keys_def dest: find_SomeD split: if_splits option.splits)

lemma typed_guarded_route:
  assumes "typed h" and "user_index u \<in> set (user_keys h)"
  shows "typed (snd (guarded_route cfg u hdr r h))"
  using assms
  by (cases r)
    (simp_all add: typed_cong [OF shape_guarded] typed_service_controller typed_workspace_controller
      typed_agent_controllers typed_cong [OF shape_release_controller] service_list_controller_def snd_with_index
      handleGetServiceList_def throw_def split: option.split)

lemma snd_validated: "snd (validated r h k) = (if valid_body r then snd (k h) else h)"
  by (simp add: validated_def throw_def)

lemma typed_dispatch_request:
  assumes "typed h"
  shows "typed (snd (dispatch_request cfg rq h))"
proof (cases "open_route cfg rq h")
  case None
  show ?thesis
  proof (cases "JwtGuard cfg (rq_accessToken rq) h")
    case (Inr u)
    with assms show ?thesis
      by (simp add: dispatch_request_def None check_def snd_validated typed_guarded_route JwtGuard_user)
  qed (use assms in \<open>simp add: dispatch_request_def None check_def\<close>)
next
  case (Some m)
  then have "typed (snd m)" using assms
    by (auto simp: open_route_def snd_validated throw_def typed_open typed_agent_controllers
        split: route.splits option.splits if_splits)
  with Some show ?thesis by (simp add: dispatch_request_def)
qed

lemma typed_handle_request:
  assumes "typed h"
  shows "typed (snd (handle_request cfg rq h))"
proof -
  have "typed (snd (TokenRefreshFilter cfg tok g)) = typed g" for tok g
    by (rule typed_cong) (simp add: shape_simps)
  then have t: "typed h2 = typed g" if "TokenRefreshFilter cfg tok g = (r, h2)" for tok g r h2
    using that by (metis snd_conv)
  from typed_dispatch_request [OF assms, of cfg rq] show ?thesis using assms
    by (auto simp: handle_request_def Let_def t split: prod.split sum.split)
qed

section \<open>The agents\<close>

lemma shape_markServices [shape_simps]:
  "shape (markServicesOffline P h) = shape h" "shape (updateServiceStatus i st h) = shape h"
  by (simp_all add: markServicesOffline_def updateServiceStatus_def shape_simps)

lemma shape_markAgentOffline [shape_simps]: "shape (markAgentOffline u h) = shape h"
  by (simp add: markAgentOffline_def Let_def shape_simps)

lemma shape_links [shape_simps]:
  "shape (set_socket c s h) = shape h" "shape (clearOfflineTimer u h) = shape h"
  "shape (scheduleOffline u h) = shape h" "shape (refuse c code d h) = shape h"
  "shape (handleConnection c h) = shape h" "shape (snd (guardPacket cfg c e p h)) = shape h"
  by (auto simp: set_socket_def clearOfflineTimer_def scheduleOffline_def refuse_def handleConnection_def
      guardPacket_def split_beta Let_def shape_simps split: option.split)

lemma shape_forwarding [shape_simps]:
  "shape (handleResponse c p h) = shape h" "shape (handleSystemMetrics c p h) = shape h"
  "shape (handleTerminalReady c p h) = shape h" "shape (handleTerminalOutput c p h) = shape h"
  "shape (handleTerminalClosed c p h) = shape h" "shape (handleUpdateLog c p h) = shape h"
  "shape (handleUpdateFailed c p h) = shape h" "shape (snd (getWorkspaceIndexForAgentService u i h)) = shape h"
  by (auto simp: handleResponse_def handleSystemMetrics_def handleTerminalReady_def handleTerminalOutput_def
      handleTerminalClosed_def handleUpdateLog_def handleUpdateFailed_def for_agent_def forwardSystemMetrics_def
      forwardTerminalReady_def forwardTerminalOutput_def forwardTerminalClosed_def
      getWorkspaceIndexForAgentService_def Let_def shape_simps split: option.split jval.split)

lemma shape_closing: "shape (fold close_from_agent es h) = shape h"
  by (induction es arbitrary: h) (simp_all add: close_from_agent_def shape_simps)

lemma shape_disconnect [shape_simps]:
  "shape (handleDisconnect c auth h) = shape h" "shape (fireOfflineTimer u h) = shape h"
  by (auto simp: handleDisconnect_def closeAgentConnections_def fireOfflineTimer_def Let_def split_beta shape_simps
      shape_closing split: option.split)

lemma shape_attach [shape_simps]: "shape (attach_socket c a v h) = shape h"
  by (simp add: attach_socket_def attach_begin_def attach_end_def Let_def shape_simps split: option.split)

lemma typed_new_row:
  assumes "typed h"
  shows "typed (snd (new_agent cfg ip v p h))"
proof -
  have drawn: "typed (h\<lparr>draws := d\<rparr>)" for d
    using assms by (simp add: typed_cong [OF shape_fields(2)])
  have "typed (h\<lparr>draws := d, agents := agents h @ [a], next_agent := Suc (next_agent h)\<rparr>)"
    if "agent_index a = next_agent h" "agent_connection a = Unlinked" "agent_parent_workspace a = None" for d a
    using typed_new_agent [OF drawn, of a d] that by simp
  with drawn show ?thesis by (simp add: new_agent_def draw_def Let_def)
qed

lemma typed_register:
  assumes "typed h"
  shows "typed (snd (registerAgent cfg ip u v p h))"
proof -
  have "shape (snd (known_agent cfg ip a v p h)) = shape h" for a
    by (simp add: known_agent_def Let_def split_beta shape_simps)
  then have "typed (snd (known_agent cfg ip a v p h))" for a using assms typed_cong by blast
  with assms show ?thesis by (simp add: registerAgent_def typed_new_row split: option.split)
qed

lemma typed_validation:
  assumes "typed h"
  shows "typed (handleValidation cfg c ip p h)"
proof -
  have "typed h1" if "registerAgent cfg i u v q h = (r, h1)" for i u v q r h1
    using typed_register [OF assms, of cfg i u v q] that by simp
  then show ?thesis using assms
    by (auto simp: handleValidation_def typed_cong [OF shape_attach] typed_cong [OF shape_links(4)]
        split: option.split prod.split sum.split)
qed

lemma upsert_service_refs [simp]: "service_refs (upsert_component i n c h) = service_refs h"
  by (simp add: upsert_component_def service_refs_def Let_def)

lemma typed_upsert:
  assumes "typed h" and "i \<in> fst ` set (service_refs h)"
  shows "typed (upsert_component i n c h)"
  using assms typed_add_component [OF assms(1)]
  by (simp add: upsert_component_def Let_def typed_cong [OF shape_rows(5)])

lemma typed_upserts:
  "typed h \<Longrightarrow> i \<in> fst ` set (service_refs h) \<Longrightarrow> typed (snd (upsert_containers i s cs names h))"
  by (induction cs arbitrary: names h) (simp_all add: Let_def typed_upsert)

lemma typed_components:
  assumes "typed h"
  shows "typed (syncServiceComponents i cs h)"
proof -
  have "typed (snd (upsert_containers j s cs [] h))"
    if "find (\<lambda>s. index_filter (Some j) (service_index s) \<and> service_deleted_at s = None) (services h) = Some s" for j s
    using assms find_SomeD [OF that]
    by (intro typed_upserts) (auto simp: index_filter_def service_refs_def image_iff)
  with assms show ?thesis
    by (auto simp: syncServiceComponents_def Let_def split_beta typed_cong [OF shape_rows(5)] split: option.split)
qed

lemma typed_forwarded:
  assumes "typed h" and "\<And>g. typed g \<Longrightarrow> typed (effect g)"
  shows "typed (forward_service_event c e p effect h)"
proof -
  have "typed g" if "getWorkspaceIndexForAgentService u i h = (r, g)" for u i r g
    using assms(1) that typed_cong [OF shape_forwarding(8) [of u i h]] by simp
  with assms show ?thesis
    by (auto simp: forward_service_event_def typed_cong [OF shape_agent(4)] split: option.split prod.split)
qed

lemma typed_reports:
  assumes "typed h"
  shows "typed (handleContainerStatus c p h)" "typed (handleServiceStatus c p h)" "typed (handleServiceLog c p h)"
    "typed (handleLogLoadProgress c p h)" "typed (handleServiceLogHistory c p h)" "typed (handleServiceLogMarkers c p h)"
  unfolding handleContainerStatus_def handleServiceStatus_def handleServiceLog_def handleLogLoadProgress_def
    handleServiceLogHistory_def handleServiceLogMarkers_def
  by (rule typed_forwarded [OF assms];
      auto simp: typed_components typed_cong [OF shape_markServices(2)] split: option.split)+

lemma typed_receive:
  assumes "typed h"
  shows "typed (receive cfg c ip e p h)"
proof -
  have guarded: "typed (snd (guardPacket cfg c e p h))"
    using assms by (simp add: typed_cong [OF shape_links(6)])
  have "typed (dispatch cfg c ip e p g)" if "typed g" for g
    using that unfolding dispatch_def
    by (simp add: typed_validation typed_reports shape_forwarding [THEN typed_cong])
  with guarded show ?thesis by (simp add: receive_def Let_def split_beta)
qed

section \<open>The life of the Hub\<close>

text \<open>What can happen to the Hub; \<open>cfg\<close> stands for the outside world at that moment.\<close>

datatype hub_event =
    HttpCall http_request
  | AgentOpens string
  | AgentPacket string string string jval
  | AgentLost string "string option"
  | OfflineDue string
  | UpdateDue string
  | CatalogDue
  | TimePasses int

fun hub_step :: "config \<times> hub_event \<Rightarrow> hub \<Rightarrow> hub" where
  "hub_step (cfg, HttpCall rq) h = snd (handle_request cfg rq h)"
| "hub_step (cfg, AgentOpens client) h = handleConnection client h"
| "hub_step (cfg, AgentPacket client ip event payload) h = receive cfg client ip event payload h"
| "hub_step (cfg, AgentLost client auth) h = handleDisconnect client auth h"
| "hub_step (cfg, OfflineDue uuid) h = fireOfflineTimer uuid h"
| "hub_step (cfg, UpdateDue uuid) h = fireUpdateTimer uuid h"
| "hub_step (cfg, CatalogDue) h = fireSyncTimer cfg h"
| "hub_step (cfg, TimePasses d) h = h\<lparr>clock := clock h + d\<rparr>"

lemma typed_step: "typed h \<Longrightarrow> typed (hub_step e h)"
  by (induction e h rule: hub_step.induct)
    (simp_all add: typed_handle_request typed_receive typed_cong [OF shape_links(5)] typed_cong [OF shape_disconnect(1)]
      typed_cong [OF shape_disconnect(2)] typed_cong [OF shape_update(6)] typed_cong [OF shape_schedule]
      typed_cong [OF shape_fields(3)])

lemma typed_run: "typed h \<Longrightarrow> typed (fold hub_step es h)"
  by (induction es arbitrary: h) (simp_all add: typed_step)

lemma typed_init: "typed (init_hub t)"
  by (simp add: typed_def keys_ok_def refs_ok_def refs_defs keyed_def init_hub_def)

text \<open>C10: the tables stay well typed for the whole life of the Hub. After any sequence of HTTP requests,
  agent connections, packets, lost connections and due timers, keys are unique and below the next key,
  every reference names an existing row (a workspace its owner, a service its workspace and its agent,
  a component and an endpoint their service, and an endpoint the workspace of that service), and an agent
  has a workspace exactly if it is requested or linked.\<close>

theorem tables_stay_typed:
  "typed (fold hub_step es (init_hub t))"
  by (rule typed_run [OF typed_init])

end
