(* ===== verification/GatewayText.thy ===== *)
theory GatewayText
  imports Tunnel ServiceForms
begin

text \<open>
  What the gateway process reads from a request and writes into an answer: the header lines and the
  address in them, the request id it puts into the header, and the error page of each outcome
  (\<open>proxy/server.ts\<close>, \<open>proxy/outcome-presentation.ts\<close>); and the mails of
  \<open>src/mailer/mailer.service.ts\<close>, which are filled in the same way.

  A buffer is a list of bytes; the text of a header is ASCII, so that decoding it changes nothing.
  The HTML templates are arguments.
\<close>

section \<open>Header lines\<close>

definition crlf :: string where "crlf = [CHR 0x0D, CHR 0x0A]"

text \<open>\<open>indexOf('\\r\\n\\r\\n')\<close> and \<open>split('\\r\\n')\<close>\<close>

fun header_end :: "string \<Rightarrow> nat option" where
  "header_end [] = None"
| "header_end (c # cs) =
     (if starts_with (crlf @ crlf) (c # cs) then Some 0 else map_option Suc (header_end cs))"

fun split_crlf :: "string \<Rightarrow> string list" where
  "split_crlf [] = [[]]"
| "split_crlf [c] = [[c]]"
| "split_crlf (c # d # cs) =
     (if c = CHR 0x0D \<and> d = CHR 0x0A then [] # split_crlf cs
      else (case split_crlf (d # cs) of [] \<Rightarrow> [[c]] | w # ws \<Rightarrow> (c # w) # ws))"

text \<open>The line carries the header of that name; its value without the name and the blanks.\<close>

definition is_header :: "string \<Rightarrow> string \<Rightarrow> bool" where
  "is_header name line \<longleftrightarrow> starts_with name (js_lower line)"

definition header_value :: "string \<Rightarrow> string \<Rightarrow> string" where
  "header_value name line =
     js_trim (if is_header name line then dropWhile is_space (drop (length name) line) else line)"

definition readCfRay :: "string list \<Rightarrow> string" where
  "readCfRay header =
     (case find (is_header ''cf-ray:'') header of
        None \<Rightarrow> ''-''
      | Some line \<Rightarrow> (let v = header_value ''cf-ray:'' line in if v = [] then ''-'' else v))"

definition withRequestIdHeader :: "string \<Rightarrow> nat \<Rightarrow> string \<Rightarrow> string" where
  "withRequestIdHeader buffer headerEnd requestId =
     (let lines = split_crlf (take headerEnd buffer);
          requestLine = hd lines;
          headers = filter (\<lambda>l. \<not> is_header ''x-request-id:'' l) (tl lines)
      in js_join crlf (requestLine # headers @ [''x-request-id: '' @ requestId, [], []])
         @ drop (headerEnd + 4) buffer)"

section \<open>The address of a request\<close>

definition isValidSubdomainLabel :: "string \<Rightarrow> bool" where
  "isValidSubdomainLabel value = is_label value"

definition drop_dot :: "string \<Rightarrow> string" where
  "drop_dot s = (if s \<noteq> [] \<and> last s = CHR ''.'' then butlast s else s)"

definition host_of_line :: "string \<Rightarrow> string" where
  "host_of_line hostLine =
     hd (split_on (CHR '':'') (drop_dot (js_lower (header_value ''host:'' hostLine))))"

text \<open>The result is the label of the service, empty for the workspace itself, and of the workspace.\<close>

definition parseRouteFromHostHeader :: "string \<Rightarrow> (string \<times> string) option" where
  "parseRouteFromHostHeader hostLine =
     (case split_on (CHR ''.'') (host_of_line hostLine) of
        [w, a, b] \<Rightarrow>
          if a \<noteq> ''optics'' \<or> b \<noteq> ''run'' then None
          else if \<not> isValidSubdomainLabel w then None
          else Some ([], w)
      | [s, w, a, b] \<Rightarrow>
          if a \<noteq> ''optics'' \<or> b \<noteq> ''run'' then None
          else if \<not> isValidSubdomainLabel s \<or> \<not> isValidSubdomainLabel w then None
          else Some (s, w)
      | _ \<Rightarrow> None)"

section \<open>Templates\<close>

definition replace_char :: "char \<Rightarrow> string \<Rightarrow> string \<Rightarrow> string" where
  "replace_char c t s = concat (map (\<lambda>x. if x = c then t else [x]) s)"

text \<open>The gateway replaces one character after the other, the mailer all of them in one pass.\<close>

definition escapeHtml :: "string \<Rightarrow> string" where
  "escapeHtml value =
     replace_char (CHR 0x27) ''&#39;'' (replace_char (CHR 0x22) ''&quot;''
       (replace_char (CHR ''>'') ''&gt;'' (replace_char (CHR ''<'') ''&lt;''
         (replace_char (CHR ''&'') ''&amp;'' value))))"

fun HTML_ESCAPES :: "char \<Rightarrow> string option" where
  "HTML_ESCAPES c =
     (if c = CHR ''&'' then Some ''&amp;'' else if c = CHR ''<'' then Some ''&lt;''
      else if c = CHR ''>'' then Some ''&gt;'' else if c = CHR 0x22 then Some ''&quot;''
      else if c = CHR 0x27 then Some ''&#39;'' else None)"

definition escapeMail :: "string \<Rightarrow> string" where
  "escapeMail value = concat (map (\<lambda>c. case HTML_ESCAPES c of None \<Rightarrow> [c] | Some t \<Rightarrow> t) value)"

definition is_word :: "char \<Rightarrow> bool" where
  "is_word c \<longleftrightarrow> is_lower c \<or> is_upper c \<or> is_digit c \<or> c = CHR ''_''"

text \<open>A placeholder at the head of the text: its name and what follows it. \<open>gap\<close> says which characters
  may surround the name.\<close>

definition placeholder :: "(char \<Rightarrow> bool) \<Rightarrow> string \<Rightarrow> (string \<times> string) option" where
  "placeholder gap s =
     (if starts_with ''{{'' s
      then let t = dropWhile gap (drop 2 s);
               key = takeWhile is_word t;
               u = dropWhile gap (dropWhile is_word t)
           in if key \<noteq> [] \<and> starts_with ''}}'' u then Some (key, drop 2 u) else None
      else None)"

lemma placeholder_shorter: "placeholder gap s = Some (key, rest) \<Longrightarrow> length rest < length s"
  using length_dropWhile_le [of gap "drop 2 s"] length_dropWhile_le [of is_word "dropWhile gap (drop 2 s)"]
    length_dropWhile_le [of gap "dropWhile is_word (dropWhile gap (drop 2 s))"]
  by (cases s) (auto simp: placeholder_def starts_with_def Let_def split: if_splits)

function render :: "(char \<Rightarrow> bool) \<Rightarrow> (string \<Rightarrow> string option) \<Rightarrow> string \<Rightarrow> string" where
  "render gap value [] = []"
| "render gap value (c # cs) =
     (case placeholder gap (c # cs) of
        None \<Rightarrow> c # render gap value cs
      | Some (key, rest) \<Rightarrow>
          (case value key of Some v \<Rightarrow> v | None \<Rightarrow> take (length (c # cs) - length rest) (c # cs))
          @ render gap value rest)"
  by pat_completeness auto
termination
  by (relation "measure (\<lambda>(gap, value, s). length s)") (auto dest: placeholder_shorter)

definition renderTemplate ::
  "string \<Rightarrow> (string, string) jsmap \<Rightarrow> (string, string) jsmap \<Rightarrow> string" where
  "renderTemplate template vars rawVars =
     render is_space (\<lambda>key. case map_get rawVars key of
         Some raw \<Rightarrow> Some raw
       | None \<Rightarrow> map_option escapeHtml (map_get vars key)) template"

definition render_mail :: "string \<Rightarrow> (string, string) jsmap \<Rightarrow> string" where
  "render_mail template vars =
     render (\<lambda>c. False) (\<lambda>key. Some (escapeMail (case map_get vars key of None \<Rightarrow> [] | Some v \<Rightarrow> v))) template"

section \<open>Error pages\<close>

datatype ErrorTemplateName = RequestedServiceNotFound | ServiceUnavailableTemplate

record presentation =
  pres_status :: nat
  pres_reason :: string
  pres_template :: ErrorTemplateName
  pres_detail :: "string \<Rightarrow> string"

definition PAGE_NOT_FOUND :: "string \<Rightarrow> (string \<Rightarrow> string) \<Rightarrow> presentation" where
  "PAGE_NOT_FOUND reason detail = \<lparr>pres_status = 404, pres_reason = reason,
     pres_template = RequestedServiceNotFound, pres_detail = detail\<rparr>"

definition PAGE_UNAVAILABLE :: "(string \<Rightarrow> string) \<Rightarrow> presentation" where
  "PAGE_UNAVAILABLE detail = \<lparr>pres_status = 503, pres_reason = ''Service Unavailable'',
     pres_template = ServiceUnavailableTemplate, pres_detail = detail\<rparr>"

text \<open>A text around the escaped address.\<close>

definition around :: "string \<Rightarrow> string \<Rightarrow> string \<Rightarrow> string" where
  "around before after host = before @ ''<code>'' @ host @ ''</code>'' @ after"

fun presentationFor :: "tunnel_outcome \<Rightarrow> presentation option" where
  "presentationFor SUCCESS = None"
| "presentationFor MISSING_HOST = Some (PAGE_NOT_FOUND ''Requested Service Not Found''
     (\<lambda>h. ''Your request did not include a <code>Host</code> header, so the OPTiCS Gateway could not tell which service it was meant for.''))"
| "presentationFor INVALID_ROUTE = Some (PAGE_NOT_FOUND ''Requested Service Not Found''
     (around [] '' is not an OPTiCS service address. Service addresses look like <code>service.workspace.optics.run</code>.''))"
| "presentationFor WORKSPACE_NOT_FOUND = Some (PAGE_NOT_FOUND ''Requested Service Not Found''
     (around ''No active workspace is registered at '' ''. The workspace may have been renamed, deactivated, or deleted.''))"
| "presentationFor SERVICE_NOT_FOUND = Some (PAGE_NOT_FOUND ''Requested Service Not Found''
     (around ''The workspace exists, but it has no service published at '' ''. The address may be misspelled, or the service may have been removed.''))"
| "presentationFor SERVICE_BLOCKED = Some (PAGE_UNAVAILABLE
     (around ''Traffic to '' '' has been suspended by an operator. The service itself may still be running, but OPTiCS is not forwarding requests to it right now.''))"
| "presentationFor AGENT_NOT_FOUND = Some (PAGE_UNAVAILABLE
     (around ''The service at '' '' is not linked to a deployment agent, so the OPTiCS Gateway had nowhere to forward your request.''))"
| "presentationFor AGENT_OFFLINE = Some (PAGE_UNAVAILABLE
     (around ''The deployment agent hosting '' '' is not connected to OPTiCS, so your request could not be forwarded to it. Its host machine is likely offline.''))"
| "presentationFor AGENT_NO_TUNNEL = Some (PAGE_UNAVAILABLE
     (around ''OPTiCS asked the deployment agent hosting '' '' to open a tunnel, but it did not do so in time. The agent may be unresponsive, or the service it fronts may have failed to start.''))"
| "presentationFor HUB_UNREACHABLE = Some (PAGE_UNAVAILABLE
     (\<lambda>h. ''The OPTiCS Gateway could not reach the OPTiCS control plane, so it could not look up where to send your request. This is a problem on our side, not with the service you requested.''))"
| "presentationFor HUB_REJECTED = Some (PAGE_UNAVAILABLE
     (\<lambda>h. ''The OPTiCS control plane rejected the routing request. This is a problem on our side, not with the service you requested.''))"
| "presentationFor DB_ERROR = Some (PAGE_UNAVAILABLE
     (around ''The OPTiCS control plane failed while looking up '' ''. This is a problem on our side, not with the service you requested.''))"

text \<open>A failed answer of the Hub names its outcome in the body; \<open>None\<close> is a body that is not JSON.\<close>

definition readHubOutcome :: "nat \<Rightarrow> jval option \<Rightarrow> tunnel_outcome" where
  "readHubOutcome status body =
     (let outcome = (case body of None \<Rightarrow> JUndef | Some b \<Rightarrow> field ''outcome'' b)
      in case find (\<lambda>o1. outcome = JStr (outcome_name o1)) KNOWN_OUTCOMES of
           Some o1 \<Rightarrow> if o1 \<noteq> SUCCESS then o1
                     else if status = 404 then SERVICE_NOT_FOUND else HUB_REJECTED
         | None \<Rightarrow> if status = 404 then SERVICE_NOT_FOUND else HUB_REJECTED)"

definition makeHtmlResponse :: "nat \<Rightarrow> string \<Rightarrow> string \<Rightarrow> string" where
  "makeHtmlResponse status reason body =
     ''HTTP/1.1 '' @ show_nat status @ '' '' @ reason @ crlf @
     ''content-type: text/html; charset=utf-8'' @ crlf @
     ''content-length: '' @ show_nat (length body) @ crlf @
     ''connection: close'' @ crlf @ crlf @ body"

record error_context =
  ctx_host :: string
  ctx_serviceName :: string
  ctx_requestId :: string
  ctx_rayId :: string

definition page_body :: "(ErrorTemplateName \<Rightarrow> string) \<Rightarrow> presentation \<Rightarrow> tunnel_outcome \<Rightarrow> error_context \<Rightarrow> string \<Rightarrow> string" where
  "page_body templates p outcome context timestamp =
     (let host = (if ctx_host context = [] then ''unknown host'' else ctx_host context)
      in renderTemplate (templates (pres_template p))
           [(''requestUrl'', host),
            (''serviceName'', if ctx_serviceName context = [] then host else ctx_serviceName context),
            (''requestId'', ctx_requestId context), (''rayId'', ctx_rayId context),
            (''outcome'', outcome_name outcome), (''timestamp'', timestamp)]
           [(''detail'', pres_detail p (escapeHtml host))])"

definition renderErrorResponse ::
  "(ErrorTemplateName \<Rightarrow> string) \<Rightarrow> tunnel_outcome \<Rightarrow> error_context \<Rightarrow> string \<Rightarrow> string" where
  "renderErrorResponse templates outcome context timestamp =
     (case presentationFor outcome of
        None \<Rightarrow> []
      | Some p \<Rightarrow> makeHtmlResponse (pres_status p) (pres_reason p) (page_body templates p outcome context timestamp))"

section \<open>Mails\<close>

text \<open>\<open>encodeURIComponent\<close> of an ASCII text\<close>

definition uri_plain :: "char \<Rightarrow> bool" where
  "uri_plain c \<longleftrightarrow> is_lower c \<or> is_upper c \<or> is_digit c \<or> c \<in> set ''-_.!~*()'' \<or> c = CHR 0x27"

definition encodeURIComponent :: "string \<Rightarrow> string" where
  "encodeURIComponent s = concat (map (\<lambda>c. if uri_plain c then [c]
     else CHR ''%'' # js_upper [hex_digit (of_char c div 16), hex_digit (of_char c mod 16)]) s)"

text \<open>The link of a mail; the parameter is \<open>verify\<close> or \<open>verify-existing\<close>.\<close>

definition verificationUrl :: "string \<Rightarrow> string \<Rightarrow> string \<Rightarrow> string" where
  "verificationUrl consoleBaseUrl parameter code =
     consoleBaseUrl @ ''/auth?'' @ parameter @ ''='' @ encodeURIComponent code"

section \<open>Escaping and templates\<close>

lemma replace_char_append [simp]: "replace_char c t (a @ b) = replace_char c t a @ replace_char c t b"
  by (simp add: replace_char_def)

lemma replace_char_Cons: "replace_char c t (x # s) = (if x = c then t else [x]) @ replace_char c t s"
  by (simp add: replace_char_def)

lemma escapeMail_Cons: "escapeMail (c # s) = (case HTML_ESCAPES c of None \<Rightarrow> [c] | Some t \<Rightarrow> t) @ escapeMail s"
  by (simp add: escapeMail_def)

lemma replace_char_other: "c \<notin> set s \<Longrightarrow> replace_char c t s = s"
  by (induction s) (auto simp: replace_char_def)

lemma escape_passes: "escapeHtml s = escapeMail s"
proof (induction s)
  case Nil
  then show ?case by (simp add: escapeHtml_def escapeMail_def replace_char_def)
next
  case (Cons c s)
  have "escapeHtml (c # s) = escapeHtml [c] @ escapeHtml s"
    by (simp add: escapeHtml_def replace_char_Cons replace_char_def)
  moreover have "escapeHtml [c] = (case HTML_ESCAPES c of None \<Rightarrow> [c] | Some t \<Rightarrow> t)"
    by (simp add: escapeHtml_def replace_char_def)
  ultimately show ?case using Cons by (simp add: escapeMail_Cons)
qed

text \<open>The characters a browser may read as the start or end of a tag or of an attribute.\<close>

definition markup :: "char \<Rightarrow> bool" where
  "markup c \<longleftrightarrow> c = CHR ''<'' \<or> c = CHR ''>'' \<or> c = CHR 0x22 \<or> c = CHR 0x27"

lemma escaped_no_markup [simp]: "filter markup (escapeMail s) = []"
  by (induction s) (simp_all add: escapeMail_def markup_def)

lemma escapeHtml_no_markup [simp]: "filter markup (escapeHtml s) = []"
  by (simp add: escape_passes)

lemma render_markup:
  assumes "\<And>key. rel_option (\<lambda>a b. filter markup a = filter markup b) (f key) (g key)"
  shows "filter markup (render gap f s) = filter markup (render gap g s)"
  using assms
proof (induction gap f s rule: render.induct)
  case (1 gap f)
  then show ?case by simp
next
  case (2 gap f c cs)
  show ?case
  proof (cases "placeholder gap (c # cs)")
    case None
    with 2(1) [OF None 2(3)] show ?thesis by simp
  next
    case (Some kr)
    obtain key rest where kr: "kr = (key, rest)" by (cases kr)
    show ?thesis using 2(3) [of key] 2(2) [OF Some kr [symmetric] 2(3)] Some kr by (cases "f key"; cases "g key") auto
  qed
qed

lemma rel_option_map_get:
  assumes "map fst xs = map fst ys" and "list_all2 (\<lambda>x y. R (snd x) (snd y)) xs ys"
  shows "rel_option R (map_get xs k) (map_get ys k)"
  using assms(2,1) unfolding map_get_def by (induction rule: list_all2_induct) auto

lemma around_markup: "filter markup a = filter markup b \<Longrightarrow> filter markup (around x y a) = filter markup (around x y b)"
  by (simp add: around_def)

lemma detail_cases:
  assumes "presentationFor outcome = Some p"
  shows "(\<exists>x y. pres_detail p = around x y) \<or> (\<exists>c. pres_detail p = (\<lambda>h. c))"
proof -
  have page: "(\<exists>x y. pres_detail (the (presentationFor outcome)) = around x y)
      \<or> (\<exists>c. pres_detail (the (presentationFor outcome)) = (\<lambda>h. c))" if "outcome \<noteq> SUCCESS"
    using that
    by (cases outcome; simp only: presentationFor.simps option.sel PAGE_NOT_FOUND_def PAGE_UNAVAILABLE_def
        presentation.simps) blast+
  from assms have "outcome \<noteq> SUCCESS" "the (presentationFor outcome) = p" by auto
  with page show ?thesis by simp
qed

lemma detail_markup:
  assumes "presentationFor outcome = Some p"
  shows "filter markup (pres_detail p (escapeHtml a)) = filter markup (pres_detail p (escapeHtml b))"
  using detail_cases [OF assms] around_markup [of "escapeHtml a" "escapeHtml b"] by auto

lemma page_body_markup:
  assumes "presentationFor outcome = Some p"
  shows "filter markup (page_body templates p outcome c t) = filter markup (page_body templates p outcome d u)"
  unfolding page_body_def renderTemplate_def Let_def
proof (rule render_markup)
  fix key
  show "rel_option (\<lambda>a b. filter markup a = filter markup b)
     (case map_get [(''detail'', pres_detail p (escapeHtml (if ctx_host c = [] then ''unknown host'' else ctx_host c)))] key of
        Some raw \<Rightarrow> Some raw
      | None \<Rightarrow> map_option escapeHtml (map_get
          [(''requestUrl'', if ctx_host c = [] then ''unknown host'' else ctx_host c),
           (''serviceName'', if ctx_serviceName c = [] then if ctx_host c = [] then ''unknown host'' else ctx_host c else ctx_serviceName c),
           (''requestId'', ctx_requestId c), (''rayId'', ctx_rayId c), (''outcome'', outcome_name outcome),
           (''timestamp'', t)] key))
     (case map_get [(''detail'', pres_detail p (escapeHtml (if ctx_host d = [] then ''unknown host'' else ctx_host d)))] key of
        Some raw \<Rightarrow> Some raw
      | None \<Rightarrow> map_option escapeHtml (map_get
          [(''requestUrl'', if ctx_host d = [] then ''unknown host'' else ctx_host d),
           (''serviceName'', if ctx_serviceName d = [] then if ctx_host d = [] then ''unknown host'' else ctx_host d else ctx_serviceName d),
           (''requestId'', ctx_requestId d), (''rayId'', ctx_rayId d), (''outcome'', outcome_name outcome),
           (''timestamp'', u)] key))"
    using detail_markup [OF assms]
    by (cases "key = ''detail''") (simp_all add: map_get_def option.rel_map)
qed

lemma show_nat_markup [simp]: "filter markup (show_nat n) = []"
  using show_nat_digits by (fastforce simp: filter_empty_conv markup_def is_digit_iff)

text \<open>C40: no request can put a tag into an error page. Two error pages of the same outcome have the same
  sequence of markup characters (angle brackets and quotes), that of the template and of the fixed
  texts, whatever the request sent as its host or its ids, and whatever the template.\<close>

theorem error_page_not_injectable:
  "filter markup (renderErrorResponse templates outcome c t) = filter markup (renderErrorResponse templates outcome d u)"
proof (cases "presentationFor outcome")
  case None
  then show ?thesis by (simp add: renderErrorResponse_def)
next
  case (Some p)
  have "filter markup crlf = []" by (simp add: crlf_def markup_def)
  then show ?thesis using page_body_markup [OF Some] Some
    by (simp add: renderErrorResponse_def makeHtmlResponse_def)
qed

section \<open>The request id\<close>

lemma split_crlf_not_Nil [simp]: "split_crlf s \<noteq> []"
  by (induction s rule: split_crlf.induct) (auto split: list.splits)

text \<open>A line without a line end in it, and in front of one.\<close>

fun unbroken :: "string \<Rightarrow> bool" where
  "unbroken (c # d # cs) \<longleftrightarrow> \<not> (c = CHR 0x0D \<and> d = CHR 0x0A) \<and> unbroken (d # cs)"
| "unbroken s \<longleftrightarrow> True"

lemma split_pieces: "w \<in> set (split_crlf s) \<Longrightarrow> unbroken w"
proof (induction s arbitrary: w rule: split_crlf.induct)
  case (3 c d cs)
  show ?case
  proof (cases "c = CHR 0x0D \<and> d = CHR 0x0A")
    case True
    with 3 show ?thesis by auto
  next
    case False
    obtain v vs where v: "split_crlf (d # cs) = v # vs" by (cases "split_crlf (d # cs)") auto
    have "v = [] \<or> hd v = d"
      using v by (cases cs) (auto split: if_splits list.splits)
    with False 3 v show ?thesis by (cases v) auto
  qed
qed auto

lemma split_append: "unbroken w \<Longrightarrow> split_crlf (w @ crlf @ s) = w # split_crlf s"
  by (induction w rule: unbroken.induct) (auto simp: crlf_def split: list.splits)

lemma split_single: "unbroken w \<Longrightarrow> split_crlf w = [w]"
  by (induction w rule: unbroken.induct) auto

lemma split_join: "ws \<noteq> [] \<Longrightarrow> \<forall>w\<in>set ws. unbroken w \<Longrightarrow> split_crlf (js_join crlf ws) = ws"
  by (induction crlf ws rule: js_join.induct) (auto simp: split_append split_single)

lemma join_split: "js_join crlf (split_crlf s) = s"
proof (induction s rule: split_crlf.induct)
  case (3 c d cs)
  then show ?case
    by (cases "split_crlf (d # cs)"; cases "tl (split_crlf (d # cs))"; cases "split_crlf cs") (auto simp: crlf_def)
qed auto

text \<open>The header ends before the first empty line after the request line.\<close>

lemma header_end_line:
  assumes "unbroken w"
  shows "header_end (w @ crlf @ s) =
    (if starts_with crlf s then Some (length w) else map_option (\<lambda>i. i + length w + 2) (header_end s))"
  using assms
proof (induction w rule: unbroken.induct)
  case (1 c d cs)
  then have no: "\<not> starts_with (crlf @ crlf) (c # d # cs @ crlf @ s)" by (auto simp: starts_with_def crlf_def)
  have "header_end ((c # d # cs) @ crlf @ s) = map_option Suc (header_end ((d # cs) @ crlf @ s))"
    by (simp add: no del: header_end.simps(2)) (subst header_end.simps, simp add: no)
  with 1 show ?case by (simp add: option.map_comp comp_def)
qed (auto simp: starts_with_def crlf_def option.map_comp comp_def)

lemma header_end_join:
  assumes "ws \<noteq> []" and "\<forall>w\<in>set ws. unbroken w"
  shows "\<exists>n. header_end (js_join crlf ws @ crlf @ crlf @ r) = Some n \<and> n \<le> length (js_join crlf ws)
    \<and> (n = length (js_join crlf ws) \<longleftrightarrow> [] \<notin> set (tl ws))"
  using assms
proof (induction crlf ws rule: js_join.induct)
  case (2 w)
  then show ?case using header_end_line [of w "crlf @ r"] by (simp add: starts_with_def)
next
  case (3 w v ws)
  have line: "header_end (js_join crlf (w # v # ws) @ crlf @ crlf @ r) =
      (let s = js_join crlf (v # ws) @ crlf @ crlf @ r
       in if starts_with crlf s then Some (length w) else map_option (\<lambda>i. i + length w + 2) (header_end s))"
    using header_end_line [of w "js_join crlf (v # ws) @ crlf @ crlf @ r"] 3(3) by (simp add: Let_def)
  show ?case
  proof (cases "v = []")
    case True
    then have "starts_with crlf (js_join crlf (v # ws) @ crlf @ crlf @ r)"
      by (cases ws) (simp_all add: starts_with_def)
    with line True show ?thesis by (simp add: Let_def crlf_def)
  next
    case False
    have "unbroken v" using 3(3) by simp
    with False have "\<not> starts_with crlf (v @ crlf @ x)" for x
      by (cases v rule: unbroken.cases) (auto simp: starts_with_def crlf_def)
    then have "\<not> starts_with crlf (js_join crlf (v # ws) @ crlf @ crlf @ r)" by (cases ws) simp_all
    with line 3 False show ?thesis by (auto simp: Let_def crlf_def)
  qed
qed simp

lemma header_end_split:
  "header_end s = Some i \<Longrightarrow> s = take i s @ crlf @ crlf @ drop (i + 4) s"
proof (induction s arbitrary: i)
  case (Cons c cs)
  show ?case
  proof (cases "starts_with (crlf @ crlf) (c # cs)")
    case True
    then have "take 4 (c # cs) = crlf @ crlf" by (simp add: starts_with_def crlf_def eval_nat_numeral)
    then have eq: "c # cs = (crlf @ crlf) @ drop 4 (c # cs)" by (metis append_take_drop_id)
    have "i = 0" using True Cons.prems by simp
    then show ?thesis using eq by (simp only: take_0 append_Nil add_0 append_assoc)
  next
    case False
    with Cons obtain j where "header_end cs = Some j" "i = Suc j" by auto
    with Cons.IH [of j] show ?thesis
      by (simp only: take_Suc_Cons append_Cons add_Suc drop_Suc_Cons)
  qed
qed simp

lemma header_end_le: "header_end s = Some i \<Longrightarrow> i \<le> length s"
  by (induction s arbitrary: i) (auto split: if_splits)

lemma header_lines:
  assumes "header_end s = Some i"
  shows "[] \<notin> set (tl (split_crlf (take i s)))"
proof -
  let ?ws = "split_crlf (take i s)"
  have "length (take i s) = i" using header_end_le [OF assms] by simp
  then have "header_end (js_join crlf ?ws @ crlf @ crlf @ drop (i + 4) s) = Some (length (js_join crlf ?ws))"
    using assms header_end_split [OF assms] by (simp add: join_split)
  then show ?thesis using header_end_join [of ?ws "drop (i + 4) s"] split_pieces by auto
qed

text \<open>the request that reaches the agent carries one request id, the gateway's. Whatever id headers the
  client sent, in whatever case, the rewritten header has exactly one, as its last line; the request
  line, the other headers in their order and the bytes after the header are what the client sent.\<close>

theorem one_request_id:
  assumes "header_end buffer = Some i" and "unbroken requestId"
  shows "\<exists>j. header_end (withRequestIdHeader buffer i requestId) = Some j
    \<and> drop (j + 4) (withRequestIdHeader buffer i requestId) = drop (i + 4) buffer
    \<and> split_crlf (take j (withRequestIdHeader buffer i requestId)) =
        hd (split_crlf (take i buffer)) # filter (\<lambda>l. \<not> is_header ''x-request-id:'' l) (tl (split_crlf (take i buffer)))
          @ [''x-request-id: '' @ requestId]
    \<and> is_header ''x-request-id:'' (''x-request-id: '' @ requestId)"
proof -
  let ?ws = "split_crlf (take i buffer)"
  let ?new = "hd ?ws # filter (\<lambda>l. \<not> is_header ''x-request-id:'' l) (tl ?ws) @ [''x-request-id: '' @ requestId]"
  let ?out = "withRequestIdHeader buffer i requestId"
  have join2: "js_join crlf (ws @ [[], []]) = js_join crlf ws @ crlf @ crlf" if "ws \<noteq> []" for ws
    using that by (induction crlf ws rule: js_join.induct) simp_all
  have out: "?out = js_join crlf ?new @ crlf @ crlf @ drop (i + 4) buffer"
    using join2 [of ?new] by (simp add: withRequestIdHeader_def Let_def)
  have "unbroken (''x-request-id: '' @ requestId)" using assms(2) by (cases requestId) simp_all
  then have ok: "\<forall>w\<in>set ?new. unbroken w"
    using split_pieces [of _ "take i buffer"] split_crlf_not_Nil [of "take i buffer"]
      list.set_sel(2) [OF split_crlf_not_Nil, of _ "take i buffer"] by auto
  have "[] \<notin> set (tl ?new)" using header_lines [OF assms(1)] by auto
  then have "header_end ?out = Some (length (js_join crlf ?new))"
    using header_end_join [of ?new "drop (i + 4) buffer"] ok out by auto
  moreover have "split_crlf (js_join crlf ?new) = ?new" using split_join [of ?new] ok by simp
  moreover have "is_header ''x-request-id:'' (''x-request-id: '' @ requestId)"
    by (simp add: is_header_def starts_with_def js_lower_def lower_char_def is_upper_def less_eq_char_def)
  ultimately show ?thesis using out by (intro exI [of _ "length (js_join crlf ?new)"]) (simp add: crlf_def)
qed

definition example_request :: string where
  "example_request = ''GET / HTTP/1.1'' @ crlf @ ''X-Request-ID: a'' @ crlf @ ''Host: w.optics.run'' @ crlf @ crlf @ ''x''"

lemma one_request_id_witness:
  "header_end example_request = Some 51 \<and>
   (\<exists>j. header_end (withRequestIdHeader example_request 51 ''opt_1'') = Some j \<and>
     split_crlf (take j (withRequestIdHeader example_request 51 ''opt_1'')) =
       [''GET / HTTP/1.1'', ''Host: w.optics.run'', ''x-request-id: opt_1''])"
proof -
  have h: "header_end example_request = Some 51" and u: "unbroken ''opt_1''" by code_simp+
  have "hd (split_crlf (take 51 example_request)) = ''GET / HTTP/1.1''"
    "filter (\<lambda>l. \<not> is_header ''x-request-id:'' l) (tl (split_crlf (take 51 example_request))) = [''Host: w.optics.run'']"
    by code_simp+
  with h one_request_id [OF h u] show ?thesis by force
qed

end
