(* ===== verification/Mail.thy ===== *)
theory Mail
  imports Accounts GatewayText
begin

text \<open>
  \<open>src/mailer/mailer.service.ts\<close> and \<open>src/mailer/mail.config.ts\<close>: the letter that is handed to the provider
  for each mail of theory Accounts. The files of the templates, the date format of \<open>Intl\<close> and the time
  zone of the process are the environment; the Korean texts appear in an English gloss.
\<close>

section \<open>Settings\<close>

datatype mail_sender = NOREPLY | SUPPORT

definition sender_address :: "config \<Rightarrow> mail_sender \<Rightarrow> string" where
  "sender_address cfg sender =
     (case sender of
        NOREPLY \<Rightarrow> version_or (cfg_text cfg ''MAIL_FROM_NOREPLY'') ''OPTiCS <no-reply@optics.run>''
      | SUPPORT \<Rightarrow> version_or (cfg_text cfg ''MAIL_FROM_SUPPORT'') ''OPTiCS Support <support@optics.run>'')"

definition reply_address :: "config \<Rightarrow> mail_sender \<Rightarrow> string option" where
  "reply_address cfg sender =
     (case sender of
        NOREPLY \<Rightarrow> None
      | SUPPORT \<Rightarrow> Some (version_or (cfg_text cfg ''MAIL_REPLY_TO'') ''support@optics.run''))"

definition consoleBaseUrl :: "config \<Rightarrow> string" where
  "consoleBaseUrl cfg = version_or (cfg_text cfg ''CONSOLE_BASE_URL'') ''https://console.optics.run''"

section \<open>Templates\<close>

record mail_env =
  read_template :: "string \<Rightarrow> string option"
  format_kst :: "int \<Rightarrow> string"
  zone_offset :: int

definition TEMPLATE_NAMES :: "string list" where
  "TEMPLATE_NAMES = [''verification'', ''verificationForExisting'']"

text \<open>A file that is missing stops the start of the process.\<close>

definition load_templates :: "mail_env \<Rightarrow> (string, string) jsmap option" where
  "load_templates env =
     foldl (\<lambda>m name. case (m, read_template env name) of
         (Some ts, Some t) \<Rightarrow> Some (map_set ts name t)
       | _ \<Rightarrow> None) (Some []) TEMPLATE_NAMES"

definition render_named :: "(string, string) jsmap \<Rightarrow> string \<Rightarrow> (string, string) jsmap \<Rightarrow> http_error + string" where
  "render_named templates name vars =
     (case map_get templates name of
        None \<Rightarrow> Inl (InternalError (''Unknown mail template: '' @ name))
      | Some t \<Rightarrow>
          if t = [] then Inl (InternalError (''Unknown mail template: '' @ name)) else Inr (render_mail t vars))"

definition formatKst :: "mail_env \<Rightarrow> int \<Rightarrow> string" where
  "formatKst env at = format_kst env at @ '' (KST)''"

definition full_year :: "mail_env \<Rightarrow> int \<Rightarrow> int" where
  "full_year env now = fst (civil ((now + zone_offset env) div DAY_LENGTH))"

section \<open>Letters\<close>

record letter =
  lt_from :: string
  lt_replyTo :: "string option"
  lt_to :: string
  lt_subject :: string
  lt_html :: string
  lt_text :: string

definition mail_vars :: "mail_env \<Rightarrow> config \<Rightarrow> string \<Rightarrow> string \<Rightarrow> int \<Rightarrow> int \<Rightarrow> (string, string) jsmap" where
  "mail_vars env cfg url to at now =
     [(''verificationUrl'', url), (''expiresInMinutes'', show_int (cfg_int cfg ''mail.verificationTtlMinutes'')),
      (''email'', to), (''requestedAt'', formatKst env at), (''year'', show_int (full_year env now))]"

definition text_lines :: "mail_env \<Rightarrow> config \<Rightarrow> string \<Rightarrow> string \<Rightarrow> int \<Rightarrow> string list" where
  "text_lines env cfg url to at =
     [url, [], ''Address: '' @ to, ''Requested at: '' @ formatKst env at,
      ''The link is valid for '' @ show_int (cfg_int cfg ''mail.verificationTtlMinutes'')
        @ '' minutes from the time of the request.'']"

definition letter_to :: "config \<Rightarrow> string \<Rightarrow> string \<Rightarrow> string \<Rightarrow> string \<Rightarrow> letter" where
  "letter_to cfg to subject html body =
     \<lparr>lt_from = sender_address cfg NOREPLY, lt_replyTo = reply_address cfg NOREPLY, lt_to = to,
      lt_subject = subject, lt_html = html, lt_text = body\<rparr>"

definition sendVerification ::
  "mail_env \<Rightarrow> (string, string) jsmap \<Rightarrow> config \<Rightarrow> string \<Rightarrow> string \<Rightarrow> int \<Rightarrow> int \<Rightarrow> http_error + letter" where
  "sendVerification env templates cfg to code at now =
     (let url = verificationUrl (consoleBaseUrl cfg) ''verify'' code
      in case render_named templates ''verification'' (mail_vars env cfg url to at now) of
           Inl e \<Rightarrow> Inl e
         | Inr html \<Rightarrow> Inr (letter_to cfg to ''[OPTiCS] Verification of your address'' html
             (js_join [CHR 0x0A]
               ([''Verification of your address'', [], ''Open this address to complete your registration.'']
                @ text_lines env cfg url to at @ [''If you did not ask for it, ignore this mail.'']))))"

definition sendVerificationForExisting ::
  "mail_env \<Rightarrow> (string, string) jsmap \<Rightarrow> config \<Rightarrow> string \<Rightarrow> string \<Rightarrow> int \<Rightarrow> int \<Rightarrow> http_error + letter" where
  "sendVerificationForExisting env templates cfg to code at now =
     (let url = verificationUrl (consoleBaseUrl cfg) ''verify-existing'' code
      in case render_named templates ''verificationForExisting'' (mail_vars env cfg url to at now) of
           Inl e \<Rightarrow> Inl e
         | Inr html \<Rightarrow> Inr (letter_to cfg to ''[OPTiCS] Your address has to be verified'' html
             (js_join [CHR 0x0A]
               ([''Your address has to be verified'', [],
                 ''Verification was introduced lately. Open this address to complete it.'']
                @ text_lines env cfg url to at @ [''Until then your account and your data stay as they are.'']))))"

definition letter_of ::
  "mail_env \<Rightarrow> (string, string) jsmap \<Rightarrow> config \<Rightarrow> int \<Rightarrow> mail \<Rightarrow> http_error + letter" where
  "letter_of env templates cfg now m =
     (case m of
        VerificationMail to code at \<Rightarrow> sendVerification env templates cfg to code at now
      | ExistingUserMail to code at \<Rightarrow> sendVerificationForExisting env templates cfg to code at now)"

section \<open>No markup from outside\<close>

lemma loaded_templates:
  assumes "load_templates env = Some ts"
  shows "map_get ts ''verification'' = read_template env ''verification''"
    and "map_get ts ''verificationForExisting'' = read_template env ''verificationForExisting''"
  using assms by (auto simp: load_templates_def TEMPLATE_NAMES_def split: option.splits)

lemma render_named_markup:
  assumes "render_named ts name vars = Inr a" and "render_named ts name vars2 = Inr b"
  shows "filter markup a = filter markup b"
proof -
  obtain t where "a = render_mail t vars" "b = render_mail t vars2"
    using assms by (auto simp: render_named_def split: option.splits if_splits)
  moreover have "filter markup (render_mail t vars) = filter markup (render_mail t vars2)"
    unfolding render_mail_def by (rule render_markup) simp
  ultimately show ?thesis by simp
qed

text \<open>The address a mail goes to, and its code, put no tag into its page: two mails of the same kind have
  the same markup.\<close>

lemma sent_html:
  "sendVerification env ts cfg to code at now = Inr a \<Longrightarrow>
   \<exists>vars. render_named ts ''verification'' vars = Inr (lt_html a)"
  unfolding sendVerification_def letter_to_def Let_def
  by (cases "render_named ts ''verification''
      (mail_vars env cfg (verificationUrl (consoleBaseUrl cfg) ''verify'' code) to at now)") auto

lemma mail_not_injectable:
  assumes "sendVerification env ts cfg to code at now = Inr a" and "sendVerification env ts cfg to2 code2 at2 now2 = Inr b"
  shows "filter markup (lt_html a) = filter markup (lt_html b)"
  using sent_html [OF assms(1)] sent_html [OF assms(2)] render_named_markup by blast

end
