(* ===== verification/AccountRules.thy ===== *)
theory AccountRules
  imports Api
begin

text \<open>
  The guarantees of accounts and tokens: codes sent by mail, the second factor, login and the life
  of refresh tokens.
\<close>

section \<open>Codes are used once\<close>

lemma latest_in: "latest key P rows = Some r \<Longrightarrow> r \<in> set rows \<and> P r"
proof -
  assume r: "latest key P rows = Some r"
  then have "r \<in> set (js_sort (\<lambda>a b. key b - key a) (filter P rows))"
    by (auto simp: latest_def simp del: set_js_sort split: list.splits)
  then show ?thesis by simp
qed

text \<open>What a request did with codes: the code of a registration or a confirmation that succeeded.\<close>

fun used_code :: "auth_route \<Rightarrow> reply \<Rightarrow> string list" where
  "used_code (Register dto) m = (if isl (fst m) then [] else [rf_verificationCode dto])"
| "used_code (ConfirmEmail code) m = (if isl (fst m) then [] else [code])"
| "used_code r m = []"

inductive account_run :: "config \<Rightarrow> hub \<Rightarrow> string list \<Rightarrow> hub \<Rightarrow> bool" for cfg where
  Idle: "account_run cfg h [] h"
| Open: "account_run cfg h codes h1 \<Longrightarrow> auth_open cfg r tok h1 = Some m \<Longrightarrow>
    account_run cfg h (codes @ used_code r m) (snd m)"
| Guarded: "account_run cfg h codes h1 \<Longrightarrow> account_run cfg h codes (snd (auth_guarded cfg r u hdr h1))"
| Elsewhere: "account_run cfg h codes h1 \<Longrightarrow> verifications h2 = verifications h1 \<Longrightarrow>
    next_verification h2 = next_verification h1 \<Longrightarrow> draws h1 \<le> draws h2 \<Longrightarrow> account_run cfg h codes h2"

text \<open>Every code was drawn, each once; the codes used are those of consumed rows.\<close>

definition codes_ok :: "config \<Rightarrow> string list \<Rightarrow> hub \<Rightarrow> bool" where
  "codes_ok cfg codes h \<longleftrightarrow>
     distinct (map verification_code (verifications h)) \<and> distinct (map verification_index (verifications h))
     \<and> (\<forall>v\<in>set (verifications h). verification_index v < next_verification h)
     \<and> (\<forall>v\<in>set (verifications h). \<exists>n<draws h. verification_code v = cfg_random cfg n)
     \<and> distinct codes
     \<and> (\<forall>c\<in>set codes. \<exists>v\<in>set (verifications h). verification_code v = c \<and> verification_consumed_at v \<noteq> None)"

lemma codes_ok_mono:
  "codes_ok cfg codes h \<Longrightarrow> verifications h2 = verifications h \<Longrightarrow> next_verification h2 = next_verification h \<Longrightarrow>
   draws h \<le> draws h2 \<Longrightarrow> codes_ok cfg codes h2"
  by (simp add: codes_ok_def) (meson order_less_le_trans)

lemma codes_ok_update:
  assumes "codes_ok cfg codes h" and "\<And>v. verification_code (f v) = verification_code v"
    and "\<And>v. verification_index (f v) = verification_index v"
    and "\<And>v. verification_consumed_at v \<noteq> None \<Longrightarrow> verification_consumed_at (f v) \<noteq> None"
  shows "codes_ok cfg codes (set_verification i f h)"
proof -
  have m: "map verification_code (update_rows P f vs) = map verification_code vs"
    "map verification_index (update_rows P f vs) = map verification_index vs" for P vs
    by (simp_all add: update_rows_def assms)
  have "\<exists>v'\<in>set (update_rows (\<lambda>v. verification_index v = i) f (verifications h)).
      verification_code v' = verification_code v \<and> verification_consumed_at v' \<noteq> None"
    if "v \<in> set (verifications h)" "verification_consumed_at v \<noteq> None" for v
    using that assms(2,4) by (intro bexI [of _ "if verification_index v = i then f v else v"])
      (auto simp: in_update_rows)
  then show ?thesis
    using assms(1) unfolding codes_ok_def set_verification_def
    by (simp add: m) (auto simp: in_update_rows assms(2,3))
qed

lemma codes_ok_new:
  assumes "inj (cfg_random cfg)" and "codes_ok cfg codes h"
    and "verification_code v = cfg_random cfg (draws h)" and "verification_index v = next_verification h"
  shows "codes_ok cfg codes (h\<lparr>draws := Suc (draws h), verifications := verifications h @ [v],
      next_verification := Suc (next_verification h)\<rparr>)"
proof -
  have "cfg_random cfg (draws h) \<notin> verification_code ` set (verifications h)"
  proof
    assume "cfg_random cfg (draws h) \<in> verification_code ` set (verifications h)"
    then obtain n where "n < draws h" "cfg_random cfg (draws h) = cfg_random cfg n"
      using assms(2) unfolding codes_ok_def by (metis imageE)
    then show False using assms(1) by (simp add: inj_eq)
  qed
  moreover have "next_verification h \<notin> verification_index ` set (verifications h)"
    using assms(2) unfolding codes_ok_def by force
  ultimately show ?thesis
    using assms(2-4) unfolding codes_ok_def by (auto simp: less_Suc_eq)
qed

lemma codes_ok_used:
  assumes "codes_ok cfg codes h" and "usable_verification cfg code h = Some v"
    and "verifications h2 = verifications h" and "next_verification h2 = next_verification h"
    and "draws h \<le> draws h2"
  shows "codes_ok cfg (codes @ [code]) (consume v h2)"
proof -
  note v = latest_in [OF assms(2) [unfolded usable_verification_def]]
  have "verification_consumed_at w = None" if "w \<in> set (verifications h)" "verification_code w = code" for w
    using v that assms(1) unfolding codes_ok_def by (metis distinct_map inj_onD)
  then have "code \<notin> set codes" using assms(1) unfolding codes_ok_def by fastforce
  have ok: "codes_ok cfg codes (consume v h2)"
    unfolding consume_def using codes_ok_mono [OF assms(1,3-5)] by (rule codes_ok_update) simp_all
  have "\<exists>w\<in>set (verifications (consume v h2)). verification_code w = code \<and> verification_consumed_at w \<noteq> None"
    using v by (intro bexI [of _ "v\<lparr>verification_consumed_at := Some (clock h2)\<rparr>"])
      (auto simp: consume_def set_verification_def in_update_rows assms(3))
  then show ?thesis using ok \<open>code \<notin> set codes\<close> unfolding codes_ok_def by auto
qed

text \<open>The operations that leave the codes alone.\<close>

definition unchanged :: "hub \<Rightarrow> hub \<Rightarrow> bool" where
  "unchanged h h2 \<longleftrightarrow> verifications h2 = verifications h \<and> next_verification h2 = next_verification h
     \<and> draws h \<le> draws h2"

lemma unchanged_refl [simp]: "unchanged h h"
  by (simp add: unchanged_def)

lemma unchanged_trans: "unchanged h h1 \<Longrightarrow> unchanged h1 h2 \<Longrightarrow> unchanged h h2"
  by (simp add: unchanged_def)

lemma unchanged_andThen:
  "unchanged h (snd m) \<Longrightarrow> (\<And>x s. m = (Inr x, s) \<Longrightarrow> unchanged s (snd (f x s))) \<Longrightarrow> unchanged h (snd (andThen m f))"
  by (cases m) (auto simp: andThen_def intro: unchanged_trans split: sum.split)

lemma unchanged_signLoginTokens [simp]: "unchanged h (snd (signLoginTokens cfg u h))"
  by (simp add: unchanged_def signLoginTokens_def Let_def split_beta split: sum.split)

lemma unchanged_revoke [simp]: "unchanged h (revokeRefreshToken cfg tok h)"
  by (simp add: unchanged_def revokeRefreshToken_def split: option.split)

lemma unchanged_signPurposeToken [simp]: "unchanged h (snd (signPurposeToken cfg u p a h))"
  by (simp add: unchanged_def signPurposeToken_def Let_def split_beta)

lemma unchanged_set_user [simp]: "unchanged h (set_user i f h)"
  by (simp add: unchanged_def set_user_def)

lemma unchanged_totp [simp]:
  "unchanged h (snd (confirm2FA cfg i tok h))" "unchanged h (snd (remove2FA cfg i tok h))"
  "unchanged h (snd (verifyActiveUserTotp cfg i tok h))"
  by (simp_all add: confirm2FA_def remove2FA_def verifyActiveUserTotp_def split: sum.split)

lemma unchanged_setup [simp]: "unchanged h (snd (generate2FASecret cfg e h))"
  by (simp add: unchanged_def generate2FASecret_def Let_def split_beta split: option.split)

lemma unchanged_changePassword [simp]: "unchanged h (snd (changePassword cfg u dto h))"
  by (simp add: changePassword_def hash_password_def Let_def split_beta split: option.split)
    (simp add: unchanged_def set_user_def)

lemma unchanged_mint [simp]: "unchanged h (snd (mintPurposeToken cfg u p a h))"
  by (simp add: mintPurposeToken_def)

lemma unchanged_TwoFactorGuard [simp]: "unchanged h (snd (TwoFactorGuard cfg i hdr b h))"
  by (simp add: TwoFactorGuard_def split: option.split sum.split)

lemma unchanged_login [simp]: "unchanged h (snd (login cfg dto h))"
proof -
  have "unchanged h (snd (andThen (if b then verifyActiveUserTotp cfg i t h else give True h)
      (\<lambda>ok. signLoginTokens cfg i)))" for b i t
    by (rule unchanged_andThen) simp_all
  then show ?thesis by (simp add: login_def split: option.split)
qed

lemma codes_ok_unchanged: "codes_ok cfg codes h \<Longrightarrow> unchanged h h2 \<Longrightarrow> codes_ok cfg codes h2"
  by (simp add: unchanged_def codes_ok_mono)

lemma codes_ok_issue:
  assumes "inj (cfg_random cfg)" and "codes_ok cfg codes h"
  shows "codes_ok cfg codes (snd (issueOrReuseVerification cfg e h))"
  using assms codes_ok_update [OF assms(2)] codes_ok_new [OF assms]
  by (simp add: issueOrReuseVerification_def Let_def split_beta split: option.split)

lemma codes_ok_mail: "codes_ok cfg codes h \<Longrightarrow> codes_ok cfg codes (snd (send_mail cfg m h))"
  by (erule codes_ok_mono) (simp_all add: send_mail_def)

lemma codes_ok_verify:
  assumes "inj (cfg_random cfg)" and "codes_ok cfg codes h"
  shows "codes_ok cfg codes (snd (verifyEmail cfg e h))"
    and "codes_ok cfg codes (snd (requestExistingEmailVerification cfg u h))"
proof -
  have "codes_ok cfg codes (snd (andThen (issueOrReuseVerification cfg e h) (\<lambda>v. send_mail cfg (m v))))" for e m
    by (rule andThen_snd) (use codes_ok_issue [OF assms, of e] codes_ok_mail in auto)
  then show "codes_ok cfg codes (snd (verifyEmail cfg e h))"
    and "codes_ok cfg codes (snd (requestExistingEmailVerification cfg u h))"
    using assms by (auto simp: verifyEmail_def requestExistingEmailVerification_def split: option.split)
qed

lemma codes_ok_confirm:
  assumes "codes_ok cfg codes h"
  shows "codes_ok cfg (codes @ (if isl (fst (verifyExistingEmail cfg code h)) then [] else [code]))
    (snd (verifyExistingEmail cfg code h))"
  using assms codes_ok_used [OF assms, where code = code]
  by (auto simp: verifyExistingEmail_def give_def throw_def set_user_def split: option.split)

lemma codes_ok_prefix: "codes_ok cfg (codes @ [c]) h \<Longrightarrow> codes_ok cfg codes h"
  by (simp add: codes_ok_def)

lemma codes_ok_register:
  assumes "codes_ok cfg codes h"
  shows "codes_ok cfg (codes @ (if isl (fst (register_user cfg dto h)) then [] else [rf_verificationCode dto]))
    (snd (register_user cfg dto h))"
proof (cases "usable_verification cfg (rf_verificationCode dto) h")
  case (Some v)
  let ?h = "\<lambda>p. snd (new_user (verification_email v) (rf_display dto) p (h\<lparr>draws := Suc (draws h)\<rparr>))"
  have used: "codes_ok cfg (codes @ [rf_verificationCode dto]) (snd (signLoginTokens cfg i (consume v (?h p))))" for i p
    by (rule codes_ok_unchanged [OF codes_ok_used [OF assms Some] unchanged_signLoginTokens]) (simp_all add: new_user_def)
  show ?thesis
  proof (cases "rf_password dto = rf_passwordConfirm dto \<and> user_of_email (verification_email v) h = None")
    case True
    then have eq: "register_user cfg dto h = signLoginTokens cfg (next_user h) (consume v (?h
        (cfg_bcrypt_hash cfg (rf_password dto) (cfg_int cfg ''SECURITY_SALT_ROUND'') (cfg_random cfg (draws h)))))"
      using Some by (simp add: register_user_def hash_password_def new_user_def draw_def Let_def)
    show ?thesis using used used [THEN codes_ok_prefix] unfolding eq by simp
  qed (use assms Some in \<open>auto simp: register_user_def throw_def\<close>)
qed (use assms in \<open>auto simp: register_user_def throw_def\<close>)

lemma isl_replies [simp]:
  "isl (fst (reply_with c t f x)) = isl (fst x)" "isl (fst (with_tokens cfg msg y)) = isl (fst y)"
  by (cases x; auto simp: reply_with_def andThen_def give_def split: sum.split)
    (cases y; auto simp: with_tokens_def andThen_def give_def split: sum.split)

lemma snd_with_tokens [simp]: "snd (with_tokens cfg msg y) = snd y"
  by (cases y) (auto simp: with_tokens_def andThen_def give_def split: sum.split)

lemma codes_ok_open:
  assumes "inj (cfg_random cfg)" and "codes_ok cfg codes h" and "auth_open cfg r tok h = Some m"
  shows "codes_ok cfg (codes @ used_code r m) (snd m)"
proof (cases r)
  case (Register dto)
  with assms(3) have "m = with_tokens cfg ''Register and Logged In Successfully.'' (register_user cfg dto h)"
    by simp
  then show ?thesis using codes_ok_register [OF assms(2), of dto] Register by simp
next
  case (ConfirmEmail code)
  with assms(3) have "m = reply_with SUCCESS_CODE (\<lambda>e. ''Email Verified.'') EmailAnswer (verifyExistingEmail cfg code h)"
    by simp
  then show ?thesis using codes_ok_confirm [OF assms(2), of code] ConfirmEmail by simp
qed (use assms(2,3) codes_ok_verify [OF assms(1,2)] codes_ok_unchanged [OF assms(2)] in \<open>auto simp: Let_def\<close>)

lemma codes_ok_guarded:
  assumes "inj (cfg_random cfg)" and "codes_ok cfg codes h"
  shows "codes_ok cfg codes (snd (auth_guarded cfg r u hdr h))"
proof -
  have mint: "unchanged h (snd (auth_guarded cfg (MintToken p a t) u hdr h))" for p a t
    by (simp, rule unchanged_andThen) (simp_all split: if_split)
  have totp: "unchanged h (snd (andThen (check (text_token t) h) (\<lambda>t. confirm2FA cfg i t)))"
    "unchanged h (snd (andThen (check (text_token t) h) (\<lambda>t. remove2FA cfg i t)))" for i t
    by (simp_all split: sum.split)
  show ?thesis
    using assms codes_ok_verify [OF assms] codes_ok_unchanged [OF assms(2)] mint totp
    by (cases r) (simp_all del: auth_guarded.simps(6) add: auth_guarded.simps(1-5,7-))
qed

text \<open>C28: a code sent by mail serves once. Whatever is requested of the account routes, in whatever order and
  with whatever else the Hub does in between, each code completes at most one registration or
  confirmation. The random source is assumed not to repeat a value.\<close>

theorem codes_serve_once:
  assumes "inj (cfg_random cfg)" and "account_run cfg (init_hub t) codes h"
  shows "distinct codes"
proof -
  have "account_run cfg h0 codes h \<Longrightarrow> h0 = init_hub t \<Longrightarrow> codes_ok cfg codes h" for h0
  proof (induction rule: account_run.induct)
    case (Idle h)
    then show ?case by (simp add: codes_ok_def init_hub_def)
  next
    case (Open h codes h1 r tok m)
    then show ?case using codes_ok_open [OF assms(1)] by blast
  next
    case (Guarded h codes h1 r u hdr)
    then show ?case using codes_ok_guarded [OF assms(1)] by blast
  next
    case (Elsewhere h codes h1 h2)
    then show ?case using codes_ok_mono by blast
  qed
  with assms(2) show ?thesis unfolding codes_ok_def by blast
qed

definition example_form :: register_form where
  "example_form = \<lparr>rf_verificationCode = ''100'', rf_password = ''secret-1'', rf_passwordConfirm = ''secret-1'',
     rf_display = ''Ann''\<rparr>"

lemma codes_serve_once_witness:
  "\<exists>h. account_run example_config (init_hub 1000) [''100''] h \<and> length (users h) = 1 \<and> distinct [''100'']"
proof -
  let ?step = "\<lambda>r h. the (auth_open example_config r None h)"
  let ?h1 = "snd (?step (VerifyEmail ''a@b.c'') (init_hub 1000))"
  let ?h2 = "snd (?step (Register example_form) ?h1)"
  have inj: "inj (cfg_random example_config)" by (auto simp: inj_def example_config_def)
  have "account_run example_config (init_hub 1000)
      ((([] @ used_code (VerifyEmail ''a@b.c'') (?step (VerifyEmail ''a@b.c'') (init_hub 1000)))
        @ used_code (Register example_form) (?step (Register example_form) ?h1))
       @ used_code (Register example_form) (?step (Register example_form) ?h2))
      (snd (?step (Register example_form) ?h2))"
    by (rule account_run.Open account_run.Idle | simp)+
  moreover have "used_code (VerifyEmail ''a@b.c'') (?step (VerifyEmail ''a@b.c'') (init_hub 1000)) = []"
    "used_code (Register example_form) (?step (Register example_form) ?h1) = [''100'']"
    "used_code (Register example_form) (?step (Register example_form) ?h2) = []"
    "length (users (snd (?step (Register example_form) ?h2))) = 1"
    by code_simp+
  ultimately show ?thesis using codes_serve_once [OF inj] by (metis append_Nil append_Nil2)
qed

section \<open>The second factor\<close>

definition users_ok :: "hub \<Rightarrow> bool" where
  "users_ok h \<longleftrightarrow> distinct (map user_index (users h)) \<and> distinct (map user_email (users h))
     \<and> (\<forall>u\<in>set (users h). user_index u < next_user h)"

text \<open>A user has the second factor on, and its last accepted step is \<open>s\<close> or later.\<close>

definition totp_past :: "nat \<Rightarrow> int \<Rightarrow> hub \<Rightarrow> bool" where
  "totp_past i s h \<longleftrightarrow> users_ok h \<and>
     (\<exists>u a. find_user i h = Some u \<and> user_totp_active u \<and> last_used_totp_step u = Some a \<and> s \<le> a)"

inductive totp_run :: "config \<Rightarrow> nat \<Rightarrow> hub \<Rightarrow> hub \<Rightarrow> bool" for cfg i where
  Idle: "totp_run cfg i h h"
| Open: "totp_run cfg i h h1 \<Longrightarrow> auth_open cfg r tok h1 = Some m \<Longrightarrow> totp_run cfg i h (snd m)"
| Guarded: "totp_run cfg i h h1 \<Longrightarrow> \<not> (user_index u = i \<and> (\<exists>t. r = Remove2FA t)) \<Longrightarrow>
    totp_run cfg i h (snd (auth_guarded cfg r u hdr h1))"
| Elsewhere: "totp_run cfg i h h1 \<Longrightarrow> users h2 = users h1 \<Longrightarrow> next_user h2 = next_user h1 \<Longrightarrow> totp_run cfg i h h2"

lemma users_ok_set_user:
  assumes "users_ok h" and "\<And>u. user_index (f u) = user_index u" and "\<And>u. user_email (f u) = user_email u"
  shows "users_ok (set_user j f h)"
proof -
  have "map user_index (update_rows P f us) = map user_index us" "map user_email (update_rows P f us) = map user_email us"
    for P us by (simp_all add: update_rows_def assms)
  then show ?thesis using assms(1) by (auto simp: users_ok_def set_user_def in_update_rows assms(2))
qed

lemma find_user_set_user:
  "(\<And>u. user_index (f u) = user_index u) \<Longrightarrow>
   find_user i (set_user j f h) = map_option (\<lambda>u. if user_index u = j then f u else u) (find_user i h)"
  by (simp add: find_user_def set_user_def find_update_same)

lemma totp_past_set_user:
  assumes "totp_past i s h" and "\<And>u. user_index (f u) = user_index u" and "\<And>u. user_email (f u) = user_email u"
    and "\<And>u. find_user i h = Some u \<Longrightarrow> j = i \<Longrightarrow>
      user_totp_active (f u) \<and> (\<exists>a. last_used_totp_step (f u) = Some a \<and> s \<le> a)"
  shows "totp_past i s (set_user j f h)"
proof -
  obtain u a where u: "find_user i h = Some u" "user_totp_active u" "last_used_totp_step u = Some a" "s \<le> a"
    using assms(1) unfolding totp_past_def by blast
  then have "user_index u = i" by (auto simp: find_user_def dest: find_SomeD)
  then have found: "find_user i (set_user j f h) = Some (if i = j then f u else u)"
    using u(1) by (simp add: find_user_set_user assms(2))
  have "users_ok (set_user j f h)"
    using assms(1) unfolding totp_past_def by (intro users_ok_set_user assms(2,3)) blast
  then show ?thesis
    using found u assms(4) [OF u(1)] by (cases "i = j") (auto simp: totp_past_def)
qed

lemma totp_past_cong: "users h2 = users h \<Longrightarrow> next_user h2 = next_user h \<Longrightarrow> totp_past i s h2 = totp_past i s h"
  by (simp add: totp_past_def users_ok_def find_user_def)

text \<open>The library accepts only steps after the one it is given.\<close>

definition steps_rise :: "config \<Rightarrow> bool" where
  "steps_rise cfg \<longleftrightarrow>
     (\<forall>k c tol now a r. cfg_totp cfg k c tol now (Some a) = Some r \<longrightarrow> a < getTimeStep cfg r)"

lemma verifyUserTotp_after:
  assumes "steps_rise cfg"
    and "totp_past i s h" and "verifyUserTotp cfg i tok act h = Inr r"
  shows "s < getTimeStep cfg r"
proof -
  obtain u a where u: "find_user i h = Some u" "last_used_totp_step u = Some a" "s \<le> a"
    using assms(2) unfolding totp_past_def by blast
  have "cfg_totp cfg (the (user_totp_secret u)) tok (cfg_int cfg ''TOTP_EPOCH_TOLERANCE_SECONDS'') (clock h) (Some a)
      = Some r"
    using assms(3) u by (auto simp: verifyUserTotp_def split: if_splits option.splits)
  with assms(1) u(3) show ?thesis unfolding steps_rise_def by fastforce
qed

lemma totp_past_verify:
  assumes law: "steps_rise cfg"
    and past: "totp_past i s h"
  shows "totp_past i s (snd (verifyActiveUserTotp cfg j tok h))" "totp_past i s (snd (confirm2FA cfg j tok h))"
    and "j \<noteq> i \<Longrightarrow> totp_past i s (snd (remove2FA cfg j tok h))"
proof -
  have step: "s < getTimeStep cfg r" if "verifyUserTotp cfg i tok b h = Inr r" for b r
    by (rule verifyUserTotp_after [OF law past that])
  have act: "user_totp_active u" if "find_user i h = Some u" for u
    using past that unfolding totp_past_def by auto
  show "totp_past i s (snd (verifyActiveUserTotp cfg j tok h))"
  proof (cases "verifyUserTotp cfg j tok True h")
    case (Inr r)
    have "totp_past i s (set_user j (\<lambda>u. u\<lparr>last_used_totp_step := Some (getTimeStep cfg r)\<rparr>) h)"
      by (rule totp_past_set_user [OF past]) (use step [of True r] Inr act in \<open>auto intro: less_imp_le\<close>)
    then show ?thesis by (simp add: verifyActiveUserTotp_def Inr)
  qed (use past in \<open>simp add: verifyActiveUserTotp_def\<close>)
  show "totp_past i s (snd (confirm2FA cfg j tok h))"
  proof (cases "verifyUserTotp cfg j tok False h")
    case (Inr r)
    have "totp_past i s (set_user j (\<lambda>u. u\<lparr>user_totp_active := True, user_totp_active_at := Some (clock h),
        last_used_totp_step := Some (getTimeStep cfg r)\<rparr>) h)"
      by (rule totp_past_set_user [OF past]) (use step [of False r] Inr in \<open>auto intro: less_imp_le\<close>)
    then show ?thesis by (simp add: confirm2FA_def Inr)
  qed (use past in \<open>simp add: confirm2FA_def\<close>)
  show "totp_past i s (snd (remove2FA cfg j tok h))" if "j \<noteq> i"
  proof -
    have "totp_past i s (set_user j (\<lambda>u. u\<lparr>user_totp_active := False, user_totp_secret := None,
        user_totp_active_at := None, last_used_totp_step := None\<rparr>) h)"
      by (rule totp_past_set_user [OF past]) (use that in simp_all)
    then show ?thesis using past by (simp add: remove2FA_def split: sum.split)
  qed
qed

lemma by_email: "users_ok h \<Longrightarrow> u \<in> set (users h) \<Longrightarrow> v \<in> set (users h) \<Longrightarrow> user_email u = user_email v \<Longrightarrow> u = v"
  unfolding users_ok_def by (meson distinct_map inj_onD)

lemma totp_past_setup:
  assumes past: "totp_past i s h"
  shows "totp_past i s (snd (generate2FASecret cfg e h))"
proof (cases "user_of_email e h")
  case None
  then show ?thesis using past totp_past_cong [of "h\<lparr>draws := Suc (draws h)\<rparr>" h]
    by (simp add: generate2FASecret_def)
next
  case (Some v)
  obtain u a where u: "find_user i h = Some u" "user_totp_active u" "last_used_totp_step u = Some a" "s \<le> a"
    and ok: "users_ok h" using past unfolding totp_past_def by blast
  have v: "v \<in> set (users h)" "user_email v = e" using Some by (auto simp: user_of_email_def dest: find_SomeD)
  have ui: "u \<in> set (users h)" "user_index u = i" using u(1) by (auto simp: find_user_def dest: find_SomeD)
  show ?thesis
  proof (cases "user_totp_active v")
    case False
    let ?f = "\<lambda>u. u\<lparr>user_totp_secret := Some (cfg_random cfg (draws h)), user_totp_active := False,
                   user_totp_active_at := None, last_used_totp_step := None\<rparr>"
    let ?h = "h\<lparr>draws := Suc (draws h), users := update_rows (\<lambda>u. user_email u = e) ?f (users h)\<rparr>"
    have "user_email u \<noteq> e" using by_email [OF ok ui(1) v(1)] v(2) u(2) False by auto
    then have "find_user i ?h = Some u"
      using u(1) by (simp add: find_user_def find_update_same)
    moreover have "users_ok ?h"
      using ok by (auto simp: users_ok_def map_update_rows in_update_rows)
    ultimately have "totp_past i s ?h" using u by (auto simp: totp_past_def)
    then show ?thesis using Some False by (simp add: generate2FASecret_def Let_def split_beta)
  qed (use Some past in \<open>simp add: generate2FASecret_def\<close>)
qed

lemma users_frame [simp]:
  "users (snd (signLoginTokens cfg u h)) = users h" "next_user (snd (signLoginTokens cfg u h)) = next_user h"
  "users (revokeRefreshToken cfg tok h) = users h" "next_user (revokeRefreshToken cfg tok h) = next_user h"
  "users (snd (mintPurposeToken cfg u p a h)) = users h" "next_user (snd (mintPurposeToken cfg u p a h)) = next_user h"
  "users (consume v h) = users h" "next_user (consume v h) = next_user h"
  "users (snd (send_mail cfg m h)) = users h" "next_user (snd (send_mail cfg m h)) = next_user h"
  "users (snd (issueOrReuseVerification cfg e h)) = users h"
  "next_user (snd (issueOrReuseVerification cfg e h)) = next_user h"
  by (simp_all add: signLoginTokens_def revokeRefreshToken_def mintPurposeToken_def signPurposeToken_def
      consume_def set_verification_def send_mail_def issueOrReuseVerification_def Let_def split_beta
      split: sum.split option.split)

lemma users_of_mails [simp]:
  "users (snd (verifyEmail cfg e h)) = users h" "next_user (snd (verifyEmail cfg e h)) = next_user h"
  "users (snd (requestExistingEmailVerification cfg u h)) = users h"
  "next_user (snd (requestExistingEmailVerification cfg u h)) = next_user h"
proof -
  have "users (snd (andThen (issueOrReuseVerification cfg e h) (\<lambda>v. send_mail cfg (m v)))) = users h \<and>
      next_user (snd (andThen (issueOrReuseVerification cfg e h) (\<lambda>v. send_mail cfg (m v)))) = next_user h" for e m
    by (cases "issueOrReuseVerification cfg e h"; cases "fst (issueOrReuseVerification cfg e h)")
      (simp_all add: andThen_def, metis users_frame(11,12) snd_conv, metis users_frame(11,12) snd_conv)
  then show "users (snd (verifyEmail cfg e h)) = users h" "next_user (snd (verifyEmail cfg e h)) = next_user h"
    "users (snd (requestExistingEmailVerification cfg u h)) = users h"
    "next_user (snd (requestExistingEmailVerification cfg u h)) = next_user h"
    by (simp_all add: verifyEmail_def requestExistingEmailVerification_def split: option.split)
qed

lemma totp_past_keep:
  assumes "totp_past i s h" and "\<And>u. user_index (f u) = user_index u" and "\<And>u. user_email (f u) = user_email u"
    and "\<And>u. user_totp_active (f u) = user_totp_active u"
    and "\<And>u. last_used_totp_step (f u) = last_used_totp_step u"
  shows "totp_past i s (set_user j f h)"
  by (rule totp_past_set_user [OF assms(1-3)]) (use assms(1) in \<open>auto simp: totp_past_def assms(4,5)\<close>)

lemma find_append_Some: "find P xs = Some x \<Longrightarrow> find P (xs @ ys) = Some x"
  by (induction xs) auto

lemma totp_past_register:
  assumes past: "totp_past i s h"
  shows "totp_past i s (snd (register_user cfg dto h))"
proof -
  have new: "totp_past i s (snd (new_user e d p h1))"
    if "user_of_email e h = None" "users h1 = users h" "next_user h1 = next_user h" for e d p h1
  proof -
    obtain u a where u: "find_user i h = Some u" "user_totp_active u" "last_used_totp_step u = Some a" "s \<le> a"
      and ok: "users_ok h" using past unfolding totp_past_def by blast
    have "find_user i (snd (new_user e d p h1)) = Some u"
      using u(1) that(2) by (simp add: find_user_def new_user_def find_append_Some)
    moreover have "users_ok (snd (new_user e d p h1))"
      using ok that by (auto simp: users_ok_def new_user_def user_of_email_def find_None_iff less_Suc_eq)
    ultimately show ?thesis using u by (auto simp: totp_past_def)
  qed
  have "totp_past i s (snd (signLoginTokens cfg (fst (new_user e d p h1)) (consume v (snd (new_user e d p h1)))))"
    if "user_of_email e h = None" "users h1 = users h" "next_user h1 = next_user h" for e d p h1 v
    using new [OF that] totp_past_cong [OF trans [OF users_frame(1,7)] trans [OF users_frame(2,8)]] by blast
  then show ?thesis
    using past by (simp add: register_user_def hash_password_def Let_def split_beta split: option.split)
qed

lemma totp_past_frame:
  "users h2 = users h \<Longrightarrow> next_user h2 = next_user h \<Longrightarrow> totp_past i s h \<Longrightarrow> totp_past i s h2"
  using totp_past_cong by blast

lemma totp_past_open:
  assumes law: "steps_rise cfg"
    and past: "totp_past i s h" and m: "auth_open cfg r tok h = Some m"
  shows "totp_past i s (snd m)"
proof (cases r)
  case (ConfirmEmail code)
  have "totp_past i s (snd (verifyExistingEmail cfg code h))"
    using past totp_past_keep [OF past, of "\<lambda>u. u\<lparr>user_permission := Verified\<rparr>"]
    by (auto simp: verifyExistingEmail_def split: option.split intro!: totp_past_frame [OF users_frame(7,8)])
  with m ConfirmEmail show ?thesis by auto
next
  case (Register dto)
  with m totp_past_register [OF past] show ?thesis by auto
next
  case (Login dto)
  have "totp_past i s (snd (andThen (if b then verifyActiveUserTotp cfg j t h else give True h)
      (\<lambda>ok. signLoginTokens cfg j)))" for b j t
  proof (rule andThen_snd)
    show first: "totp_past i s (snd (if b then verifyActiveUserTotp cfg j t h else give True h))"
      using past totp_past_verify(1) [OF law past] by simp
    fix x h1
    assume "(if b then verifyActiveUserTotp cfg j t h else give True h) = (Inr x, h1)"
    with first have "totp_past i s h1" by simp
    then show "totp_past i s (snd (signLoginTokens cfg j h1))" by (rule totp_past_frame [OF users_frame(1,2)])
  qed
  then have "totp_past i s (snd (login cfg dto h))"
    using past by (simp add: login_def split: option.split)
  with m Login show ?thesis by auto
next
  case (CheckEmail e)
  with m past show ?thesis by auto
next
  case (VerifyEmail e)
  with m show ?thesis using totp_past_frame [OF users_of_mails(1,2) past] by auto
next
  case (CheckCode c)
  with m past show ?thesis by (auto simp: Let_def)
next
  case Logout
  with m show ?thesis using totp_past_frame [OF users_frame(3,4) past] by auto
qed (use m in simp_all)

lemma totp_past_guarded:
  assumes law: "steps_rise cfg"
    and past: "totp_past i s h" and other: "\<not> (user_index u = i \<and> (\<exists>t. r = Remove2FA t))"
  shows "totp_past i s (snd (auth_guarded cfg r u hdr h))"
proof (cases r)
  case VerifyMe
  then show ?thesis using totp_past_frame [OF users_of_mails(3,4) past] by simp
next
  case Setup2FA
  then show ?thesis using totp_past_setup [OF past] by simp
next
  case (Confirm2FA t)
  then show ?thesis using past totp_past_verify(2) [OF law past] by (simp split: sum.split)
next
  case (Remove2FA t)
  then show ?thesis using past other totp_past_verify(3) [OF law past] by (simp split: sum.split)
next
  case (MintToken p a t)
  have guard: "totp_past i s (snd (TwoFactorGuard cfg j hdr b h))" for j b
    using past totp_past_verify(1) [OF law past] by (simp add: TwoFactorGuard_def split: option.split sum.split)
  show ?thesis
    unfolding MintToken auth_guarded.simps
  proof (rule andThen_snd [where I = "totp_past i s"])
    fix x h1
    assume "TwoFactorGuard cfg (Some (user_index u)) hdr (JObj [(''totpCode'', t)]) h = (Inr x, h1)"
    with guard [of "Some (user_index u)" "JObj [(''totpCode'', t)]"] have "totp_past i s h1" by simp
    then show "totp_past i s (snd (if \<not> six_digits t then throw (BadRequest ''totpCode must match the pattern'') h1
       else reply_with SUCCESS_CODE (\<lambda>t. ''Terminal access granted.'') TokenAnswer
              (mintPurposeToken cfg (user_index u) p a h1)))"
      using totp_past_frame [OF users_frame(5,6)] by simp
  qed (rule guard)
next
  case (Password dto)
  have "totp_past i s (snd (changePassword cfg j dto h))" for j
  proof -
    have "totp_past i s (set_user j (\<lambda>u. u\<lparr>user_password := q\<rparr>) (h\<lparr>draws := n\<rparr>))" for q n
      using totp_past_keep [of i s "h\<lparr>draws := n\<rparr>" "\<lambda>u. u\<lparr>user_password := q\<rparr>" j] past totp_past_cong [of "h\<lparr>draws := n\<rparr>" h]
      by simp
    then show ?thesis using past
      by (simp add: changePassword_def hash_password_def draw_def Let_def split: option.split)
  qed
  then show ?thesis by (simp add: Password)
qed (use past in \<open>simp_all\<close>)

text \<open>C26: a one-time password is accepted once. When a code was accepted for a user at some time step, no code of
  that step or an earlier one is accepted for the user again, whatever anybody requests of the
  account routes in between, as long as the user does not switch the second factor off. The
  library is assumed to accept only steps after the one it is told.\<close>

theorem totp_never_replayed:
  assumes "\<And>k c tol now a r. cfg_totp cfg k c tol now (Some a) = Some r \<Longrightarrow> a < getTimeStep cfg r"
    and "users_ok h" and "verifyActiveUserTotp cfg i tok h = (Inr True, h1)"
    and "verifyUserTotp cfg i tok True h = Inr first"
    and "totp_run cfg i h1 h2" and "verifyUserTotp cfg i tok2 True h2 = Inr second"
  shows "getTimeStep cfg first < getTimeStep cfg second"
proof -
  have law: "steps_rise cfg" using assms(1) by (auto simp: steps_rise_def)
  obtain u where u: "find_user i h = Some u" "user_totp_active u"
    using assms(4) by (auto simp: verifyUserTotp_def split: if_splits option.splits)
  then have "user_index u = i" by (auto simp: find_user_def dest: find_SomeD)
  then have "totp_past i (getTimeStep cfg first) h1"
    using assms(2-4) u
    by (auto simp: totp_past_def verifyActiveUserTotp_def give_def find_user_set_user intro!: users_ok_set_user)
  with assms(5) have "totp_past i (getTimeStep cfg first) h2"
  proof (induction rule: totp_run.induct)
    case (Open h h1 r tok m)
    then show ?case using totp_past_open [OF law] by blast
  next
    case (Guarded h h1 u r hdr)
    then show ?case using totp_past_guarded [OF law] by blast
  next
    case (Elsewhere h h1 h2)
    then show ?case using totp_past_frame by blast
  qed simp
  from verifyUserTotp_after [OF law this assms(6)] show ?thesis by simp
qed

definition totp_config :: config where
  "totp_config = example_config\<lparr>cfg_totp := (\<lambda>k c tol now after.
     if (case after of None \<Rightarrow> True | Some a \<Rightarrow> a < now div 30000) then Some (Some (now div 30000), now div 1000) else None)\<rparr>"

definition totp_user :: users_row where
  "totp_user = \<lparr>user_index = 1, user_display = ''Ann'', user_email = ''a@b.c'', user_password = ''secret-1'',
     user_permission = Verified, user_restriction = False, user_totp_secret = Some ''KEY'',
     user_totp_active = True, last_used_totp_step = Some 1, user_totp_active_at = Some 0\<rparr>"

definition totp_hub :: hub where
  "totp_hub = (init_hub 60000)\<lparr>users := [totp_user], next_user := 2\<rparr>"

lemma totp_never_replayed_witness:
  "\<exists>h1 h2. verifyActiveUserTotp totp_config 1 ''123456'' totp_hub = (Inr True, h1) \<and> totp_run totp_config 1 h1 h2
     \<and> verifyUserTotp totp_config 1 ''123456'' True h1 = Inl (Unauthorized ''Invalid TOTP code.'')
     \<and> verifyUserTotp totp_config 1 ''654321'' True h2 = Inr (Some 3, 90)
     \<and> getTimeStep totp_config (Some 2, 60) < getTimeStep totp_config (Some 3, 90)"
proof -
  let ?h1 = "snd (verifyActiveUserTotp totp_config 1 ''123456'' totp_hub)"
  let ?h2 = "?h1\<lparr>clock := 90000\<rparr>"
  have "fst (verifyActiveUserTotp totp_config 1 ''123456'' totp_hub) = Inr True" by code_simp
  then have ok: "verifyActiveUserTotp totp_config 1 ''123456'' totp_hub = (Inr True, ?h1)"
    by (cases "verifyActiveUserTotp totp_config 1 ''123456'' totp_hub") simp
  have first: "verifyUserTotp totp_config 1 ''123456'' True totp_hub = Inr (Some 2, 60)"
    and again: "verifyUserTotp totp_config 1 ''123456'' True ?h1 = Inl (Unauthorized ''Invalid TOTP code.'')"
    and second: "verifyUserTotp totp_config 1 ''654321'' True ?h2 = Inr (Some 3, 90)"
    by code_simp+
  have run: "totp_run totp_config 1 ?h1 ?h2" by (rule totp_run.Elsewhere [OF totp_run.Idle]) simp_all
  have law: "a < getTimeStep totp_config r" if "cfg_totp totp_config k c tol now (Some a) = Some r" for k c tol now a r
    using that by (auto simp: totp_config_def getTimeStep_def split: if_splits)
  have "users_ok totp_hub" by (simp add: users_ok_def totp_hub_def totp_user_def)
  have "getTimeStep totp_config (Some 2, 60) < getTimeStep totp_config (Some 3, 90)"
    by (rule totp_never_replayed [OF law \<open>users_ok totp_hub\<close> ok first run second])
  with ok run again second show ?thesis by blast
qed

section \<open>Login\<close>

text \<open>C25: a login proves the password, and the second factor where it is on. Whoever gets tokens from a login
  named the address of an account and a password its hash accepts; and if the account has the second
  factor on, a code the library accepted, whose time step is from then on the last one used.\<close>

theorem login_proves_identity:
  assumes "login cfg dto h = (Inr tokens, h1)"
  shows "\<exists>u. user_of_email (lf_email dto) h = Some u \<and> cfg_bcrypt_compare cfg (lf_password dto) (user_password u)
    \<and> (user_totp_active u \<longrightarrow>
        (\<exists>code r. lf_totpCode dto = Some code \<and> verifyUserTotp cfg (user_index u) code True h = Inr r
          \<and> (\<forall>v\<in>set (users h1). user_index v = user_index u \<longrightarrow> last_used_totp_step v = Some (getTimeStep cfg r))))"
proof -
  obtain u where u: "user_of_email (lf_email dto) h = Some u"
    using assms by (auto simp: login_def split: option.splits)
  have c: "cfg_bcrypt_compare cfg (lf_password dto) (user_password u)"
    and t: "user_totp_active u \<Longrightarrow> \<not> falsy (lf_totpCode dto)"
    using assms u by (auto simp: login_def throw_def split: if_splits)
  have "\<exists>code r. lf_totpCode dto = Some code \<and> verifyUserTotp cfg (user_index u) code True h = Inr r
      \<and> (\<forall>v\<in>set (users h1). user_index v = user_index u \<longrightarrow> last_used_totp_step v = Some (getTimeStep cfg r))"
    if act: "user_totp_active u"
  proof -
    obtain code where code: "lf_totpCode dto = Some code" using t [OF act] by (cases "lf_totpCode dto") (auto simp: falsy_def)
    obtain r h2 where r: "verifyUserTotp cfg (user_index u) code True h = Inr r"
      and h2: "h2 = set_user (user_index u) (\<lambda>u. u\<lparr>last_used_totp_step := Some (getTimeStep cfg r)\<rparr>) h"
      and sign: "signLoginTokens cfg (user_index u) h2 = (Inr tokens, h1)"
      using assms u c act t [OF act] code
      by (auto simp: login_def andThen_Inr verifyActiveUserTotp_def check_def give_def)
    have "users h1 = users h2" using users_frame(1) [of cfg "user_index u" h2] sign by simp
    then have "\<forall>v\<in>set (users h1). user_index v = user_index u \<longrightarrow> last_used_totp_step v = Some (getTimeStep cfg r)"
      by (auto simp: h2 set_user_def in_update_rows)
    then show ?thesis using code r by blast
  qed
  with u c show ?thesis by blast
qed

definition ann_login :: login_form where
  "ann_login = \<lparr>lf_email = ''a@b.c'', lf_password = ''secret-1'', lf_totpCode = Some ''123456''\<rparr>"

lemma login_proves_identity_witness:
  "\<exists>h1. login totp_config ann_login totp_hub = (Inr (''jwt'', ''jwt''), h1) \<and> user_totp_active totp_user
     \<and> user_of_email (lf_email ann_login) totp_hub = Some totp_user
     \<and> (\<forall>v\<in>set (users h1). user_index v = 1 \<longrightarrow> last_used_totp_step v \<noteq> None)"
proof -
  let ?r = "login totp_config ann_login totp_hub"
  have "fst ?r = Inr (''jwt'', ''jwt'')" by code_simp
  then have ok: "?r = (Inr (''jwt'', ''jwt''), snd ?r)" by (cases ?r) simp
  have u: "user_of_email (lf_email ann_login) totp_hub = Some totp_user" "user_totp_active totp_user"
    "user_index totp_user = 1" by code_simp+
  from login_proves_identity [OF ok] u ok show ?thesis by (metis option.distinct(1) option.inject)
qed

end
