(* ===== verification/TokenRules.thy ===== *)
theory TokenRules
  imports Api
begin

text \<open>
  The life of a refresh token, and what a request without a valid login can do.
\<close>

section \<open>Revocation\<close>

definition jwt_decodes :: "config \<Rightarrow> bool" where
  "jwt_decodes cfg \<longleftrightarrow> (\<forall>c ttl now. \<exists>d. cfg_decodeJwt cfg (cfg_signJwt cfg c ttl now) = Some d
     \<and> cl_jti d = cl_jti c \<and> cl_userIndex d = cl_userIndex c)"

inductive token_run :: "config \<Rightarrow> hub \<Rightarrow> hub \<Rightarrow> bool" for cfg h where
  Idle: "token_run cfg h h"
| Login: "token_run cfg h h1 \<Longrightarrow> token_run cfg h (snd (signLoginTokens cfg u h1))"
| Refresh: "token_run cfg h h1 \<Longrightarrow> token_run cfg h (snd (refresh cfg tok h1))"
| Revoke: "token_run cfg h h1 \<Longrightarrow> token_run cfg h (revokeRefreshToken cfg tok h1)"
| Elsewhere: "token_run cfg h h1 \<Longrightarrow> refresh_tokens h2 = refresh_tokens h1 \<Longrightarrow>
    next_token h2 = next_token h1 \<Longrightarrow> draws h1 \<le> draws h2 \<Longrightarrow> clock h1 \<le> clock h2 \<Longrightarrow> token_run cfg h h2"

definition issued :: "config \<Rightarrow> nat \<Rightarrow> refresh_token_row \<Rightarrow> bool" where
  "issued cfg n r \<longleftrightarrow> (\<exists>d m. cfg_decodeJwt cfg (token r) = Some d \<and> cl_userIndex d = Some (token_owner r)
     \<and> cl_jti d = Some (cfg_random cfg m) \<and> m < n)"

definition tokens_ok :: "config \<Rightarrow> hub \<Rightarrow> bool" where
  "tokens_ok cfg h \<longleftrightarrow>
     distinct (map token_index (refresh_tokens h)) \<and> distinct (map token (refresh_tokens h))
     \<and> (\<forall>r\<in>set (refresh_tokens h). token_index r < next_token h \<and> issued cfg (draws h) r
          \<and> (\<forall>e. token_expired_at r = Some e \<longrightarrow> e \<le> clock h))"

text \<open>A token was issued, and all its rows were expired at \<open>t\<close>.\<close>

definition dead :: "string \<Rightarrow> int \<Rightarrow> hub \<Rightarrow> bool" where
  "dead tok t h \<longleftrightarrow> (\<exists>r\<in>set (refresh_tokens h). token r = tok)
     \<and> (\<forall>r\<in>set (refresh_tokens h). token r = tok \<longrightarrow> (\<exists>e. token_expired_at r = Some e \<and> e \<le> t))"

definition expire_rows :: "(refresh_token_row \<Rightarrow> bool) \<Rightarrow> hub \<Rightarrow> hub" where
  "expire_rows P h = h\<lparr>refresh_tokens := update_rows (\<lambda>r. P r \<and> token_expired_at r = None)
     (\<lambda>r. r\<lparr>token_expired_at := Some (clock h)\<rparr>) (refresh_tokens h)\<rparr>"

lemma expire_rows_tokens: "refresh_tokens (expire_rows P h) = update_rows (\<lambda>r. P r \<and> token_expired_at r = None)
    (\<lambda>r. r\<lparr>token_expired_at := Some (clock h)\<rparr>) (refresh_tokens h)"
  by (simp add: expire_rows_def)

lemma issued_mono: "issued cfg n r \<Longrightarrow> n \<le> m \<Longrightarrow> issued cfg m r"
  unfolding issued_def by (meson order_less_le_trans)

lemma issued_expired [simp]: "issued cfg n (r\<lparr>token_expired_at := x\<rparr>) = issued cfg n r"
  by (simp add: issued_def)

lemma tokens_ok_mono:
  "tokens_ok cfg h \<Longrightarrow> refresh_tokens h2 = refresh_tokens h \<Longrightarrow> next_token h2 = next_token h \<Longrightarrow>
   draws h \<le> draws h2 \<Longrightarrow> clock h \<le> clock h2 \<Longrightarrow> tokens_ok cfg h2"
  unfolding tokens_ok_def by (metis issued_mono order_trans)

lemma dead_cong: "refresh_tokens h2 = refresh_tokens h \<Longrightarrow> dead tok t h2 = dead tok t h"
  by (simp add: dead_def)

lemma tokens_ok_expire: "tokens_ok cfg h \<Longrightarrow> tokens_ok cfg (expire_rows P h)"
  by (auto simp: tokens_ok_def expire_rows_def map_update_rows in_update_rows split: if_splits)

lemma dead_expire: "dead tok t h \<Longrightarrow> dead tok t (expire_rows P h)"
proof -
  assume d: "dead tok t h"
  let ?c = "\<lambda>r. P r \<and> token_expired_at r = None"
  let ?u = "\<lambda>r. r\<lparr>token_expired_at := Some (clock h)\<rparr>"
  obtain r where r: "r \<in> set (refresh_tokens h)" "token r = tok" using d unfolding dead_def by blast
  then have "\<not> ?c r" using d unfolding dead_def by auto
  with r(1) have "r \<in> set (update_rows ?c ?u (refresh_tokens h))"
    unfolding in_update_rows by (intro bexI [of _ r]) simp_all
  moreover have "\<exists>e. token_expired_at r' = Some e \<and> e \<le> t"
    if "r' \<in> set (update_rows ?c ?u (refresh_tokens h))" "token r' = tok" for r'
    using that d unfolding in_update_rows dead_def by (auto split: if_splits)
  ultimately show ?thesis using r(2) unfolding dead_def expire_rows_def by auto
qed

lemma revoke_expires:
  "revokeRefreshToken cfg tok h =
     (case decoded_user cfg tok of None \<Rightarrow> h
      | Some u \<Rightarrow> expire_rows (\<lambda>r. token_owner r = u \<and> token r = the tok) h)"
  by (simp add: revokeRefreshToken_def expire_rows_def conj_assoc split: option.split)

lemma refresh_expires:
  assumes "distinct (map token_index (refresh_tokens h))" and "active \<in> set (refresh_tokens h)"
    and "token_expired_at active = None"
  shows "h\<lparr>refresh_tokens := update_rows (\<lambda>r. token_index r = token_index active)
      (\<lambda>r. r\<lparr>token_expired_at := Some (clock h)\<rparr>) (refresh_tokens h)\<rparr> = expire_rows (\<lambda>r. r = active) h"
proof -
  have "(token_index r = token_index active) = (r = active \<and> token_expired_at r = None)"
    if "r \<in> set (refresh_tokens h)" for r
    using assms that by (metis distinct_map inj_onD)
  then show ?thesis by (auto simp: expire_rows_def update_rows_def)
qed

lemma sign_cases:
  assumes "signLoginTokens cfg u h = (r, h2)"
  shows "(refresh_tokens h2 = refresh_tokens h \<and> next_token h2 = next_token h \<and> draws h \<le> draws h2 \<and> clock h \<le> clock h2)
    \<or> (\<exists>ttl. refresh_tokens h2 = refresh_tokens h @ [\<lparr>token_index = next_token h, token_owner = u,
          token = cfg_signJwt cfg (refresh_claims u (cfg_random cfg (draws h))) ttl (clock h),
          token_expired_at = None\<rparr>] \<and> next_token h2 = Suc (next_token h) \<and> draws h2 = Suc (draws h) \<and> clock h2 = clock h)"
  using assms by (auto simp: signLoginTokens_def Let_def split_beta split: sum.splits)

lemma fresh_token:
  assumes "inj (cfg_random cfg)" and "jwt_decodes cfg" and "tokens_ok cfg h" and "r \<in> set (refresh_tokens h)"
  shows "token r \<noteq> cfg_signJwt cfg (refresh_claims u (cfg_random cfg (draws h))) ttl now"
proof
  let ?t = "cfg_signJwt cfg (refresh_claims u (cfg_random cfg (draws h))) ttl now"
  assume same: "token r = ?t"
  obtain d where d: "cfg_decodeJwt cfg ?t = Some d" "cl_jti d = Some (cfg_random cfg (draws h))"
    using assms(2) unfolding jwt_decodes_def refresh_claims_def by (metis claims.select_convs(4))
  moreover obtain m where "cl_jti d = Some (cfg_random cfg m)" "m < draws h"
    using assms(3,4) d(1) same unfolding tokens_ok_def issued_def by auto
  ultimately show False using assms(1) by (simp add: inj_eq)
qed

lemma tokens_ok_sign:
  assumes "inj (cfg_random cfg)" and "jwt_decodes cfg" and "tokens_ok cfg h"
  shows "tokens_ok cfg (snd (signLoginTokens cfg u h))"
  using sign_cases [OF surjective_pairing, of cfg u h]
proof (elim disjE conjE exE)
  let ?h = "snd (signLoginTokens cfg u h)"
  fix ttl
  let ?r = "\<lparr>token_index = next_token h, token_owner = u,
      token = cfg_signJwt cfg (refresh_claims u (cfg_random cfg (draws h))) ttl (clock h), token_expired_at = None\<rparr>"
  assume rows: "refresh_tokens ?h = refresh_tokens h @ [?r]" and n: "next_token ?h = Suc (next_token h)"
    and d: "draws ?h = Suc (draws h)" and c: "clock ?h = clock h"
  have "issued cfg (Suc (draws h)) ?r"
    using assms(2) unfolding jwt_decodes_def issued_def refresh_claims_def
    by (metis claims.select_convs(2,4) lessI refresh_token_row.select_convs(2,3))
  moreover have "\<forall>r\<in>set (refresh_tokens h). issued cfg (Suc (draws h)) r \<and> token_index r < next_token h"
    using assms(3) issued_mono unfolding tokens_ok_def by (metis le_SucI order_refl)
  moreover have "cfg_signJwt cfg (refresh_claims u (cfg_random cfg (draws h))) ttl (clock h)
      \<notin> token ` set (refresh_tokens h)"
    using fresh_token [OF assms(1-3), of _ u ttl "clock h"] by fastforce
  moreover have "next_token h \<notin> token_index ` set (refresh_tokens h)"
    using assms(3) unfolding tokens_ok_def by force
  ultimately show ?thesis
    using assms(3) unfolding tokens_ok_def rows n d c by (simp add: less_Suc_eq)
qed (use assms(3) tokens_ok_mono in blast)

lemma dead_sign:
  assumes "inj (cfg_random cfg)" and "jwt_decodes cfg" and "tokens_ok cfg h" and "dead tok t h"
  shows "dead tok t (snd (signLoginTokens cfg u h))"
  using sign_cases [OF surjective_pairing, of cfg u h]
proof (elim disjE conjE exE)
  fix ttl
  obtain r where "r \<in> set (refresh_tokens h)" "token r = tok" using assms(4) unfolding dead_def by blast
  with fresh_token [OF assms(1-3), of r u ttl "clock h"]
  have "cfg_signJwt cfg (refresh_claims u (cfg_random cfg (draws h))) ttl (clock h) \<noteq> tok" by simp
  moreover assume "refresh_tokens (snd (signLoginTokens cfg u h)) = refresh_tokens h @ [\<lparr>token_index = next_token h,
      token_owner = u, token = cfg_signJwt cfg (refresh_claims u (cfg_random cfg (draws h))) ttl (clock h),
      token_expired_at = None\<rparr>]"
  ultimately show ?thesis using assms(4) unfolding dead_def by auto
qed (use assms(4) dead_cong in blast)

lemma refresh_steps:
  assumes "tokens_ok cfg h"
  shows "snd (refresh cfg tok h) = h \<or> (\<exists>u. snd (refresh cfg tok h) = snd (signLoginTokens cfg u h))
    \<or> (\<exists>u P. snd (refresh cfg tok h) = snd (signLoginTokens cfg u (expire_rows P h)))"
proof (cases "decoded_user cfg tok")
  case None
  then show ?thesis by (simp add: refresh_def)
next
  case (Some u)
  let ?live = "find (\<lambda>r. token_owner r = u \<and> token r = the tok \<and> token_expired_at r = None) (refresh_tokens h)"
  show ?thesis
  proof (cases ?live)
    case None
    with Some show ?thesis
      by (cases "signLoginTokens cfg u h")
         (auto simp: refresh_def split: sum.split intro: exI [of _ u])
  next
    case (Some active)
    then have "active \<in> set (refresh_tokens h)" "token_expired_at active = None" by (auto dest: find_SomeD)
    with assms have "h\<lparr>refresh_tokens := update_rows (\<lambda>r. token_index r = token_index active)
        (\<lambda>r. r\<lparr>token_expired_at := Some (clock h)\<rparr>) (refresh_tokens h)\<rparr> = expire_rows (\<lambda>r. r = active) h"
      by (intro refresh_expires) (simp_all add: tokens_ok_def)
    then have "snd (refresh cfg tok h) = snd (signLoginTokens cfg u (expire_rows (\<lambda>r. r = active) h))"
      using \<open>decoded_user cfg tok = Some u\<close> Some
      by (cases "signLoginTokens cfg u (expire_rows (\<lambda>r. r = active) h)") (simp add: refresh_def split: sum.split)
    then show ?thesis by blast
  qed
qed

lemmas token_steps = tokens_ok_sign tokens_ok_expire dead_sign dead_expire

lemma tokens_ok_refresh:
  "inj (cfg_random cfg) \<Longrightarrow> jwt_decodes cfg \<Longrightarrow> tokens_ok cfg h \<Longrightarrow> tokens_ok cfg (snd (refresh cfg tok h))"
  using refresh_steps [of cfg h tok] token_steps by metis

lemma dead_refresh:
  "inj (cfg_random cfg) \<Longrightarrow> jwt_decodes cfg \<Longrightarrow> tokens_ok cfg h \<Longrightarrow> dead t x h \<Longrightarrow> dead t x (snd (refresh cfg tok h))"
  using refresh_steps [of cfg h tok] token_steps by metis

lemma tokens_ok_revoke: "tokens_ok cfg h \<Longrightarrow> tokens_ok cfg (revokeRefreshToken cfg tok h)"
  by (simp add: revoke_expires tokens_ok_expire split: option.split)

lemma dead_revoke: "dead t x h \<Longrightarrow> dead t x (revokeRefreshToken cfg tok h)"
  by (simp add: revoke_expires dead_expire split: option.split)

lemma token_run_keeps:
  assumes "token_run cfg h h2" and "inj (cfg_random cfg)" and "jwt_decodes cfg" and "tokens_ok cfg h"
  shows "tokens_ok cfg h2 \<and> (dead t x h \<longrightarrow> dead t x h2)"
  using assms(1)
proof (induction rule: token_run.induct)
  case Idle
  then show ?case using assms(4) by simp
next
  case (Login h1 u)
  then show ?case using tokens_ok_sign [OF assms(2,3)] dead_sign [OF assms(2,3)] by blast
next
  case (Refresh h1 tok)
  then show ?case using tokens_ok_refresh [OF assms(2,3)] dead_refresh [OF assms(2,3)] by blast
next
  case (Revoke h1 tok)
  then show ?case using tokens_ok_revoke dead_revoke by blast
next
  case (Elsewhere h1 h3)
  then show ?case using tokens_ok_mono [of cfg h1 h3] dead_cong [of h3 h1 t x] by simp
qed

lemma issued_user: "issued cfg n r \<Longrightarrow> token r \<noteq> [] \<Longrightarrow> decoded_user cfg (Some (token r)) = Some (token_owner r)"
  by (auto simp: issued_def decoded_user_def falsy_def)

lemma dead_refused:
  assumes "dead tok t h" and "t + REFRESH_ROTATION_GRACE_MS < clock h"
  shows "refresh cfg (Some tok) h = (Inr None, h)"
proof (cases "decoded_user cfg (Some tok)")
  case None
  then show ?thesis by (simp add: refresh_def)
next
  case (Some u)
  have gone: "\<exists>e. token_expired_at r = Some e \<and> e < clock h - REFRESH_ROTATION_GRACE_MS"
    if "r \<in> set (refresh_tokens h)" "token r = tok" for r
    using assms that unfolding dead_def by fastforce
  have "find (\<lambda>r. token_owner r = u \<and> token r = tok \<and> token_expired_at r = None) (refresh_tokens h) = None"
    using gone unfolding find_None_iff by fastforce
  moreover have "\<not> list_ex (\<lambda>r. token_owner r = u \<and> token r = tok \<and> (case token_expired_at r of None \<Rightarrow> False
      | Some t \<Rightarrow> t \<ge> clock h - REFRESH_ROTATION_GRACE_MS)) (refresh_tokens h)"
    using gone unfolding list_ex_iff by fastforce
  ultimately show ?thesis using Some by (simp add: refresh_def)
qed

lemma tokens_ok_init: "tokens_ok cfg (init_hub t)"
  by (simp add: tokens_ok_def init_hub_def)

text \<open>After a revocation the row of the token is expired, at the revocation or before.\<close>

lemma revoked_row:
  assumes "tokens_ok cfg h" and "r \<in> set (refresh_tokens h)" and "token r \<noteq> []"
  shows "\<exists>r'\<in>set (refresh_tokens (revokeRefreshToken cfg (Some (token r)) h)).
    token r' = token r \<and> token_owner r' = token_owner r \<and>
    token_expired_at r' = Some (case token_expired_at r of None \<Rightarrow> clock h | Some e \<Rightarrow> e)"
proof -
  have "decoded_user cfg (Some (token r)) = Some (token_owner r)"
    using assms issued_user unfolding tokens_ok_def by blast
  then have eq: "revokeRefreshToken cfg (Some (token r)) h =
      expire_rows (\<lambda>q. token_owner q = token_owner r \<and> token q = token r) h"
    by (simp add: revoke_expires)
  let ?r = "if token_expired_at r = None then r\<lparr>token_expired_at := Some (clock h)\<rparr> else r"
  have member: "?r \<in> set (refresh_tokens (expire_rows (\<lambda>q. token_owner q = token_owner r \<and> token q = token r) h))"
    unfolding expire_rows_tokens in_update_rows
    by (rule bexI [of _ r]) (use assms(2) in simp_all)
  have "token ?r = token r \<and> token_owner ?r = token_owner r \<and>
      token_expired_at ?r = Some (case token_expired_at r of None \<Rightarrow> clock h | Some e \<Rightarrow> e)" by auto
  then show ?thesis unfolding eq by (rule bexI [OF _ member])
qed

lemma revoked_dead:
  assumes "tokens_ok cfg h" and "r \<in> set (refresh_tokens h)" and "token r \<noteq> []"
  shows "dead (token r) (clock h) (revokeRefreshToken cfg (Some (token r)) h)"
proof -
  let ?h = "revokeRefreshToken cfg (Some (token r)) h"
  obtain r' where r': "r' \<in> set (refresh_tokens ?h)" "token r' = token r"
    "token_expired_at r' = Some (case token_expired_at r of None \<Rightarrow> clock h | Some e \<Rightarrow> e)"
    using revoked_row [OF assms] by blast
  have "(case token_expired_at r of None \<Rightarrow> clock h | Some e \<Rightarrow> e) \<le> clock h"
    using assms(1,2) unfolding tokens_ok_def by (cases "token_expired_at r") auto
  moreover have "q = r'" if "q \<in> set (refresh_tokens ?h)" "token q = token r" for q
    using tokens_ok_revoke [OF assms(1), of "Some (token r)"] r'(1,2) that
    unfolding tokens_ok_def by (metis distinct_map inj_onD)
  ultimately show ?thesis using r' unfolding dead_def by blast
qed

text \<open>C30: a refresh token ends with the logout. Once a token the Hub has issued is revoked, nothing that later
  happens to the tokens (logins, rotations, other revocations, in any order) brings it back: as soon
  as the grace of ten seconds is over, presenting it gives no new tokens and changes nothing. The
  random source is assumed not to repeat, and the library to decode the claims it signed.\<close>

theorem revoked_token_dies:
  assumes "inj (cfg_random cfg)"
    and "\<And>c ttl now. \<exists>d. cfg_decodeJwt cfg (cfg_signJwt cfg c ttl now) = Some d
      \<and> cl_jti d = cl_jti c \<and> cl_userIndex d = cl_userIndex c"
    and "token_run cfg (init_hub t) h" and "tok \<in> token ` set (refresh_tokens h)"
    and "token_run cfg (revokeRefreshToken cfg (Some tok) h) h2"
    and "clock h + REFRESH_ROTATION_GRACE_MS < clock h2"
  shows "refresh cfg (Some tok) h2 = (Inr None, h2)"
proof (cases "tok = []")
  case True
  then show ?thesis by (simp add: refresh_def decoded_user_def falsy_def)
next
  case False
  have law: "jwt_decodes cfg" using assms(2) unfolding jwt_decodes_def by blast
  have ok: "tokens_ok cfg h" using token_run_keeps [OF assms(3,1) law tokens_ok_init] by blast
  obtain r where r: "r \<in> set (refresh_tokens h)" "tok = token r" using assms(4) by blast
  have "dead tok (clock h) (revokeRefreshToken cfg (Some tok) h)"
    using revoked_dead [OF ok r(1)] r(2) False by simp
  then have "dead tok (clock h) h2"
    using token_run_keeps [OF assms(5,1) law tokens_ok_revoke [OF ok]] by blast
  then show ?thesis using dead_refused assms(6) by blast
qed

text \<open>A JWT library that writes the user and the id into the text.\<close>

definition coded_sign :: "claims \<Rightarrow> string \<Rightarrow> int \<Rightarrow> string" where
  "coded_sign c ttl now =
     (case cl_userIndex c of None \<Rightarrow> ''n'' | Some i \<Rightarrow> replicate i (CHR ''a'') @ ''b'')
     @ (case cl_jti c of None \<Rightarrow> [] | Some s \<Rightarrow> CHR ''x'' # s)"

definition coded_decode :: "string \<Rightarrow> claims option" where
  "coded_decode s =
     (let user = length (takeWhile (\<lambda>x. x = CHR ''a'') s);
          rest = drop (Suc user) s
      in Some \<lparr>cl_purpose = None, cl_userIndex = (if hd s = CHR ''n'' then None else Some user),
           cl_sub = None, cl_jti = (if rest = [] then None else Some (tl rest)), cl_exp = None,
           cl_agentUuid = None\<rparr>)"

lemma coded_law: "\<exists>d. coded_decode (coded_sign c ttl now) = Some d \<and> cl_jti d = cl_jti c \<and> cl_userIndex d = cl_userIndex c"
proof -
  have len: "length (takeWhile (\<lambda>x. x = CHR ''a'') (replicate i (CHR ''a'') @ CHR ''b'' # s)) = i" for i s
    by (induction i) simp_all
  have drop: "drop (Suc i) (replicate i (CHR ''a'') @ CHR ''b'' # s) = s" for i s by (induction i) simp_all
  have head: "hd (replicate i (CHR ''a'') @ CHR ''b'' # s) \<noteq> CHR ''n''" for i s by (cases i) simp_all
  show ?thesis
    using len drop head by (auto simp: coded_decode_def coded_sign_def Let_def split: option.split)
qed

definition coded_config :: config where
  "coded_config = example_config\<lparr>cfg_signJwt := coded_sign, cfg_decodeJwt := coded_decode\<rparr>"

lemma revoked_token_dies_witness:
  "\<exists>h h2 tok. token_run coded_config (init_hub 0) h \<and> map token (refresh_tokens h) = [tok]
     \<and> fst (refresh coded_config (Some tok) h) \<noteq> Inr None
     \<and> h2 = (revokeRefreshToken coded_config (Some tok) h)\<lparr>clock := 20000\<rparr>
     \<and> refresh coded_config (Some tok) h2 = (Inr None, h2)"
proof -
  let ?c = coded_config
  let ?h = "snd (signLoginTokens ?c 2 (init_hub 0))"
  let ?r = "revokeRefreshToken ?c (Some ''aabx100'') ?h"
  let ?h2 = "?r\<lparr>clock := 20000\<rparr>"
  have run: "token_run ?c (init_hub 0) ?h" by (intro token_run.Login token_run.Idle)
  have rows: "map token (refresh_tokens ?h) = [''aabx100'']" by code_simp
  have live: "fst (refresh ?c (Some ''aabx100'') ?h) \<noteq> Inr None" by code_simp
  have times: "clock ?h = 0" "clock ?r = 0" by code_simp+
  have "token_run ?c ?r ?h2"
    using token_run.Elsewhere [OF token_run.Idle, of ?h2 ?r] times(2) by simp
  moreover have "inj (cfg_random ?c)" by (auto simp: inj_def coded_config_def example_config_def)
  moreover have "\<And>c ttl now. \<exists>d. cfg_decodeJwt ?c (cfg_signJwt ?c c ttl now) = Some d
      \<and> cl_jti d = cl_jti c \<and> cl_userIndex d = cl_userIndex c"
    using coded_law by (simp add: coded_config_def)
  moreover have "''aabx100'' \<in> token ` set (refresh_tokens ?h)" using rows by (metis list.set_intros(1) list.set_map)
  moreover have "clock ?h + REFRESH_ROTATION_GRACE_MS < clock ?h2"
    using times by (simp add: REFRESH_ROTATION_GRACE_MS_def)
  ultimately have final: "refresh ?c (Some ''aabx100'') ?h2 = (Inr None, ?h2)"
    using revoked_token_dies [of ?c 0 ?h "''aabx100''" ?h2] run by blast
  show ?thesis by (intro exI conjI) (rule run, rule rows, rule live, rule refl, rule final)
qed

text \<open>a logout does not end the session at once. The grace that saves concurrent rotations also serves a
  token that was revoked by a logout: for ten seconds after it, presenting the token gives a new pair
  of tokens, which the logout does not touch.\<close>

theorem logout_leaves_grace:
  assumes "r \<in> set (refresh_tokens h)" and "token r = tok" and "token_expired_at r = None" and "tok \<noteq> []"
    and "cfg_decodeJwt cfg tok = Some d" and "cl_userIndex d = Some (token_owner r)"
    and "getTokenTtl cfg ACCESS = Inr a" and "getTokenTtl cfg REFRESH = Inr b"
    and "clock h \<le> c" and "c \<le> clock h + REFRESH_ROTATION_GRACE_MS"
  shows "\<exists>pair. fst (refresh cfg (Some tok) ((revokeRefreshToken cfg (Some tok) h)\<lparr>clock := c\<rparr>)) = Inr (Some pair)"
proof -
  let ?P = "\<lambda>r'. token_owner r' = token_owner r \<and> token r' = tok"
  let ?h = "(revokeRefreshToken cfg (Some tok) h)\<lparr>clock := c\<rparr>"
  have user: "decoded_user cfg (Some tok) = Some (token_owner r)"
    using assms(4-6) by (simp add: decoded_user_def falsy_def)
  then have rows: "refresh_tokens ?h = update_rows (\<lambda>r. ?P r \<and> token_expired_at r = None)
      (\<lambda>r. r\<lparr>token_expired_at := Some (clock h)\<rparr>) (refresh_tokens h)"
    by (simp add: revoke_expires expire_rows_tokens conj_assoc)
  have "\<not> (?P q \<and> token_expired_at q = None)" if member: "q \<in> set (refresh_tokens ?h)" for q
  proof -
    obtain q' where "q = (if ?P q' \<and> token_expired_at q' = None then q'\<lparr>token_expired_at := Some (clock h)\<rparr> else q')"
      using member unfolding rows in_update_rows by blast
    then show ?thesis by (cases "?P q' \<and> token_expired_at q' = None") simp_all
  qed
  then have "find (\<lambda>r. ?P r \<and> token_expired_at r = None) (refresh_tokens ?h) = None"
    unfolding find_None_iff by blast
  moreover have "r\<lparr>token_expired_at := Some (clock h)\<rparr> \<in> set (refresh_tokens ?h)"
    unfolding rows in_update_rows by (rule bexI [of _ r]) (use assms(1-3) in simp_all)
  then have "list_ex (\<lambda>r. ?P r \<and> (case token_expired_at r of None \<Rightarrow> False
      | Some t \<Rightarrow> t \<ge> clock ?h - REFRESH_ROTATION_GRACE_MS)) (refresh_tokens ?h)"
    unfolding list_ex_iff by (rule bexI [rotated]) (use assms in simp)
  ultimately show ?thesis
    using user assms(7,8) by (simp add: refresh_def conj_assoc signLoginTokens_def Let_def split_beta)
qed

lemma logout_leaves_grace_witness:
  "\<exists>pair. fst (refresh coded_config (Some ''aabx100'')
     ((revokeRefreshToken coded_config (Some ''aabx100'') (snd (signLoginTokens coded_config 2 (init_hub 0))))
       \<lparr>clock := 9000\<rparr>)) = Inr (Some pair)"
proof -
  let ?h = "snd (signLoginTokens coded_config 2 (init_hub 0))"
  let ?r = "hd (refresh_tokens ?h)"
  have "refresh_tokens ?h = [?r]" by code_simp
  then have member: "?r \<in> set (refresh_tokens ?h)" by (metis list.set_intros(1))
  have row: "token ?r = ''aabx100''" "token_expired_at ?r = None"
    and decoded: "cfg_decodeJwt coded_config ''aabx100'' = Some (the (coded_decode ''aabx100''))"
      "cl_userIndex (the (coded_decode ''aabx100'')) = Some (token_owner ?r)"
    and ttl: "getTokenTtl coded_config ACCESS = Inr ''1h''" "getTokenTtl coded_config REFRESH = Inr ''1h''"
    and time: "clock ?h \<le> 9000" "9000 \<le> clock ?h + REFRESH_ROTATION_GRACE_MS"
    by code_simp+
  show ?thesis
    by (rule logout_leaves_grace [OF member row _ decoded ttl time]) simp
qed

section \<open>Access tokens\<close>

text \<open>C31: a token minted for a purpose also opens the session of the first account. Such a token is signed with
  the secret of the access tokens and carries no user index, and \<open>validate\<close> neither checks the purpose
  nor the presence of the claim: as an access token it stands for the first account without a
  restriction, whoever asked for it. The library is assumed to return the claims that were signed.\<close>

theorem purpose_token_opens_first_account:
  assumes "\<And>c ttl t0 t d. cfg_verifyJwt cfg (cfg_signJwt cfg c ttl t0) t = Some d \<Longrightarrow> cl_userIndex d = cl_userIndex c"
    and "fst (signPurposeToken cfg i purpose agentUuid h) = Inr tok" and "tok \<noteq> []"
    and "\<not> cfg_jwtExpired cfg tok (clock h2)" and "cfg_verifyJwt cfg tok (clock h2) \<noteq> None"
    and "find (\<lambda>u. \<not> user_restriction u) (users h2) = Some v"
  shows "JwtGuard cfg (Some tok) h2 = Inr v"
proof -
  obtain d where d: "cfg_verifyJwt cfg tok (clock h2) = Some d" using assms(5) by blast
  have "cl_userIndex d = None"
    using assms(1) [of _ _ _ "clock h2" d] assms(2) d
    by (auto simp: signPurposeToken_def Let_def split_beta split: sum.splits)
  then show ?thesis using assms(3,4,6) d by (simp add: JwtGuard_def jwt_validate_def falsy_def)
qed

definition verifying_config :: config where
  "verifying_config = coded_config\<lparr>cfg_verifyJwt := (\<lambda>t now. coded_decode t)\<rparr>"

definition two_accounts :: hub where
  "two_accounts = snd (new_user ''b@b.c'' ''Bob'' ''y'' (snd (new_user ''a@b.c'' ''Ann'' ''x'' (init_hub 0))))"

lemma purpose_token_opens_first_account_witness:
  "fst (signPurposeToken verifying_config 2 TERMINAL_SSH None two_accounts) = Inr ''nx100''
   \<and> JwtGuard verifying_config (Some ''nx100'') two_accounts = Inr (users two_accounts ! 0)"
proof
  show tok: "fst (signPurposeToken verifying_config 2 TERMINAL_SSH None two_accounts) = Inr ''nx100''" by code_simp
  have law: "cfg_verifyJwt verifying_config (cfg_signJwt verifying_config c ttl t0) t = Some d \<Longrightarrow>
      cl_userIndex d = cl_userIndex c" for c ttl t0 t d
    using coded_law [of c ttl t0] by (simp add: verifying_config_def coded_config_def)
  have facts: "\<not> cfg_jwtExpired verifying_config ''nx100'' (clock two_accounts)"
    "find (\<lambda>u. \<not> user_restriction u) (users two_accounts) = Some (users two_accounts ! 0)"
    by code_simp+
  have ok: "cfg_verifyJwt verifying_config ''nx100'' (clock two_accounts) \<noteq> None"
    by (simp add: verifying_config_def coded_decode_def Let_def)
  show "JwtGuard verifying_config (Some ''nx100'') two_accounts = Inr (users two_accounts ! 0)"
    by (rule purpose_token_opens_first_account [OF law tok _ facts(1) ok facts(2)]) auto
qed

section \<open>Strangers\<close>

text \<open>What a renewal of the pair writes: the row of the presented token is expired when it was live, and at most
  one row is appended, for the same account.\<close>

definition renewable :: "refresh_token_row \<Rightarrow> string option \<Rightarrow> hub \<Rightarrow> bool" where
  "renewable row tok h = (row \<in> set (refresh_tokens h) \<and> Some (token row) = tok
     \<and> (case token_expired_at row of None \<Rightarrow> True | Some t \<Rightarrow> t \<ge> clock h - REFRESH_ROTATION_GRACE_MS))"

definition renewed :: "refresh_token_row \<Rightarrow> hub \<Rightarrow> hub \<Rightarrow> bool" where
  "renewed row h h2 = (
     (\<exists>new. length new \<le> 1 \<and> (\<forall>q\<in>set new. token_owner q = token_owner row \<and> token_expired_at q = None)
        \<and> refresh_tokens h2 = (if token_expired_at row = None
             then update_rows (\<lambda>r. token_index r = token_index row)
               (\<lambda>r. r\<lparr>token_expired_at := Some (clock h)\<rparr>) (refresh_tokens h)
             else refresh_tokens h) @ new)
     \<and> h2\<lparr>refresh_tokens := refresh_tokens h, next_token := next_token h, draws := draws h\<rparr> = h)"

lemma sign_frame: "(snd (signLoginTokens cfg u h))\<lparr>refresh_tokens := a, next_token := b, draws := c\<rparr>
    = h\<lparr>refresh_tokens := a, next_token := b, draws := c\<rparr>"
  by (simp add: signLoginTokens_def Let_def split_beta split: sum.split)

lemma sign_appends: "\<exists>new. length new \<le> 1 \<and> (\<forall>q\<in>set new. token_owner q = u \<and> token_expired_at q = None)
    \<and> refresh_tokens (snd (signLoginTokens cfg u h)) = refresh_tokens h @ new"
proof (cases "getTokenTtl cfg ACCESS")
  case (Inl e)
  then show ?thesis by (intro exI [of _ "[]"]) (simp add: signLoginTokens_def)
next
  case access: (Inr a)
  show ?thesis
  proof (cases "getTokenTtl cfg REFRESH")
    case (Inl e)
    then show ?thesis using access by (intro exI [of _ "[]"]) (simp add: signLoginTokens_def Let_def split_beta)
  next
    case (Inr b)
    then show ?thesis using access by (simp add: signLoginTokens_def Let_def split_beta)
  qed
qed

lemma renewed_sign:
  assumes "token_expired_at row \<noteq> None" and "token_owner row = u"
  shows "renewed row h (snd (signLoginTokens cfg u h))"
  using sign_appends [of u cfg h] assms by (auto simp: renewed_def sign_frame)

lemma renewed_sign_live:
  assumes "token_expired_at row = None" and "token_owner row = u"
  shows "renewed row h (snd (signLoginTokens cfg u (h\<lparr>refresh_tokens := update_rows
      (\<lambda>r. token_index r = token_index row) (\<lambda>r. r\<lparr>token_expired_at := Some (clock h)\<rparr>) (refresh_tokens h)\<rparr>)))"
    (is "renewed row h (snd (signLoginTokens cfg u ?h1))")
  using sign_appends [of u cfg ?h1] assms by (simp add: renewed_def sign_frame)

lemma refresh_renews: "snd (refresh cfg tok h) = h
    \<or> (\<exists>row. renewable row tok h \<and> renewed row h (snd (refresh cfg tok h)))"
proof -
  have pick: "snd (case signLoginTokens cfg u k of (Inl e, h2) \<Rightarrow> (Inl e, h2) | (Inr pair, h2) \<Rightarrow> (Inr (Some pair), h2))
      = snd (signLoginTokens cfg u k)" for u k
    by (cases "signLoginTokens cfg u k") (auto split: sum.split)
  show ?thesis
  proof (cases "decoded_user cfg tok")
    case None
    then show ?thesis by (simp add: refresh_def)
  next
    case (Some u)
    then have tok: "Some (the tok) = tok" by (cases tok) (simp_all add: decoded_user_def falsy_def)
    let ?live = "\<lambda>r. token_owner r = u \<and> token r = the tok \<and> token_expired_at r = None"
    let ?late = "\<lambda>r. token_owner r = u \<and> token r = the tok \<and> (case token_expired_at r of None \<Rightarrow> False
        | Some t \<Rightarrow> t \<ge> clock h - REFRESH_ROTATION_GRACE_MS)"
    show ?thesis
    proof (cases "find ?live (refresh_tokens h)")
      case live: (Some row)
      note row = find_SomeD [OF live]
      then have "renewable row tok h" using tok by (simp add: renewable_def)
      moreover have "renewed row h (snd (refresh cfg tok h))"
        using renewed_sign_live [of row u h cfg] row Some live by (simp add: refresh_def Let_def pick)
      ultimately show ?thesis by blast
    next
      case none: None
      show ?thesis
      proof (cases "list_ex ?late (refresh_tokens h)")
        case False
        then show ?thesis using Some none by (simp add: refresh_def)
      next
        case True
        then obtain row where row: "row \<in> set (refresh_tokens h)" "?late row" unfolding list_ex_iff by blast
        then have "renewable row tok h" "token_expired_at row \<noteq> None" using tok
          by (auto simp: renewable_def split: option.splits)
        moreover have "snd (refresh cfg tok h) = snd (signLoginTokens cfg u h)"
          using Some none True by (simp add: refresh_def pick)
        ultimately show ?thesis using renewed_sign [of row u h cfg] row(2) by auto
      qed
    qed
  qed
qed

lemma TokenRefreshFilter_renews:
  assumes "TokenRefreshFilter cfg tok h = (r, h2)"
  shows "(h2 = h \<or> (\<exists>row. renewable row tok h \<and> renewed row h h2)) \<and> (\<forall>x. r = Inr x \<longrightarrow> resp_data x = None)"
proof (cases "falsy tok")
  case True
  then show ?thesis using assms by (auto simp: TokenRefreshFilter_def give_def please_log_in_def)
next
  case False
  then have "h2 = snd (refresh cfg tok h)" "\<forall>x. r = Inr x \<longrightarrow> resp_data x = None"
    using assms by (auto simp: TokenRefreshFilter_def andThen_def give_def please_log_in_def
        split: prod.splits sum.splits option.splits if_splits)
  then show ?thesis using refresh_renews [of cfg tok h] by simp
qed

text \<open>C29: who is not logged in sees and changes nothing. A request that changes state (any method but GET, HEAD
  and OPTIONS, which the check of the origin lets pass) from an origin that is not allowed, or a request to a route
  behind \<open>JwtGuard\<close> with a token the guard refuses, is answered without data. The hub's state stays as it
  was, except in one case: the origin passed, the guard found the access token expired, and the request carries a
  refresh token the hub stores, live or expired no longer than the grace window ago. Then the row of that token
  is expired if it was live, at most one new row is added, for the account the old row belongs to, and
  nothing else changes.\<close>

theorem strangers_change_nothing:
  assumes "\<not> origin_passes cfg (http_method (rq_route rq)) (rq_origin rq)
    \<or> open_route cfg rq h = None \<and> JwtGuard cfg (rq_accessToken rq) h = Inl e"
    and "handle_request cfg rq h = (answer, h2)"
  shows "resp_data answer = None
    \<and> (h2 = h \<or> origin_passes cfg (http_method (rq_route rq)) (rq_origin rq)
        \<and> JwtGuard cfg (rq_accessToken rq) h = Inl TokenExpired
        \<and> (\<exists>row. renewable row (rq_refreshToken rq) h \<and> renewed row h h2))"
proof (cases "origin_passes cfg (http_method (rq_route rq)) (rq_origin rq)")
  case False
  then show ?thesis using assms(2) by (auto simp: handle_request_def Let_def)
next
  case True
  then have guard: "JwtGuard cfg (rq_accessToken rq) h = Inl e" using assms(1) by blast
  have d: "dispatch_request cfg rq h = (Inl e, h)"
    using assms(1) True by (simp add: dispatch_request_def check_def throw_def andThen_def)
  show ?thesis
  proof (cases "e = TokenExpired")
    case False
    then show ?thesis using assms(2) True d by (auto simp: handle_request_def Let_def error_response_def)
  next
    case expired: True
    obtain r k where r: "(TokenRefreshFilter cfg (rq_refreshToken rq) h :: reply) = (r, k)"
      by (cases "TokenRefreshFilter cfg (rq_refreshToken rq) h :: reply")
    then have "h2 = k \<and> (case r of Inl e2 \<Rightarrow> answer = error_response e2 | Inr x \<Rightarrow> answer = x)"
      using assms(2) True d expired by (cases r) (simp_all add: handle_request_def Let_def)
    with TokenRefreshFilter_renews [OF r] True guard expired show ?thesis
      by (cases r) (auto simp: error_response_def)
  qed
qed

definition stranger :: http_request where
  "stranger = \<lparr>rq_origin = None, rq_accessToken = Some ''aab'', rq_refreshToken = Some ''aabx100'',
     rq_totpHeader = JUndef, rq_route = Auth Me\<rparr>"

lemma strangers_change_nothing_witness:
  "\<exists>answer. handle_request coded_config stranger two_accounts = (answer, two_accounts) \<and> resp_data answer = None"
proof -
  have closed: "open_route coded_config stranger two_accounts = None"
    "JwtGuard coded_config (rq_accessToken stranger) two_accounts = Inl (Unauthorized ''Unauthorized'')"
    by code_simp+
  obtain answer h2 where "handle_request coded_config stranger two_accounts = (answer, h2)"
    by (cases "handle_request coded_config stranger two_accounts")
  with closed strangers_change_nothing [of coded_config stranger two_accounts] show ?thesis by fastforce
qed

end
