(* ===== verification/Gateway.thy ===== *)
theory Gateway
  imports GatewayText
begin

text \<open>
  The gateway process: the public proxy (\<open>proxy/server.ts\<close>), the server the agents open their tunnels
  to (\<open>tunnel/server.ts\<close>), the registry of waiting sockets (\<open>tunnel/registry.ts\<close>) and the pool of
  sockets opened in advance (\<open>tunnel/preconnect.ts\<close>).

  A socket is a number; its \<open>conn_state\<close> is what the closures of its handlers hold: which listener is
  attached, and what it has read. Each callback of the process is a function on the state: bytes of a
  socket, the end of a socket, an answer of the Hub, a timer. What the process writes is appended to
  \<open>outputs\<close>; \<open>Join client agent\<close> stands for the two pipes between the sockets. The diagnostic log lines
  and their timings are left out.
\<close>

section \<open>State\<close>

record request_info =
  q_host :: string
  q_service :: string
  q_workspace :: string
  q_ray :: string
  q_buffer :: string

datatype conn_state =
    Reading string
  | AskingRoute request_info
  | Registered request_info
  | PooledTo nat bool request_info
  | Answered
  | FirstLine string
  | Verifying string
  | InPool string nat string
  | PooledFor nat
  | AwaitClient
  | Joined

record conn =
  conn_token :: string
  conn_requestId :: string
  conn_state :: conn_state

datatype gateway_output =
    Write nat string
  | EndWith nat string
  | End nat
  | Join nat nat
  | AskHub nat bool
  | AskVerify nat preconnect_request

text \<open>An entry of the registry names the timer that was set for it.\<close>

record registry_entry =
  e_socket :: nat
  e_rest :: string
  e_timer :: nat

record gateway =
  g_clock :: int
  g_drawn :: nat
  conns :: "(nat, conn) jsmap"
  localClientSocket :: "(string, registry_entry) jsmap"
  regTimers :: "(nat \<times> int \<times> string \<times> nat) list"
  nextTimer :: nat
  pools :: "(string, nat \<times> nat list) jsmap"
  nextPool :: nat
  destroyed :: "nat list"
  outputs :: "gateway_output list"

text \<open>What the process is given: the templates, the random tokens and the request ids.\<close>

record gateway_env =
  env_templates :: "ErrorTemplateName \<Rightarrow> string"
  env_uuid :: "nat \<Rightarrow> string"
  env_ulid :: "nat \<Rightarrow> string"

definition put :: "gateway_output \<Rightarrow> gateway \<Rightarrow> gateway" where
  "put x g = g\<lparr>outputs := outputs g @ [x]\<rparr>"

definition set_state :: "nat \<Rightarrow> conn_state \<Rightarrow> gateway \<Rightarrow> gateway" where
  "set_state s st g =
     (case map_get (conns g) s of
        None \<Rightarrow> g
      | Some c \<Rightarrow> g\<lparr>conns := map_set (conns g) s (c\<lparr>conn_state := st\<rparr>)\<rparr>)"

definition state_of :: "nat \<Rightarrow> gateway \<Rightarrow> conn_state option" where
  "state_of s g = map_option conn_state (map_get (conns g) s)"

section \<open>The registry\<close>

definition REGISTRY_TIMEOUT_MS :: int where "REGISTRY_TIMEOUT_MS = 10000"

text \<open>\<open>set\<close> replaces an entry of the same token; the timer of that entry stays armed.\<close>

definition register :: "string \<Rightarrow> nat \<Rightarrow> string \<Rightarrow> gateway \<Rightarrow> gateway" where
  "register tok socket rest g =
     g\<lparr>regTimers := regTimers g @ [(nextTimer g, g_clock g + REGISTRY_TIMEOUT_MS, tok, socket)],
       nextTimer := Suc (nextTimer g),
       localClientSocket := map_set (localClientSocket g) tok
         \<lparr>e_socket = socket, e_rest = rest, e_timer = nextTimer g\<rparr>\<rparr>"

definition clear_timer :: "nat \<Rightarrow> gateway \<Rightarrow> gateway" where
  "clear_timer i g = g\<lparr>regTimers := filter (\<lambda>(j, _). j \<noteq> i) (regTimers g)\<rparr>"

definition claim :: "string \<Rightarrow> gateway \<Rightarrow> registry_entry option \<times> gateway" where
  "claim tok g =
     (case map_get (localClientSocket g) tok of
        None \<Rightarrow> (None, g)
      | Some e \<Rightarrow> (Some e, clear_timer (e_timer e)
          (g\<lparr>localClientSocket := map_delete (localClientSocket g) tok\<rparr>)))"

definition release :: "string \<Rightarrow> nat \<Rightarrow> gateway \<Rightarrow> gateway" where
  "release tok socket g =
     (case map_get (localClientSocket g) tok of
        None \<Rightarrow> g
      | Some e \<Rightarrow>
          if e_socket e = socket
          then clear_timer (e_timer e) (g\<lparr>localClientSocket := map_delete (localClientSocket g) tok\<rparr>)
          else g)"

section \<open>The pool\<close>

definition PRECONNECT_VERB :: string where "PRECONNECT_VERB = ''tunnel:pre:v1''"

definition MAX_POOL_PER_AGENT :: nat where "MAX_POOL_PER_AGENT = 16"

definition hex_text :: "nat \<Rightarrow> string \<Rightarrow> bool" where
  "hex_text n s \<longleftrightarrow> length s = n \<and> list_all is_hex (js_lower s)"

definition reject :: "nat \<Rightarrow> string \<Rightarrow> gateway \<Rightarrow> gateway" where
  "reject socket reason g = put (EndWith socket (''PRE:ERR '' @ reason @ [CHR 0x0A])) (set_state socket Answered g)"

definition word_at :: "nat \<Rightarrow> string list \<Rightarrow> string" where
  "word_at i ws = (if i < length ws then ws ! i else [])"

text \<open>Up to the question to the Hub; a missing word is as good as an empty one, but for the time stamp,
  whose empty text \<open>Number\<close> reads as zero.\<close>

definition handlePreconnect :: "nat \<Rightarrow> string \<Rightarrow> string \<Rightarrow> gateway \<Rightarrow> gateway" where
  "handlePreconnect socket line rest g =
     (let ws = split_on (CHR '' '') line;
          agentUuid = word_at 1 ws; nonce = word_at 3 ws; signature = word_at 4 ws
      in if rest \<noteq> [] then reject socket ''protocol_error'' g
         else if \<not> is_uuid agentUuid then reject socket ''malformed_agent_uuid'' g
         else if \<not> hex_text 32 nonce then reject socket ''missing_nonce'' g
         else if \<not> hex_text 64 signature then reject socket ''malformed_signature'' g
         else case (if 2 < length ws then js_number_text (ws ! 2) else None) of
             None \<Rightarrow> reject socket ''missing_timestamp'' g
           | Some timestamp \<Rightarrow>
               put (AskVerify socket \<lparr>pre_agentUuid = agentUuid, pre_timestamp = timestamp,
                      pre_nonce = nonce, pre_signature = signature\<rparr>)
                 (set_state socket (Verifying agentUuid) g))"

text \<open>An answer of the Hub: it could not be reached, or a status with a body, \<open>None\<close> where it is not JSON.\<close>

datatype hub_answer = Unreachable | Answer nat "jval option"

definition answer_ok :: "nat \<Rightarrow> bool" where
  "answer_ok status \<longleftrightarrow> 200 \<le> status \<and> status < 300"

fun verifyWithHub :: "hub_answer \<Rightarrow> string option" where
  "verifyWithHub Unreachable = Some ''hub_unreachable''"
| "verifyWithHub (Answer status body) =
     (if \<not> answer_ok status then Some ''hub_rejected''
      else case body of
          None \<Rightarrow> Some ''hub_unreachable''
        | Some b \<Rightarrow>
            if field ''ok'' b = JBool True then None
            else Some (case field ''reason'' b of JStr r \<Rightarrow> r | v \<Rightarrow> ''hub_rejected''))"

definition preconnect_verified :: "nat \<Rightarrow> hub_answer \<Rightarrow> gateway \<Rightarrow> gateway" where
  "preconnect_verified socket answer g =
     (case state_of socket g of
        Some (Verifying agentUuid) \<Rightarrow>
          (case verifyWithHub answer of
             Some reason \<Rightarrow> reject socket reason g
           | None \<Rightarrow>
               (let (i, pool, g1) = (case map_get (pools g) agentUuid of
                      Some (i, pool) \<Rightarrow> (i, pool, g)
                    | None \<Rightarrow> (nextPool g, [], g\<lparr>nextPool := Suc (nextPool g)\<rparr>))
                in if length pool \<ge> MAX_POOL_PER_AGENT then reject socket ''pool_full'' g1
                   else put (Write socket (''PRE:OK'' @ [CHR 0x0A]))
                     (set_state socket (InPool agentUuid i [])
                       (g1\<lparr>pools := map_set (pools g1) agentUuid (i, pool @ [socket])\<rparr>))))
      | _ \<Rightarrow> g)"

text \<open>Dead sockets at the head of the pool are dropped on the way.\<close>

fun first_alive :: "nat list \<Rightarrow> nat list \<Rightarrow> nat option \<times> nat list" where
  "first_alive gone [] = (None, [])"
| "first_alive gone (s # pool) = (if s \<in> set gone then first_alive gone pool else (Some s, pool))"

definition claimPreconnected :: "string \<Rightarrow> gateway \<Rightarrow> nat option \<times> gateway" where
  "claimPreconnected agentUuid g =
     (case map_get (pools g) agentUuid of
        None \<Rightarrow> (None, g)
      | Some (i, pool) \<Rightarrow>
          (case first_alive (destroyed g) pool of
             (Some s, rest) \<Rightarrow> (Some s, g\<lparr>pools := map_set (pools g) agentUuid (i, rest)\<rparr>)
           | (None, rest) \<Rightarrow> (None, g\<lparr>pools := map_delete (pools g) agentUuid\<rparr>)))"

definition preconnectStats :: "gateway \<Rightarrow> nat \<times> nat" where
  "preconnectStats g = (length (pools g), sum_list (map (\<lambda>(u, i, pool). length pool) (pools g)))"

text \<open>The loop over the lines on an idle socket: the number of answers and what is left of the last
  line. The source loops \<open>for (;;)\<close>; \<open>None\<close> would be a loop without an end.\<close>

partial_function (option) heartbeat :: "string \<Rightarrow> nat \<Rightarrow> (nat \<times> string) option" where
  "heartbeat buffer answers =
     (let line = takeWhile (\<lambda>c. c \<noteq> CHR 0x0A) buffer
      in if length line = length buffer then Some (answers, buffer)
         else heartbeat (drop (Suc (length line)) buffer)
                (if js_trim line = ''PING'' then Suc answers else answers))"

declare heartbeat.simps [code]

definition answerHeartbeat :: "nat \<Rightarrow> string \<Rightarrow> gateway \<Rightarrow> gateway" where
  "answerHeartbeat socket chunk g =
     (case state_of socket g of
        Some (InPool u i buffer) \<Rightarrow>
          (case heartbeat (buffer @ chunk) 0 of
             None \<Rightarrow> g
           | Some (n, rest) \<Rightarrow> set_state socket (InPool u i rest)
               (g\<lparr>outputs := outputs g @ replicate n (Write socket (''PONG'' @ [CHR 0x0A]))\<rparr>))
      | _ \<Rightarrow> g)"

section \<open>The proxy\<close>

definition error_page :: "gateway_env \<Rightarrow> tunnel_outcome \<Rightarrow> string \<Rightarrow> string \<Rightarrow> string \<Rightarrow> string \<Rightarrow> gateway \<Rightarrow> string" where
  "error_page env outcome host service requestId ray g =
     renderErrorResponse (env_templates env) outcome
       \<lparr>ctx_host = host, ctx_serviceName = service, ctx_requestId = requestId, ctx_rayId = ray\<rparr>
       (toISOString (g_clock g))"

definition fail :: "gateway_env \<Rightarrow> tunnel_outcome \<Rightarrow> nat \<Rightarrow> conn \<Rightarrow> request_info \<Rightarrow> gateway \<Rightarrow> gateway" where
  "fail env outcome socket c q g =
     put (EndWith socket (error_page env outcome (q_host q) (q_service q) (conn_requestId c) (q_ray q) g)) g"

definition accept_client :: "gateway_env \<Rightarrow> nat \<Rightarrow> gateway \<Rightarrow> gateway" where
  "accept_client env socket g =
     (if map_get (conns g) socket \<noteq> None then g
      else g\<lparr>conns := map_set (conns g) socket \<lparr>conn_token = env_uuid env (g_drawn g),
               conn_requestId = ''opt_'' @ env_ulid env (g_drawn g), conn_state = Reading []\<rparr>,
             g_drawn := Suc (g_drawn g)\<rparr>)"

text \<open>The listener stays attached after a refusal, so that further bytes refuse the request again.\<close>

definition client_data :: "gateway_env \<Rightarrow> nat \<Rightarrow> string \<Rightarrow> gateway \<Rightarrow> gateway" where
  "client_data env socket chunk g =
     (case map_get (conns g) socket of
        Some c \<Rightarrow>
          (case conn_state c of
             Reading before \<Rightarrow>
          (let buffer = before @ chunk; rid = conn_requestId c;
               g1 = set_state socket (Reading buffer) g
           in case header_end buffer of
                None \<Rightarrow> g1
              | Some idx \<Rightarrow>
             (let header = split_crlf (take idx buffer);
                  rayId = readCfRay header
              in case find (is_header ''host:'') header of
                   None \<Rightarrow> put (EndWith socket (error_page env MISSING_HOST [] [] rid rayId g1)) g1
                 | Some hostLine \<Rightarrow>
                (let host = header_value ''host:'' hostLine
                 in case parseRouteFromHostHeader hostLine of
                      None \<Rightarrow> put (EndWith socket (error_page env INVALID_ROUTE host [] rid rayId g1)) g1
                    | Some (service, workspace) \<Rightarrow>
                        put (AskHub socket True) (set_state socket (AskingRoute
                          \<lparr>q_host = host, q_service = service, q_workspace = workspace, q_ray = rayId,
                           q_buffer = withRequestIdHeader buffer idx rid\<rparr>) g1))))
           | st \<Rightarrow> g)
      | None \<Rightarrow> g)"

text \<open>The first answer of the Hub: take a socket of the pool, or register and ask again.\<close>

definition hub_routed :: "gateway_env \<Rightarrow> nat \<Rightarrow> hub_answer \<Rightarrow> gateway \<Rightarrow> gateway" where
  "hub_routed env socket answer g =
     (case map_get (conns g) socket of
        Some c \<Rightarrow>
          (case conn_state c of
             AskingRoute q \<Rightarrow>
               (case answer of
                  Unreachable \<Rightarrow> fail env HUB_UNREACHABLE socket c q (set_state socket Answered g)
                | Answer status body \<Rightarrow>
                    if \<not> answer_ok status
                    then fail env (readHubOutcome status body) socket c q (set_state socket Answered g)
                    else
                 (let agentUuid = (case body of Some b \<Rightarrow> field ''agent_uuid'' b | None \<Rightarrow> JUndef);
                      servicePort = (case body of Some b \<Rightarrow> field ''service_port'' b | None \<Rightarrow> JUndef);
                      (pooled, g1) = (case agentUuid of JStr u \<Rightarrow> claimPreconnected u g | v \<Rightarrow> (None, g))
                  in case (pooled, servicePort) of
                       (Some p, JNum port) \<Rightarrow>
                         put (Join socket p) (put (Write p (q_buffer q))
                           (put (Write p (''OPEN '' @ show_int port @ '' '' @ conn_requestId c @ [CHR 0x0A]))
                             (set_state p (PooledFor socket) (set_state socket (PooledTo p False q) g1))))
                     | _ \<Rightarrow>
                         put (AskHub socket False)
                           (set_state socket (Registered q) (register (conn_token c) socket (q_buffer q)
                             (case pooled of Some p \<Rightarrow> set_state p Answered g1 | None \<Rightarrow> g1)))))
           | st \<Rightarrow> g)
      | None \<Rightarrow> g)"

text \<open>The second answer. The tunnel may have come in the meantime.\<close>

definition hub_fallback :: "gateway_env \<Rightarrow> nat \<Rightarrow> request_info \<Rightarrow> hub_answer \<Rightarrow> gateway \<Rightarrow> gateway" where
  "hub_fallback env socket q answer g =
     (case map_get (conns g) socket of
        None \<Rightarrow> g
      | Some c \<Rightarrow>
          (case answer of
             Unreachable \<Rightarrow> fail env HUB_UNREACHABLE socket c q g
           | Answer status body \<Rightarrow>
               if answer_ok status then g else fail env (readHubOutcome status body) socket c q g))"

text \<open>The timer of an entry deletes whatever is registered under the token by then.\<close>

definition registry_timeout :: "gateway_env \<Rightarrow> nat \<Rightarrow> gateway \<Rightarrow> gateway" where
  "registry_timeout env i g =
     (case find (\<lambda>(j, _). j = i) (regTimers g) of
        None \<Rightarrow> g
      | Some (_, deadline, tok, socket) \<Rightarrow>
          if g_clock g < deadline then g
          else
            (let g1 = clear_timer i (g\<lparr>localClientSocket := map_delete (localClientSocket g) tok\<rparr>)
             in case map_get (conns g1) socket of
                  None \<Rightarrow> g1
                | Some c \<Rightarrow>
                    (case conn_state c of
                       Registered q \<Rightarrow> fail env AGENT_NO_TUNNEL socket c q (set_state socket Answered g1)
                     | AwaitClient \<Rightarrow> release tok socket g1
                     | st \<Rightarrow> g1)))"

section \<open>The tunnel server\<close>

definition accept_agent :: "nat \<Rightarrow> gateway \<Rightarrow> gateway" where
  "accept_agent socket g =
     (if map_get (conns g) socket \<noteq> None then g
      else g\<lparr>conns := map_set (conns g) socket
               \<lparr>conn_token = [], conn_requestId = [], conn_state = FirstLine []\<rparr>\<rparr>)"

definition tunnel_data :: "nat \<Rightarrow> string \<Rightarrow> gateway \<Rightarrow> gateway" where
  "tunnel_data socket chunk g =
     (case map_get (conns g) socket of
        Some c \<Rightarrow>
          (case conn_state c of
             FirstLine before \<Rightarrow>
               (let buffer = before @ chunk
                in if CHR 0x0A \<notin> set buffer then set_state socket (FirstLine buffer) g
                   else
               (let line = takeWhile (\<lambda>x. x \<noteq> CHR 0x0A) buffer;
                    rest = drop (Suc (length line)) buffer
                in if starts_with (PRECONNECT_VERB @ '' '') line then handlePreconnect socket line rest g
                   else
                     (let g1 = g\<lparr>conns := map_set (conns g) socket (c\<lparr>conn_token := line\<rparr>)\<rparr>
                      in case claim line g1 of
                           (Some e, g2) \<Rightarrow>
                             put (Join (e_socket e) socket) (put (Write socket (e_rest e))
                               (put (Write (e_socket e) rest)
                                 (set_state socket Joined (set_state (e_socket e) Joined g2))))
                         | (None, g2) \<Rightarrow>
                             set_state socket AwaitClient (register line socket rest g2))))
           | InPool u i b \<Rightarrow> answerHeartbeat socket chunk g
           | PooledFor client \<Rightarrow>
               (case state_of client g of
                  Some (PooledTo p responded q) \<Rightarrow> set_state client (PooledTo p True q) g
                | _ \<Rightarrow> g)
           | st \<Rightarrow> g)
      | None \<Rightarrow> g)"

section \<open>Ends of sockets\<close>

text \<open>The pool an idle socket leaves is the one it was put into, which may have been replaced.\<close>

definition leave_pool :: "nat \<Rightarrow> string \<Rightarrow> nat \<Rightarrow> gateway \<Rightarrow> gateway" where
  "leave_pool socket agentUuid i g =
     (case map_get (pools g) agentUuid of
        Some (j, pool) \<Rightarrow>
          if j \<noteq> i then g
          else if removeAll socket pool = [] then g\<lparr>pools := map_delete (pools g) agentUuid\<rparr>
          else g\<lparr>pools := map_set (pools g) agentUuid (i, removeAll socket pool)\<rparr>
      | None \<Rightarrow> g)"

definition socket_closed :: "gateway_env \<Rightarrow> nat \<Rightarrow> gateway \<Rightarrow> gateway" where
  "socket_closed env socket g =
     (case map_get (conns g) socket of
        None \<Rightarrow> g
      | Some c \<Rightarrow>
          (let g1 = g\<lparr>destroyed := socket # destroyed g\<rparr>
           in if socket \<in> set (destroyed g) then g
              else case conn_state c of
               InPool u i b \<Rightarrow> leave_pool socket u i g1
             | Verifying u \<Rightarrow> g1
             | PooledTo p responded q \<Rightarrow> put (End p) (release (conn_token c) socket g1)
             | PooledFor client \<Rightarrow>
                 (case map_get (conns g) client of
                    Some d \<Rightarrow>
                      (case conn_state d of
                         PooledTo p responded q \<Rightarrow>
                           if responded \<or> client \<in> set (destroyed g) then put (End client) g1
                           else fail env AGENT_NO_TUNNEL client d q g1
                       | st \<Rightarrow> g1)
                  | None \<Rightarrow> g1)
             | st \<Rightarrow> release (conn_token c) socket g1))"

section \<open>Events\<close>

datatype gateway_event =
    AcceptClient nat
  | AcceptAgent nat
  | ClientData nat string
  | AgentData nat string
  | Routed nat hub_answer
  | FallbackAnswered nat request_info hub_answer
  | PreconnectAnswered nat hub_answer
  | TimerFires nat
  | Closed nat
  | Passes int

fun gateway_step :: "gateway_env \<Rightarrow> gateway_event \<Rightarrow> gateway \<Rightarrow> gateway" where
  "gateway_step env (AcceptClient s) g = accept_client env s g"
| "gateway_step env (AcceptAgent s) g = accept_agent s g"
| "gateway_step env (ClientData s chunk) g = client_data env s chunk g"
| "gateway_step env (AgentData s chunk) g = tunnel_data s chunk g"
| "gateway_step env (Routed s answer) g = hub_routed env s answer g"
| "gateway_step env (FallbackAnswered s q answer) g = hub_fallback env s q answer g"
| "gateway_step env (PreconnectAnswered s answer) g = preconnect_verified s answer g"
| "gateway_step env (TimerFires i) g = registry_timeout env i g"
| "gateway_step env (Closed s) g = socket_closed env s g"
| "gateway_step env (Passes ms) g = g\<lparr>g_clock := g_clock g + max 0 ms\<rparr>"

definition init_gateway :: gateway where
  "init_gateway = \<lparr>g_clock = 0, g_drawn = 0, conns = [], localClientSocket = [], regTimers = [],
     nextTimer = 0, pools = [], nextPool = 0, destroyed = [], outputs = []\<rparr>"

definition proxy_run :: "gateway_env \<Rightarrow> gateway_event list \<Rightarrow> gateway" where
  "proxy_run env events = fold (gateway_step env) events init_gateway"

end
