(* ===== verification/GatewayRules.thy ===== *)
theory GatewayRules
  imports Gateway
begin

text \<open>
  The invariants of the gateway process over all sequences of events: where a socket can be (in the
  registry, in a pool, in a pipe), the size of the pools, and the timers of the registry.
\<close>

section \<open>The invariant\<close>

fun is_waiting :: "conn_state \<Rightarrow> bool" where
  "is_waiting (Registered q) = True"
| "is_waiting AwaitClient = True"
| "is_waiting st = False"

fun is_linked :: "conn_state \<Rightarrow> bool" where
  "is_linked Joined = True"
| "is_linked (PooledTo p r q) = True"
| "is_linked (PooledFor c) = True"
| "is_linked st = False"

fun is_idle :: "string \<Rightarrow> nat \<Rightarrow> conn_state \<Rightarrow> bool" where
  "is_idle u i (InPool u2 i2 b) = (u2 = u \<and> i2 = i)"
| "is_idle u i st = False"

fun is_first :: "conn_state \<Rightarrow> bool" where
  "is_first (FirstLine b) = True"
| "is_first st = False"

definition joined :: "gateway_output list \<Rightarrow> nat list" where
  "joined xs = concat (map (\<lambda>x. case x of Join a b \<Rightarrow> [a, b] | _ \<Rightarrow> []) xs)"

definition registry_ok :: "gateway \<Rightarrow> bool" where
  "registry_ok g \<longleftrightarrow> (\<forall>tok e. map_get (localClientSocket g) tok = Some e \<longrightarrow>
     (\<exists>c. map_get (conns g) (e_socket e) = Some c \<and> conn_token c = tok \<and> is_waiting (conn_state c)))"

definition timers_ok :: "gateway \<Rightarrow> bool" where
  "timers_ok g \<longleftrightarrow> distinct (map fst (regTimers g))
     \<and> (\<forall>(i, d, tok, s)\<in>set (regTimers g). i < nextTimer g \<and> d \<le> g_clock g + REGISTRY_TIMEOUT_MS
          \<and> (\<exists>c. map_get (conns g) s = Some c \<and> conn_token c = tok \<and> \<not> is_first (conn_state c)))
     \<and> (\<forall>tok e. map_get (localClientSocket g) tok = Some e \<longrightarrow>
          (\<exists>d. (e_timer e, d, tok, e_socket e) \<in> set (regTimers g)))"

definition pools_ok :: "gateway \<Rightarrow> bool" where
  "pools_ok g \<longleftrightarrow> (\<forall>u i pool. map_get (pools g) u = Some (i, pool) \<longrightarrow>
     distinct pool \<and> length pool \<le> MAX_POOL_PER_AGENT
     \<and> (\<forall>s\<in>set pool. \<exists>c. map_get (conns g) s = Some c \<and> is_idle u i (conn_state c)))"

definition joins_ok :: "gateway \<Rightarrow> bool" where
  "joins_ok g \<longleftrightarrow> distinct (joined (outputs g))
     \<and> (\<forall>s\<in>set (joined (outputs g)). \<exists>c. map_get (conns g) s = Some c \<and> is_linked (conn_state c))"

definition gateway_ok :: "gateway \<Rightarrow> bool" where
  "gateway_ok g \<longleftrightarrow> registry_ok g \<and> timers_ok g \<and> pools_ok g \<and> joins_ok g"

text \<open>A socket that is in no registry, no pool and no pipe.\<close>

definition unheld :: "nat \<Rightarrow> gateway \<Rightarrow> bool" where
  "unheld s g \<longleftrightarrow> (\<forall>tok e. map_get (localClientSocket g) tok = Some e \<longrightarrow> e_socket e \<noteq> s)
     \<and> (\<forall>u i pool. map_get (pools g) u = Some (i, pool) \<longrightarrow> s \<notin> set pool)
     \<and> s \<notin> set (joined (outputs g))"

lemmas gateway_ok_defs = gateway_ok_def registry_ok_def timers_ok_def pools_ok_def joins_ok_def

lemma put_frame [simp]:
  "conns (put x g) = conns g" "localClientSocket (put x g) = localClientSocket g"
  "regTimers (put x g) = regTimers g" "nextTimer (put x g) = nextTimer g" "pools (put x g) = pools g"
  "g_clock (put x g) = g_clock g" "destroyed (put x g) = destroyed g" "outputs (put x g) = outputs g @ [x]"
  by (simp_all add: put_def)

lemma set_state_frame [simp]:
  "localClientSocket (set_state s st g) = localClientSocket g" "regTimers (set_state s st g) = regTimers g"
  "nextTimer (set_state s st g) = nextTimer g" "pools (set_state s st g) = pools g"
  "g_clock (set_state s st g) = g_clock g" "destroyed (set_state s st g) = destroyed g"
  "outputs (set_state s st g) = outputs g"
  by (simp_all add: set_state_def split: option.split)

lemma conns_set_state [simp]:
  "map_get (conns (set_state s st g)) x =
    (if x = s then map_option (\<lambda>c. c\<lparr>conn_state := st\<rparr>) (map_get (conns g) s) else map_get (conns g) x)"
  by (simp add: set_state_def split: option.split)

lemma joined_append [simp]: "joined (xs @ ys) = joined xs @ joined ys"
  by (simp add: joined_def)

lemma joined_simps [simp]:
  "joined [] = []" "joined (Join a b # xs) = a # b # joined xs" "joined (Write s t # xs) = joined xs"
  "joined (EndWith s t # xs) = joined xs" "joined (End s # xs) = joined xs"
  "joined (AskHub s p # xs) = joined xs" "joined (AskVerify s r # xs) = joined xs"
  by (simp_all add: joined_def)

lemma joined_replicate [simp]: "joined (replicate n (Write s t)) = []"
  by (induction n) simp_all

section \<open>Steps that keep it\<close>

lemma put_ok [simp]: "joined [x] = [] \<Longrightarrow> gateway_ok (put x g) = gateway_ok g"
  by (simp add: gateway_ok_defs)

lemma unheld_put [simp]: "joined [x] = [] \<Longrightarrow> unheld s (put x g) = unheld s g"
  by (simp add: unheld_def)

lemma unheld_set [simp]: "unheld s (set_state t st g) = unheld s g"
  by (simp add: unheld_def)

text \<open>The parts of the invariant look at a socket only where it is held.\<close>

lemma set_keeps:
  assumes "gateway_ok g" and "is_first st \<Longrightarrow> \<exists>st0. state_of s g = Some st0 \<and> is_first st0"
    and "\<And>tok e. map_get (localClientSocket g) tok = Some e \<Longrightarrow> e_socket e = s \<Longrightarrow> is_waiting st"
    and "\<And>u i pool. map_get (pools g) u = Some (i, pool) \<Longrightarrow> s \<in> set pool \<Longrightarrow> is_idle u i st"
    and "s \<in> set (joined (outputs g)) \<Longrightarrow> is_linked st"
  shows "gateway_ok (set_state s st g)"
proof -
  have "registry_ok (set_state s st g)"
    unfolding registry_ok_def
  proof (intro allI impI)
    fix tok e assume e: "map_get (localClientSocket (set_state s st g)) tok = Some e"
    then obtain c where "map_get (conns g) (e_socket e) = Some c" "conn_token c = tok" "is_waiting (conn_state c)"
      using assms(1) unfolding gateway_ok_def registry_ok_def by auto
    with e assms(3) [of tok e] show "\<exists>c. map_get (conns (set_state s st g)) (e_socket e) = Some c \<and>
        conn_token c = tok \<and> is_waiting (conn_state c)"
      by (cases "e_socket e = s") auto
  qed
  moreover have "timers_ok (set_state s st g)"
  proof -
    have "\<exists>c. map_get (conns (set_state s st g)) x = Some c \<and> conn_token c = tok \<and> \<not> is_first (conn_state c)"
      if timer: "(i, d, tok, x) \<in> set (regTimers g)" for i d tok x
    proof -
      obtain c where c: "map_get (conns g) x = Some c" "conn_token c = tok" "\<not> is_first (conn_state c)"
        using assms(1) timer unfolding gateway_ok_def timers_ok_def by fast
      then show ?thesis using assms(2) by (cases "x = s") (auto simp: state_of_def)
    qed
    then show ?thesis using assms(1) unfolding gateway_ok_def timers_ok_def set_state_frame by fast
  qed
  moreover have "pools_ok (set_state s st g)"
    unfolding pools_ok_def
  proof (intro allI impI conjI ballI)
    fix u i pool x assume pool: "map_get (pools (set_state s st g)) u = Some (i, pool)" and x: "x \<in> set pool"
    then obtain c where "map_get (conns g) x = Some c" "is_idle u i (conn_state c)"
      using assms(1) unfolding gateway_ok_def pools_ok_def set_state_frame by blast
    with pool x assms(4) [of u i pool] show "\<exists>c. map_get (conns (set_state s st g)) x = Some c \<and> is_idle u i (conn_state c)"
      by (cases "x = s") auto
  qed (use assms(1) in \<open>auto simp: gateway_ok_def pools_ok_def\<close>)
  moreover have "joins_ok (set_state s st g)"
    unfolding joins_ok_def
  proof (intro conjI ballI)
    fix x assume x: "x \<in> set (joined (outputs (set_state s st g)))"
    then obtain c where "map_get (conns g) x = Some c" "is_linked (conn_state c)"
      using assms(1) unfolding gateway_ok_def joins_ok_def set_state_frame by blast
    with x assms(5) show "\<exists>c. map_get (conns (set_state s st g)) x = Some c \<and> is_linked (conn_state c)"
      by (cases "x = s") auto
  qed (use assms(1) in \<open>auto simp: gateway_ok_def joins_ok_def\<close>)
  ultimately show ?thesis by (simp add: gateway_ok_def)
qed

lemma set_unheld: "gateway_ok g \<Longrightarrow> unheld s g \<Longrightarrow> \<not> is_first st \<Longrightarrow> gateway_ok (set_state s st g)"
  by (rule set_keeps) (auto simp: unheld_def)

lemma set_first: "gateway_ok g \<Longrightarrow> unheld s g \<Longrightarrow> state_of s g = Some (FirstLine b) \<Longrightarrow> gateway_ok (set_state s st g)"
  by (rule set_keeps) (auto simp: unheld_def)

text \<open>What the state of a socket says about where it is.\<close>

lemma held_states:
  assumes "gateway_ok g" and "state_of s g = Some st"
  shows "map_get (localClientSocket g) tok = Some e \<Longrightarrow> e_socket e = s \<Longrightarrow> is_waiting st"
    and "map_get (pools g) u = Some (i, pool) \<Longrightarrow> s \<in> set pool \<Longrightarrow> is_idle u i st"
    and "s \<in> set (joined (outputs g)) \<Longrightarrow> is_linked st"
  using assms unfolding gateway_ok_defs state_of_def by fastforce+

lemma state_kinds:
  "is_linked st \<Longrightarrow> \<not> is_first st" "is_waiting st \<Longrightarrow> \<not> is_first st"
  "is_waiting st \<Longrightarrow> \<not> is_linked st" "is_waiting st \<Longrightarrow> \<not> is_idle u i st" "is_idle u i st \<Longrightarrow> \<not> is_linked st"
  by (cases st; simp)+

lemma set_linked:
  assumes "gateway_ok g" and "state_of s g = Some st0" and "is_linked st0" and "is_linked st"
  shows "gateway_ok (set_state s st g)"
  by (rule set_keeps [OF assms(1)]) (use assms(3,4) held_states [OF assms(1,2)] state_kinds in blast)+

lemma free_unheld:
  assumes "gateway_ok g" and "state_of s g = Some st" and "\<not> is_waiting st" and "\<not> is_linked st"
    and "\<And>u i. \<not> is_idle u i st"
  shows "unheld s g"
  using held_states [OF assms(1,2)] assms(3-5) unfolding unheld_def by blast

lemma state_of_set [simp]:
  "state_of x (set_state s st g) = (if x = s then map_option (\<lambda>c. st) (map_get (conns g) s) else state_of x g)"
  by (simp add: state_of_def option.map_comp comp_def)

lemma state_of_put [simp]: "state_of s (put x g) = state_of s g"
  by (simp add: state_of_def)

lemma put_join:
  assumes "gateway_ok g" and "a \<noteq> b" and "a \<notin> set (joined (outputs g))" and "b \<notin> set (joined (outputs g))"
    and "state_of a g = Some sa" and "is_linked sa" and "state_of b g = Some sb" and "is_linked sb"
  shows "gateway_ok (put (Join a b) g)"
  using assms unfolding gateway_ok_defs state_of_def by (auto simp: put_def)

text \<open>The registry\<close>

lemma clear_timer_frame [simp]:
  "conns (clear_timer i g) = conns g" "localClientSocket (clear_timer i g) = localClientSocket g"
  "nextTimer (clear_timer i g) = nextTimer g" "pools (clear_timer i g) = pools g"
  "g_clock (clear_timer i g) = g_clock g" "destroyed (clear_timer i g) = destroyed g"
  "outputs (clear_timer i g) = outputs g" "regTimers (clear_timer i g) = filter (\<lambda>(j, _). j \<noteq> i) (regTimers g)"
  by (simp_all add: clear_timer_def)

text \<open>Deleting an entry together with a timer that was set for its token.\<close>

lemma drop_entry_ok:
  assumes ok: "gateway_ok g" and "(i, d, tok, s) \<in> set (regTimers g)"
  shows "gateway_ok (clear_timer i (g\<lparr>localClientSocket := map_delete (localClientSocket g) tok\<rparr>))"
proof -
  let ?g = "clear_timer i (g\<lparr>localClientSocket := map_delete (localClientSocket g) tok\<rparr>)"
  have "timers_ok ?g"
    unfolding timers_ok_def
  proof (intro conjI allI impI)
    show "distinct (map fst (regTimers ?g))"
      using ok by (simp add: gateway_ok_def timers_ok_def distinct_map_filter)
    show "\<forall>(i, d, tok, s)\<in>set (regTimers ?g). i < nextTimer ?g \<and> d \<le> g_clock ?g + REGISTRY_TIMEOUT_MS
        \<and> (\<exists>c. map_get (conns ?g) s = Some c \<and> conn_token c = tok \<and> \<not> is_first (conn_state c))"
      using ok by (auto simp: gateway_ok_def timers_ok_def)
    fix tok2 e assume "map_get (localClientSocket ?g) tok2 = Some e"
    then have e: "map_get (localClientSocket g) tok2 = Some e" "tok2 \<noteq> tok" by (auto split: if_splits)
    then obtain d2 where d2: "(e_timer e, d2, tok2, e_socket e) \<in> set (regTimers g)"
      using ok unfolding gateway_ok_def timers_ok_def by blast
    then have "e_timer e \<noteq> i"
      using e(2) assms(2) ok unfolding gateway_ok_def timers_ok_def by (metis eq_key_imp_eq_value Pair_inject)
    with d2 show "\<exists>d. (e_timer e, d, tok2, e_socket e) \<in> set (regTimers ?g)" by auto
  qed
  moreover have "registry_ok ?g" using ok unfolding gateway_ok_def registry_ok_def by (auto split: if_splits)
  moreover have "pools_ok ?g" "joins_ok ?g" using ok by (simp_all add: gateway_ok_def pools_ok_def joins_ok_def)
  ultimately show ?thesis by (simp add: gateway_ok_def)
qed

lemma entry_timer:
  "gateway_ok g \<Longrightarrow> map_get (localClientSocket g) tok = Some e \<Longrightarrow>
   \<exists>d. (e_timer e, d, tok, e_socket e) \<in> set (regTimers g)"
  by (simp add: gateway_ok_def timers_ok_def)

lemma timer_token:
  "gateway_ok g \<Longrightarrow> (i, d, tok, s) \<in> set (regTimers g) \<Longrightarrow> map_get (conns g) s = Some c \<Longrightarrow> conn_token c = tok"
  by (fastforce simp: gateway_ok_def timers_ok_def)

lemma entry_socket:
  "gateway_ok g \<Longrightarrow> map_get (localClientSocket g) tok = Some e \<Longrightarrow>
   \<exists>c. map_get (conns g) (e_socket e) = Some c \<and> conn_token c = tok \<and> is_waiting (conn_state c)"
  by (simp add: gateway_ok_def registry_ok_def)

lemma release_ok: "gateway_ok g \<Longrightarrow> gateway_ok (release tok s g)"
  by (auto simp: release_def split: option.split dest: entry_timer drop_entry_ok)

lemma release_frame [simp]: "conns (release tok s g) = conns g" "outputs (release tok s g) = outputs g"
  "pools (release tok s g) = pools g"
  by (simp_all add: release_def split: option.split)

lemma waiting_unheld:
  assumes ok: "gateway_ok g" and e: "map_get (localClientSocket g) tok = Some e"
  shows "unheld (e_socket e) (clear_timer i (g\<lparr>localClientSocket := map_delete (localClientSocket g) tok\<rparr>))"
proof -
  obtain c where c: "map_get (conns g) (e_socket e) = Some c" "conn_token c = tok" "is_waiting (conn_state c)"
    using entry_socket [OF ok e] by blast
  then have st: "state_of (e_socket e) g = Some (conn_state c)" by (simp add: state_of_def)
  have "e_socket e2 \<noteq> e_socket e" if "map_get (localClientSocket g) tok2 = Some e2" "tok2 \<noteq> tok" for tok2 e2
    using entry_socket [OF ok that(1)] c(1,2) that(2) by auto
  then show ?thesis
    using held_states(2,3) [OF ok st] state_kinds(3,4) [OF c(3)] unfolding unheld_def by (auto split: if_splits)
qed

lemma claim_ok:
  assumes "gateway_ok g" and "claim tok g = (Some e, g2)"
  shows "gateway_ok g2 \<and> unheld (e_socket e) g2 \<and> conns g2 = conns g \<and> outputs g2 = outputs g
    \<and> (\<exists>c. map_get (conns g) (e_socket e) = Some c \<and> is_waiting (conn_state c))"
proof -
  have e: "map_get (localClientSocket g) tok = Some e"
    and g2: "g2 = clear_timer (e_timer e) (g\<lparr>localClientSocket := map_delete (localClientSocket g) tok\<rparr>)"
    using assms(2) by (auto simp: claim_def split: option.splits)
  show ?thesis
    using entry_timer [OF assms(1) e] drop_entry_ok [OF assms(1)] waiting_unheld [OF assms(1) e, of "e_timer e"]
      entry_socket [OF assms(1) e] unfolding g2 by auto
qed

lemma claim_None: "claim tok g = (None, g2) \<Longrightarrow> g2 = g"
  by (auto simp: claim_def split: option.splits)

lemma register_frame [simp]:
  "conns (register tok s r g) = conns g" "pools (register tok s r g) = pools g" "outputs (register tok s r g) = outputs g"
  by (simp_all add: register_def)

lemma register_set: "set_state x st (register tok s r g) = register tok s r (set_state x st g)"
  by (simp add: set_state_def register_def split: option.split)

lemma register_ok:
  assumes ok: "gateway_ok g" and c: "map_get (conns g) s = Some c" "conn_token c = tok" "is_waiting (conn_state c)"
  shows "gateway_ok (register tok s r g)"
proof -
  let ?g = "register tok s r g"
  have "timers_ok ?g"
    unfolding timers_ok_def
  proof (intro conjI allI impI)
    have old: "\<forall>(i, d, tok, s)\<in>set (regTimers g). i < nextTimer g \<and> d \<le> g_clock g + REGISTRY_TIMEOUT_MS
        \<and> (\<exists>c. map_get (conns g) s = Some c \<and> conn_token c = tok \<and> \<not> is_first (conn_state c))"
      and dist: "distinct (map fst (regTimers g))" using ok by (simp_all add: gateway_ok_def timers_ok_def)
    then show "distinct (map fst (regTimers ?g))" by (auto simp: register_def)
    show "\<forall>(i, d, tok, s)\<in>set (regTimers ?g). i < nextTimer ?g \<and> d \<le> g_clock ?g + REGISTRY_TIMEOUT_MS
        \<and> (\<exists>c. map_get (conns ?g) s = Some c \<and> conn_token c = tok \<and> \<not> is_first (conn_state c))"
      using old c state_kinds(2) [OF c(3)] by (fastforce simp: register_def)
    fix tok2 e assume "map_get (localClientSocket ?g) tok2 = Some e"
    then show "\<exists>d. (e_timer e, d, tok2, e_socket e) \<in> set (regTimers ?g)"
      using entry_timer [OF ok, of tok2 e] by (auto simp: register_def split: if_splits)
  qed
  moreover have "registry_ok ?g" using ok c unfolding gateway_ok_def registry_ok_def by (auto simp: register_def)
  moreover have "pools_ok ?g" "joins_ok ?g" using ok by (simp_all add: gateway_ok_def pools_ok_def joins_ok_def)
  ultimately show ?thesis by (simp add: gateway_ok_def)
qed

section \<open>The events\<close>

lemma conns_change_ok:
  assumes ok: "gateway_ok g" and s: "map_get (conns g) s = None \<or> (\<exists>b. state_of s g = Some (FirstLine b))"
  shows "gateway_ok (g\<lparr>conns := map_set (conns g) s c\<rparr>)"
proof -
  have "unheld s g"
    using s ok free_unheld [OF ok, of s] unfolding gateway_ok_defs unheld_def by fastforce
  moreover have "x \<noteq> s" if "(i, d, tok, x) \<in> set (regTimers g)" for i d tok x
    using ok that s unfolding gateway_ok_def timers_ok_def state_of_def by fastforce
  ultimately show ?thesis using ok unfolding gateway_ok_defs unheld_def by fastforce
qed

lemma drawn_ok [simp]: "gateway_ok (g\<lparr>g_drawn := n\<rparr>) = gateway_ok g" "gateway_ok (g\<lparr>nextPool := n\<rparr>) = gateway_ok g"
  "gateway_ok (g\<lparr>destroyed := d\<rparr>) = gateway_ok g"
  by (simp_all add: gateway_ok_defs)

lemma accept_client_ok: "gateway_ok g \<Longrightarrow> gateway_ok (accept_client env s g)"
  using conns_change_ok [of g s] by (simp add: accept_client_def)

lemma accept_agent_ok: "gateway_ok g \<Longrightarrow> gateway_ok (accept_agent s g)"
  using conns_change_ok [of g s] by (simp add: accept_agent_def)

lemma client_data_ok:
  assumes "gateway_ok g"
  shows "gateway_ok (client_data env s chunk g)"
proof (cases "map_get (conns g) s")
  case (Some c)
  show ?thesis
  proof (cases "conn_state c")
    case (Reading before)
    then have "unheld s g" using free_unheld [OF assms, of s] Some by (simp add: state_of_def)
    then show ?thesis using Some Reading assms
      by (auto simp: client_data_def Let_def set_unheld split: option.split)
  qed (use assms Some in \<open>simp_all add: client_data_def\<close>)
qed (use assms in \<open>simp add: client_data_def\<close>)

lemma fail_ok [simp]: "gateway_ok (fail env x s c q g) = gateway_ok g"
  by (simp add: fail_def)

text \<open>A socket taken from a pool is held by nothing.\<close>

lemma first_alive_suffix: "first_alive gone pool = (x, rest) \<Longrightarrow> \<exists>front. pool = front @ rest \<and>
    (case x of None \<Rightarrow> rest = [] | Some s \<Rightarrow> s \<notin> set gone \<and> front \<noteq> [] \<and> last front = s)"
proof (induction pool)
  case (Cons a pool)
  show ?case
  proof (cases "a \<in> set gone")
    case True
    with Cons obtain front where "pool = front @ rest"
      "case x of None \<Rightarrow> rest = [] | Some s \<Rightarrow> s \<notin> set gone \<and> front \<noteq> [] \<and> last front = s" by auto
    then show ?thesis by (intro exI [of _ "a # front"]) (auto split: option.splits)
  next
    case False
    with Cons.prems show ?thesis by (intro exI [of _ "[a]"]) auto
  qed
qed auto

lemma pool_shrink:
  assumes ok: "gateway_ok g" and pool: "map_get (pools g) u = Some (i, pool)"
    and sub: "set rest \<subseteq> set pool" "distinct rest" "length rest \<le> length pool"
  shows "gateway_ok (g\<lparr>pools := map_set (pools g) u (i, rest)\<rparr>)" "gateway_ok (g\<lparr>pools := map_delete (pools g) u\<rparr>)"
proof -
  have p: "length pool \<le> MAX_POOL_PER_AGENT"
    "\<forall>s\<in>set pool. \<exists>c. map_get (conns g) s = Some c \<and> is_idle u i (conn_state c)"
    using ok pool unfolding gateway_ok_def pools_ok_def by blast+
  have "pools_ok (g\<lparr>pools := map_set (pools g) u (i, rest)\<rparr>)"
    unfolding pools_ok_def
  proof (intro allI impI)
    fix v j q assume "map_get (pools (g\<lparr>pools := map_set (pools g) u (i, rest)\<rparr>)) v = Some (j, q)"
    then show "distinct q \<and> length q \<le> MAX_POOL_PER_AGENT \<and> (\<forall>s\<in>set q. \<exists>c. map_get (conns
        (g\<lparr>pools := map_set (pools g) u (i, rest)\<rparr>)) s = Some c \<and> is_idle v j (conn_state c))"
      using ok p sub unfolding gateway_ok_def pools_ok_def by (cases "v = u") auto
  qed
  moreover have "pools_ok (g\<lparr>pools := map_delete (pools g) u\<rparr>)"
    using ok unfolding gateway_ok_def pools_ok_def by (auto split: if_splits)
  ultimately show "gateway_ok (g\<lparr>pools := map_set (pools g) u (i, rest)\<rparr>)"
    "gateway_ok (g\<lparr>pools := map_delete (pools g) u\<rparr>)"
    using ok by (simp_all add: gateway_ok_def registry_ok_def timers_ok_def joins_ok_def)
qed

lemma claimPreconnected_ok:
  assumes ok: "gateway_ok g" and claim: "claimPreconnected u g = (x, g2)"
  shows "gateway_ok g2 \<and> conns g2 = conns g \<and> outputs g2 = outputs g \<and>
    (\<forall>p. x = Some p \<longrightarrow> unheld p g2 \<and> (\<exists>v i. \<exists>c. map_get (conns g) p = Some c \<and> is_idle v i (conn_state c)) \<and> p \<notin> set (destroyed g))"
proof (cases "map_get (pools g) u")
  case None
  then show ?thesis using ok claim by (simp add: claimPreconnected_def)
next
  case (Some ip)
  obtain i pool where pool: "map_get (pools g) u = Some (i, pool)" using Some by (cases ip) simp
  obtain y rest where fa: "first_alive (destroyed g) pool = (y, rest)" by (cases "first_alive (destroyed g) pool")
  obtain front where front: "pool = front @ rest"
    "case y of None \<Rightarrow> rest = [] | Some s \<Rightarrow> s \<notin> set (destroyed g) \<and> front \<noteq> [] \<and> last front = s"
    using first_alive_suffix [OF fa] by blast
  have dist: "distinct pool" and idle: "\<forall>s\<in>set pool. \<exists>c. map_get (conns g) s = Some c \<and> is_idle u i (conn_state c)"
    using ok pool unfolding gateway_ok_def pools_ok_def by blast+
  note shrink = pool_shrink [OF ok pool, of rest]
  show ?thesis
  proof (cases y)
    case None
    then show ?thesis using claim pool fa shrink front dist by (auto simp: claimPreconnected_def)
  next
    case (Some p)
    have p: "p \<in> set pool" "p \<notin> set rest" "p \<notin> set (destroyed g)"
      using Some front dist last_in_set [of front] by auto
    then obtain c where c: "map_get (conns g) p = Some c" "is_idle u i (conn_state c)" using idle by blast
    then have st: "state_of p g = Some (conn_state c)" by (simp add: state_of_def)
    have g2: "x = Some p" "g2 = g\<lparr>pools := map_set (pools g) u (i, rest)\<rparr>"
      using claim pool fa Some by (simp_all add: claimPreconnected_def)
    have "p \<notin> set q" if "map_get (pools g) v = Some (j, q)" "v \<noteq> u" for v j q
      using held_states(2) [OF ok st that(1)] c(2) that(2) by (cases "conn_state c") auto
    then have "unheld p g2"
      using held_states(1,3) [OF ok st] state_kinds c(2) p(2) unfolding unheld_def g2 by (auto split: if_splits)
    with g2 shrink front dist c p(3) show ?thesis by auto
  qed
qed

lemma verified_ok:
  assumes ok: "gateway_ok g"
  shows "gateway_ok (preconnect_verified s answer g)"
proof (cases "state_of s g")
  case (Some st)
  show ?thesis
  proof (cases st)
    case (Verifying u)
    then have free: "unheld s g" using free_unheld [OF ok Some] by simp
    have s: "map_get (conns g) s \<noteq> None" using Some by (auto simp: state_of_def)
    obtain i pool g1 where new: "(i, pool, g1) = (case map_get (pools g) u of
        Some (i, pool) \<Rightarrow> (i, pool, g) | None \<Rightarrow> (nextPool g, [], g\<lparr>nextPool := Suc (nextPool g)\<rparr>))"
      by (metis prod_cases3)
    have ok1: "gateway_ok g1" using new ok by (auto split: option.splits)
    have same: "conns g1 = conns g" "pools g1 = pools g" "unheld s g1"
      using new free by (auto simp: unheld_def split: option.splits)
    have pool: "distinct pool" "s \<notin> set pool" "length pool \<le> MAX_POOL_PER_AGENT"
        "\<forall>p\<in>set pool. \<exists>c. map_get (conns g) p = Some c \<and> is_idle u i (conn_state c)"
      using new ok free by (fastforce simp: unheld_def gateway_ok_def pools_ok_def split: option.splits)+
    show ?thesis
    proof (cases "verifyWithHub answer = None \<and> length pool < MAX_POOL_PER_AGENT")
      case room: True
      let ?g = "g1\<lparr>pools := map_set (pools g1) u (i, pool @ [s])\<rparr>"
      let ?h = "set_state s (InPool u i []) ?g"
      have set_eq: "?h = (set_state s (InPool u i []) g1)\<lparr>pools := map_set (pools g1) u (i, pool @ [s])\<rparr>"
        by (simp add: set_state_def split: option.split)
      have "gateway_ok (set_state s (InPool u i []) g1)" by (simp add: set_unheld [OF ok1 same(3)])
      moreover have "pools_ok ?h"
        unfolding pools_ok_def
      proof (intro allI impI)
        fix v j q assume q: "map_get (pools ?h) v = Some (j, q)"
        show "distinct q \<and> length q \<le> MAX_POOL_PER_AGENT \<and>
            (\<forall>p\<in>set q. \<exists>c. map_get (conns ?h) p = Some c \<and> is_idle v j (conn_state c))"
        proof (cases "v = u")
          case True
          then have "j = i" "q = pool @ [s]" using q by simp_all
          then show ?thesis using True pool s same room by auto
        next
          case False
          then have old: "map_get (pools g1) v = Some (j, q)" using q by simp
          then have "s \<notin> set q" using same(3) unfolding unheld_def by blast
          then show ?thesis using ok1 old unfolding gateway_ok_def pools_ok_def by auto
        qed
      qed
      ultimately have "gateway_ok ?h"
        unfolding set_eq by (simp add: gateway_ok_def registry_ok_def timers_ok_def joins_ok_def)
      then show ?thesis using room Verifying Some new by (auto simp: preconnect_verified_def split: option.splits prod.splits)
    next
      case False
      then show ?thesis using Verifying Some new ok free
        by (auto simp: preconnect_verified_def reject_def set_unheld same ok1 Let_def unheld_def split: option.splits prod.splits)
    qed
  qed (use ok Some in \<open>simp_all add: preconnect_verified_def\<close>)
qed (use ok in \<open>simp add: preconnect_verified_def\<close>)

lemma heartbeat_ok:
  assumes ok: "gateway_ok g"
  shows "gateway_ok (answerHeartbeat s chunk g)"
proof (cases "\<exists>u i b. state_of s g = Some (InPool u i b)")
  case True
  then obtain u i b where st: "state_of s g = Some (InPool u i b)" by blast
  have idle: "gateway_ok (set_state s (InPool u i r) g)" for r
    by (rule set_keeps [OF ok]) (use held_states [OF ok st] in \<open>auto dest: is_idle.elims\<close>)
  have "gateway_ok (set_state s st2 (g\<lparr>outputs := outputs g @ replicate n (Write s t)\<rparr>)) = gateway_ok (set_state s st2 g)"
    for st2 n t
    by (simp add: gateway_ok_defs set_state_def split: option.split)
  then show ?thesis using st idle by (simp add: answerHeartbeat_def Let_def ok split: prod.split option.split)
next
  case False
  then show ?thesis using ok by (auto simp: answerHeartbeat_def split: option.split conn_state.split)
qed

lemma hub_routed_ok:
  assumes ok: "gateway_ok g"
  shows "gateway_ok (hub_routed env s answer g)"
proof (cases "\<exists>c q. map_get (conns g) s = Some c \<and> conn_state c = AskingRoute q")
  case True
  then obtain c q where c: "map_get (conns g) s = Some c" "conn_state c = AskingRoute q" by blast
  then have st: "state_of s g = Some (AskingRoute q)" by (simp add: state_of_def)
  have free: "unheld s g" using free_unheld [OF ok st] by simp
  show ?thesis
  proof (cases "\<exists>status body. answer = Answer status body \<and> answer_ok status")
    case False
    then show ?thesis using c ok free
      by (cases answer) (auto simp: hub_routed_def set_unheld)
  next
    case True
    then obtain status body where a: "answer = Answer status body" "answer_ok status" by blast
    define u port where "u = (case body of Some b \<Rightarrow> field ''agent_uuid'' b | None \<Rightarrow> JUndef)"
      and "port = (case body of Some b \<Rightarrow> field ''service_port'' b | None \<Rightarrow> JUndef)"
    obtain x g1 where x: "(case u of JStr u \<Rightarrow> claimPreconnected u g | v \<Rightarrow> (None, g)) = (x, g1)"
      by (metis surj_pair)
    have "gateway_ok g1 \<and> conns g1 = conns g \<and> outputs g1 = outputs g \<and>
      (\<forall>p. x = Some p \<longrightarrow> unheld p g1 \<and> p \<noteq> s \<and> map_get (conns g) p \<noteq> None)"
    proof (cases "\<exists>t. u = JStr t")
      case True
      then show ?thesis using claimPreconnected_ok [OF ok, of "case u of JStr t \<Rightarrow> t" x g1] x c by fastforce
    next
      case False
      then show ?thesis using x ok by (auto split: jval.splits)
    qed
    then have g1: "gateway_ok g1" "conns g1 = conns g" "outputs g1 = outputs g"
      and p: "\<And>p. x = Some p \<Longrightarrow> unheld p g1 \<and> p \<noteq> s \<and> map_get (conns g) p \<noteq> None" by blast+
    have st1: "state_of s g1 = Some (AskingRoute q)" using st g1(2) by (simp add: state_of_def)
    have free1: "unheld s g1" using free_unheld [OF g1(1) st1] by simp
    show ?thesis
    proof (cases "\<exists>p n. x = Some p \<and> port = JNum n")
      case True
      then obtain p n where pn: "x = Some p" "port = JNum n" by blast
      let ?h = "put (Write p (q_buffer q)) (put (Write p (''OPEN '' @ show_int n @ '' '' @ conn_requestId c @ [CHR 0x0A]))
          (set_state p (PooledFor s) (set_state s (PooledTo p False q) g1)))"
      have ok2: "gateway_ok ?h" using p [OF pn(1)] g1(1) free1 by (simp add: set_unheld)
      have "gateway_ok (put (Join s p) ?h)"
        by (rule put_join [OF ok2, where sa = "PooledTo p False q" and sb = "PooledFor s"])
          (use p [OF pn(1)] free1 c g1(2) in \<open>auto simp: unheld_def\<close>)
      then show ?thesis using c a pn x u_def port_def by (simp add: hub_routed_def)
    next
      case False
      define g2 where "g2 = (case x of Some p \<Rightarrow> set_state p Answered g1 | None \<Rightarrow> g1)"
      have g2: "gateway_ok g2" "unheld s g2" "map_get (conns g2) s = Some c"
        using g1 p free1 c by (auto simp: g2_def set_unheld split: option.split)
      have "gateway_ok (register (conn_token c) s (q_buffer q) (set_state s (Registered q) g2))"
        by (rule register_ok [where c = "c\<lparr>conn_state := Registered q\<rparr>"]) (use g2 in \<open>simp_all add: set_unheld\<close>)
      moreover have "hub_routed env s answer g = put (AskHub s False)
          (register (conn_token c) s (q_buffer q) (set_state s (Registered q) g2))"
        using False c a x
        by (auto simp: hub_routed_def u_def port_def g2_def register_set split: option.split jval.split)
      ultimately show ?thesis by simp
    qed
  qed
next
  case False
  then show ?thesis using ok by (auto simp: hub_routed_def split: option.split conn_state.split)
qed

lemma hub_fallback_ok: "gateway_ok g \<Longrightarrow> gateway_ok (hub_fallback env s q answer g)"
  by (simp add: hub_fallback_def split: option.split hub_answer.split)

lemma timeout_ok:
  assumes ok: "gateway_ok g"
  shows "gateway_ok (registry_timeout env i g)"
proof (cases "find (\<lambda>(j, _). j = i) (regTimers g)")
  case None
  then show ?thesis using ok by (simp add: registry_timeout_def)
next
  case (Some t)
  then obtain d tok s where t: "t = (i, d, tok, s)" "(i, d, tok, s) \<in> set (regTimers g)"
    by (cases t) (auto dest: find_SomeD)
  let ?g = "clear_timer i (g\<lparr>localClientSocket := map_delete (localClientSocket g) tok\<rparr>)"
  have ok1: "gateway_ok ?g" by (rule drop_entry_ok [OF ok t(2)])
  have "gateway_ok (set_state s Answered ?g)" if c: "map_get (conns g) s = Some c" "conn_state c = Registered q" for c q
  proof (rule set_unheld [OF ok1])
    have st: "state_of s ?g = Some (Registered q)" using c by (simp add: state_of_def)
    have "conn_token c = tok" using timer_token [OF ok t(2) c(1)] .
    then have "e_socket e \<noteq> s" if "map_get (localClientSocket ?g) tok2 = Some e" for tok2 e
      using entry_socket [OF ok, of tok2 e] that c(1) by (auto split: if_splits)
    then show "unheld s ?g"
      using held_states(2,3) [OF ok1 st] unfolding unheld_def by auto
  qed simp
  then show ?thesis using Some t ok ok1
    by (auto simp: registry_timeout_def Let_def release_ok split: option.split conn_state.split)
qed

lemma handlePreconnect_ok: "gateway_ok g \<Longrightarrow> unheld s g \<Longrightarrow> gateway_ok (handlePreconnect s line rest g)"
  by (simp add: handlePreconnect_def Let_def reject_def set_unheld split: option.split)

lemma tunnel_data_ok:
  assumes ok: "gateway_ok g"
  shows "gateway_ok (tunnel_data s chunk g)"
proof (cases "map_get (conns g) s")
  case None
  then show ?thesis using ok by (simp add: tunnel_data_def)
next
  case (Some c)
  then have st: "state_of s g = Some (conn_state c)" by (simp add: state_of_def)
  show ?thesis
  proof (cases "conn_state c")
    case (FirstLine before)
    have free: "unheld s g" using free_unheld [OF ok st] FirstLine by simp
    define buffer line rest where b: "buffer = before @ chunk" "line = takeWhile (\<lambda>x. x \<noteq> CHR 0x0A) buffer"
      "rest = drop (Suc (length line)) buffer"
    define g1 where "g1 = g\<lparr>conns := map_set (conns g) s (c\<lparr>conn_token := line\<rparr>)\<rparr>"
    have ok1: "gateway_ok g1" unfolding g1_def using conns_change_ok [OF ok, of s] st FirstLine by simp
    have free1: "unheld s g1" using free by (simp add: g1_def unheld_def)
    have c1: "map_get (conns g1) s = Some (c\<lparr>conn_token := line\<rparr>)" by (simp add: g1_def)
    show ?thesis
    proof (cases "CHR 0x0A \<notin> set buffer \<or> starts_with (PRECONNECT_VERB @ '' '') line")
      case True
      then show ?thesis using Some FirstLine ok free b
        by (auto simp: tunnel_data_def Let_def set_first [OF ok free, of before] state_of_def handlePreconnect_ok)
    next
      case False
      have eq: "tunnel_data s chunk g = (case claim line g1 of
           (Some e, g2) \<Rightarrow> put (Join (e_socket e) s) (put (Write s (e_rest e)) (put (Write (e_socket e) rest)
              (set_state s Joined (set_state (e_socket e) Joined g2))))
         | (None, g2) \<Rightarrow> set_state s AwaitClient (register line s rest g2))"
        using False Some FirstLine unfolding b g1_def by (simp add: tunnel_data_def Let_def del: drop_append)
      show ?thesis
      proof (cases "claim line g1")
        case (Pair x g2)
        show ?thesis
        proof (cases x)
          case None
          then have "g2 = g1" using Pair claim_None by blast
          moreover have "gateway_ok (register line s rest (set_state s AwaitClient g1))"
            by (rule register_ok [where c = "c\<lparr>conn_token := line, conn_state := AwaitClient\<rparr>"])
              (use set_unheld [OF ok1 free1] c1 in simp_all)
          ultimately show ?thesis using eq Pair None by (simp add: register_set)
        next
          case (Some e)
          have cl: "gateway_ok g2" "unheld (e_socket e) g2" "conns g2 = conns g1" "outputs g2 = outputs g1"
            and w: "\<exists>d. map_get (conns g1) (e_socket e) = Some d \<and> is_waiting (conn_state d)"
            using claim_ok [OF ok1, of line e g2] Pair Some by blast+
          have diff: "e_socket e \<noteq> s" using w c1 FirstLine by auto
          have st2: "state_of s g2 = Some (FirstLine before)" using c1 cl(3) FirstLine by (simp add: state_of_def)
          have free2: "unheld s g2" using free_unheld [OF cl(1) st2] by simp
          let ?h = "put (Write s (e_rest e)) (put (Write (e_socket e) rest)
              (set_state s Joined (set_state (e_socket e) Joined g2)))"
          have ok3: "gateway_ok ?h" using cl free2 by (simp add: set_unheld)
          have "gateway_ok (put (Join (e_socket e) s) ?h)"
            by (rule put_join [OF ok3 diff, where sa = Joined and sb = Joined])
              (use w c1 cl free2 diff in \<open>auto simp: unheld_def\<close>)
          then show ?thesis using eq Pair Some by simp
        qed
      qed
    qed
  next
    case (InPool u i b)
    then show ?thesis using Some heartbeat_ok [OF ok] by (simp add: tunnel_data_def)
  next
    case (PooledFor client)
    have "gateway_ok (set_state client (PooledTo p True q) g)" if "state_of client g = Some (PooledTo p r q)" for p r q
      using set_linked [OF ok that] by simp
    then show ?thesis using Some PooledFor ok by (auto simp: tunnel_data_def split: option.split conn_state.split)
  qed (use Some ok in \<open>simp_all add: tunnel_data_def\<close>)
qed

lemma leave_pool_ok:
  assumes ok: "gateway_ok g"
  shows "gateway_ok (leave_pool s u i g)"
proof (cases "map_get (pools g) u")
  case (Some jp)
  obtain j pool where jp: "jp = (j, pool)" by (cases jp)
  have "distinct pool" using ok Some jp unfolding gateway_ok_def pools_ok_def by blast
  moreover have "length (removeAll s pool) \<le> length pool" by (rule length_removeAll_less_eq)
  ultimately show ?thesis
    using pool_shrink [OF ok, of u j pool "removeAll s pool"] Some jp ok by (auto simp: leave_pool_def distinct_removeAll)
qed (use ok in \<open>simp add: leave_pool_def\<close>)

lemma closed_ok:
  assumes ok: "gateway_ok g"
  shows "gateway_ok (socket_closed env s g)"
  using ok by (auto simp: socket_closed_def Let_def release_ok leave_pool_ok split: option.split conn_state.split)

lemma passes_ok: "gateway_ok g \<Longrightarrow> 0 \<le> ms \<Longrightarrow> gateway_ok (g\<lparr>g_clock := g_clock g + ms\<rparr>)"
  by (fastforce simp: gateway_ok_defs)

lemmas event_ok = accept_client_ok accept_agent_ok client_data_ok tunnel_data_ok hub_routed_ok hub_fallback_ok
  verified_ok timeout_ok closed_ok passes_ok

lemma step_ok: "gateway_ok g \<Longrightarrow> gateway_ok (gateway_step env e g)"
  by (cases e) (simp_all add: event_ok)

lemma init_ok: "gateway_ok init_gateway"
  by (simp add: gateway_ok_defs init_gateway_def)

lemma run_ok: "gateway_ok (proxy_run env events)"
proof -
  have "gateway_ok g \<Longrightarrow> gateway_ok (fold (gateway_step env) events g)" for g
    by (induction events arbitrary: g) (simp_all add: step_ok)
  then show ?thesis using init_ok by (simp add: proxy_run_def)
qed

section \<open>Properties\<close>

lemma find_unique:
  assumes "x \<in> set xs" "P x" "\<And>y. y \<in> set xs \<Longrightarrow> P y \<Longrightarrow> y = x"
  shows "find P xs = Some x"
  using assms
proof (induction xs)
  case (Cons a xs)
  show ?case
  proof (cases "P a")
    case True
    then have "a = x" using Cons.prems(3) [of a, OF _ True] by simp
    with True show ?thesis by simp
  next
    case False
    then have "x \<in> set xs" using Cons.prems(1,2) by auto
    moreover have "y = x" if "y \<in> set xs" "P y" for y
      by (rule Cons.prems(3) [OF _ that(2)]) (simp add: that(1))
    ultimately have "find P xs = Some x" using Cons.IH Cons.prems(2) by blast
    with False show ?thesis by simp
  qed
qed simp

lemma option_the: "x \<noteq> None \<Longrightarrow> x = Some (the x)"
  by simp

lemma joins_distinct: "gateway_ok g \<Longrightarrow> distinct (joined (outputs g))"
  unfolding gateway_ok_def joins_ok_def by (elim conjE)

text \<open>C32: no two requests share a tunnel. However clients, agents, answers of the Hub, timers and closed
  sockets interleave, every socket is connected to another at most once: an agent's socket serves one
  client, whether it came out of a pool or by a token, and a client gets one tunnel.\<close>

theorem sockets_joined_once: "distinct (joined (outputs (proxy_run env events)))"
  by (rule joins_distinct [OF run_ok])

text \<open>C33: the pool of an agent is bounded and holds only sockets that wait. At any time a pool has at most
  sixteen sockets, all different, each idle since the Hub accepted it for this agent, and none of them
  is registered under a token or part of a tunnel.\<close>

theorem pools_bounded:
  assumes "map_get (pools (proxy_run env events)) u = Some (i, pool)"
  shows "length pool \<le> 16 \<and> distinct pool \<and> (\<forall>s\<in>set pool.
    (\<exists>b. state_of s (proxy_run env events) = Some (InPool u i b))
    \<and> s \<notin> set (joined (outputs (proxy_run env events)))
    \<and> (\<forall>tok e. map_get (localClientSocket (proxy_run env events)) tok = Some e \<longrightarrow> e_socket e \<noteq> s))"
proof -
  let ?g = "proxy_run env events"
  have ok: "gateway_ok ?g" by (rule run_ok)
  then have pool: "distinct pool" "length pool \<le> 16"
    "\<forall>s\<in>set pool. \<exists>c. map_get (conns ?g) s = Some c \<and> is_idle u i (conn_state c)"
    using assms unfolding gateway_ok_def pools_ok_def MAX_POOL_PER_AGENT_def by blast+
  have "(\<exists>b. state_of s ?g = Some (InPool u i b)) \<and> s \<notin> set (joined (outputs ?g))
      \<and> (\<forall>tok e. map_get (localClientSocket ?g) tok = Some e \<longrightarrow> e_socket e \<noteq> s)" if s: "s \<in> set pool" for s
  proof -
    obtain b where st: "state_of s ?g = Some (InPool u i b)"
      using pool(3) s by (auto simp: state_of_def elim!: is_idle.elims)
    then show ?thesis using held_states(1,3) [OF ok st] by auto
  qed
  with pool show ?thesis by blast
qed

text \<open>C35: no client waits for ever. Whenever a client waits in the registry for its agent, the timer of its
  entry is armed, due within ten seconds; and when it fires, the client gets the page that the agent
  opened no tunnel, and the token is free.\<close>

theorem client_wait_bounded:
  assumes "map_get (localClientSocket (proxy_run env events)) tok = Some e"
    and "map_get (conns (proxy_run env events)) (e_socket e) = Some c" and "conn_state c = Registered q"
  shows "\<exists>d. (e_timer e, d, tok, e_socket e) \<in> set (regTimers (proxy_run env events))
    \<and> d \<le> g_clock (proxy_run env events) + 10000
    \<and> (\<forall>now. d \<le> now \<longrightarrow>
        outputs (gateway_step env (TimerFires (e_timer e)) ((proxy_run env events)\<lparr>g_clock := now\<rparr>))
          = outputs (proxy_run env events) @ [EndWith (e_socket e) (error_page env AGENT_NO_TUNNEL (q_host q)
              (q_service q) (conn_requestId c) (q_ray q) ((proxy_run env events)\<lparr>g_clock := now\<rparr>))]
        \<and> map_get (localClientSocket (gateway_step env (TimerFires (e_timer e))
            ((proxy_run env events)\<lparr>g_clock := now\<rparr>))) tok = None)"
proof -
  let ?g = "proxy_run env events"
  have ok: "gateway_ok ?g" by (rule run_ok)
  obtain d where d: "(e_timer e, d, tok, e_socket e) \<in> set (regTimers ?g)" using entry_timer [OF ok assms(1)] by blast
  moreover have "d \<le> g_clock ?g + 10000"
    using ok d unfolding gateway_ok_def timers_ok_def REGISTRY_TIMEOUT_MS_def by blast
  moreover have "find (\<lambda>(j, _). j = e_timer e) (regTimers ?g) = Some (e_timer e, d, tok, e_socket e)"
  proof (rule find_unique [OF d])
    have inj: "inj_on fst (set (regTimers ?g))" using ok unfolding gateway_ok_def timers_ok_def distinct_map by blast
    show "y = (e_timer e, d, tok, e_socket e)" if "y \<in> set (regTimers ?g)" "case y of (j, _) \<Rightarrow> j = e_timer e" for y
      using inj_onD [OF inj _ that(1) d] that(2) by (cases y) simp
  qed simp
  ultimately show ?thesis using assms(2,3)
    by (intro exI [of _ d]) (simp add: registry_timeout_def Let_def fail_def error_page_def)
qed

definition example_env :: gateway_env where
  "example_env = \<lparr>env_templates = (\<lambda>t. ''<p>{{ detail }}</p>''), env_uuid = (\<lambda>n. ''token-'' @ show_nat n),
     env_ulid = show_nat\<rparr>"

definition example_uuid :: string where "example_uuid = ''01234567-89ab-cdef-0123-456789abcdef''"

definition example_get :: string where
  "example_get = ''GET / HTTP/1.1'' @ crlf @ ''Host: www.acme.optics.run'' @ crlf @ crlf"

definition pool_events :: "gateway_event list" where
  "pool_events = [AcceptAgent 1,
     AgentData 1 (PRECONNECT_VERB @ '' '' @ example_uuid @ '' 5 '' @ replicate 32 (CHR ''a'') @ '' ''
       @ replicate 64 (CHR ''b'') @ [CHR 0x0A]),
     PreconnectAnswered 1 (Answer 201 (Some (JObj [(''ok'', JBool True)])))]"

definition client_events :: "gateway_event list" where
  "client_events = [AcceptClient 2, ClientData 2 example_get,
     Routed 2 (Answer 201 (Some (JObj [(''agent_uuid'', JStr example_uuid), (''service_port'', JNum 80)])))]"

lemma pools_bounded_witness:
  "map_get (pools (proxy_run example_env pool_events)) example_uuid = Some (0, [1])
   \<and> state_of 1 (proxy_run example_env pool_events) = Some (InPool example_uuid 0 [])"
proof -
  have p: "map_get (pools (proxy_run example_env pool_events)) example_uuid = Some (0, [1])" by code_simp
  moreover have "state_of 1 (proxy_run example_env pool_events) = Some (InPool example_uuid 0 [])" by code_simp
  moreover have "length [1::nat] \<le> 16" using pools_bounded [OF p] by blast
  ultimately show ?thesis by blast
qed

lemma client_wait_bounded_witness:
  "\<exists>e c q d. map_get (localClientSocket (proxy_run example_env client_events)) ''token-0'' = Some e
     \<and> map_get (conns (proxy_run example_env client_events)) (e_socket e) = Some c \<and> conn_state c = Registered q
     \<and> (e_timer e, d, ''token-0'', e_socket e) \<in> set (regTimers (proxy_run example_env client_events))
     \<and> d \<le> g_clock (proxy_run example_env client_events) + 10000"
proof -
  let ?g = "proxy_run example_env client_events"
  define e where "e = the (map_get (localClientSocket ?g) ''token-0'')"
  define c where "c = the (map_get (conns ?g) (e_socket e))"
  define q where "q = (case conn_state c of Registered q \<Rightarrow> q | _ \<Rightarrow> undefined)"
  have e: "map_get (localClientSocket ?g) ''token-0'' = Some e"
    unfolding e_def by (rule option_the) code_simp
  have s: "e_socket e = 2" unfolding e_def by code_simp
  have c: "map_get (conns ?g) (e_socket e) = Some c"
    unfolding c_def s by (rule option_the) code_simp
  have "(case conn_state (the (map_get (conns ?g) 2)) of Registered q \<Rightarrow> True | _ \<Rightarrow> False)" by code_simp
  then have q: "conn_state c = Registered q" unfolding q_def c_def s by (auto split: conn_state.splits)
  from client_wait_bounded [OF e c q] e c q show ?thesis by blast
qed

section \<open>The loop over the lines of an idle socket\<close>

abbreviation eol :: char where
  "eol \<equiv> CHR 0x0A"

definition pings :: "string list \<Rightarrow> nat" where
  "pings lines = length (filter (\<lambda>line. js_trim line = ''PING'') lines)"

definition unlines :: "string list \<Rightarrow> string" where
  "unlines lines = concat (map (\<lambda>line. line @ [eol]) lines)"

lemma line_simps [simp]:
  "pings [] = 0" "pings (l # ls) = (if js_trim l = ''PING'' then Suc (pings ls) else pings ls)"
  "unlines [] = []" "unlines (l # ls) = l @ eol # unlines ls"
  by (simp_all add: pings_def unlines_def)

lemma map_set_set: "map_set (map_set m k v) k w = map_set m k w"
  unfolding map_set_def by (induction m) auto

lemma heartbeat_rest:
  assumes "eol \<notin> set rest"
  shows "heartbeat rest n = Some (n, rest)"
proof -
  have "takeWhile (\<lambda>c. c \<noteq> eol) rest = rest"
    using assms by (auto simp: takeWhile_eq_all_conv)
  then show ?thesis by (subst heartbeat.simps) (simp only: Let_def refl if_True)
qed

lemma heartbeat_line:
  assumes "eol \<notin> set line"
  shows "heartbeat (line @ eol # s) n = heartbeat s (if js_trim line = ''PING'' then Suc n else n)"
proof -
  have "takeWhile (\<lambda>c. c \<noteq> eol) (line @ eol # s) = line"
    using assms by (subst takeWhile_append2) auto
  then show ?thesis by (subst heartbeat.simps) (simp add: Let_def)
qed

lemma heartbeat_lines:
  "eol \<notin> \<Union> (set ` set lines) \<Longrightarrow> heartbeat (unlines lines @ s) n = heartbeat s (n + pings lines)"
  by (induction lines arbitrary: n) (simp_all add: heartbeat_line)

lemma lines_of: "\<exists>lines rest. s = unlines lines @ rest \<and> eol \<notin> \<Union> (set ` set lines) \<and> eol \<notin> set rest"
proof (induction s)
  case Nil
  show ?case by (intro exI [of _ "[]"]) simp
next
  case (Cons c s)
  then obtain lines rest where s: "s = unlines lines @ rest" "eol \<notin> \<Union> (set ` set lines)" "eol \<notin> set rest"
    by blast
  show ?case
  proof (cases "c = eol")
    case True
    with s show ?thesis by (intro exI [of _ "[] # lines"] exI [of _ rest]) simp
  next
    case c: False
    show ?thesis
    proof (cases lines)
      case Nil
      with s c show ?thesis by (intro exI [of _ "[]"] exI [of _ "c # rest"]) simp
    next
      case (Cons l ls)
      with s c show ?thesis by (intro exI [of _ "(c # l) # ls"] exI [of _ rest]) simp
    qed
  qed
qed

lemma heartbeat_of_lines:
  assumes "eol \<notin> \<Union> (set ` set lines)" and "eol \<notin> set rest"
  shows "heartbeat (unlines lines @ rest) n = Some (n + pings lines, rest)"
  unfolding heartbeat_lines [OF assms(1)] heartbeat_rest [OF assms(2)] by (rule refl)

lemma answer_of_lines:
  assumes "state_of s g = Some (InPool u i b)" and "b @ chunk = unlines lines @ rest"
    and "eol \<notin> \<Union> (set ` set lines)" and "eol \<notin> set rest"
  shows "answerHeartbeat s chunk g = set_state s (InPool u i rest)
    (g\<lparr>outputs := outputs g @ replicate (pings lines) (Write s (''PONG'' @ [eol]))\<rparr>)"
  using assms heartbeat_of_lines [OF assms(3,4), of 0] by (simp add: answerHeartbeat_def)

text \<open>C34: the loop that answers the heartbeats of an idle socket always ends, on any input. It answers each
  complete line that is a \<open>PING\<close> once, keeps the unfinished line for the next chunk, and the answers
  do not depend on how the stream is cut into chunks.\<close>

theorem heartbeat_returns:
  assumes "state_of s g = Some (InPool u i b)"
  shows "(\<exists>lines rest. b @ chunk = unlines lines @ rest \<and> eol \<notin> \<Union> (set ` set lines) \<and> eol \<notin> set rest
      \<and> heartbeat (b @ chunk) 0 = Some (pings lines, rest)
      \<and> answerHeartbeat s chunk g = set_state s (InPool u i rest)
          (g\<lparr>outputs := outputs g @ replicate (pings lines) (Write s (''PONG'' @ [eol]))\<rparr>))
    \<and> answerHeartbeat s later (answerHeartbeat s chunk g) = answerHeartbeat s (chunk @ later) g"
proof -
  obtain lines rest where l: "b @ chunk = unlines lines @ rest" "eol \<notin> \<Union> (set ` set lines)" "eol \<notin> set rest"
    using lines_of [of "b @ chunk"] by blast
  obtain more left where m: "rest @ later = unlines more @ left" "eol \<notin> \<Union> (set ` set more)" "eol \<notin> set left"
    using lines_of [of "rest @ later"] by blast
  have all: "b @ chunk @ later = unlines (lines @ more) @ left"
  proof -
    have "unlines (lines @ more) @ left = unlines lines @ unlines more @ left" by (simp add: unlines_def)
    also have "\<dots> = (unlines lines @ rest) @ later" by (simp flip: m(1))
    finally show ?thesis by (simp flip: l(1))
  qed
  note first = answer_of_lines [OF assms l]
  obtain c where c: "map_get (conns g) s = Some c" using assms by (auto simp: state_of_def)
  have "state_of s (answerHeartbeat s chunk g) = Some (InPool u i rest)"
    by (simp add: first state_of_def set_state_def c)
  from answer_of_lines [OF this m] answer_of_lines [OF assms all]
  have "answerHeartbeat s later (answerHeartbeat s chunk g) = answerHeartbeat s (chunk @ later) g"
    using l(2,3) m(2,3) by (simp add: first set_state_def c pings_def replicate_add map_set_set)
  with first l heartbeat_of_lines [OF l(2,3), of 0] show ?thesis by auto
qed

lemma heartbeat_returns_witness:
  "\<exists>n rest. heartbeat (''PI'' @ ''NG'' @ [eol] @ ''P'') 0 = Some (n, rest)
     \<and> answerHeartbeat 1 ''G'' (answerHeartbeat 1 ''PIN'' (proxy_run example_env pool_events))
       = answerHeartbeat 1 ''PING'' (proxy_run example_env pool_events)"
proof -
  have "state_of 1 (proxy_run example_env pool_events) = Some (InPool example_uuid 0 [])" by code_simp
  from heartbeat_returns [OF this, of "''PIN''" "''G''"]
    heartbeat_returns [OF this, of "''PI'' @ ''NG'' @ [eol] @ ''P''" "[]"]
  show ?thesis by auto
qed

end
