(* ===== verification/Traffic.thy ===== *)
theory Traffic
  imports Api GatewayText
begin

text \<open>
  The traffic statistics: the questions to the analytics of the DNS provider
  (\<open>src/utility/cloudflare-analytics.util.ts\<close>), the hourly synchronisation of the days
  (\<open>src/traffic/traffic-sync.service.ts\<close>) and the public numbers
  (\<open>src/stats/stats.service.ts\<close>, \<open>src/stats/v1/stats.controller.ts\<close>).

  A date text \<open>YYYY-MM-DD\<close> is the number of its day since the epoch, in UTC; the two midnights in a
  query are days as well. A synchronisation is one step here, with the answers it waits for as arguments;
  the theory SharedRuns takes it apart, with the guards against overlapping calls (\<open>syncing\<close>, \<open>pending\<close>).
\<close>

section \<open>Days\<close>

definition DAY_MS :: int where "DAY_MS = 86400000"

definition utc_day :: "int \<Rightarrow> int" where "utc_day ms = ms div DAY_MS"

definition TRAFFIC_WINDOW_DAYS :: int where "TRAFFIC_WINDOW_DAYS = 30"
definition PRUNE_KEEP_DAYS :: int where "PRUNE_KEEP_DAYS = TRAFFIC_WINDOW_DAYS + 10"
definition SYNC_INTERVAL_MS :: int where "SYNC_INTERVAL_MS = 60 * 60 * 1000"
definition RESYNC_TRAILING_DAYS :: int where "RESYNC_TRAILING_DAYS = 3"
definition FALLBACK_BACKFILL_DAYS :: int where "FALLBACK_BACKFILL_DAYS = 7"
definition RETENTION_SAFETY_MS :: int where "RETENTION_SAFETY_MS = 15 * 60 * 1000"
definition CACHE_TTL_MS :: int where "CACHE_TTL_MS = 30000"

definition trailingDateList :: "int \<Rightarrow> int \<Rightarrow> int list" where
  "trailingDateList nowMs days = map (\<lambda>i. utc_day nowMs - int i) [1..<Suc (nat days)]"

definition backfillDates :: "int \<Rightarrow> int \<Rightarrow> int \<Rightarrow> int list" where
  "backfillDates nowMs retentionSeconds maxDays =
     (let earliestAllowedMs = nowMs - retentionSeconds * 1000 + RETENTION_SAFETY_MS;
          spanDays = min (max (- ((- retentionSeconds) div 86400)) 0) maxDays
      in filter (\<lambda>date. date * DAY_MS \<ge> earliestAllowedMs) (trailingDateList nowMs spanDays))"

definition nextDateUtc :: "int \<Rightarrow> int" where "nextDateUtc date = date + 1"

section \<open>Host names\<close>

definition isWorkspaceHostname :: "string \<Rightarrow> bool" where
  "isWorkspaceHostname hostname =
     (case split_on (CHR ''.'') (js_lower (js_trim hostname)) of
        [w, a, b] \<Rightarrow> a = ''optics'' \<and> b = ''run'' \<and> w \<notin> set RESERVED_WORKSPACE_SUBDOMAINS
      | [s, w, a, b] \<Rightarrow> a = ''optics'' \<and> b = ''run'' \<and> w \<notin> set RESERVED_WORKSPACE_SUBDOMAINS
      | _ \<Rightarrow> False)"

section \<open>The analytics of the DNS provider\<close>

text \<open>\<open>post zone query\<close> is the body of the answer, \<open>None\<close> where the request throws.\<close>

datatype graphql_query = RetentionSettings | TrafficByHostname int int

record analytics =
  an_zone :: string
  an_post :: "string \<Rightarrow> graphql_query \<Rightarrow> jval option"

definition analytics_key :: "config \<Rightarrow> string option" where
  "analytics_key cfg =
     (case cfg_text cfg ''CLOUDFLARE_ANALYTIC_KEY'' of
        None \<Rightarrow> None
      | Some s \<Rightarrow> if js_trim s = [] then None else Some (js_trim s))"

definition isConfigured :: "config \<Rightarrow> bool" where
  "isConfigured cfg \<longleftrightarrow> analytics_key cfg \<noteq> None"

text \<open>\<open>errors?.length\<close> as a condition, and the falsy values\<close>

fun some_errors :: "jval \<Rightarrow> bool" where
  "some_errors (JArr xs) = (xs \<noteq> [])"
| "some_errors (JStr s) = (s \<noteq> [])"
| "some_errors v = False"

fun js_false :: "jval \<Rightarrow> bool" where
  "js_false JUndef = True"
| "js_false JNull = True"
| "js_false (JBool b) = (\<not> b)"
| "js_false (JNum n) = (n = 0)"
| "js_false JNonFinite = False"
| "js_false (JStr s) = (s = [])"
| "js_false v = False"

definition graphql :: "config \<Rightarrow> analytics \<Rightarrow> graphql_query \<Rightarrow> jval option" where
  "graphql cfg an q =
     (if analytics_key cfg = None then None
      else case an_post an (an_zone an) q of
        None \<Rightarrow> None
      | Some body \<Rightarrow>
          if some_errors (field ''errors'' body) \<or> js_false (field ''data'' body) then None
          else Some (field ''data'' body))"

text \<open>\<open>data.viewer.zones[0]\<close>: \<open>None\<close> where reading it throws.\<close>

definition first_zone :: "jval \<Rightarrow> jval option" where
  "first_zone data =
     (case field ''zones'' (field ''viewer'' data) of
        JArr [] \<Rightarrow> Some JUndef
      | JArr (z # zs) \<Rightarrow> Some z
      | v \<Rightarrow> None)"

definition getHttpRequestsRetentionSeconds :: "config \<Rightarrow> analytics \<Rightarrow> int option" where
  "getHttpRequestsRetentionSeconds cfg an =
     (case graphql cfg an RetentionSettings of
        None \<Rightarrow> None
      | Some data \<Rightarrow>
          (case first_zone data of
             None \<Rightarrow> None
           | Some z \<Rightarrow>
               (case field ''notOlderThan'' (field ''httpRequestsAdaptiveGroups'' (field ''settings'' z)) of
                  JNum n \<Rightarrow> Some n
                | v \<Rightarrow> None)))"

text \<open>One row of the answer; a host that is not a text or a count that is not a number throws before
  anything is written.\<close>

definition host_bytes :: "jval \<Rightarrow> (string \<times> int) option" where
  "host_bytes row =
     (case (field ''clientRequestHTTPHost'' (field ''dimensions'' row), field ''edgeResponseBytes'' (field ''sum'' row)) of
        (JStr host, JNum bytes) \<Rightarrow> Some (host, bytes)
      | v \<Rightarrow> None)"

definition getDailyBytesByHostname :: "config \<Rightarrow> analytics \<Rightarrow> int \<Rightarrow> int \<Rightarrow> (string \<times> int) list option" where
  "getDailyBytesByHostname cfg an start end_exclusive =
     (case graphql cfg an (TrafficByHostname start end_exclusive) of
        None \<Rightarrow> None
      | Some data \<Rightarrow>
          (case first_zone data of
             None \<Rightarrow> None
           | Some z \<Rightarrow>
               (case field ''httpRequestsAdaptiveGroups'' z of
                  JUndef \<Rightarrow> Some []
                | JNull \<Rightarrow> Some []
                | JArr rows \<Rightarrow> those (map host_bytes rows)
                | v \<Rightarrow> None)))"

section \<open>Synchronisation\<close>

definition workspace_bytes :: "(string \<times> int) list \<Rightarrow> int" where
  "workspace_bytes breakdown = sum_list (map snd (filter (\<lambda>(hostname, bytes). isWorkspaceHostname hostname) breakdown))"

text \<open>\<open>upsert\<close> by the date, with the observed totalBytes in either case\<close>

definition upsert_day :: "int \<Rightarrow> int \<Rightarrow> traffic_row list \<Rightarrow> traffic_row list" where
  "upsert_day date totalBytes rows =
     (if \<exists>r\<in>set rows. traffic_date r = date
      then update_rows (\<lambda>r. traffic_date r = date) (\<lambda>r. r\<lparr>traffic_bytes := totalBytes\<rparr>) rows
      else rows @ [\<lparr>traffic_date = date, traffic_bytes = totalBytes\<rparr>])"

definition syncOneDay :: "config \<Rightarrow> analytics \<Rightarrow> int \<Rightarrow> hub \<Rightarrow> hub option" where
  "syncOneDay cfg an date h =
     (case getDailyBytesByHostname cfg an date (nextDateUtc date) of
        None \<Rightarrow> None
      | Some breakdown \<Rightarrow>
          Some (h\<lparr>traffic_daily := upsert_day date (workspace_bytes breakdown) (traffic_daily h)\<rparr>))"

definition backfillDateList :: "config \<Rightarrow> analytics \<Rightarrow> hub \<Rightarrow> int list" where
  "backfillDateList cfg an h =
     (let effectiveSeconds = (case getHttpRequestsRetentionSeconds cfg an of
            None \<Rightarrow> FALLBACK_BACKFILL_DAYS * 86400 | Some s \<Rightarrow> s)
      in backfillDates (clock h) effectiveSeconds PRUNE_KEEP_DAYS)"

definition pruneOldRows :: "hub \<Rightarrow> hub" where
  "pruneOldRows h =
     (let cutoff = utc_day (clock h) - PRUNE_KEEP_DAYS
      in h\<lparr>traffic_daily := filter (\<lambda>r. \<not> traffic_date r < cutoff) (traffic_daily h)\<rparr>)"

definition sync_dates :: "config \<Rightarrow> analytics \<Rightarrow> hub \<Rightarrow> int list" where
  "sync_dates cfg an h =
     (if length (traffic_daily h) = 0 then backfillDateList cfg an h
      else trailingDateList (clock h) RESYNC_TRAILING_DAYS)"

text \<open>A day that fails leaves the others alone.\<close>

definition try_day :: "config \<Rightarrow> analytics \<Rightarrow> int \<Rightarrow> hub \<Rightarrow> hub" where
  "try_day cfg an date h = (case syncOneDay cfg an date h of None \<Rightarrow> h | Some h2 \<Rightarrow> h2)"

definition runTrafficSync :: "config \<Rightarrow> analytics \<Rightarrow> hub \<Rightarrow> hub" where
  "runTrafficSync cfg an h = pruneOldRows (fold (try_day cfg an) (sync_dates cfg an h) h)"

text \<open>The timer of the service: the time it fires next.\<close>

definition onModuleInit :: "config \<Rightarrow> analytics \<Rightarrow> hub \<Rightarrow> int option \<times> hub" where
  "onModuleInit cfg an h =
     (if \<not> isConfigured cfg then (None, h)
      else (Some (clock h + SYNC_INTERVAL_MS), runTrafficSync cfg an h))"

definition syncTimer_fires :: "config \<Rightarrow> analytics \<Rightarrow> int option \<times> hub \<Rightarrow> int option \<times> hub" where
  "syncTimer_fires cfg an st =
     (case st of
        (Some due, h) \<Rightarrow> if due \<le> clock h then (Some (due + SYNC_INTERVAL_MS), runTrafficSync cfg an h) else st
      | (None, h) \<Rightarrow> st)"

definition onModuleDestroy :: "int option \<times> hub \<Rightarrow> int option \<times> hub" where
  "onModuleDestroy st = (None, snd st)"

section \<open>Public statistics\<close>

text \<open>\<open>generatedAt\<close> is the time, before it is written as an ISO text.\<close>

record public_stats =
  st_version :: "string option"
  st_runningContainers :: nat
  st_activeWorkspaceDomains :: nat
  st_installedAgents :: nat
  st_trafficBytes :: string
  st_trafficWindowDays :: int
  st_trafficAvailable :: bool
  st_generatedAt :: int

text \<open>The version in the text of \<open>package.json\<close>, \<open>None\<close> where the file cannot be read.\<close>

definition readPlatformVersion :: "string option \<Rightarrow> string option" where
  "readPlatformVersion file =
     (case file of
        None \<Rightarrow> None
      | Some text \<Rightarrow>
          (case JSON_parse text of
             None \<Rightarrow> None
           | Some v \<Rightarrow> (case field ''version'' v of
               JStr s \<Rightarrow> if js_trim s = [] then None else Some s
             | w \<Rightarrow> None)))"

definition running_containers :: "hub \<Rightarrow> nat" where
  "running_containers h =
     count_rows (\<lambda>c. component_status c = CRunning \<and> component_deleted_at c = None
         \<and> (\<exists>s\<in>set (services h). service_index s = component_parent_service c \<and> service_deleted_at s = None))
       (service_components h)"

definition window_rows :: "hub \<Rightarrow> traffic_row list" where
  "window_rows h = filter (\<lambda>r. utc_day (clock h) - TRAFFIC_WINDOW_DAYS \<le> traffic_date r) (traffic_daily h)"

definition computeStats :: "string option \<Rightarrow> hub \<Rightarrow> public_stats" where
  "computeStats version h =
     (let trafficRows = window_rows h
      in \<lparr>st_version = version, st_runningContainers = running_containers h,
          st_activeWorkspaceDomains =
            count_rows (\<lambda>w. workspace_subdomain_active w \<and> workspace_deleted_at w = None) (workspaces h),
          st_installedAgents = count_rows (\<lambda>a. agent_version a \<noteq> None) (agents h),
          st_trafficBytes = show_int (sum_list (map traffic_bytes trafficRows)),
          st_trafficWindowDays = min (int (length trafficRows)) TRAFFIC_WINDOW_DAYS,
          st_trafficAvailable = (length trafficRows > 0),
          st_generatedAt = clock h\<rparr>)"

text \<open>The cache holds one answer and the time it expires.\<close>

type_synonym stats_cache = "(public_stats \<times> int) option"

definition getPublicStats :: "string option \<Rightarrow> hub \<Rightarrow> stats_cache \<Rightarrow> public_stats \<times> stats_cache" where
  "getPublicStats version h cache =
     (case cache of
        Some (data, expiresAt) \<Rightarrow>
          if clock h < expiresAt then (data, cache)
          else (let d = computeStats version h in (d, Some (d, clock h + CACHE_TTL_MS)))
      | None \<Rightarrow> (let d = computeStats version h in (d, Some (d, clock h + CACHE_TTL_MS))))"

definition handleGetPublicStats ::
  "string option \<Rightarrow> hub \<Rightarrow> stats_cache \<Rightarrow> public_stats response \<times> stats_cache" where
  "handleGetPublicStats version h cache =
     (case getPublicStats version h cache of
        (data, cache2) \<Rightarrow>
          (\<lparr>resp_status = 200, resp_code = Some SUCCESS_CODE, resp_message = ''Public platform stats.'',
            resp_data = Some data, resp_cookies = []\<rparr>, cache2))"

end
