(* ===== verification/TrafficRules.thy ===== *)
theory TrafficRules
  imports Traffic
begin

text \<open>
  What the traffic statistics promise: the first synchronisation asks for exactly the days the provider
  still has in full, a synchronisation replaces what it observes and nothing else, the public numbers
  speak of exactly the days that were observed, and the traffic of every address the gateway serves is
  counted.
\<close>

section \<open>Days\<close>

lemma set_trailing: "set (trailingDateList now n) = {d. utc_day now - max n 0 \<le> d \<and> d < utc_day now}"
proof
  show "{d. utc_day now - max n 0 \<le> d \<and> d < utc_day now} \<subseteq> set (trailingDateList now n)"
  proof
    fix d assume d: "d \<in> {d. utc_day now - max n 0 \<le> d \<and> d < utc_day now}"
    then have "d = utc_day now - int (nat (utc_day now - d))" "nat (utc_day now - d) \<in> set [1..<Suc (nat n)]"
      by auto
    then show "d \<in> set (trailingDateList now n)" unfolding trailingDateList_def set_map by (rule image_eqI)
  qed
qed (auto simp: trailingDateList_def)

lemma distinct_trailing: "distinct (trailingDateList now n)"
  by (auto simp: trailingDateList_def distinct_map inj_on_def)

lemma past_day: "d < utc_day now \<Longrightarrow> d * DAY_MS < now"
  unfolding utc_day_def DAY_MS_def by linarith

lemma eligible_within_span:
  assumes "now - r * 1000 + RETENTION_SAFETY_MS \<le> d * DAY_MS"
  shows "utc_day now - d \<le> - ((- r) div 86400)"
proof -
  have "now - r * 1000 \<le> d * 86400000" using assms by (simp add: RETENTION_SAFETY_MS_def DAY_MS_def)
  moreover have "utc_day now * 86400000 \<le> now" by (simp add: utc_day_def DAY_MS_def)
  ultimately have "utc_day now * 86400000 - d * 86400000 \<le> r * 1000" by linarith
  then have "1000 * ((utc_day now - d) * 86400) \<le> 1000 * r" by (simp add: left_diff_distrib)
  then have "(utc_day now - d) * 86400 \<le> r" by (rule mult_left_le_imp_le) simp
  then have "(- r) div 86400 \<le> ((d - utc_day now) * 86400) div 86400" by (intro zdiv_mono1) simp_all
  then show ?thesis by simp
qed

section \<open>Rows\<close>

definition day_bytes :: "int \<Rightarrow> hub \<Rightarrow> int option" where
  "day_bytes d h = map_option traffic_bytes (find (\<lambda>r. traffic_date r = d) (traffic_daily h))"

definition distinct_days :: "hub \<Rightarrow> bool" where
  "distinct_days h \<longleftrightarrow> distinct (map traffic_date (traffic_daily h))"

lemma find_upsert:
  "map_option traffic_bytes (find (\<lambda>r. traffic_date r = d) (upsert_day e totalBytes rows)) =
   (if d = e then Some totalBytes else map_option traffic_bytes (find (\<lambda>r. traffic_date r = d) rows))"
proof (cases "\<exists>r\<in>set rows. traffic_date r = e")
  case True
  have upd: "find (\<lambda>r. traffic_date r = d) (upsert_day e totalBytes rows)
      = map_option (\<lambda>r. if traffic_date r = e then r\<lparr>traffic_bytes := totalBytes\<rparr> else r) (find (\<lambda>r. traffic_date r = d) rows)"
    unfolding upsert_day_def if_P [OF True] by (rule find_update_same) simp
  show ?thesis
  proof (cases "find (\<lambda>r. traffic_date r = d) rows")
    case None
    then have "d \<noteq> e" using True by (auto simp: find_None_iff)
    with None upd show ?thesis by simp
  next
    case (Some r)
    then have "traffic_date r = d" using find_SomeD [OF Some] by simp
    then show ?thesis unfolding upd Some option.map by (cases "d = e") simp_all
  qed
next
  case False
  then have "find (\<lambda>r. traffic_date r = e) rows = None" by (auto simp: find_None_iff)
  with False show ?thesis
    by (cases "d = e") (simp_all add: upsert_day_def find_snoc split: option.split)
qed

definition observed :: "config \<Rightarrow> analytics \<Rightarrow> int \<Rightarrow> int option" where
  "observed cfg an d = map_option workspace_bytes (getDailyBytesByHostname cfg an d (d + 1))"

lemma day_bytes_try:
  "day_bytes d (try_day cfg an e h) =
   (if d = e then (case observed cfg an d of None \<Rightarrow> day_bytes d h | Some b \<Rightarrow> Some b) else day_bytes d h)"
  by (auto simp: day_bytes_def try_day_def syncOneDay_def observed_def nextDateUtc_def find_upsert split: option.split)

lemma day_bytes_days:
  "day_bytes d (fold (try_day cfg an) days h) =
   (if d \<in> set days then (case observed cfg an d of None \<Rightarrow> day_bytes d h | Some b \<Rightarrow> Some b) else day_bytes d h)"
proof (induction days arbitrary: h)
  case (Cons e days)
  show ?case unfolding fold_simps Cons.IH day_bytes_try by (auto split: option.split)
qed simp

lemma clock_try [simp]: "clock (try_day cfg an e h) = clock h"
  by (simp add: try_day_def syncOneDay_def split: option.split)

lemma clock_days [simp]: "clock (fold (try_day cfg an) days h) = clock h"
  by (induction days arbitrary: h) simp_all

lemma find_filter_date:
  "find (\<lambda>r. traffic_date r = d) (filter (\<lambda>r. \<not> traffic_date r < c) rows) =
   (if d < c then None else find (\<lambda>r. traffic_date r = d) rows)"
  by (induction rows) auto

lemma day_bytes_prune:
  "day_bytes d (pruneOldRows h) = (if d < utc_day (clock h) - PRUNE_KEEP_DAYS then None else day_bytes d h)"
  by (simp add: day_bytes_def pruneOldRows_def Let_def find_filter_date)

lemma clock_sync [simp]: "clock (runTrafficSync cfg an h) = clock h"
  by (simp add: runTrafficSync_def pruneOldRows_def Let_def)

section \<open>The days that have a row\<close>

lemma dates_upsert:
  "set (map traffic_date (upsert_day e totalBytes rows)) = insert e (set (map traffic_date rows))"
  "distinct (map traffic_date rows) \<Longrightarrow> distinct (map traffic_date (upsert_day e totalBytes rows))"
proof -
  have same: "map traffic_date (update_rows P (\<lambda>r. r\<lparr>traffic_bytes := totalBytes\<rparr>) rows) = map traffic_date rows" for P
    by (simp add: update_rows_def)
  show "set (map traffic_date (upsert_day e totalBytes rows)) = insert e (set (map traffic_date rows))"
  proof (cases "\<exists>r\<in>set rows. traffic_date r = e")
    case True
    then have "e \<in> set (map traffic_date rows)" by auto
    with True show ?thesis by (simp add: upsert_day_def same insert_absorb del: set_map)
  qed (auto simp: upsert_day_def)
  show "distinct (map traffic_date rows) \<Longrightarrow> distinct (map traffic_date (upsert_day e totalBytes rows))"
    by (auto simp: upsert_day_def same)
qed

definition days_ok :: "int \<Rightarrow> hub \<Rightarrow> bool" where
  "days_ok today h \<longleftrightarrow> distinct (map traffic_date (traffic_daily h)) \<and> (\<forall>d\<in>set (map traffic_date (traffic_daily h)). d < today)"

lemma days_ok_try: "days_ok today h \<Longrightarrow> e < today \<Longrightarrow> days_ok today (try_day cfg an e h)"
  unfolding days_ok_def try_day_def syncOneDay_def
  by (auto simp: dates_upsert simp del: set_map split: option.split)

lemma days_ok_days: "days_ok today h \<Longrightarrow> \<forall>e\<in>set days. e < today \<Longrightarrow> days_ok today (fold (try_day cfg an) days h)"
  by (induction days arbitrary: h) (simp_all add: days_ok_try)

lemma days_ok_prune: "days_ok today h \<Longrightarrow> days_ok today (pruneOldRows h)"
  by (auto simp: days_ok_def pruneOldRows_def Let_def distinct_map inj_on_def)

lemma sync_dates_past: "e \<in> set (sync_dates cfg an h) \<Longrightarrow> e < utc_day (clock h)"
  by (auto simp: sync_dates_def backfillDateList_def backfillDates_def Let_def set_trailing split: if_splits)

lemma days_ok_sync: "days_ok (utc_day (clock h)) h \<Longrightarrow> days_ok (utc_day (clock h)) (runTrafficSync cfg an h)"
  unfolding runTrafficSync_def by (intro days_ok_prune days_ok_days) (auto dest: sync_dates_past)

lemma days_ok_later: "days_ok t h \<Longrightarrow> t \<le> t2 \<Longrightarrow> days_ok t2 (h\<lparr>clock := c\<rparr>)"
  by (fastforce simp: days_ok_def)

text \<open>The Hub synchronises again and again: each time some milliseconds have passed and the provider
  gives other answers.\<close>

definition synced :: "config \<Rightarrow> (nat \<times> analytics) list \<Rightarrow> int \<Rightarrow> hub" where
  "synced cfg runs now =
     fold (\<lambda>(ms, an) h. runTrafficSync cfg an (h\<lparr>clock := clock h + int ms\<rparr>)) runs (init_hub now)"

lemma days_ok_synced: "days_ok (utc_day (clock (synced cfg runs now))) (synced cfg runs now)"
proof -
  have "days_ok (utc_day (clock h)) h \<Longrightarrow>
    days_ok (utc_day (clock (fold (\<lambda>(ms, an) h. runTrafficSync cfg an (h\<lparr>clock := clock h + int ms\<rparr>)) runs h)))
      (fold (\<lambda>(ms, an) h. runTrafficSync cfg an (h\<lparr>clock := clock h + int ms\<rparr>)) runs h)" for h
  proof (induction runs arbitrary: h)
    case (Cons r runs)
    obtain ms an where r: "r = (ms, an)" by (cases r)
    let ?h = "h\<lparr>clock := clock h + int ms\<rparr>"
    have "utc_day (clock h) \<le> utc_day (clock ?h)" by (simp add: utc_day_def DAY_MS_def zdiv_mono1)
    then have "days_ok (utc_day (clock ?h)) ?h" by (rule days_ok_later [OF Cons.prems])
    then have "days_ok (utc_day (clock (runTrafficSync cfg an ?h))) (runTrafficSync cfg an ?h)"
      by (simp only: clock_sync days_ok_sync)
    from Cons.IH [OF this] show ?case by (simp add: r)
  qed simp
  moreover have "days_ok (utc_day now) (init_hub now)" by (simp add: days_ok_def init_hub_def)
  ultimately show ?thesis by (simp add: synced_def init_hub_def)
qed

lemma find_by_date:
  "distinct (map traffic_date rows) \<Longrightarrow> r \<in> set rows \<Longrightarrow> find (\<lambda>x. traffic_date x = traffic_date r) rows = Some r"
  by (induction rows) (auto simp: image_iff)

lemma window_dates:
  assumes "days_ok (utc_day (clock h)) h"
  shows "{d. utc_day (clock h) - 30 \<le> d \<and> d < utc_day (clock h) \<and> day_bytes d h \<noteq> None}
    = set (map traffic_date (window_rows h))"
proof -
  have "day_bytes d h \<noteq> None \<longleftrightarrow> d \<in> set (map traffic_date (traffic_daily h))" for d
    by (auto simp: day_bytes_def find_None_iff)
  with assms show ?thesis by (auto simp: window_rows_def TRAFFIC_WINDOW_DAYS_def days_ok_def)
qed

lemma sum_by_date:
  assumes "distinct (map traffic_date rows)" "\<And>r. r \<in> set rows \<Longrightarrow> f (traffic_date r) = traffic_bytes r"
  shows "sum_list (map traffic_bytes rows) = (\<Sum>d\<in>set (map traffic_date rows). f d)"
  using assms by (induction rows) auto

lemma window_count:
  assumes "days_ok (utc_day (clock h)) h"
  shows "length (window_rows h) \<le> 30" "int (length (window_rows h)) = int (card (set (map traffic_date (window_rows h))))"
proof -
  have d: "distinct (map traffic_date (window_rows h))"
    using assms by (auto simp: days_ok_def window_rows_def distinct_map inj_on_def)
  then show "int (length (window_rows h)) = int (card (set (map traffic_date (window_rows h))))"
    using distinct_card by fastforce
  have "set (map traffic_date (window_rows h)) \<subseteq> {utc_day (clock h) - 30 ..< utc_day (clock h)}"
    using window_dates [OF assms] by auto
  then have "card (set (map traffic_date (window_rows h))) \<le> 30"
    using card_mono [of "{utc_day (clock h) - 30 ..< utc_day (clock h)}"] by fastforce
  with d show "length (window_rows h) \<le> 30" by (metis distinct_card length_map)
qed

lemma window_sum:
  assumes "days_ok (utc_day (clock h)) h"
  shows "sum_list (map traffic_bytes (window_rows h)) = (\<Sum>d\<in>set (map traffic_date (window_rows h)). the (day_bytes d h))"
proof (rule sum_by_date)
  show "distinct (map traffic_date (window_rows h))"
    using assms by (auto simp: days_ok_def window_rows_def distinct_map inj_on_def)
  show "the (day_bytes (traffic_date r) h) = traffic_bytes r" if "r \<in> set (window_rows h)" for r
    using assms that find_by_date [of "traffic_daily h" r] by (simp add: day_bytes_def days_ok_def window_rows_def)
qed

section \<open>Addresses\<close>

definition address :: "string \<Rightarrow> string \<Rightarrow> string" where
  "address service workspace = js_join ''.'' ((if service = [] then [] else [service]) @ [workspace, ''optics'', ''run''])"

lemma label_chars: "is_label s \<Longrightarrow> c \<in> set s \<Longrightarrow> is_lower c \<or> is_digit c \<or> c = CHR ''-''"
  by (auto simp: is_label_def label_char_def list_all_iff)

lemma host_char_plain:
  assumes "is_lower c \<or> is_digit c \<or> c = CHR ''-'' \<or> c = CHR ''.''"
  shows "lower_char c = c" "\<not> is_space c" "c \<noteq> CHR '':''"
  using assms by (auto simp: lower_char_def is_upper_def is_lower_def is_digit_def is_space_def less_eq_char_def)

lemma plain_text:
  assumes "\<And>c. c \<in> set s \<Longrightarrow> is_lower c \<or> is_digit c \<or> c = CHR ''-'' \<or> c = CHR ''.''"
  shows "js_lower s = s" "js_trim s = s" "CHR '':'' \<notin> set s" "dropWhile is_space s = s"
proof -
  show "js_lower s = s" using assms host_char_plain(1) by (auto simp: js_lower_def intro: map_idI)
  have d: "dropWhile is_space t = t" if "set t \<subseteq> set s" for t
    using that assms host_char_plain(2) by (cases t) auto
  show "dropWhile is_space s = s" by (rule d) simp
  have "dropWhile is_space (rev s) = rev s" by (rule d) simp
  then show "js_trim s = s" by (simp add: js_trim_def \<open>dropWhile is_space s = s\<close>)
  show "CHR '':'' \<notin> set s" using assms host_char_plain(3) by blast
qed

lemma address_chars:
  assumes "is_label w" "s = [] \<or> is_label s" "c \<in> set (address s w)"
  shows "is_lower c \<or> is_digit c \<or> c = CHR ''-'' \<or> c = CHR ''.''"
proof -
  have "c \<in> set ''.'' \<union> \<Union> (set ` set ((if s = [] then [] else [s]) @ [w, ''optics'', ''run'']))"
    using assms(3) set_js_join unfolding address_def by blast
  moreover have "c \<in> set s \<Longrightarrow> is_lower c \<or> is_digit c \<or> c = CHR ''-''" using assms(2) label_chars [of s c] by auto
  moreover have "c \<in> set w \<Longrightarrow> is_lower c \<or> is_digit c \<or> c = CHR ''-''" using assms(1) label_chars [of w c] by auto
  moreover have "c \<in> set ''optics'' \<or> c \<in> set ''run'' \<Longrightarrow> is_lower c" by (auto simp: is_lower_def)
  ultimately show ?thesis by (auto split: if_splits)
qed

lemma address_plain:
  assumes "is_label w" "s = [] \<or> is_label s"
  shows "js_lower (address s w) = address s w" "js_trim (address s w) = address s w"
    "CHR '':'' \<notin> set (address s w)" "dropWhile is_space (address s w) = address s w"
  by (rule plain_text; rule address_chars [OF assms]; assumption)+

lemma address_labels:
  assumes "is_label w" "s = [] \<or> is_label s"
  shows "split_on (CHR ''.'') (address s w) = (if s = [] then [] else [s]) @ [w, ''optics'', ''run'']"
  unfolding address_def
proof (rule split_on_join)
  have "CHR ''.'' \<notin> set v" if "is_label v" for v
    using label_chars [OF that, of "CHR ''.''"] by (auto simp: is_lower_def is_digit_def)
  with assms show "\<forall>v\<in>set ((if s = [] then [] else [s]) @ [w, ''optics'', ''run'']). CHR ''.'' \<notin> set v"
    by auto
qed simp

lemma address_last: "address s w \<noteq> []" "last (address s w) = CHR ''n''"
proof -
  have "\<exists>pre. address s w = pre @ ''n''" by (cases "s = []") (auto simp: address_def)
  then show "address s w \<noteq> []" "last (address s w) = CHR ''n''" by auto
qed

lemma host_of_address:
  assumes "is_label w" "s = [] \<or> is_label s"
  shows "host_of_line (''Host: '' @ address s w) = address s w"
proof -
  note plain = address_plain [OF assms]
  have "js_lower ''Host: '' = ''host: ''" by code_simp
  then have "js_lower (''Host: '' @ address s w) = ''host: '' @ address s w"
    using plain(1) unfolding js_lower_def map_append by simp
  then have "is_header ''host:'' (''Host: '' @ address s w)" by (simp add: is_header_def starts_with_def)
  then have "header_value ''host:'' (''Host: '' @ address s w) = address s w"
    using plain(2,4) by (simp add: header_value_def is_space_def)
  then show ?thesis using plain(1,3) address_last [of s w] by (simp add: host_of_line_def drop_dot_def split_on_fresh)
qed

section \<open>Properties\<close>

text \<open>the first synchronisation asks for exactly the days it can get. The days it asks for are all
  different and are exactly the past days, among the last forty, whose midnight the provider still keeps
  with a quarter of an hour to spare: rounding the kept seconds up to days loses none of them, and the
  filter lets no day pass that is only kept in part.\<close>

theorem backfill_exact:
  "set (backfillDates now kept most) =
     {d. utc_day now - max most 0 \<le> d \<and> d < utc_day now \<and> now - kept * 1000 + RETENTION_SAFETY_MS \<le> d * DAY_MS}
   \<and> distinct (backfillDates now kept most)"
proof -
  have "utc_day now - max (min (max (- ((- kept) div 86400)) 0) most) 0 \<le> d"
    if "now - kept * 1000 + RETENTION_SAFETY_MS \<le> d * DAY_MS" "utc_day now - max most 0 \<le> d" for d
    using eligible_within_span [OF that(1)] that(2) by linarith
  then show ?thesis
    by (auto simp: backfillDates_def Let_def set_trailing distinct_trailing)
qed

text \<open>C39: a synchronisation replaces what it observes and nothing else. Afterwards each day has the total
  of the workspaces' hosts that the provider reported for it, if it was asked and answered (whatever was
  stored before, so that asking again never adds up), and what it had otherwise; the days more than forty
  days back have nothing.\<close>

theorem sync_replaces_observed:
  "day_bytes d (runTrafficSync cfg an h) =
     (if d < utc_day (clock h) - 40 then None
      else if d \<in> set (sync_dates cfg an h) \<and> observed cfg an d \<noteq> None then observed cfg an d
      else day_bytes d h)"
  by (auto simp: runTrafficSync_def day_bytes_prune day_bytes_days PRUNE_KEEP_DAYS_def TRAFFIC_WINDOW_DAYS_def split: option.split)

text \<open>the public numbers speak of the days that were observed. After any synchronisations, at any times
  and with any answers, the number of days it reports is the number of the last thirty days that have a
  total (the bound of thirty never cuts it), the bytes are the sum of exactly their totals, and traffic is
  said to be unknown exactly if there is no such day.\<close>

theorem stats_speak_of_observed_days:
  "let h = synced cfg runs now;
       days = {d. utc_day (clock h) - 30 \<le> d \<and> d < utc_day (clock h) \<and> day_bytes d h \<noteq> None}
   in st_trafficWindowDays (computeStats v h) = int (card days)
      \<and> st_trafficBytes (computeStats v h) = show_int (\<Sum>d\<in>days. the (day_bytes d h))
      \<and> st_trafficAvailable (computeStats v h) = (days \<noteq> {})"
proof -
  let ?h = "synced cfg runs now"
  have ok: "days_ok (utc_day (clock ?h)) ?h" by (rule days_ok_synced)
  show ?thesis unfolding Let_def window_dates [OF ok]
    using window_count [OF ok] window_sum [OF ok] by (simp add: computeStats_def Let_def TRAFFIC_WINDOW_DAYS_def)
qed

text \<open>the traffic of every address that can be published is served and counted. For a workspace name and
  a service name that the forms accept, the gateway reads exactly these two out of the Host header of a
  request to the address, and the statistics count the host.\<close>

theorem published_address_counted:
  assumes "workspace_label (Some w)" and "s = [] \<or> is_label s"
  shows "parseRouteFromHostHeader (''Host: '' @ address s w) = Some (s, w) \<and> isWorkspaceHostname (address s w)"
proof -
  have w: "is_label w" "w \<notin> set RESERVED_WORKSPACE_SUBDOMAINS" using assms(1) by (simp_all add: workspace_label_def)
  note plain = address_plain [OF w(1) assms(2)]
  show ?thesis
    unfolding parseRouteFromHostHeader_def isWorkspaceHostname_def host_of_address [OF w(1) assms(2)] plain(1,2)
      address_labels [OF w(1) assms(2)]
    using w assms(2) by (auto simp: isValidSubdomainLabel_def)
qed

lemma published_address_counted_witness:
  "parseRouteFromHostHeader (''Host: '' @ address ''www'' ''acme'') = Some (''www'', ''acme'')
   \<and> isWorkspaceHostname (address ''www'' ''acme'')"
  by (rule published_address_counted) (simp_all add: workspace_label_def RESERVED_WORKSPACE_SUBDOMAINS_def
      is_label_def label_char_def is_lower_def is_digit_def)

text \<open>The two rules differ on names no workspace can have: the gateway refuses this host, the statistics
  count it.\<close>

theorem refused_host_is_counted:
  "isWorkspaceHostname ''-x.optics.run'' \<and> parseRouteFromHostHeader ''Host: -x.optics.run'' = None"
  by code_simp

text \<open>Within thirty seconds the public statistics are computed once.\<close>

theorem stats_served_from_cache:
  assumes "getPublicStats v h cache = (data, cache2)" and "clock h \<le> clock h2" and "clock h2 < clock h + 30000"
    and "cache = None \<or> snd (the cache) \<le> clock h"
  shows "getPublicStats v h2 cache2 = (data, cache2)"
  using assms by (auto simp: getPublicStats_def Let_def CACHE_TTL_MS_def split: option.splits if_splits)

end
