(* ===== verification/TunnelApi.thy ===== *)
theory TunnelApi
  imports Gateway Api
begin

text \<open>
  The two calls the gateway makes to the Hub, on both sides: the requests it sends (\<open>askHub\<close> in
  \<open>proxy/server.ts\<close>, \<open>verifyWithHub\<close> in \<open>tunnel/preconnect.ts\<close>), and the controller that serves them
  (\<open>src/tunnel/v1/tunnel.controller.ts\<close>, with the rules of its bodies in \<open>src/tunnel/dto\<close>). An answer
  goes through its JSON text. The rule \<open>IsUUID\<close> of the validation library is an argument.
\<close>

section \<open>The bodies\<close>

record connect_request =
  rc_serviceSubdomain :: string
  rc_workspaceSubdomain :: string
  rc_token :: string
  rc_preferPooled :: "bool option"

definition connect_body_ok :: "(string \<Rightarrow> bool) \<Rightarrow> connect_request \<Rightarrow> bool" where
  "connect_body_ok isUUID r \<longleftrightarrow>
     service_label (Some (rc_serviceSubdomain r)) \<and> is_label (rc_workspaceSubdomain r) \<and> isUUID (rc_token r)"

definition preconnect_body_ok :: "(string \<Rightarrow> bool) \<Rightarrow> preconnect_request \<Rightarrow> bool" where
  "preconnect_body_ok isUUID r \<longleftrightarrow>
     isUUID (pre_agentUuid r) \<and> hex_text 32 (pre_nonce r) \<and> hex_text 64 (pre_signature r)"

section \<open>The controller\<close>

text \<open>What an exception becomes: its own body, or the text of a built-in one, through the filter.\<close>

fun tunnel_error_body :: "tunnel_error \<Rightarrow> jval" where
  "tunnel_error_body (TunnelError status outcome message) =
     HttpExceptionFilter (JObj [(''outcome'', JStr (outcome_name outcome)), (''message'', JStr message)]) status"

definition builtin_error_body :: "http_error \<Rightarrow> jval" where
  "builtin_error_body e =
     HttpExceptionFilter (JObj [(''message'', JStr (error_text e)), (''statusCode'', jnat (http_status e))]) (http_status e)"

definition proxy_reply_body :: "proxy_reply \<Rightarrow> jval" where
  "proxy_reply_body r =
     JObj [(''outcome'', JStr (outcome_name (pr_outcome r))), (''request_id'', JStr (pr_request_id r)),
           (''agent_uuid'', JStr (pr_agent_uuid r)), (''service_port'', JNum (pr_service_port r))]"

definition tunnel_connect ::
  "config \<Rightarrow> (string \<Rightarrow> bool) \<Rightarrow> string option \<Rightarrow> string option \<Rightarrow> connect_request \<Rightarrow> hub \<Rightarrow> (nat \<times> jval) \<times> hub" where
  "tunnel_connect cfg isUUID secret requestId request h =
     (case InternalSecretGuard cfg secret of
        Inl e \<Rightarrow> ((http_status e, builtin_error_body e), h)
      | Inr _ \<Rightarrow>
          if \<not> connect_body_ok isUUID request
          then ((400, builtin_error_body (BadRequest ''Bad Request'')), h)
          else
            (case sendProxyInfo cfg (rc_serviceSubdomain request) (rc_workspaceSubdomain request)
                    (rc_token request) (connect_request_id requestId (rc_token request))
                    (case rc_preferPooled request of None \<Rightarrow> False | Some b \<Rightarrow> b) h of
               (Inl (TunnelError status outcome message), h1) \<Rightarrow>
                 ((status, tunnel_error_body (TunnelError status outcome message)), h1)
             | (Inr r, h1) \<Rightarrow> ((201, proxy_reply_body r), h1)))"

fun failure_name :: "verify_failure \<Rightarrow> string" where
  "failure_name NO_SECRET = ''no_secret''"
| "failure_name MISSING_SIGNATURE = ''missing_signature''"
| "failure_name MALFORMED_SIGNATURE = ''malformed_signature''"
| "failure_name MISSING_TIMESTAMP = ''missing_timestamp''"
| "failure_name MISSING_NONCE = ''missing_nonce''"
| "failure_name EXPIRED = ''expired''"
| "failure_name REPLAYED = ''replayed''"
| "failure_name INVALID_SIGNATURE = ''invalid_signature''"

fun verify_body :: "verify_result \<Rightarrow> jval" where
  "verify_body VOk = JObj [(''ok'', JBool True)]"
| "verify_body (VFail f) = JObj [(''ok'', JBool False), (''reason'', JStr (failure_name f))]"

definition tunnel_preconnect ::
  "config \<Rightarrow> (string \<Rightarrow> bool) \<Rightarrow> string option \<Rightarrow> preconnect_request \<Rightarrow> hub \<Rightarrow> (nat \<times> jval) \<times> hub" where
  "tunnel_preconnect cfg isUUID secret request h =
     (case InternalSecretGuard cfg secret of
        Inl e \<Rightarrow> ((http_status e, builtin_error_body e), h)
      | Inr _ \<Rightarrow>
          if \<not> preconnect_body_ok isUUID request
          then ((400, builtin_error_body (BadRequest ''Bad Request'')), h)
          else
            (let (result, h1) = verifyPreconnect cfg request h in ((201, verify_body result), h1)))"

section \<open>The calls of the gateway\<close>

text \<open>The answer as the gateway reads it.\<close>

definition over_http :: "nat \<times> jval \<Rightarrow> hub_answer" where
  "over_http reply =
     Answer (fst reply) (case stringify (snd reply) of None \<Rightarrow> None | Some text \<Rightarrow> JSON_parse text)"

definition askHub :: "conn \<Rightarrow> request_info \<Rightarrow> bool \<Rightarrow> connect_request" where
  "askHub c q preferPooled =
     \<lparr>rc_serviceSubdomain = q_service q, rc_workspaceSubdomain = q_workspace q, rc_token = conn_token c,
      rc_preferPooled = Some preferPooled\<rparr>"

text \<open>Both processes read the same setting; a missing one is sent as an empty text.\<close>

definition sent_secret :: "config \<Rightarrow> string option" where
  "sent_secret cfg = Some (case cfg_text cfg ''TUNNEL_INTERNAL_SECRET'' of None \<Rightarrow> [] | Some s \<Rightarrow> s)"

definition ask_route ::
  "config \<Rightarrow> (string \<Rightarrow> bool) \<Rightarrow> conn \<Rightarrow> request_info \<Rightarrow> bool \<Rightarrow> hub \<Rightarrow> hub_answer \<times> hub" where
  "ask_route cfg isUUID c q preferPooled h =
     (let (reply, h1) = tunnel_connect cfg isUUID (sent_secret cfg) (Some (conn_requestId c)) (askHub c q preferPooled) h
      in (over_http reply, h1))"

definition ask_verify :: "config \<Rightarrow> (string \<Rightarrow> bool) \<Rightarrow> preconnect_request \<Rightarrow> hub \<Rightarrow> hub_answer \<times> hub" where
  "ask_verify cfg isUUID r h =
     (let (reply, h1) = tunnel_preconnect cfg isUUID (sent_secret cfg) r h in (over_http reply, h1))"

end
