(* ===== verification/TunnelRules.thy ===== *)
theory TunnelRules
  imports TunnelApi GatewayRules
begin

text \<open>
  What the gateway and the Hub promise together: an outcome of the Hub reaches the page the client gets,
  a socket is admitted into a pool exactly if the Hub verified its line, and a request to a published
  address meets its agent.
\<close>

section \<open>Answers\<close>

lemma over_http_storable: "storable v \<Longrightarrow> over_http (status, v) = Answer status (Some v)"
  using stringify_wire [OF storable_wire, of v] JSON_parse_text [of v] by (simp add: over_http_def)

lemma plain_keys:
  "\<not> is_index ''outcome''" "\<not> is_index ''message''" "\<not> is_index ''error''" "\<not> is_index ''request_id''"
  "\<not> is_index ''agent_uuid''" "\<not> is_index ''service_port''" "\<not> is_index ''ok''" "\<not> is_index ''reason''"
  by code_simp+

lemma tunnel_error_body_eq:
  "tunnel_error_body (TunnelError st o1 m) =
     JObj [(''outcome'', JStr (outcome_name o1)), (''message'', JStr m), (''error'', JNum (int st))]"
  by (simp add: HttpExceptionFilter_def createResponseBody_def exception_message_def map_get_def map_set_def)

declare tunnel_error_body.simps [simp del]

lemma storable_bodies:
  "storable (tunnel_error_body (TunnelError st o1 m))" "storable (proxy_reply_body r)" "storable (verify_body x)"
  by (simp_all only: tunnel_error_body_eq proxy_reply_body_def) (cases x; simp add: plain_keys)+

lemma fields:
  "field ''outcome'' (tunnel_error_body (TunnelError st o1 m)) = JStr (outcome_name o1)"
  "field ''agent_uuid'' (proxy_reply_body r) = JStr (pr_agent_uuid r)"
  "field ''service_port'' (proxy_reply_body r) = JNum (pr_service_port r)"
  by (simp_all add: tunnel_error_body_eq proxy_reply_body_def map_get_def)

lemma outcome_read: "o1 \<noteq> SUCCESS \<Longrightarrow> readHubOutcome st (Some (tunnel_error_body (TunnelError st o1 m))) = o1"
  unfolding readHubOutcome_def option.case fields Let_def by (cases o1) (simp_all add: KNOWN_OUTCOMES_def)

lemma verify_read:
  "verifyWithHub (Answer 201 (Some (verify_body x))) = (case x of VOk \<Rightarrow> None | VFail f \<Rightarrow> Some (failure_name f))"
  by (cases x) (simp_all add: answer_ok_def map_get_def)

declare verify_body.simps [simp del] verifyWithHub.simps [simp del]

lemma guard_passes:
  "cfg_text cfg ''TUNNEL_INTERNAL_SECRET'' = Some k \<Longrightarrow> k \<noteq> [] \<Longrightarrow> InternalSecretGuard cfg (sent_secret cfg) = Inr True"
  by (simp add: InternalSecretGuard_def sent_secret_def falsy_def)

lemma sendProxyInfo_error:
  "sendProxyInfo cfg sub ws tok rid pooled h = (Inl (TunnelError st o1 m), h1) \<Longrightarrow>
   o1 \<noteq> SUCCESS \<and> (st = 404 \<or> st = 503)"
  by (auto simp: sendProxyInfo_def dispatch_route_def dispatchToAgent_def Let_def split_beta split: option.splits if_splits)

lemma route_labels:
  "parseRouteFromHostHeader line = Some (s, w) \<Longrightarrow> is_label w \<and> (s = [] \<or> is_label s)"
  by (auto simp: parseRouteFromHostHeader_def isValidSubdomainLabel_def split: list.splits if_splits)

lemma asked_body_ok:
  assumes "parseRouteFromHostHeader line = Some (q_service q, q_workspace q)" and "isUUID (conn_token c)"
  shows "connect_body_ok isUUID (askHub c q pooled)"
  using route_labels [OF assms(1)] assms(2) by (auto simp: connect_body_ok_def askHub_def service_label_def)

lemma ask_route_eq:
  assumes "cfg_text cfg ''TUNNEL_INTERNAL_SECRET'' = Some k" "k \<noteq> []"
    and "parseRouteFromHostHeader line = Some (q_service q, q_workspace q)" and "isUUID (conn_token c)"
  shows "ask_route cfg isUUID c q pooled h =
    (case sendProxyInfo cfg (q_service q) (q_workspace q) (conn_token c)
        (connect_request_id (Some (conn_requestId c)) (conn_token c)) pooled h of
       (Inl (TunnelError st o1 m), h1) \<Rightarrow> (Answer st (Some (tunnel_error_body (TunnelError st o1 m))), h1)
     | (Inr r, h1) \<Rightarrow> (Answer 201 (Some (proxy_reply_body r)), h1))"
  using asked_body_ok [of line q isUUID c pooled] assms guard_passes [OF assms(1,2)]
  by (auto simp: ask_route_def tunnel_connect_def askHub_def over_http_storable storable_bodies Let_def
      split: sum.split prod.split tunnel_error.split)

section \<open>Request ids\<close>

lemma is_uuid_char: "is_uuid s \<Longrightarrow> c \<in> set s \<Longrightarrow> c = CHR ''-'' \<or> is_hex (lower_char c)"
proof -
  assume u: "is_uuid s" and c: "c \<in> set s"
  have "c \<in> set (js_join ''-'' (split_on (CHR ''-'') s))" using c by simp
  then have "c = CHR ''-'' \<or> (\<exists>p\<in>set (split_on (CHR ''-'') s). c \<in> set p)"
    using set_js_join [of "''-''" "split_on (CHR ''-'') s"] by auto
  with u show ?thesis by (auto simp: is_uuid_def Let_def list_all_iff js_lower_def)
qed

lemma not_hex: "\<not> is_hex (lower_char (CHR ''t''))" "\<not> is_hex (lower_char (CHR ''o''))" "\<not> is_hex (lower_char (CHR 0x0A))"
  by code_simp+

text \<open>The Hub takes a request id only if it is a UUID, and the gateway never sends one: the id the Hub
  logs and answers is the token.\<close>

theorem gateway_ids_are_dropped: "connect_request_id (Some (''opt_'' @ ulid)) tok = tok"
  using is_uuid_char [of "''opt_'' @ ulid" "CHR ''o''"] not_hex(2) by (auto simp: connect_request_id_def)

section \<open>Joining\<close>

text \<open>A socket that comes with the token of a waiting client is joined to it.\<close>

lemma agent_joins:
  assumes "map_get (localClientSocket g) tok = Some e" and "map_get (conns g) a = None"
    and "CHR 0x0A \<notin> set tok" and "\<not> starts_with (PRECONNECT_VERB @ '' '') tok"
  shows "outputs (tunnel_data a (tok @ CHR 0x0A # rest) (accept_agent a g)) =
    outputs g @ [Write (e_socket e) rest, Write a (e_rest e), Join (e_socket e) a]"
proof -
  have line: "takeWhile (\<lambda>x. x \<noteq> CHR 0x0A) (tok @ CHR 0x0A # rest) = tok"
    using assms(3) by (induction tok) auto
  show ?thesis using assms by (simp add: tunnel_data_def accept_agent_def line claim_def clear_timer_def Let_def put_def)
qed

lemma hub_routed_registers:
  assumes "map_get (conns g) s = Some c" "conn_state c = AskingRoute q"
    and "fst (claimPreconnected (pr_agent_uuid r) g) = None"
  shows "\<exists>i. map_get (localClientSocket (hub_routed env s (Answer 201 (Some (proxy_reply_body r))) g)) (conn_token c)
      = Some \<lparr>e_socket = s, e_rest = q_buffer q, e_timer = i\<rparr>"
    and "outputs (hub_routed env s (Answer 201 (Some (proxy_reply_body r))) g) = outputs g @ [AskHub s False]"
    and "map_get (conns (hub_routed env s (Answer 201 (Some (proxy_reply_body r))) g)) s
      = Some (c\<lparr>conn_state := Registered q\<rparr>)"
    and "a \<noteq> s \<Longrightarrow> map_get (conns (hub_routed env s (Answer 201 (Some (proxy_reply_body r))) g)) a = map_get (conns g) a"
proof -
  obtain g1 where g1: "claimPreconnected (pr_agent_uuid r) g = (None, g1)"
    using assms(3) by (cases "claimPreconnected (pr_agent_uuid r) g") simp
  then have frame: "conns g1 = conns g" "outputs g1 = outputs g"
    by (auto simp: claimPreconnected_def split: option.splits prod.splits)
  have eq: "hub_routed env s (Answer 201 (Some (proxy_reply_body r))) g =
      put (AskHub s False) (set_state s (Registered q) (register (conn_token c) s (q_buffer q) g1))"
    using assms(1,2) by (simp add: hub_routed_def answer_ok_def fields g1)
  show "\<exists>i. map_get (localClientSocket (hub_routed env s (Answer 201 (Some (proxy_reply_body r))) g)) (conn_token c)
      = Some \<lparr>e_socket = s, e_rest = q_buffer q, e_timer = i\<rparr>"
    by (simp add: eq register_def)
  show "outputs (hub_routed env s (Answer 201 (Some (proxy_reply_body r))) g) = outputs g @ [AskHub s False]"
    using frame by (simp add: eq register_def)
  show "map_get (conns (hub_routed env s (Answer 201 (Some (proxy_reply_body r))) g)) s
      = Some (c\<lparr>conn_state := Registered q\<rparr>)"
    using frame assms(1) by (simp add: eq register_def set_state_def put_def)
  show "a \<noteq> s \<Longrightarrow> map_get (conns (hub_routed env s (Answer 201 (Some (proxy_reply_body r))) g)) a = map_get (conns g) a"
    using frame assms(1) by (simp add: eq register_def set_state_def put_def)
qed

lemma fallback_accepted: "hub_fallback env s q (Answer 201 b) g = g"
  by (simp add: hub_fallback_def answer_ok_def split: option.split)

lemma dispatched_message:
  assumes "sendProxyInfo cfg sub ws tok rid False h = (Inr r, h2)"
  shows "\<exists>sock data. getAgentSocket (pr_agent_uuid r) h = Some (sock, data)
    \<and> sent h2 = sent h @ [AgentEmit sock ''tunnel-connect'' (sign (cfg_hmac cfg) ''tunnel-connect''
        (JObj [(''token'', JStr tok), (''service_port'', JNum (pr_service_port r)), (''tunnel_port'', JNum 5220)])
        (data_signingSecret data) (clock h) (cfg_random cfg (draws h)))]"
proof -
  have d: "dispatch_route cfg u port tok rid False hx = (Inr r, h2) \<Longrightarrow>
      sent hx = sent h \<Longrightarrow> clock hx = clock h \<Longrightarrow> draws hx = draws h \<Longrightarrow>
      sockets hx = sockets h \<Longrightarrow> agentUuidToSocketId hx = agentUuidToSocketId h \<Longrightarrow> ?thesis" for u port hx
    using sendToAgent_cases [of cfg u "''tunnel-connect''" "JObj [(''token'', JStr tok), (''service_port'', JNum port),
        (''tunnel_port'', JNum 5220)]" hx] getAgentSocket_cong [of hx h u]
    by (auto simp: dispatch_route_def dispatchToAgent_def Let_def split_beta split: if_splits)
  from assms show ?thesis
    by (auto simp: sendProxyInfo_def Let_def split: option.splits if_splits intro: d)
qed

section \<open>Properties\<close>

lemma uuid_plain:
  assumes "is_uuid tok"
  shows "CHR 0x0A \<notin> set tok" "\<not> starts_with (PRECONNECT_VERB @ '' '') tok"
proof -
  show "CHR 0x0A \<notin> set tok" using is_uuid_char [OF assms] not_hex(3) by auto
  have "CHR ''t'' \<in> set tok" if "starts_with (PRECONNECT_VERB @ '' '') tok"
  proof -
    have "CHR ''t'' \<in> set (take (length (PRECONNECT_VERB @ '' '')) tok)"
      using that by (simp add: starts_with_def PRECONNECT_VERB_def)
    then show ?thesis by (rule in_set_takeD)
  qed
  then show "\<not> starts_with (PRECONNECT_VERB @ '' '') tok" using is_uuid_char [OF assms] not_hex(1) by auto
qed

lemma sendProxyInfo_outcomes:
  "sendProxyInfo cfg sub ws tok rid pooled h = (Inl (TunnelError st o1 m), h1) \<Longrightarrow>
   o1 \<in> {WORKSPACE_NOT_FOUND, SERVICE_NOT_FOUND, SERVICE_BLOCKED, AGENT_NOT_FOUND, AGENT_OFFLINE}
   \<and> (o1 = AGENT_OFFLINE \<longrightarrow> \<not> pooled)"
  by (auto simp: sendProxyInfo_def dispatch_route_def dispatchToAgent_def Let_def split_beta split: option.splits if_splits)

text \<open>C38: the reason the Hub refuses a request for is the reason the client reads, on both questions. When the
  Hub refuses to route a request, be it the first question, which looks for a pooled socket, or the second, which
  tells the agent to open one, the gateway answers the client with the page of exactly the outcome the Hub
  refused with: it survives the exception, the filter, the text of the answer and the reading, and
  neither the guard nor the rules of the body get in the way of a name that was read from a Host
  header. The outcomes the Hub refuses with are the five listed; an offline agent shows only on the second
  question. The tokens the gateway draws are UUIDs for the validation library.\<close>

theorem outcome_reaches_page:
  assumes "map_get (conns g) s = Some c" and "pooled \<Longrightarrow> conn_state c = AskingRoute q"
    and "parseRouteFromHostHeader line = Some (q_service q, q_workspace q)" and "isUUID (conn_token c)"
    and "cfg_text cfg ''TUNNEL_INTERNAL_SECRET'' = Some k" and "k \<noteq> []"
    and "sendProxyInfo cfg (q_service q) (q_workspace q) (conn_token c)
           (connect_request_id (Some (conn_requestId c)) (conn_token c)) pooled h = (Inl (TunnelError st o1 m), h1)"
  shows "ask_route cfg isUUID c q pooled h = (Answer st (Some (tunnel_error_body (TunnelError st o1 m))), h1)
    \<and> (if pooled
       then hub_routed env s (fst (ask_route cfg isUUID c q pooled h)) g = fail env o1 s c q (set_state s Answered g)
       else hub_fallback env s q (fst (ask_route cfg isUUID c q pooled h)) g = fail env o1 s c q g)
    \<and> o1 \<in> {WORKSPACE_NOT_FOUND, SERVICE_NOT_FOUND, SERVICE_BLOCKED, AGENT_NOT_FOUND, AGENT_OFFLINE}
    \<and> (o1 = AGENT_OFFLINE \<longrightarrow> \<not> pooled)"
proof -
  have ask: "ask_route cfg isUUID c q pooled h = (Answer st (Some (tunnel_error_body (TunnelError st o1 m))), h1)"
    using ask_route_eq [where isUUID = isUUID and c = c and pooled = pooled and h = h, OF assms(5,6,3,4)] assms(7) by simp
  have known: "o1 \<noteq> SUCCESS" "\<not> answer_ok st" using sendProxyInfo_error [OF assms(7)] by (auto simp: answer_ok_def)
  have "if pooled then hub_routed env s (fst (ask_route cfg isUUID c q pooled h)) g = fail env o1 s c q (set_state s Answered g)
       else hub_fallback env s q (fst (ask_route cfg isUUID c q pooled h)) g = fail env o1 s c q g"
    unfolding ask fst_conv using known assms(1,2) by (simp add: hub_routed_def hub_fallback_def outcome_read)
  with ask sendProxyInfo_outcomes [OF assms(7)] show ?thesis by blast
qed

text \<open>The sockets that wait for an agent, oldest first, and the line an agent sends on a new socket.\<close>

definition pool_of :: "string \<Rightarrow> gateway \<Rightarrow> nat list" where
  "pool_of u g = (case map_get (pools g) u of None \<Rightarrow> [] | Some (i, pool) \<Rightarrow> pool)"

definition preconnect_line :: "string \<Rightarrow> string \<Rightarrow> string \<Rightarrow> string \<Rightarrow> string" where
  "preconnect_line u tw n sig = js_join '' '' [PRECONNECT_VERB, u, tw, n, sig]"

lemma hex_plain: "hex_text k s \<Longrightarrow> c \<in> set s \<Longrightarrow> is_hex (lower_char c)"
  by (auto simp: hex_text_def js_lower_def list_all_iff)

lemma blank_not_hex: "\<not> is_hex (lower_char (CHR '' ''))" "\<not> is_hex (lower_char (CHR 0x0A))"
  by code_simp+

lemma verb_plain: "CHR '' '' \<notin> set PRECONNECT_VERB" "CHR 0x0A \<notin> set PRECONNECT_VERB"
  by code_simp+

lemma preconnect_line_plain:
  assumes "is_uuid u" "hex_text 32 n" "hex_text 64 sig" "CHR '' '' \<notin> set tw" "CHR 0x0A \<notin> set tw"
  shows "split_on (CHR '' '') (preconnect_line u tw n sig) = [PRECONNECT_VERB, u, tw, n, sig]"
    and "CHR 0x0A \<notin> set (preconnect_line u tw n sig)"
proof -
  have "CHR '' '' \<notin> set u" "CHR '' '' \<notin> set n" "CHR '' '' \<notin> set sig"
    using is_uuid_char [OF assms(1)] hex_plain [OF assms(2)] hex_plain [OF assms(3)] blank_not_hex(1) by auto
  then show "split_on (CHR '' '') (preconnect_line u tw n sig) = [PRECONNECT_VERB, u, tw, n, sig]"
    unfolding preconnect_line_def using assms(4) verb_plain(1) by (subst split_on_join) auto
  have "CHR 0x0A \<notin> set u" "CHR 0x0A \<notin> set n" "CHR 0x0A \<notin> set sig"
    using uuid_plain(1) [OF assms(1)] hex_plain [OF assms(2)] hex_plain [OF assms(3)] blank_not_hex(2) by auto
  then show "CHR 0x0A \<notin> set (preconnect_line u tw n sig)"
    unfolding preconnect_line_def using assms(5) verb_plain(2) by simp
qed

lemma line_asks:
  assumes "state_of s g = Some (FirstLine before)" and "before @ chunk = preconnect_line u tw n sig @ [CHR 0x0A]"
    and "is_uuid u" and "hex_text 32 n" and "hex_text 64 sig" and "js_number_text tw = Some t"
    and "CHR '' '' \<notin> set tw" and "CHR 0x0A \<notin> set tw"
  shows "tunnel_data s chunk g = put (AskVerify s \<lparr>pre_agentUuid = u, pre_timestamp = t, pre_nonce = n, pre_signature = sig\<rparr>)
    (set_state s (Verifying u) g)"
proof -
  note plain = preconnect_line_plain [OF assms(3,4,5,7,8)]
  obtain c where c: "map_get (conns g) s = Some c" "conn_state c = FirstLine before"
    using assms(1) by (auto simp: state_of_def)
  let ?l = "preconnect_line u tw n sig"
  have line: "takeWhile (\<lambda>x. x \<noteq> CHR 0x0A) (?l @ [CHR 0x0A]) = ?l"
    using plain(2) by (subst takeWhile_append2) auto
  have verb: "starts_with (PRECONNECT_VERB @ '' '') ?l" by (simp add: preconnect_line_def starts_with_def)
  have "handlePreconnect s ?l [] g = put (AskVerify s \<lparr>pre_agentUuid = u, pre_timestamp = t, pre_nonce = n, pre_signature = sig\<rparr>)
    (set_state s (Verifying u) g)"
    using assms(3-6) by (simp add: handlePreconnect_def plain(1) word_at_def Let_def)
  then show ?thesis using c verb by (simp add: tunnel_data_def assms(2) line Let_def)
qed

lemma verified_pool:
  assumes "state_of s g = Some (Verifying u)"
  shows "preconnect_verified s (Answer 201 (Some (verify_body VOk))) g =
    (let i = (case map_get (pools g) u of None \<Rightarrow> nextPool g | Some (i, pool) \<Rightarrow> i);
         g1 = (if map_get (pools g) u = None then g\<lparr>nextPool := Suc (nextPool g)\<rparr> else g)
     in if length (pool_of u g) < 16
        then put (Write s (''PRE:OK'' @ [CHR 0x0A])) (set_state s (InPool u i [])
          (g1\<lparr>pools := map_set (pools g) u (i, pool_of u g @ [s])\<rparr>))
        else reject s ''pool_full'' g1)"
    and "preconnect_verified s (Answer 201 (Some (verify_body (VFail f)))) g = reject s (failure_name f) g"
  using assms by (auto simp: preconnect_verified_def verify_read pool_of_def MAX_POOL_PER_AGENT_def not_less
      Let_def split: option.split)

lemma reject_frame:
  "pools (reject s x g) = pools g" "outputs (reject s x g) = outputs g @ [EndWith s (''PRE:ERR '' @ x @ [CHR 0x0A])]"
  "state_of s g \<noteq> None \<Longrightarrow> state_of s (reject s x g) = Some Answered"
  by (auto simp: reject_def state_of_def)

text \<open>C37: an agent gets a socket into its pool exactly if the Hub verified its line. The first line of a new
  socket, well formed, makes the gateway ask the Hub about exactly the words of that line. Whatever has happened by
  the time of the answer, while the socket still waits for it: if the Hub's check of these words succeeds and the
  pool of the agent the line names has room, the socket is appended to that pool, from which the requests for this
  agent are served, and is told so; otherwise no pool changes and the socket is ended with the
  name of the reason. The pools of other agents stay as they are in both cases. The uuids the
  gateway lets pass are UUIDs for the validation library.\<close>

theorem pool_admits_verified:
  assumes "state_of s g0 = Some (FirstLine before)" and "before @ chunk = preconnect_line u tw n sig @ [CHR 0x0A]"
    and "is_uuid u" and "hex_text 32 n" and "hex_text 64 sig" and "js_number_text tw = Some t"
    and "CHR '' '' \<notin> set tw" and "CHR 0x0A \<notin> set tw"
    and "isUUID u" and "cfg_text cfg ''TUNNEL_INTERNAL_SECRET'' = Some k" and "k \<noteq> []"
    and "state_of s g = Some (Verifying u)"
  shows "let r = \<lparr>pre_agentUuid = u, pre_timestamp = t, pre_nonce = n, pre_signature = sig\<rparr>;
             g1 = tunnel_data s chunk g0;
             result = fst (verifyPreconnect cfg r h);
             g2 = preconnect_verified s (fst (ask_verify cfg isUUID r h)) g
         in outputs g1 = outputs g0 @ [AskVerify s r] \<and> state_of s g1 = Some (Verifying u)
          \<and> (if result = VOk \<and> length (pool_of u g) < 16
             then (\<exists>i. map_get (pools g2) u = Some (i, pool_of u g @ [s]) \<and> state_of s g2 = Some (InPool u i []))
               \<and> outputs g2 = outputs g @ [Write s (''PRE:OK'' @ [CHR 0x0A])]
             else pools g2 = pools g \<and> state_of s g2 = Some Answered
               \<and> outputs g2 = outputs g @ [EndWith s (''PRE:ERR ''
                   @ (case result of VOk \<Rightarrow> ''pool_full'' | VFail f \<Rightarrow> failure_name f) @ [CHR 0x0A])])
          \<and> (\<forall>w. w \<noteq> u \<longrightarrow> map_get (pools g2) w = map_get (pools g) w)"
proof -
  define r where "r = \<lparr>pre_agentUuid = u, pre_timestamp = t, pre_nonce = n, pre_signature = sig\<rparr>"
  define result where "result = fst (verifyPreconnect cfg r h)"
  have "tunnel_data s chunk g0 = put (AskVerify s r) (set_state s (Verifying u) g0)"
    unfolding r_def by (rule line_asks [OF assms(1-8)])
  then have asked: "outputs (tunnel_data s chunk g0) = outputs g0 @ [AskVerify s r]"
    "state_of s (tunnel_data s chunk g0) = Some (Verifying u)" using assms(1) by (auto simp: state_of_def)
  have "preconnect_body_ok isUUID r" using assms(4,5,9) by (simp add: preconnect_body_ok_def r_def)
  then have ask: "fst (ask_verify cfg isUUID r h) = Answer 201 (Some (verify_body result))"
    using guard_passes [OF assms(10,11)]
    by (simp add: ask_verify_def tunnel_preconnect_def over_http_storable storable_bodies result_def split_beta)
  let ?g2 = "preconnect_verified s (fst (ask_verify cfg isUUID r h)) g"
  have answered: "(if result = VOk \<and> length (pool_of u g) < 16
      then (\<exists>i. map_get (pools ?g2) u = Some (i, pool_of u g @ [s]) \<and> state_of s ?g2 = Some (InPool u i []))
        \<and> outputs ?g2 = outputs g @ [Write s (''PRE:OK'' @ [CHR 0x0A])]
      else pools ?g2 = pools g \<and> state_of s ?g2 = Some Answered
        \<and> outputs ?g2 = outputs g @ [EndWith s (''PRE:ERR ''
            @ (case result of VOk \<Rightarrow> ''pool_full'' | VFail f \<Rightarrow> failure_name f) @ [CHR 0x0A])])
    \<and> (\<forall>w. w \<noteq> u \<longrightarrow> map_get (pools ?g2) w = map_get (pools g) w)"
  proof (cases result)
    case VOk
    obtain c where c: "map_get (conns g) s = Some c" using assms(12) by (auto simp: state_of_def)
    note eq = VOk ask [unfolded VOk] verified_pool(1) [OF assms(12), unfolded Let_def]
    show ?thesis
    proof (cases "length (pool_of u g) < 16")
      case True
      then show ?thesis using c
        by (simp add: eq state_of_def set_state_def put_def split: option.split)
    next
      case False
      then show ?thesis using c by (simp add: eq reject_def state_of_def set_state_def put_def)
    qed
  next
    case (VFail f)
    then show ?thesis using assms(12) by (simp add: ask verified_pool(2) reject_frame)
  qed
  show ?thesis unfolding r_def [symmetric] Let_def using asked answered unfolding result_def by blast
qed

text \<open>C36: a request meets its agent. Take a request whose pool is empty, and let the Hub route both of its
  questions. The second answer has told the agent, on the agent's own socket and signed with its secret,
  to open a tunnel with the request's token to the port of the endpoint; and as soon as a new socket
  brings this token, it is joined to the client, after the bytes of the request were written to it.\<close>

theorem request_meets_agent:
  assumes "map_get (conns g) s = Some c" and "conn_state c = AskingRoute q" and "is_uuid (conn_token c)"
    and "parseRouteFromHostHeader line = Some (q_service q, q_workspace q)" and "isUUID (conn_token c)"
    and "cfg_text cfg ''TUNNEL_INTERNAL_SECRET'' = Some k" and "k \<noteq> []"
    and "sendProxyInfo cfg (q_service q) (q_workspace q) (conn_token c)
           (connect_request_id (Some (conn_requestId c)) (conn_token c)) True h = (Inr r, h1)"
    and "fst (claimPreconnected (pr_agent_uuid r) g) = None"
    and "sendProxyInfo cfg (q_service q) (q_workspace q) (conn_token c)
           (connect_request_id (Some (conn_requestId c)) (conn_token c)) False h2 = (Inr r2, h3)"
    and "map_get (conns g) a = None"
  shows "snd (ask_route cfg isUUID c q False h2) = h3
    \<and> (\<exists>sock data. getAgentSocket (pr_agent_uuid r2) h2 = Some (sock, data)
         \<and> sent h3 = sent h2 @ [AgentEmit sock ''tunnel-connect'' (sign (cfg_hmac cfg) ''tunnel-connect''
             (JObj [(''token'', JStr (conn_token c)), (''service_port'', JNum (pr_service_port r2)),
                    (''tunnel_port'', JNum 5220)])
             (data_signingSecret data) (clock h2) (cfg_random cfg (draws h2)))])
    \<and> outputs (fold (gateway_step env) [Routed s (fst (ask_route cfg isUUID c q True h)),
          FallbackAnswered s q (fst (ask_route cfg isUUID c q False h2)),
          AcceptAgent a, AgentData a (conn_token c @ [CHR 0x0A])] g)
      = outputs g @ [AskHub s False, Write s [], Write a (q_buffer q), Join s a]"
proof -
  note reg = hub_routed_registers [OF assms(1,2,9), where env = env]
  have ask1: "fst (ask_route cfg isUUID c q True h) = Answer 201 (Some (proxy_reply_body r))"
    using ask_route_eq [where isUUID = isUUID and c = c and pooled = True and h = h, OF assms(6,7,4,5)] assms(8) by simp
  have ask2: "ask_route cfg isUUID c q False h2 = (Answer 201 (Some (proxy_reply_body r2)), h3)"
    using ask_route_eq [where isUUID = isUUID and c = c and pooled = False and h = h2, OF assms(6,7,4,5)] assms(10) by simp
  let ?g1 = "hub_routed env s (Answer 201 (Some (proxy_reply_body r))) g"
  from reg(1) obtain i where e: "map_get (localClientSocket ?g1) (conn_token c)
      = Some \<lparr>e_socket = s, e_rest = q_buffer q, e_timer = i\<rparr>" by blast
  have "a \<noteq> s" using assms(1,11) by auto
  then have a: "map_get (conns ?g1) a = None" using reg(4) assms(11) by simp
  show ?thesis
    using dispatched_message [OF assms(10)] agent_joins [OF e a uuid_plain [OF assms(3)], of "[]"] reg(2)
    by (simp add: ask1 ask2 fallback_accepted)
qed

section \<open>Examples\<close>

lemma second_answer:
  assumes "fst (sendProxyInfo cfg sub ws tok rid True h) = Inr r"
    and "getAgentSocket (pr_agent_uuid r) h = Some (sock, d)" and "\<not> falsy (data_signingSecret d)"
  shows "fst (sendProxyInfo cfg sub ws tok rid False h) = Inr r"
proof -
  have d: "fst (dispatch_route cfg u port tok rid True hx) = Inr r \<Longrightarrow> sockets hx = sockets h \<Longrightarrow>
      agentUuidToSocketId hx = agentUuidToSocketId h \<Longrightarrow> fst (dispatch_route cfg u port tok rid False hx) = Inr r"
    for u port hx
    using assms(2,3) getAgentSocket_cong [of hx h u]
    by (auto simp: dispatch_route_def dispatchToAgent_def Let_def split_beta sendToAgent_True_iff)
  from assms(1) show ?thesis
    by (auto simp: sendProxyInfo_def Let_def split: option.splits if_splits intro: d)
qed

lemma pair_by_fst: "fst x = y \<Longrightarrow> x = (y, snd x)"
  by (cases x) simp

definition tunnel_env :: gateway_env where
  "tunnel_env = example_env\<lparr>env_uuid := (\<lambda>n. example_uuid)\<rparr>"

definition asking :: gateway where
  "asking = proxy_run tunnel_env [AcceptClient 2, ClientData 2 example_get]"

definition asking_request :: request_info where
  "asking_request = \<lparr>q_host = ''www.acme.optics.run'', q_service = ''www'', q_workspace = ''acme'', q_ray = ''-'',
     q_buffer = ''GET / HTTP/1.1'' @ crlf @ ''Host: www.acme.optics.run'' @ crlf @ ''x-request-id: opt_0'' @ crlf @ crlf\<rparr>"

definition asking_conn :: conn where
  "asking_conn = \<lparr>conn_token = example_uuid, conn_requestId = ''opt_0'', conn_state = AskingRoute asking_request\<rparr>"

lemma asking_facts:
  "map_get (conns asking) 2 = Some asking_conn" "conn_state asking_conn = AskingRoute asking_request"
  "is_uuid (conn_token asking_conn)"
  "parseRouteFromHostHeader ''Host: www.acme.optics.run'' = Some (q_service asking_request, q_workspace asking_request)"
  "cfg_text example_config ''TUNNEL_INTERNAL_SECRET'' = Some ''1h''" "''1h'' \<noteq> []"
  by code_simp+

text \<open>The agent's socket is gone: the second question finds it offline.\<close>

definition offline_hub :: hub where
  "offline_hub = published_hub\<lparr>sockets := [], agentUuidToSocketId := []\<rparr>"

lemma outcome_reaches_page_witness:
  "hub_routed tunnel_env 2 (fst (ask_route example_config is_uuid asking_conn asking_request True owner_hub)) asking
     = fail tunnel_env SERVICE_NOT_FOUND 2 asking_conn asking_request (set_state 2 Answered asking)
   \<and> hub_fallback tunnel_env 2 asking_request
        (fst (ask_route example_config is_uuid asking_conn asking_request False offline_hub)) asking
     = fail tunnel_env AGENT_OFFLINE 2 asking_conn asking_request asking"
proof
  let ?op = "\<lambda>pooled. sendProxyInfo example_config (q_service asking_request) (q_workspace asking_request)
    (conn_token asking_conn) (connect_request_id (Some (conn_requestId asking_conn)) (conn_token asking_conn)) pooled"
  note asks = outcome_reaches_page [where isUUID = is_uuid, OF asking_facts(1) _ asking_facts(4,3,5,6), where env = tunnel_env]
  have "fst (?op True owner_hub) = Inl (TunnelError 404 SERVICE_NOT_FOUND ''Service not found'')" by code_simp
  from asks [OF asking_facts(2) this [THEN pair_by_fst], unfolded if_True if_False]
  show "hub_routed tunnel_env 2 (fst (ask_route example_config is_uuid asking_conn asking_request True owner_hub)) asking
     = fail tunnel_env SERVICE_NOT_FOUND 2 asking_conn asking_request (set_state 2 Answered asking)" by blast
  have "fst (?op False offline_hub) = Inl (TunnelError 503 AGENT_OFFLINE ''Agent is probably offline'')" by code_simp
  from asks [OF asking_facts(2) this [THEN pair_by_fst], unfolded if_True if_False]
  show "hub_fallback tunnel_env 2 asking_request
      (fst (ask_route example_config is_uuid asking_conn asking_request False offline_hub)) asking
    = fail tunnel_env AGENT_OFFLINE 2 asking_conn asking_request asking" by blast
qed

definition connecting :: gateway where
  "connecting = proxy_run tunnel_env [AcceptAgent 1]"

definition verifying :: gateway where
  "verifying = proxy_run tunnel_env (take 2 pool_events)"

text \<open>An agent that holds the secret of its row; the code over the line is the constant one.\<close>

definition line_config :: config where
  "line_config = example_config\<lparr>cfg_hmac := (\<lambda>k m. replicate 64 (CHR ''b''))\<rparr>"

definition line_hub :: hub where
  "line_hub = owner_hub\<lparr>agents := [example_agent\<lparr>agent_uuid := example_uuid\<rparr>], clock := 5\<rparr>"

lemma pool_admits_verified_witness:
  "let r = \<lparr>pre_agentUuid = example_uuid, pre_timestamp = 5, pre_nonce = replicate 32 (CHR ''a''),
         pre_signature = replicate 64 (CHR ''b'')\<rparr>;
       ok = preconnect_verified 1 (fst (ask_verify line_config is_uuid r line_hub)) verifying;
       bad = preconnect_verified 1 (fst (ask_verify line_config is_uuid r owner_hub)) verifying
   in outputs (tunnel_data 1 (preconnect_line example_uuid ''5'' (pre_nonce r) (pre_signature r) @ [CHR 0x0A]) connecting)
        = outputs connecting @ [AskVerify 1 r]
      \<and> (\<exists>i. map_get (pools ok) example_uuid = Some (i, [1]))
      \<and> outputs bad = outputs verifying @ [EndWith 1 (''PRE:ERR no_secret'' @ [CHR 0x0A])]"
proof -
  let ?n = "replicate 32 (CHR ''a'')" and ?sig = "replicate 64 (CHR ''b'')"
  let ?r = "\<lparr>pre_agentUuid = example_uuid, pre_timestamp = 5, pre_nonce = ?n, pre_signature = ?sig\<rparr>"
  have "state_of 1 connecting = Some (FirstLine [])" "[] @ (preconnect_line example_uuid ''5'' ?n ?sig @ [CHR 0x0A])
      = preconnect_line example_uuid ''5'' ?n ?sig @ [CHR 0x0A]"
    "is_uuid example_uuid" "hex_text 32 ?n" "hex_text 64 ?sig" "js_number_text ''5'' = Some 5"
    "CHR '' '' \<notin> set ''5''" "CHR 0x0A \<notin> set ''5''" "is_uuid example_uuid"
    by code_simp+
  note line = this
  have "cfg_text line_config ''TUNNEL_INTERNAL_SECRET'' = Some ''1h''" "''1h'' \<noteq> []"
    "state_of 1 verifying = Some (Verifying example_uuid)" by code_simp+
  note found = pool_admits_verified [where isUUID = is_uuid, OF line this, unfolded Let_def]
  have "fst (verifyPreconnect line_config ?r line_hub) = VOk" "fst (verifyPreconnect line_config ?r owner_hub) = VFail NO_SECRET"
    "pool_of example_uuid verifying = []" by code_simp+
  then show ?thesis using found [where h = line_hub] found [where h = owner_hub] by (auto simp: Let_def)
qed

lemma request_meets_agent_witness:
  "outputs (fold (gateway_step tunnel_env) [Routed 2 (fst (ask_route example_config is_uuid asking_conn asking_request True published_hub)),
       FallbackAnswered 2 asking_request (fst (ask_route example_config is_uuid asking_conn asking_request False published_hub)),
       AcceptAgent 3, AgentData 3 (conn_token asking_conn @ [CHR 0x0A])] asking)
     = outputs asking @ [AskHub 2 False, Write 2 [], Write 3 (q_buffer asking_request), Join 2 3]"
proof -
  let ?r = "\<lparr>pr_outcome = SUCCESS, pr_request_id = example_uuid, pr_agent_uuid = ''a1'', pr_service_port = 3000\<rparr>"
  let ?op = "\<lambda>pooled. sendProxyInfo example_config (q_service asking_request) (q_workspace asking_request)
    (conn_token asking_conn) (connect_request_id (Some (conn_requestId asking_conn)) (conn_token asking_conn)) pooled published_hub"
  have 1: "fst (?op True) = Inr ?r" by code_simp
  obtain sock d where "getAgentSocket ''a1'' published_hub = Some (sock, d)" "\<not> falsy (data_signingSecret d)"
  proof -
    have "map_option (\<lambda>(sock, d). falsy (data_signingSecret d)) (getAgentSocket ''a1'' published_hub) = Some False"
      by code_simp
    then show thesis using that by auto
  qed
  then have "fst (?op False) = Inr ?r" by (intro second_answer [OF 1]) simp_all
  note op = pair_by_fst [OF 1] pair_by_fst [OF this]
  have pool: "fst (claimPreconnected (pr_agent_uuid ?r) asking) = None" "map_get (conns asking) 3 = None"
    by code_simp+
  from request_meets_agent [where isUUID = is_uuid, OF asking_facts(1,2,3,4,3,5,6) op(1) pool(1) op(2) pool(2), where env = tunnel_env]
  show ?thesis by blast
qed

end
