(* ===== verification/Races.thy ===== *)
theory Races
  imports AccountRules AgentUpdate
begin

text \<open>
  Handlers that wait. Between two waits a handler is one step; while it waits, for the database or for
  GitHub, other handlers run. Three handlers check something, wait, and then rely on it: the opening of a
  terminal (\<open>src/agent/console.gateway.ts\<close>), a login with a one-time password (\<open>src/auth/auth.service.ts\<close>,
  \<open>src/auth/2fa.service.ts\<close>) and the request of an update (\<open>src/agent/agent-update.service.ts\<close>). For each,
  the steps in sequence are the handler of its own theory; here any number of them overlap.
\<close>

section \<open>Opening terminals\<close>

text \<open>An opening that has passed its checks; \<open>op_access\<close> is the answer of the database, once it is there.\<close>

record pending_open =
  op_client :: string
  op_payload :: jval
  op_claims :: claims
  op_access :: "bool option"

record terminal_world =
  tw_hub :: hub
  tw_openings :: "(nat, pending_open) jsmap"
  tw_log :: "(string option \<times> ack) list"

datatype terminal_event =
    OpenArrives nat string jval
  | AccessAnswered nat
  | OpenContinues nat
  | TokenForgotten string
  | Elsewhere hub

definition log_opening :: "jval \<Rightarrow> ack \<Rightarrow> terminal_world \<Rightarrow> terminal_world" where
  "log_opening payload a w = w\<lparr>tw_log := tw_log w @ [(str_field ''token'' payload, a)]\<rparr>"

text \<open>\<open>Elsewhere\<close> is any other step of the Hub: it leaves the used tokens alone and the clock does not run
  backwards.\<close>

fun terminal_step :: "config \<Rightarrow> terminal_event \<Rightarrow> terminal_world \<Rightarrow> terminal_world" where
  "terminal_step cfg (OpenArrives i clientId payload) w =
     (if map_get (tw_openings w) i \<noteq> None then w
      else case terminal_open_begin cfg clientId payload (tw_hub w) of
        Inl a \<Rightarrow> log_opening payload a w
      | Inr t \<Rightarrow> w\<lparr>tw_openings := map_set (tw_openings w) i
          \<lparr>op_client = clientId, op_payload = payload, op_claims = t, op_access = None\<rparr>\<rparr>)"
| "terminal_step cfg (AccessAnswered i) w =
     (case map_get (tw_openings w) i of
        None \<Rightarrow> w
      | Some p \<Rightarrow>
          if op_access p \<noteq> None then w
          else w\<lparr>tw_openings := map_set (tw_openings w) i
            (p\<lparr>op_access := Some (canAccessAgent (op_client p) (cl_agentUuid (op_claims p)) None (tw_hub w))\<rparr>)\<rparr>)"
| "terminal_step cfg (OpenContinues i) w =
     (case map_get (tw_openings w) i of
        None \<Rightarrow> w
      | Some p \<Rightarrow>
          (case op_access p of
             None \<Rightarrow> w
           | Some ok \<Rightarrow>
               (case terminal_open_end cfg (op_client p) (op_payload p) (op_claims p) ok (tw_hub w) of
                  (a, h) \<Rightarrow> log_opening (op_payload p) a
                    (w\<lparr>tw_hub := h, tw_openings := map_delete (tw_openings w) i\<rparr>))))"
| "terminal_step cfg (TokenForgotten jti) w = w\<lparr>tw_hub := fireTokenTimer jti (tw_hub w)\<rparr>"
| "terminal_step cfg (Elsewhere h) w =
     (if consumedTerminalTokens h = consumedTerminalTokens (tw_hub w) \<and> clock (tw_hub w) \<le> clock h
      then w\<lparr>tw_hub := h\<rparr> else w)"

definition terminal_steps :: "config \<Rightarrow> terminal_event list \<Rightarrow> terminal_world \<Rightarrow> terminal_world" where
  "terminal_steps cfg evs w = fold (terminal_step cfg) evs w"

lemma terminal_steps_simps [simp]:
  "terminal_steps cfg [] w = w" "terminal_steps cfg (e # es) w = terminal_steps cfg es (terminal_step cfg e w)"
  "terminal_steps cfg (es @ fs) w = terminal_steps cfg fs (terminal_steps cfg es w)"
  by (simp_all add: terminal_steps_def)

definition quiet_terminals :: "hub \<Rightarrow> terminal_world" where
  "quiet_terminals h = \<lparr>tw_hub = h, tw_openings = [], tw_log = []\<rparr>"

text \<open>An opening that nothing overlaps is the handler.\<close>

lemma opening_alone:
  assumes "handleTerminalOpen cfg c p h = (a, h2)"
  shows "terminal_steps cfg [OpenArrives i c p, AccessAnswered i, OpenContinues i] (quiet_terminals h)
    = (quiet_terminals h2)\<lparr>tw_log := [(str_field ''token'' p, a)]\<rparr>"
  using assms
  by (cases "terminal_open_begin cfg c p h")
    (auto simp: handleTerminalOpen_def quiet_terminals_def log_opening_def map_set_def map_delete_def map_get_def)

subsection \<open>Tokens in overlapping openings\<close>

lemma begin_Inr:
  assumes "terminal_open_begin cfg c p h = Inr t"
  obtains tok j where "str_field ''token'' p = Some tok" "cfg_verifyJwt cfg tok (clock h) = Some t"
    "cl_jti t = Some j" "map_get (consumedTerminalTokens h) j = None"
  using assms by (auto simp: terminal_open_begin_def verifyPurposeToken_Inr falsy_def
      split: option.splits sum.splits if_splits)

lemma end_frame:
  assumes "terminal_open_end cfg c p t ok h = (a, h2)"
  shows "clock h2 = clock h" and "sockets h2 = sockets h" "agentUuidToSocketId h2 = agentUuidToSocketId h"
    and "consumedTerminalTokens h2 = (if ok then map_set (consumedTerminalTokens h) (the (cl_jti t))
      (clock h + tokenLifetimeMs (cl_exp t) (clock h)) else consumedTerminalTokens h)"
  using assms by (auto simp: terminal_open_end_def draw_def Let_def split_beta split: if_splits)

lemma end_Ok:
  "(\<exists>s. fst (terminal_open_end cfg c p t ok h) = AckOk s) \<longleftrightarrow>
     ok \<and> (\<exists>sid s. getAgentSocket (the (cl_agentUuid t)) h = Some (sid, s) \<and> \<not> falsy (data_signingSecret s))"
proof -
  have "getAgentSocket u (h\<lparr>draws := d, consumedTerminalTokens := x, terminalSessions := y\<rparr>) = getAgentSocket u h" for u d x y
    by (rule getAgentSocket_cong) simp_all
  then show ?thesis
    by (auto simp: terminal_open_end_def draw_def Let_def split_beta sendToAgent_True_iff)
qed

text \<open>The claims of an opening are those its token had when it was verified.\<close>

definition genuine :: "config \<Rightarrow> terminal_world \<Rightarrow> bool" where
  "genuine cfg w \<longleftrightarrow> (\<forall>(i, p)\<in>set (tw_openings w). \<exists>tok now j. str_field ''token'' (op_payload p) = Some tok
     \<and> cfg_verifyJwt cfg tok now = Some (op_claims p) \<and> cl_jti (op_claims p) = Some j)"

lemma set_map_delete: "x \<in> set (map_delete m k) \<Longrightarrow> x \<in> set m"
  by (auto simp: map_delete_def AList.delete_eq)

lemma genuine_step: "genuine cfg w \<Longrightarrow> genuine cfg (terminal_step cfg ev w)"
proof (induction cfg ev w rule: terminal_step.induct)
  case (1 cfg i c p w)
  show ?case
  proof (cases "terminal_open_begin cfg c p (tw_hub w)")
    case (Inr t)
    with 1 show ?thesis
      by (auto simp: genuine_def elim!: begin_Inr dest!: set_map_set)
  qed (use 1 in \<open>auto simp: genuine_def log_opening_def\<close>)
next
  case (2 cfg i w)
  then show ?case
    by (fastforce simp: genuine_def dest!: set_map_set dest: map_get_SomeD split: option.split)
next
  case (3 cfg i w)
  then show ?case
    by (auto simp: genuine_def log_opening_def dest: set_map_delete split: option.split prod.split)
qed (auto simp: genuine_def)

lemma genuine_steps: "genuine cfg w \<Longrightarrow> genuine cfg (terminal_steps cfg evs w)"
  by (induction evs arbitrary: w) (simp_all add: genuine_step)

lemma genuine_quiet: "genuine cfg (quiet_terminals h)"
  by (simp add: genuine_def quiet_terminals_def)

text \<open>No opening with this token waits.\<close>

definition none_waits :: "string \<Rightarrow> terminal_world \<Rightarrow> bool" where
  "none_waits tok w \<longleftrightarrow> (\<forall>(i, p)\<in>set (tw_openings w). str_field ''token'' (op_payload p) \<noteq> Some tok)"

text \<open>What verification promises of one token: its claims do not change, it is refused once it has expired,
  and no other token has its id.\<close>

definition token_ok :: "config \<Rightarrow> string \<Rightarrow> claims \<Rightarrow> string \<Rightarrow> int \<Rightarrow> bool" where
  "token_ok cfg tok t jti e \<longleftrightarrow>
     (\<forall>now c. cfg_verifyJwt cfg tok now = Some c \<longrightarrow> c = t \<and> now < e * 1000)
     \<and> cl_exp t = Some e \<and> cl_jti t = Some jti
     \<and> (\<forall>tk now c. cfg_verifyJwt cfg tk now = Some c \<longrightarrow> cl_jti c = Some jti \<longrightarrow> tk = tok)"

lemma token_okD:
  assumes "token_ok cfg tok t jti e"
  shows "cfg_verifyJwt cfg tok now = Some c \<Longrightarrow> c = t" "cfg_verifyJwt cfg tok now = Some c \<Longrightarrow> now < e * 1000"
    "cl_exp t = Some e" "cl_jti t = Some jti"
    "cfg_verifyJwt cfg tk now = Some c \<Longrightarrow> cl_jti c = Some jti \<Longrightarrow> tk = tok"
  using assms unfolding token_ok_def by blast+

lemma burnt_refuses:
  assumes "token_ok cfg tok t jti e" and "burnt jti (e * 1000) h" and "str_field ''token'' p = Some tok"
  shows "\<exists>m. terminal_open_begin cfg c p h = Inl (AckError m)"
proof (cases "terminal_open_begin cfg c p h")
  case (Inl a)
  then show ?thesis by (auto simp: terminal_open_begin_def split: option.splits sum.splits if_splits)
next
  case (Inr u)
  then obtain tk j where b: "str_field ''token'' p = Some tk" "cfg_verifyJwt cfg tk (clock h) = Some u"
      "cl_jti u = Some j" "map_get (consumedTerminalTokens h) j = None"
    by (rule begin_Inr)
  with assms(3) have "cfg_verifyJwt cfg tok (clock h) = Some u" by simp
  note u = token_okD(1,2) [OF assms(1) this] and id = token_okD(4) [OF assms(1)]
  have "clock h < e * 1000" "j = jti" using u id b(3) by simp_all
  with assms(2) b(4) have False by (auto simp: burnt_def)
  then show ?thesis by blast
qed

lemma burnt_step:
  assumes tk: "token_ok cfg tok t jti e"
    and "genuine cfg w" and "burnt jti (e * 1000) (tw_hub w)" and "none_waits tok w"
  shows "burnt jti (e * 1000) (tw_hub (terminal_step cfg ev w)) \<and> none_waits tok (terminal_step cfg ev w)
    \<and> opened tok (tw_log (terminal_step cfg ev w)) = opened tok (tw_log w)"
proof (cases ev)
  case (OpenArrives i c p)
  show ?thesis
  proof (cases "str_field ''token'' p = Some tok")
    case True
    with burnt_refuses [OF tk assms(3), of p c] assms show ?thesis
      by (auto simp: OpenArrives log_opening_def none_waits_def)
  next
    case False
    with assms show ?thesis
      by (auto simp: OpenArrives log_opening_def none_waits_def dest!: set_map_set split: sum.split)
  qed
next
  case (AccessAnswered i)
  with assms show ?thesis
    by (fastforce simp: none_waits_def dest!: set_map_set dest: map_get_SomeD split: option.split)
next
  case (OpenContinues i)
  show ?thesis
  proof (cases "\<exists>p ok. map_get (tw_openings w) i = Some p \<and> op_access p = Some ok")
    case True
    then obtain p ok where p: "map_get (tw_openings w) i = Some p" "op_access p = Some ok" by blast
    obtain a h where r: "terminal_open_end cfg (op_client p) (op_payload p) (op_claims p) ok (tw_hub w) = (a, h)"
      by force
    have mem: "(i, p) \<in> set (tw_openings w)" using p(1) by (rule map_get_SomeD)
    with assms(4) have other: "str_field ''token'' (op_payload p) \<noteq> Some tok" by (auto simp: none_waits_def)
    from mem assms(2) obtain tk now j where r2: "str_field ''token'' (op_payload p) = Some tk"
      "cfg_verifyJwt cfg tk now = Some (op_claims p)" "cl_jti (op_claims p) = Some j"
      by (fastforce simp: genuine_def)
    have "j \<noteq> jti" using token_okD(5) [OF tk r2(2)] r2(1,3) other by auto
    with end_frame [OF r] r2(3) assms(3) have "burnt jti (e * 1000) h"
      by (auto simp: burnt_def split: if_splits)
    with other assms(4) show ?thesis
      by (auto simp: OpenContinues p r log_opening_def none_waits_def dest: set_map_delete)
  next
    case False
    with assms show ?thesis by (auto simp: OpenContinues split: option.split)
  qed
next
  case (TokenForgotten j)
  with assms show ?thesis by (auto simp: burnt_timer none_waits_def)
next
  case (Elsewhere h)
  with assms show ?thesis by (auto simp: burnt_def none_waits_def)
qed

lemma burnt_steps:
  assumes tk: "token_ok cfg tok t jti e"
    and "genuine cfg w" and "burnt jti (e * 1000) (tw_hub w)" and "none_waits tok w"
  shows "opened tok (tw_log (terminal_steps cfg evs w)) = opened tok (tw_log w)"
  using assms(2-4)
proof (induction evs arbitrary: w)
  case (Cons ev evs)
  from burnt_step [OF tk Cons.prems, of ev] genuine_step [OF Cons.prems(1), of ev] Cons.IH show ?case by simp
qed simp

lemma opened_burns:
  assumes tk: "token_ok cfg tok t jti e"
    and "genuine cfg w" and "map_get (tw_openings w) i = Some p" and "str_field ''token'' (op_payload p) = Some tok"
    and "tw_log (terminal_step cfg (OpenContinues i) w) = tw_log w @ [(Some tok, AckOk s)]"
  shows "burnt jti (e * 1000) (tw_hub (terminal_step cfg (OpenContinues i) w))"
proof -
  from assms(5) obtain ok where ok: "op_access p = Some ok"
    by (cases "op_access p") (auto simp: assms(3))
  obtain a h where r: "terminal_open_end cfg (op_client p) (op_payload p) (op_claims p) ok (tw_hub w) = (a, h)"
    by force
  from assms(5) have "a = AckOk s" by (simp add: assms(3) ok r log_opening_def)
  with end_Ok [of cfg "op_client p" "op_payload p" "op_claims p" ok "tw_hub w"] r have ok2: "ok" by auto
  from map_get_SomeD [OF assms(3)] assms(2,4) obtain now where "cfg_verifyJwt cfg tok now = Some (op_claims p)"
    by (fastforce simp: genuine_def)
  then have "op_claims p = t" by (rule token_okD(1) [OF tk])
  with end_frame(4) [OF r] ok2 token_okD(3,4) [OF tk] lifetime_covers [of e "clock (tw_hub w)"]
  have "burnt jti (e * 1000) h" by (auto simp: burnt_def)
  then show ?thesis by (simp add: assms(3) ok r log_opening_def)
qed

text \<open>C11: a used terminal token stays used. However openings, timers and the rest of the Hub are
  interleaved, once a token has opened a terminal, and no opening that passed its checks earlier still
  waits with the same token, the token opens no further terminal.\<close>

theorem token_reuse_needs_overlap:
  assumes "token_ok cfg tok t jti e"
    and "w = terminal_steps cfg earlier (quiet_terminals h)"
    and "map_get (tw_openings w) i = Some p" and "str_field ''token'' (op_payload p) = Some tok"
    and "w2 = terminal_step cfg (OpenContinues i) w" and "tw_log w2 = tw_log w @ [(Some tok, AckOk s)]"
    and "none_waits tok w2"
  shows "opened tok (tw_log (terminal_steps cfg later w2)) = opened tok (tw_log w2)"
proof -
  have g: "genuine cfg w" unfolding assms(2) by (rule genuine_steps [OF genuine_quiet])
  have "burnt jti (e * 1000) (tw_hub w2)"
    unfolding assms(5) by (rule opened_burns [OF assms(1) g assms(3,4)]) (use assms(5,6) in simp)
  moreover have "genuine cfg w2" unfolding assms(5) by (rule genuine_step [OF g])
  ultimately show ?thesis using burnt_steps [OF assms(1)] assms(7) by blast
qed

text \<open>C12: one token can open two terminals. Whenever the handler would open a terminal, two messages with
  the same token that overlap, each past its checks before the other continues, open two: the token is
  checked before the wait for the database and used up after it.\<close>

theorem one_token_two_terminals:
  assumes "handleTerminalOpen cfg c p h = (AckOk s, h2)" and "i \<noteq> k"
  shows "\<exists>s2. tw_log (terminal_steps cfg
      [OpenArrives i c p, OpenArrives k c p, AccessAnswered i, AccessAnswered k, OpenContinues i, OpenContinues k]
      (quiet_terminals h)) = [(str_field ''token'' p, AckOk s), (str_field ''token'' p, AckOk s2)]"
proof -
  from assms(1) obtain t where t: "terminal_open_begin cfg c p h = Inr t"
    by (auto simp: handleTerminalOpen_def terminal_open_begin_def split: sum.splits option.splits if_splits)
  let ?ok = "canAccessAgent c (cl_agentUuid t) None h"
  have e1: "terminal_open_end cfg c p t ?ok h = (AckOk s, h2)"
    using assms(1) t by (simp add: handleTerminalOpen_def)
  from end_frame(2,3) [OF e1] have "getAgentSocket u h2 = getAgentSocket u h" for u
    by (intro getAgentSocket_cong)
  with end_Ok [of cfg c p t ?ok h] end_Ok [of cfg c p t ?ok h2] e1
  obtain s2 where "fst (terminal_open_end cfg c p t ?ok h2) = AckOk s2" by auto
  then obtain h3 where e2: "terminal_open_end cfg c p t ?ok h2 = (AckOk s2, h3)"
    by (cases "terminal_open_end cfg c p t ?ok h2") simp
  show ?thesis using t e1 e2 assms(2)
    by (simp add: quiet_terminals_def log_opening_def)
qed

lemma one_token_two_terminals_witness:
  "\<exists>s2. tw_log (terminal_steps terminal_config
      [OpenArrives 0 ''c1'' open_payload, OpenArrives 1 ''c1'' open_payload, AccessAnswered 0, AccessAnswered 1,
       OpenContinues 0, OpenContinues 1] (quiet_terminals owner_hub))
     = [(str_field ''token'' open_payload, AckOk (Some ''100'')), (str_field ''token'' open_payload, AckOk s2)]"
proof -
  let ?op = "handleTerminalOpen terminal_config ''c1'' open_payload owner_hub"
  have "?op = (AckOk (Some ''100''), snd ?op)" using open_twice(1) by (cases ?op) simp
  from one_token_two_terminals [OF this, of 0 1] show ?thesis by simp
qed

lemma token_reuse_needs_overlap_witness:
  "\<forall>later. opened ''t1'' (tw_log (terminal_steps terminal_config later
     (terminal_steps terminal_config [OpenArrives 0 ''c1'' open_payload, AccessAnswered 0, OpenContinues 0]
       (quiet_terminals owner_hub)))) = 1"
proof
  fix later
  let ?w = "terminal_steps terminal_config [OpenArrives 0 ''c1'' open_payload, AccessAnswered 0] (quiet_terminals owner_hub)"
  let ?w2 = "terminal_step terminal_config (OpenContinues 0) ?w"
  let ?p = "\<lparr>op_client = ''c1'', op_payload = open_payload, op_claims = example_terminal_claims, op_access = Some True\<rparr>"
  have tk: "token_ok terminal_config ''t1'' example_terminal_claims ''j1'' 60"
    by (auto simp: token_ok_def terminal_config_def example_terminal_claims_def split: if_splits)
  have p: "map_get (tw_openings ?w) 0 = Some ?p" by code_simp
  have f: "str_field ''token'' (op_payload ?p) = Some ''t1''" by code_simp
  have l: "tw_log ?w2 = tw_log ?w @ [(Some ''t1'', AckOk (Some ''100''))]" by code_simp
  have n: "none_waits ''t1'' ?w2" by code_simp
  have "tw_log ?w = []" by code_simp
  then have o: "opened ''t1'' (tw_log ?w2) = 1" unfolding l by (simp add: opened_def)
  from token_reuse_needs_overlap [OF tk refl p f refl l n, of later] o
  show "opened ''t1'' (tw_log (terminal_steps terminal_config later
     (terminal_steps terminal_config [OpenArrives 0 ''c1'' open_payload, AccessAnswered 0, OpenContinues 0]
       (quiet_terminals owner_hub)))) = 1" by simp
qed

section \<open>Tasks that wait\<close>

text \<open>Handlers in the middle of their work, by a number, and the answers in the order they were given.\<close>

record ('p, 'r) tasks =
  tk_hub :: hub
  tk_waiting :: "(nat, 'p) jsmap"
  tk_answers :: "(nat \<times> 'r) list"

definition no_tasks :: "hub \<Rightarrow> ('p, 'r) tasks" where
  "no_tasks h = \<lparr>tk_hub = h, tk_waiting = [], tk_answers = []\<rparr>"

definition settle :: "nat \<Rightarrow> 'p + 'r \<Rightarrow> hub \<Rightarrow> ('p, 'r) tasks \<Rightarrow> ('p, 'r) tasks" where
  "settle i r h w =
     (case r of
        Inl p \<Rightarrow> w\<lparr>tk_hub := h, tk_waiting := map_set (tk_waiting w) i p\<rparr>
      | Inr x \<Rightarrow> w\<lparr>tk_hub := h, tk_waiting := map_delete (tk_waiting w) i, tk_answers := tk_answers w @ [(i, x)]\<rparr>)"

definition task_arrives :: "nat \<Rightarrow> (hub \<Rightarrow> 'p + 'r) \<Rightarrow> ('p, 'r) tasks \<Rightarrow> ('p, 'r) tasks" where
  "task_arrives i start w =
     (if map_get (tk_waiting w) i \<noteq> None then w else settle i (start (tk_hub w)) (tk_hub w) w)"

definition task_continues :: "nat \<Rightarrow> ('p \<Rightarrow> hub \<Rightarrow> ('p + 'r) \<times> hub) \<Rightarrow> ('p, 'r) tasks \<Rightarrow> ('p, 'r) tasks" where
  "task_continues i continue w =
     (case map_get (tk_waiting w) i of
        None \<Rightarrow> w
      | Some p \<Rightarrow> (case continue p (tk_hub w) of (r, h) \<Rightarrow> settle i r h w))"

lemmas task_defs = no_tasks_def settle_def task_arrives_def task_continues_def

section \<open>Logins\<close>

datatype login_stage =
    PasswordOk users_row
  | CodeOk users_row "int option \<times> int"
  | CodeRecorded users_row

text \<open>Up to the first wait after the password: the account, its password, and whether a code was sent.\<close>

definition login_begin :: "config \<Rightarrow> login_form \<Rightarrow> hub \<Rightarrow> login_stage + (http_error + string \<times> string)" where
  "login_begin cfg dto h =
     (case user_of_email (lf_email dto) h of
        None \<Rightarrow> Inr (Inl (Conflict ''Matching Email and Password Not Found.''))
      | Some foundUser \<Rightarrow>
          if \<not> cfg_bcrypt_compare cfg (lf_password dto) (user_password foundUser)
          then Inr (Inl (Conflict ''Matching Email and Password Not Found.''))
          else if user_totp_active foundUser \<and> falsy (lf_totpCode dto) then Inr (Inl TotpRequired)
          else Inl (PasswordOk foundUser))"

definition sign_in :: "config \<Rightarrow> users_row \<Rightarrow> hub \<Rightarrow> (login_stage + (http_error + string \<times> string)) \<times> hub" where
  "sign_in cfg u h = (case signLoginTokens cfg (user_index u) h of (r, h1) \<Rightarrow> (Inr r, h1))"

text \<open>The code is checked against the time step that the database holds, then the step is written.\<close>

fun login_continue ::
  "config \<Rightarrow> login_form \<Rightarrow> login_stage \<Rightarrow> hub \<Rightarrow> (login_stage + (http_error + string \<times> string)) \<times> hub" where
  "login_continue cfg dto (PasswordOk u) h =
     (if \<not> user_totp_active u then sign_in cfg u h
      else case verifyUserTotp cfg (user_index u) (the (lf_totpCode dto)) True h of
        Inl e \<Rightarrow> (Inr (Inl e), h)
      | Inr result \<Rightarrow> (Inl (CodeOk u result), h))"
| "login_continue cfg dto (CodeOk u result) h =
     (Inl (CodeRecorded u), set_user (user_index u)
        (\<lambda>v. v\<lparr>last_used_totp_step := Some (getTimeStep cfg result)\<rparr>) h)"
| "login_continue cfg dto (CodeRecorded u) h = sign_in cfg u h"

datatype login_event = LoginArrives nat | LoginContinues nat

text \<open>The form of each login is given by its number.\<close>

type_synonym login_world = "(login_stage, http_error + string \<times> string) tasks"

fun login_step :: "config \<Rightarrow> (nat \<Rightarrow> login_form) \<Rightarrow> login_event \<Rightarrow> login_world \<Rightarrow> login_world" where
  "login_step cfg form (LoginArrives i) w = task_arrives i (login_begin cfg (form i)) w"
| "login_step cfg form (LoginContinues i) w = task_continues i (login_continue cfg (form i)) w"

lemma login_alone:
  assumes "login cfg (form i) h = (r, h2)"
  shows "fold (login_step cfg form) [LoginArrives i, LoginContinues i, LoginContinues i, LoginContinues i] (no_tasks h)
    = (no_tasks h2)\<lparr>tk_answers := [(i, r)]\<rparr>"
proof (cases "login_begin cfg (form i) h")
  case (Inr x)
  then have "login cfg (form i) h = (x, h)"
    by (auto simp: login_def login_begin_def throw_def split: option.splits if_splits)
  with Inr assms show ?thesis by (simp add: task_defs map_delete_def map_get_def)
next
  case (Inl st)
  then obtain u where st: "st = PasswordOk u" and u: "login cfg (form i) h = andThen
      (if user_totp_active u then verifyActiveUserTotp cfg (user_index u) (the (lf_totpCode (form i))) h else give True h)
      (\<lambda>ok. signLoginTokens cfg (user_index u))"
    by (auto simp: login_def login_begin_def split: option.splits if_splits)
  obtain r1 h1 where s: "signLoginTokens cfg (user_index u) h = (r1, h1)" by force
  show ?thesis
  proof (cases "user_totp_active u")
    case False
    with u s assms have "r = r1" "h2 = h1" by (simp_all add: give_def)
    with Inl False s show ?thesis
      by (simp add: st task_defs sign_in_def map_delete_def map_set_def map_get_def)
  next
    case True
    show ?thesis
    proof (cases "verifyUserTotp cfg (user_index u) (the (lf_totpCode (form i))) True h")
      case (Inl e)
      with u True assms have "r = Inl e" "h2 = h" by (simp_all add: verifyActiveUserTotp_def check_def)
      with \<open>login_begin _ _ _ = _\<close> True Inl show ?thesis
        by (simp add: st task_defs map_delete_def map_set_def map_get_def)
    next
      case (Inr x)
      with u True assms have "signLoginTokens cfg (user_index u)
          (set_user (user_index u) (\<lambda>v. v\<lparr>last_used_totp_step := Some (getTimeStep cfg x)\<rparr>) h) = (r, h2)"
        by (simp add: verifyActiveUserTotp_def check_def give_def)
      with \<open>login_begin _ _ _ = _\<close> True Inr show ?thesis
        by (simp add: st task_defs sign_in_def map_delete_def map_set_def map_get_def)
    qed
  qed
qed

lemma sign_again:
  "signLoginTokens cfg i h = (Inr x, h2) \<Longrightarrow> \<exists>y g2. signLoginTokens cfg j g = (Inr y, g2)"
  by (auto simp: signLoginTokens_def Let_def split_beta split: sum.splits)

text \<open>C27: one code serves two logins. Whenever a login with a second factor succeeds, two logins with the
  same password and the same code that overlap, each past the check of the code before the other records
  it, both succeed: the time step is read before the check and written after it, whatever it is by then.\<close>

theorem one_code_two_logins:
  assumes "login cfg (form i) h = (Inr tokens, h2)" and "user_of_email (lf_email (form i)) h = Some u"
    and "user_totp_active u" and "form k = form i" and "i \<noteq> k"
  shows "\<exists>tokens2. tk_answers (fold (login_step cfg form)
      [LoginArrives i, LoginArrives k, LoginContinues i, LoginContinues k,
       LoginContinues i, LoginContinues i, LoginContinues k, LoginContinues k] (no_tasks h))
    = [(i, Inr tokens), (k, Inr tokens2)]"
proof -
  have b: "login_begin cfg (form i) h = Inl (PasswordOk u)"
    using assms(1-3) by (auto simp: login_def login_begin_def throw_def split: if_splits)
  obtain r where r: "verifyUserTotp cfg (user_index u) (the (lf_totpCode (form i))) True h = Inr r"
    using assms(1-3) by (cases "verifyUserTotp cfg (user_index u) (the (lf_totpCode (form i))) True h")
      (auto simp: login_def throw_def verifyActiveUserTotp_def check_def split: if_splits)
  let ?h1 = "set_user (user_index u) (\<lambda>v. v\<lparr>last_used_totp_step := Some (getTimeStep cfg r)\<rparr>) h"
  have s: "signLoginTokens cfg (user_index u) ?h1 = (Inr tokens, h2)"
    using assms(1-3) r by (auto simp: login_def throw_def verifyActiveUserTotp_def check_def give_def split: if_splits)
  obtain tokens2 g where s2: "signLoginTokens cfg (user_index u)
      (set_user (user_index u) (\<lambda>v. v\<lparr>last_used_totp_step := Some (getTimeStep cfg r)\<rparr>) h2) = (Inr tokens2, g)"
    using sign_again [OF s] by blast
  show ?thesis using assms(3-5) b r s s2
    by (simp add: task_defs sign_in_def)
qed

lemma one_code_two_logins_witness:
  "\<exists>tokens2. tk_answers (fold (login_step totp_config (\<lambda>n. ann_login))
      [LoginArrives 0, LoginArrives 1, LoginContinues 0, LoginContinues 1,
       LoginContinues 0, LoginContinues 0, LoginContinues 1, LoginContinues 1] (no_tasks totp_hub))
    = [(0, Inr (''jwt'', ''jwt'')), (1, Inr tokens2)]"
proof -
  let ?r = "login totp_config ann_login totp_hub"
  have "fst ?r = Inr (''jwt'', ''jwt'')" by code_simp
  then have "?r = (Inr (''jwt'', ''jwt''), snd ?r)" by (cases ?r) simp
  moreover have "user_of_email (lf_email ann_login) totp_hub = Some totp_user" by code_simp
  moreover have "user_totp_active totp_user" by (simp add: totp_user_def)
  ultimately show ?thesis
    using one_code_two_logins [where form = "\<lambda>n. ann_login" and i = 0 and k = 1] by simp
qed

section \<open>Updates\<close>

datatype update_stage = UpdateChecked agents_row | UpdateCleared agents_row | UpdateSent agents_row int

text \<open>What is checked of the agent, before the wait for the catalog.\<close>

definition update_begin :: "string \<Rightarrow> string \<Rightarrow> hub \<Rightarrow> update_stage + (http_error + unit)" where
  "update_begin agentUuid targetVersion h =
     (if \<not> TAG_PATTERN targetVersion then Inr (Inl (BadRequest ''Invalid version format.''))
      else case find (\<lambda>a. agent_uuid a = agentUuid \<and> agent_deleted_at a = None) (agents h) of
        None \<Rightarrow> Inr (Inl (NotFound ''Agent not found.''))
      | Some a \<Rightarrow>
        if agent_status a \<noteq> Online then Inr (Inl (Conflict ''The agent is offline.''))
        else if \<not> supportsRemoteUpdate (agent_version a)
        then Inr (Inl (Conflict (''OPTiCS Agent '' @ version_or (agent_version a) ''Unknown Version'' @
                '' does not support remote updates.'')))
        else if agent_update_phase a \<in> set IN_FLIGHT
        then Inr (Inl (Conflict ''An update is already in progress.''))
        else Inl (UpdateChecked a))"

fun update_continue ::
  "config \<Rightarrow> string \<Rightarrow> string \<Rightarrow> update_stage \<Rightarrow> hub \<Rightarrow> (update_stage + (http_error + unit)) \<times> hub" where
  "update_continue cfg agentUuid targetVersion (UpdateChecked a) h =
     (case assertInstallable cfg targetVersion h of
        (Inl e, h1) \<Rightarrow> (Inr (Inl e), h1)
      | (Inr release, h1) \<Rightarrow> (Inl (UpdateCleared a), h1))"
| "update_continue cfg agentUuid targetVersion (UpdateCleared a) h =
     (let (delivered, h1) = sendToAgent cfg agentUuid ''update-agent'' (JObj [(''version'', JStr targetVersion)]) h
      in if \<not> delivered then (Inr (Inl (Conflict ''The agent is not connected.'')), h1)
         else (Inl (UpdateSent a (clock h1)), h1))"
| "update_continue cfg agentUuid targetVersion (UpdateSent a startedAt) h =
     (Inr (Inr ()), armTimeout agentUuid
        (transition agentUuid UpdateRequested
           \<lparr>tf_target = Some (Some targetVersion),
            tf_message = Some (Some
              (if truthy (agent_version a)
               then ''Requested update from '' @ the (agent_version a) @ '' to '' @ targetVersion
               else ''Requested update to '' @ targetVersion)),
            tf_startedAt = Some (Some startedAt)\<rparr> h))"

datatype update_wait_event = UpdateArrives nat | UpdateContinues nat

type_synonym update_world = "(update_stage, http_error + unit) tasks"

text \<open>The agent and the version of each request are given by its number.\<close>

fun update_wait_step ::
  "config \<Rightarrow> (nat \<Rightarrow> string \<times> string) \<Rightarrow> update_wait_event \<Rightarrow> update_world \<Rightarrow> update_world" where
  "update_wait_step cfg req (UpdateArrives i) w = task_arrives i (update_begin (fst (req i)) (snd (req i))) w"
| "update_wait_step cfg req (UpdateContinues i) w =
     task_continues i (update_continue cfg (fst (req i)) (snd (req i))) w"

lemma requestUpdate_parts:
  "requestUpdate cfg u v h = (case update_begin u v h of
     Inr x \<Rightarrow> (x, h)
   | Inl st \<Rightarrow> (case update_continue cfg u v st h of
       (Inr x, h1) \<Rightarrow> (x, h1)
     | (Inl st1, h1) \<Rightarrow> (case update_continue cfg u v st1 h1 of
         (Inr x, h2) \<Rightarrow> (x, h2)
       | (Inl st2, h2) \<Rightarrow> (case update_continue cfg u v st2 h2 of
           (Inr x, h3) \<Rightarrow> (x, h3) | (Inl st3, h3) \<Rightarrow> (Inr (), h3)))))"
proof (cases "find (\<lambda>a. agent_uuid a = u \<and> agent_deleted_at a = None) (agents h)")
  case (Some a)
  obtain r h1 where r: "assertInstallable cfg v h = (r, h1)" by force
  obtain d h2 where d: "sendToAgent cfg u ''update-agent'' (JObj [(''version'', JStr v)]) h1 = (d, h2)" by force
  show ?thesis
    by (cases r; cases d) (simp_all add: requestUpdate_def update_begin_def Some r d)
qed (simp add: requestUpdate_def update_begin_def)

lemma update_alone:
  assumes "requestUpdate cfg (fst (req i)) (snd (req i)) h = (r, h2)"
  shows "fold (update_wait_step cfg req) [UpdateArrives i, UpdateContinues i, UpdateContinues i, UpdateContinues i] (no_tasks h)
    = (no_tasks h2)\<lparr>tk_answers := [(i, r)]\<rparr>"
proof -
  obtain u v where req: "req i = (u, v)" by force
  show ?thesis
  proof (cases "update_begin u v h")
    case (Inr x)
    with assms req show ?thesis
      by (simp add: requestUpdate_parts task_defs map_set_def map_delete_def map_get_def)
  next
    case (Inl st)
    then obtain a where st: "st = UpdateChecked a" by (auto simp: update_begin_def split: if_splits option.splits)
    obtain q h1 where q: "assertInstallable cfg v h = (q, h1)" by force
    obtain d g where d: "sendToAgent cfg u ''update-agent'' (JObj [(''version'', JStr v)]) h1 = (d, g)" by force
    show ?thesis using assms req Inl st q d
      by (cases q; cases d) (auto simp: requestUpdate_parts task_defs map_set_def map_delete_def map_get_def)
  qed
qed

lemma ensureFresh_twice: "ensureFresh cfg (ensureFresh cfg h) = ensureFresh cfg h"
  by (auto simp: ensureFresh_def runSync_def FRESHNESS_MS_def RETRY_BACKOFF_MS_def split_beta
      split: github_response.split sum.split)

lemma assertInstallable_again:
  assumes "assertInstallable cfg v h = (Inr r, h1)"
  shows "assertInstallable cfg v (ensureFresh cfg h) = (Inr r, h1)" and "h1 = ensureFresh cfg h"
proof -
  show "h1 = ensureFresh cfg h" using assms by (auto simp: assertInstallable_def Let_def split: if_splits option.splits)
  have "assertInstallable cfg v (ensureFresh cfg h) = assertInstallable cfg v h"
    unfolding assertInstallable_def Let_def ensureFresh_twice ..
  with assms show "assertInstallable cfg v (ensureFresh cfg h) = (Inr r, h1)" by simp
qed

lemma sendToAgent_again:
  assumes "fst (sendToAgent cfg u e p g)" and "sockets h = sockets g" and "agentUuidToSocketId h = agentUuidToSocketId g"
  shows "fst (sendToAgent cfg u e2 p2 h)"
  using assms getAgentSocket_cong [OF assms(3,2), of u] by (simp add: sendToAgent_True_iff)

text \<open>Two requests for updates of one agent, for any two versions, each of which would be granted alone, are
  both granted when they overlap, and the agent gets two commands: the phase is checked before the wait
  for the catalog and set after it.\<close>

lemma two_updates_reach_agent:
  assumes "requestUpdate cfg u v h = (Inr (), h2)" and "requestUpdate cfg u v' h = (Inr (), h2')" and "i \<noteq> k"
    and "req i = (u, v)" and "req k = (u, v')"
  shows "tk_answers (fold (update_wait_step cfg req)
      [UpdateArrives i, UpdateArrives k, UpdateContinues i, UpdateContinues k,
       UpdateContinues i, UpdateContinues k, UpdateContinues i, UpdateContinues k] (no_tasks h))
    = [(i, Inr ()), (k, Inr ())]"
proof -
  have parts: "\<exists>a r. update_begin u w h = Inl (UpdateChecked a)
      \<and> assertInstallable cfg w h = (Inr r, ensureFresh cfg h)
      \<and> fst (sendToAgent cfg u ''update-agent'' (JObj [(''version'', JStr w)]) (ensureFresh cfg h))"
    if "requestUpdate cfg u w h = (Inr (), g)" for w g
  proof -
    from that obtain a where a: "update_begin u w h = Inl (UpdateChecked a)"
      by (auto simp: requestUpdate_parts update_begin_def split: if_splits option.splits)
    with that obtain r h1 where r: "assertInstallable cfg w h = (Inr r, h1)"
      by (cases "assertInstallable cfg w h") (auto simp: requestUpdate_parts split: sum.splits)
    note h1 = assertInstallable_again(2) [OF r]
    from that a r h1 have "fst (sendToAgent cfg u ''update-agent'' (JObj [(''version'', JStr w)]) (ensureFresh cfg h))"
      by (auto simp: requestUpdate_parts split_beta split: if_splits)
    with a r h1 show ?thesis by blast
  qed
  from parts [OF assms(1)] obtain a r where 1: "update_begin u v h = Inl (UpdateChecked a)"
      "assertInstallable cfg v h = (Inr r, ensureFresh cfg h)"
      "fst (sendToAgent cfg u ''update-agent'' (JObj [(''version'', JStr v)]) (ensureFresh cfg h))" by blast
  from parts [OF assms(2)] obtain b q where 2: "update_begin u v' h = Inl (UpdateChecked b)"
      "assertInstallable cfg v' h = (Inr q, ensureFresh cfg h)" by blast
  let ?g = "snd (sendToAgent cfg u ''update-agent'' (JObj [(''version'', JStr v)]) (ensureFresh cfg h))"
  have 3: "fst (sendToAgent cfg u ''update-agent'' (JObj [(''version'', JStr v')]) ?g)"
    by (rule sendToAgent_again [OF 1(3)]) simp_all
  show ?thesis using 1 2 3 assertInstallable_again(1) [OF 2(2)] assms(3-5)
    by (simp add: task_defs split_beta)
qed

end
