(* ===== verification/SharedRuns.thy ===== *)
theory SharedRuns
  imports Traffic
begin

text \<open>
  Work that overlapping callers share. The synchronisation of the release catalogue
  (\<open>src/releases/release-catalog.service.ts\<close>), that of the traffic (\<open>src/traffic/traffic-sync.service.ts\<close>)
  and the computation of the public numbers (\<open>src/stats/stats.service.ts\<close>) keep the promise of the run
  that is under way (\<open>syncing\<close>, \<open>pending\<close>); a caller that finds one waits for it. The runs are taken apart
  at their waits, so that other steps of the Hub happen between. The locale \<open>shared_run\<close> shows once what
  the three have in common; each interprets it with its own steps, its own whole run and a bound on the
  steps that are left.
\<close>

section \<open>One run for all who wait\<close>

text \<open>The run under way with the callers that wait for it, the answers given, and the number of runs.\<close>

record ('stage, 'st, 'out) flight =
  fl_state :: 'st
  fl_running :: "('stage \<times> nat list) option"
  fl_answers :: "(nat \<times> 'out) list"
  fl_started :: nat

datatype flight_event = FlightCalled nat | FlightGoesOn

definition idle :: "'st \<Rightarrow> ('stage, 'st, 'out) flight" where
  "idle s = \<lparr>fl_state = s, fl_running = None, fl_answers = [], fl_started = 0\<rparr>"

definition flight_call :: "('st \<Rightarrow> 'stage) \<Rightarrow> nat \<Rightarrow> ('stage, 'st, 'out) flight \<Rightarrow> ('stage, 'st, 'out) flight" where
  "flight_call start i w =
     (case fl_running w of
        Some (stage, waiting) \<Rightarrow> w\<lparr>fl_running := Some (stage, waiting @ [i])\<rparr>
      | None \<Rightarrow> w\<lparr>fl_running := Some (start (fl_state w), [i]), fl_started := fl_started w + 1\<rparr>)"

definition flight_advance ::
  "('stage \<Rightarrow> 'st \<Rightarrow> ('stage + 'out) \<times> 'st) \<Rightarrow> ('stage, 'st, 'out) flight \<Rightarrow> ('stage, 'st, 'out) flight" where
  "flight_advance advance w =
     (case fl_running w of
        None \<Rightarrow> w
      | Some (stage, waiting) \<Rightarrow>
          (case advance stage (fl_state w) of
             (Inl stage2, s) \<Rightarrow> w\<lparr>fl_state := s, fl_running := Some (stage2, waiting)\<rparr>
           | (Inr out, s) \<Rightarrow> w\<lparr>fl_state := s, fl_running := None,
                fl_answers := fl_answers w @ map (\<lambda>i. (i, out)) waiting\<rparr>))"

fun flight_step ::
  "('st \<Rightarrow> 'stage) \<Rightarrow> ('stage \<Rightarrow> 'st \<Rightarrow> ('stage + 'out) \<times> 'st) \<Rightarrow> flight_event
    \<Rightarrow> ('stage, 'st, 'out) flight \<Rightarrow> ('stage, 'st, 'out) flight" where
  "flight_step start advance (FlightCalled i) w = flight_call start i w"
| "flight_step start advance FlightGoesOn w = flight_advance advance w"

definition flight_steps ::
  "('st \<Rightarrow> 'stage) \<Rightarrow> ('stage \<Rightarrow> 'st \<Rightarrow> ('stage + 'out) \<times> 'st) \<Rightarrow> flight_event list
    \<Rightarrow> ('stage, 'st, 'out) flight \<Rightarrow> ('stage, 'st, 'out) flight" where
  "flight_steps start advance evs w = fold (flight_step start advance) evs w"

fun flight_callers :: "flight_event list \<Rightarrow> nat list" where
  "flight_callers [] = []"
| "flight_callers (FlightCalled i # evs) = i # flight_callers evs"
| "flight_callers (FlightGoesOn # evs) = flight_callers evs"

definition flight_waiting :: "('stage, 'st, 'out) flight \<Rightarrow> nat list" where
  "flight_waiting w = (case fl_running w of None \<Rightarrow> [] | Some (stage, waiting) \<Rightarrow> waiting)"

lemmas flight_defs = flight_call_def flight_advance_def flight_waiting_def

lemma callers_append [simp]: "flight_callers (es @ fs) = flight_callers es @ flight_callers fs"
  by (induction es rule: flight_callers.induct) simp_all

lemma callers_go_on [simp]: "flight_callers (replicate n FlightGoesOn) = []"
  by (induction n) simp_all

lemma flight_steps_simps [simp]:
  "flight_steps start advance [] w = w"
  "flight_steps start advance (e # es) w = flight_steps start advance es (flight_step start advance e w)"
  "flight_steps start advance (es @ fs) w = flight_steps start advance fs (flight_steps start advance es w)"
  by (simp_all add: flight_steps_def)

text \<open>Callers are answered in the order in which they called, each once.\<close>

lemma flight_line:
  "map fst (fl_answers (flight_step start advance e w)) @ flight_waiting (flight_step start advance e w)
    = map fst (fl_answers w) @ flight_waiting w @ flight_callers [e]"
  by (cases e) (auto simp: flight_defs comp_def split: option.split prod.split sum.split)

lemma flight_lines:
  "map fst (fl_answers (flight_steps start advance es w)) @ flight_waiting (flight_steps start advance es w)
    = map fst (fl_answers w) @ flight_waiting w @ flight_callers es"
proof (induction es arbitrary: w)
  case (Cons e es)
  show ?case
    by (simp add: Cons.IH append_assoc [symmetric] flight_line del: append_assoc)
      (cases e; simp)
qed simp

text \<open>\<open>rest\<close> is what is left of a run when nothing happens between its steps; \<open>left\<close> bounds their number.\<close>

locale shared_run =
  fixes start :: "'st \<Rightarrow> 'stage"
    and advance :: "'stage \<Rightarrow> 'st \<Rightarrow> ('stage + 'out) \<times> 'st"
    and rest :: "'stage \<Rightarrow> 'st \<Rightarrow> 'out \<times> 'st"
    and left :: "'stage \<Rightarrow> 'st \<Rightarrow> nat"
  assumes goes_on: "advance stage s = (Inl stage2, s2) \<Longrightarrow> rest stage2 s2 = rest stage s \<and> left stage2 s2 < left stage s"
    and ends: "advance stage s = (Inr out, s2) \<Longrightarrow> rest stage s = (out, s2)"
begin

abbreviation whole :: "'st \<Rightarrow> 'out \<times> 'st" where
  "whole s \<equiv> rest (start s) s"

abbreviation after :: "nat \<Rightarrow> 'st \<Rightarrow> 'st" where
  "after n s \<equiv> ((\<lambda>s. snd (whole s)) ^^ n) s"

definition in_line :: "'st \<Rightarrow> ('stage, 'st, 'out) flight \<Rightarrow> bool" where
  "in_line s w \<longleftrightarrow>
     (case fl_running w of
        None \<Rightarrow> fl_state w = after (fl_started w) s
      | Some (stage, waiting) \<Rightarrow> fl_started w \<noteq> 0
          \<and> rest stage (fl_state w) = whole (after (fl_started w - 1) s))
     \<and> (\<forall>(i, out)\<in>set (fl_answers w). \<exists>n<fl_started w. out = fst (whole (after n s)))"

lemma in_line_step: "in_line s w \<Longrightarrow> in_line s (flight_step start advance e w)"
proof (cases e)
  case (FlightCalled i)
  assume "in_line s w"
  then show ?thesis
    by (fastforce simp: FlightCalled in_line_def flight_call_def less_Suc_eq split: option.splits)
next
  case FlightGoesOn
  assume w: "in_line s w"
  show ?thesis
  proof (cases "fl_running w")
    case None
    with w show ?thesis by (simp add: FlightGoesOn flight_advance_def)
  next
    case (Some r)
    obtain stage waiting where r: "r = (stage, waiting)" by force
    obtain q s2 where q: "advance stage (fl_state w) = (q, s2)" by force
    show ?thesis
    proof (cases q)
      case (Inl stage2)
      with w goes_on [OF q [unfolded Inl]] show ?thesis
        by (simp add: FlightGoesOn flight_advance_def in_line_def Some r q)
    next
      case (Inr out)
      from w obtain n where n: "fl_started w = Suc n" by (cases "fl_started w") (auto simp: in_line_def Some r)
      with w ends [OF q [unfolded Inr]] have "whole (after n s) = (out, s2)"
        by (simp add: in_line_def Some r)
      moreover from this have "\<exists>k<Suc n. out = fst (whole (after k s))" by (intro exI [of _ n]) simp
      ultimately show ?thesis using w n Inr
        by (auto simp: FlightGoesOn flight_advance_def in_line_def Some r q)
    qed
  qed
qed

lemma in_line_steps: "in_line s w \<Longrightarrow> in_line s (flight_steps start advance es w)"
  by (induction es arbitrary: w) (simp_all add: in_line_step)

lemma in_line_idle: "in_line s (idle s)"
  by (simp add: in_line_def idle_def)

text \<open>Whatever the calls and however they overlap, the runs follow one another, each is the whole
  run on what the last one left, and an answer is the outcome of one of them.\<close>

lemma shared:
  assumes "w = flight_steps start advance es (idle s)"
  shows "map fst (fl_answers w) @ flight_waiting w = flight_callers es"
    and "(i, out) \<in> set (fl_answers w) \<Longrightarrow> \<exists>n<fl_started w. out = fst (whole (after n s))"
    and "fl_running w = None \<Longrightarrow> fl_state w = after (fl_started w) s"
  using in_line_steps [OF in_line_idle, of s es] flight_lines [of start advance es "idle s"]
  by (auto simp: assms in_line_def idle_def flight_waiting_def)

text \<open>A run under way is shared: whatever follows, either it is still under way, with every later caller in its
  line, or at some point it ended, no other run had begun, and its one outcome was given to all of them.\<close>

lemma run_to_its_end:
  assumes "in_line s w" and "fl_running w = Some (stage, waiting)"
  shows "(\<exists>stage2. fl_running (flight_steps start advance fs w) = Some (stage2, waiting @ flight_callers fs))
      \<and> fl_started (flight_steps start advance fs w) = fl_started w \<and> fl_answers (flight_steps start advance fs w) = fl_answers w
    \<or> (\<exists>f1 f2. fs = f1 @ f2 \<and> fl_running (flight_steps start advance f1 w) = None
      \<and> fl_started (flight_steps start advance f1 w) = fl_started w
      \<and> fl_answers (flight_steps start advance f1 w)
        = fl_answers w @ map (\<lambda>i. (i, fst (whole (after (fl_started w - 1) s)))) (waiting @ flight_callers f1))"
  using assms
proof (induction fs arbitrary: w stage waiting)
  case Nil
  then show ?case by simp
next
  case (Cons e fs)
  let ?w = "flight_step start advance e w"
  have line: "in_line s ?w" by (rule in_line_step [OF Cons.prems(1)])
  have later: ?case if "fl_running ?w = Some (stage2, waiting @ flight_callers [e])"
    "fl_started ?w = fl_started w" "fl_answers ?w = fl_answers w" for stage2
    using Cons.IH [OF line that(1)]
  proof (elim disjE conjE exE)
    fix stage3
    assume "fl_running (flight_steps start advance fs ?w) = Some (stage3, (waiting @ flight_callers [e]) @ flight_callers fs)"
      "fl_started (flight_steps start advance fs ?w) = fl_started ?w"
      "fl_answers (flight_steps start advance fs ?w) = fl_answers ?w"
    then show ?thesis using that(2,3) by (intro disjI1) (cases e; simp)
  next
    fix f1 f2
    assume "fs = f1 @ f2" "fl_running (flight_steps start advance f1 ?w) = None"
      "fl_started (flight_steps start advance f1 ?w) = fl_started ?w"
      "fl_answers (flight_steps start advance f1 ?w) = fl_answers ?w
        @ map (\<lambda>i. (i, fst (whole (after (fl_started ?w - 1) s)))) ((waiting @ flight_callers [e]) @ flight_callers f1)"
    then show ?thesis using that(2,3) by (intro disjI2 exI [of _ "e # f1"] exI [of _ f2]) (cases e; simp)
  qed
  show ?case
  proof (cases e)
    case (FlightCalled i)
    show ?thesis by (rule later [of stage]) (simp_all add: FlightCalled flight_call_def Cons.prems(2))
  next
    case FlightGoesOn
    obtain q s2 where q: "advance stage (fl_state w) = (q, s2)" by force
    show ?thesis
    proof (cases q)
      case (Inl stage2)
      show ?thesis by (rule later [of stage2]) (simp_all add: FlightGoesOn flight_advance_def Cons.prems(2) q Inl)
    next
      case (Inr out)
      have "whole (after (fl_started w - 1) s) = rest stage (fl_state w)"
        using Cons.prems by (simp add: in_line_def)
      then have "fst (whole (after (fl_started w - 1) s)) = out" using ends [OF q [unfolded Inr]] by simp
      then show ?thesis
        by (intro disjI2 exI [of _ "[e]"] exI [of _ fs]) (simp add: FlightGoesOn flight_advance_def Cons.prems(2) q Inr)
    qed
  qed
qed

lemmas run_is_shared = run_to_its_end [OF in_line_steps [OF in_line_idle]]

lemma lands: "\<exists>n. fl_running (flight_steps start advance (replicate n FlightGoesOn) w) = None"
proof (cases "fl_running w")
  case None
  then show ?thesis by (intro exI [of _ 0]) simp
next
  case (Some r)
  obtain stage waiting where r: "r = (stage, waiting)" by force
  from Some [unfolded r] show ?thesis
  proof (induction "left stage (fl_state w)" arbitrary: w stage rule: less_induct)
    case less
    obtain q s2 where q: "advance stage (fl_state w) = (q, s2)" by force
    show ?case
    proof (cases q)
      case (Inr out)
      then show ?thesis by (intro exI [of _ 1]) (simp add: flight_advance_def less.prems q)
    next
      case (Inl stage2)
      let ?w = "flight_advance advance w"
      from goes_on [OF q [unfolded Inl]] less.hyps [of stage2 ?w] Inl
      obtain n where "fl_running (flight_steps start advance (replicate n FlightGoesOn) ?w) = None"
        by (auto simp: flight_advance_def less.prems q)
      then show ?thesis by (intro exI [of _ "Suc n"]) simp
    qed
  qed
qed

lemma all_answered:
  "\<exists>n. map fst (fl_answers (flight_steps start advance (es @ replicate n FlightGoesOn) (idle s))) = flight_callers es"
proof -
  obtain n where n: "fl_running (flight_steps start advance (replicate n FlightGoesOn)
      (flight_steps start advance es (idle s))) = None"
    using lands by blast
  with shared(1) [OF refl, of "es @ replicate n FlightGoesOn" s] show ?thesis
    by (intro exI [of _ n]) (simp add: flight_waiting_def)
qed

end

section \<open>The synchronisation of the release catalogue\<close>

text \<open>The stages of \<open>runSync\<close>: the list of the releases is fetched, the metadata of a release is fetched, a
  release is stored, and the releases that are gone have been marked.\<close>

datatype sync_stage =
    Fetching
  | Reading "github_release list" "string list" "int option"
  | Upserting metadata github_release int "github_release list" "string list" "int option"
  | Marked

definition older :: "int option \<Rightarrow> int \<Rightarrow> int option" where
  "older oldestSeen publishedAt =
     (case oldestSeen of
        None \<Rightarrow> Some publishedAt
      | Some old \<Rightarrow> if publishedAt < old then Some publishedAt else Some old)"

fun sync_advance :: "config \<Rightarrow> sync_stage \<Rightarrow> hub \<Rightarrow> (sync_stage + (http_error + unit)) \<times> hub" where
  "sync_advance cfg Fetching h =
     (case fetch_releases cfg of
        GithubUnreachable \<Rightarrow> (Inr (Inl (InternalError ''fetch failed'')), h)
      | GithubStatus st failure \<Rightarrow>
          (case failureDetail cfg failure of
             Inl e \<Rightarrow> (Inr (Inl e), h)
           | Inr detail \<Rightarrow>
               (Inr (Inl (ServiceUnavailable (''GitHub releases fetch failed: '' @ show_nat st @ '' '' @ detail))), h))
      | GithubReleases rels \<Rightarrow> (Inl (Reading rels [] None), h))"
| "sync_advance cfg (Reading (rel # rels) seenVersions oldestSeen) h =
     (case release_entry cfg rel of
        None \<Rightarrow> (Inl (Reading rels seenVersions oldestSeen), h)
      | Some (m, publishedAt) \<Rightarrow>
          (Inl (Upserting m rel publishedAt rels (seenVersions @ [meta_version m]) (older oldestSeen publishedAt)), h))"
| "sync_advance cfg (Upserting m rel publishedAt rels seenVersions oldestSeen) h =
     (Inl (Reading rels seenVersions oldestSeen),
      h\<lparr>agent_releases := upsert_release m rel publishedAt (agent_releases h)\<rparr>)"
| "sync_advance cfg (Reading [] seenVersions oldestSeen) h =
     (Inl Marked, h\<lparr>agent_releases := markYanked seenVersions oldestSeen (clock h) (agent_releases h)\<rparr>)"
| "sync_advance cfg Marked h = (Inr (Inr ()), h\<lparr>lastSyncedAt := clock h\<rparr>)"

text \<open>What is left of a synchronisation at each stage, in one step, and how many stages it has at most.\<close>

definition sync_reading ::
  "config \<Rightarrow> github_release list \<Rightarrow> string list \<Rightarrow> int option \<Rightarrow> hub \<Rightarrow> (http_error + unit) \<times> hub" where
  "sync_reading cfg rels vs old h =
     (let (seenVersions, oldestSeen, rows) = sync_releases cfg rels (vs, old, agent_releases h)
      in (Inr (), h\<lparr>agent_releases := markYanked seenVersions oldestSeen (clock h) rows,
                   lastSyncedAt := clock h\<rparr>))"

fun sync_rest :: "config \<Rightarrow> sync_stage \<Rightarrow> hub \<Rightarrow> (http_error + unit) \<times> hub" where
  "sync_rest cfg Fetching h = runSync cfg h"
| "sync_rest cfg (Reading rels vs old) h = sync_reading cfg rels vs old h"
| "sync_rest cfg (Upserting m rel p rels vs old) h =
     sync_reading cfg rels vs old (h\<lparr>agent_releases := upsert_release m rel p (agent_releases h)\<rparr>)"
| "sync_rest cfg Marked h = (Inr (), h\<lparr>lastSyncedAt := clock h\<rparr>)"

fun sync_left :: "config \<Rightarrow> sync_stage \<Rightarrow> hub \<Rightarrow> nat" where
  "sync_left cfg Fetching h = (case fetch_releases cfg of GithubReleases rels \<Rightarrow> 2 * length rels + 3 | r \<Rightarrow> 1)"
| "sync_left cfg (Reading rels vs old) h = 2 * length rels + 2"
| "sync_left cfg (Upserting m rel p rels vs old) h = 2 * length rels + 3"
| "sync_left cfg Marked h = 1"

lemma sync_goes_on:
  "sync_advance cfg stage h = (Inl stage2, h2) \<Longrightarrow>
     sync_rest cfg stage2 h2 = sync_rest cfg stage h \<and> sync_left cfg stage2 h2 < sync_left cfg stage h"
  by (induction cfg stage h rule: sync_advance.induct)
    (auto simp: runSync_def sync_reading_def older_def split: github_response.splits sum.splits option.splits)

lemma sync_ends: "sync_advance cfg stage h = (Inr out, h2) \<Longrightarrow> sync_rest cfg stage h = (out, h2)"
  by (induction cfg stage h rule: sync_advance.induct)
    (auto simp: runSync_def split: github_response.splits sum.splits option.splits)

interpretation catalog_sync: shared_run "\<lambda>h. Fetching" "sync_advance cfg" "sync_rest cfg" "sync_left cfg" for cfg
  by unfold_locales (fact sync_goes_on sync_ends)+

section \<open>The synchronisation of the traffic\<close>

datatype traffic_stage =
    CountingDays
  | AskingRetention
  | AskingDays "int list"
  | StoringDay int int "int list"

fun traffic_advance :: "config \<Rightarrow> analytics \<Rightarrow> traffic_stage \<Rightarrow> hub \<Rightarrow> (traffic_stage + unit) \<times> hub" where
  "traffic_advance cfg an CountingDays h =
     (if length (traffic_daily h) = 0 then (Inl AskingRetention, h)
      else (Inl (AskingDays (trailingDateList (clock h) RESYNC_TRAILING_DAYS)), h))"
| "traffic_advance cfg an AskingRetention h = (Inl (AskingDays (backfillDateList cfg an h)), h)"
| "traffic_advance cfg an (AskingDays (date # dates)) h =
     (case getDailyBytesByHostname cfg an date (nextDateUtc date) of
        None \<Rightarrow> (Inl (AskingDays dates), h)
      | Some breakdown \<Rightarrow> (Inl (StoringDay date (workspace_bytes breakdown) dates), h))"
| "traffic_advance cfg an (StoringDay date totalBytes dates) h =
     (Inl (AskingDays dates), h\<lparr>traffic_daily := upsert_day date totalBytes (traffic_daily h)\<rparr>)"
| "traffic_advance cfg an (AskingDays []) h = (Inr (), pruneOldRows h)"

definition traffic_days :: "config \<Rightarrow> analytics \<Rightarrow> int list \<Rightarrow> hub \<Rightarrow> unit \<times> hub" where
  "traffic_days cfg an dates h = ((), pruneOldRows (fold (try_day cfg an) dates h))"

fun traffic_rest :: "config \<Rightarrow> analytics \<Rightarrow> traffic_stage \<Rightarrow> hub \<Rightarrow> unit \<times> hub" where
  "traffic_rest cfg an CountingDays h = ((), runTrafficSync cfg an h)"
| "traffic_rest cfg an AskingRetention h = traffic_days cfg an (backfillDateList cfg an h) h"
| "traffic_rest cfg an (AskingDays dates) h = traffic_days cfg an dates h"
| "traffic_rest cfg an (StoringDay d b dates) h =
     traffic_days cfg an dates (h\<lparr>traffic_daily := upsert_day d b (traffic_daily h)\<rparr>)"

fun traffic_left :: "config \<Rightarrow> analytics \<Rightarrow> traffic_stage \<Rightarrow> hub \<Rightarrow> nat" where
  "traffic_left cfg an CountingDays h =
     2 * length (backfillDateList cfg an h) + 2 * length (trailingDateList (clock h) RESYNC_TRAILING_DAYS) + 3"
| "traffic_left cfg an AskingRetention h = 2 * length (backfillDateList cfg an h) + 2"
| "traffic_left cfg an (AskingDays dates) h = 2 * length dates + 1"
| "traffic_left cfg an (StoringDay d b dates) h = 2 * length dates + 2"

interpretation traffic_sync: shared_run "\<lambda>h. CountingDays" "traffic_advance cfg an" "traffic_rest cfg an"
  "traffic_left cfg an" for cfg an
proof
  fix stage h stage2 h2 out
  show "traffic_advance cfg an stage h = (Inl stage2, h2) \<Longrightarrow>
      traffic_rest cfg an stage2 h2 = traffic_rest cfg an stage h \<and> traffic_left cfg an stage2 h2 < traffic_left cfg an stage h"
    by (induction cfg an stage h rule: traffic_advance.induct)
      (auto simp: runTrafficSync_def traffic_days_def sync_dates_def try_day_def syncOneDay_def
        split: if_splits option.splits)
  show "traffic_advance cfg an stage h = (Inr out, h2) \<Longrightarrow> traffic_rest cfg an stage h = (out, h2)"
    by (induction cfg an stage h rule: traffic_advance.induct)
      (auto simp: traffic_days_def split: if_splits option.splits)
qed

section \<open>The public numbers\<close>

text \<open>The four questions to the database, here answered in the order in which they are asked; the start of the
  window is taken before them. The state is the Hub with the cache.\<close>

datatype stats_stage =
    CountingContainers int
  | CountingDomains int nat
  | CountingAgents int nat nat
  | FindingTraffic int nat nat nat
  | Computed public_stats

fun stats_advance ::
  "string option \<Rightarrow> stats_stage \<Rightarrow> hub \<times> stats_cache \<Rightarrow> (stats_stage + public_stats) \<times> (hub \<times> stats_cache)" where
  "stats_advance version (CountingContainers windowStart) (h, cache) =
     (Inl (CountingDomains windowStart (running_containers h)), (h, cache))"
| "stats_advance version (CountingDomains windowStart runningContainers) (h, cache) =
     (Inl (CountingAgents windowStart runningContainers
        (count_rows (\<lambda>w. workspace_subdomain_active w \<and> workspace_deleted_at w = None) (workspaces h))), (h, cache))"
| "stats_advance version (CountingAgents windowStart runningContainers activeWorkspaceDomains) (h, cache) =
     (Inl (FindingTraffic windowStart runningContainers activeWorkspaceDomains
        (count_rows (\<lambda>a. agent_version a \<noteq> None) (agents h))), (h, cache))"
| "stats_advance version (FindingTraffic windowStart runningContainers activeWorkspaceDomains installedAgents) (h, cache) =
     (let trafficRows = filter (\<lambda>r. windowStart \<le> traffic_date r) (traffic_daily h)
      in (Inl (Computed
        \<lparr>st_version = version, st_runningContainers = runningContainers,
         st_activeWorkspaceDomains = activeWorkspaceDomains, st_installedAgents = installedAgents,
         st_trafficBytes = show_int (sum_list (map traffic_bytes trafficRows)),
         st_trafficWindowDays = min (int (length trafficRows)) TRAFFIC_WINDOW_DAYS,
         st_trafficAvailable = (length trafficRows > 0), st_generatedAt = clock h\<rparr>), (h, cache)))"
| "stats_advance version (Computed data) (h, cache) = (Inr data, (h, Some (data, clock h + CACHE_TTL_MS)))"

fun stats_start :: "hub \<times> stats_cache \<Rightarrow> stats_stage" where
  "stats_start (h, cache) = CountingContainers (utc_day (clock h) - TRAFFIC_WINDOW_DAYS)"

text \<open>A call: the cache, then the run under way, then a run of its own.\<close>

definition stats_call ::
  "nat \<Rightarrow> (stats_stage, hub \<times> stats_cache, public_stats) flight \<Rightarrow> (stats_stage, hub \<times> stats_cache, public_stats) flight" where
  "stats_call i w =
     (case fl_state w of
        (h, Some (data, expiresAt)) \<Rightarrow>
          if clock h < expiresAt then w\<lparr>fl_answers := fl_answers w @ [(i, data)]\<rparr>
          else flight_call stats_start i w
      | (h, None) \<Rightarrow> flight_call stats_start i w)"

fun stats_left :: "stats_stage \<Rightarrow> hub \<times> stats_cache \<Rightarrow> nat" where
  "stats_left (CountingContainers w) s = 5"
| "stats_left (CountingDomains w a) s = 4"
| "stats_left (CountingAgents w a b) s = 3"
| "stats_left (FindingTraffic w a b c) s = 2"
| "stats_left (Computed d) s = 1"

definition stats_data :: "string option \<Rightarrow> hub \<Rightarrow> int \<Rightarrow> nat \<Rightarrow> nat \<Rightarrow> nat \<Rightarrow> public_stats" where
  "stats_data version h w a b c =
     (let rows = filter (\<lambda>r. w \<le> traffic_date r) (traffic_daily h)
      in \<lparr>st_version = version, st_runningContainers = a, st_activeWorkspaceDomains = b, st_installedAgents = c,
          st_trafficBytes = show_int (sum_list (map traffic_bytes rows)),
          st_trafficWindowDays = min (int (length rows)) TRAFFIC_WINDOW_DAYS,
          st_trafficAvailable = (length rows > 0), st_generatedAt = clock h\<rparr>)"

definition stats_kept :: "hub \<Rightarrow> public_stats \<Rightarrow> public_stats \<times> (hub \<times> stats_cache)" where
  "stats_kept h d = (d, (h, Some (d, clock h + CACHE_TTL_MS)))"

abbreviation domains_of :: "hub \<Rightarrow> nat" where
  "domains_of h \<equiv> count_rows (\<lambda>w. workspace_subdomain_active w \<and> workspace_deleted_at w = None) (workspaces h)"

abbreviation agents_of :: "hub \<Rightarrow> nat" where
  "agents_of h \<equiv> count_rows (\<lambda>a. agent_version a \<noteq> None) (agents h)"

fun stats_rest :: "string option \<Rightarrow> stats_stage \<Rightarrow> hub \<times> stats_cache \<Rightarrow> public_stats \<times> (hub \<times> stats_cache)" where
  "stats_rest v (CountingContainers w) (h, c) =
     stats_kept h (stats_data v h w (running_containers h) (domains_of h) (agents_of h))"
| "stats_rest v (CountingDomains w x) (h, c) = stats_kept h (stats_data v h w x (domains_of h) (agents_of h))"
| "stats_rest v (CountingAgents w x y) (h, c) = stats_kept h (stats_data v h w x y (agents_of h))"
| "stats_rest v (FindingTraffic w x y z) (h, c) = stats_kept h (stats_data v h w x y z)"
| "stats_rest v (Computed d) (h, c) = stats_kept h d"

interpretation public_numbers: shared_run stats_start "stats_advance version" "stats_rest version" stats_left for version
proof
  fix stage s stage2 s2 out
  show "stats_advance version stage s = (Inl stage2, s2) \<Longrightarrow>
      stats_rest version stage2 s2 = stats_rest version stage s \<and> stats_left stage2 s2 < stats_left stage s"
    by (induction version stage s rule: stats_advance.induct) (auto simp: stats_data_def Let_def)
  show "stats_advance version stage s = (Inr out, s2) \<Longrightarrow> stats_rest version stage s = (out, s2)"
    by (induction version stage s rule: stats_advance.induct) (auto simp: stats_kept_def Let_def)
qed

lemma stats_rest_start:
  "stats_rest v (stats_start (h, c)) (h, c) = (computeStats v h, (h, Some (computeStats v h, clock h + CACHE_TTL_MS)))"
  by (simp add: computeStats_def stats_kept_def stats_data_def window_rows_def Let_def)

section \<open>The catalogue while a synchronisation runs\<close>

text \<open>What happens around a synchronisation: it is wanted by the schedule or by a handler that needs a fresh
  catalogue (\<open>ensureFresh\<close>, which hides its failure), it goes on with what GitHub answers at that moment, an
  operator sets or lifts a block, and the rest of the Hub, which leaves the catalogue alone, takes a step.\<close>

type_synonym catalog_world = "(sync_stage, hub, http_error + unit) flight"

datatype catalog_event =
    SyncWanted nat
  | FreshWanted nat
  | SyncContinues config
  | ManualBlock string "string option"
  | RestOfHub hub

definition fresh_call :: "nat \<Rightarrow> catalog_world \<Rightarrow> catalog_world" where
  "fresh_call i w =
     (let h = fl_state w
      in if clock h - lastSyncedAt h < Releases.FRESHNESS_MS \<or> clock h - lastAttemptAt h < RETRY_BACKOFF_MS
         then w\<lparr>fl_answers := fl_answers w @ [(i, Inr ())]\<rparr>
         else flight_call (\<lambda>h. Fetching) i (w\<lparr>fl_state := h\<lparr>lastAttemptAt := clock h\<rparr>\<rparr>))"

fun catalog_step :: "catalog_event \<Rightarrow> catalog_world \<Rightarrow> catalog_world" where
  "catalog_step (SyncWanted i) w = flight_call (\<lambda>h. Fetching) i w"
| "catalog_step (FreshWanted i) w = fresh_call i w"
| "catalog_step (SyncContinues cfg) w = flight_advance (sync_advance cfg) w"
| "catalog_step (ManualBlock version reason) w = w\<lparr>fl_state := snd (set_manual_block version reason (fl_state w))\<rparr>"
| "catalog_step (RestOfHub h) w =
     (if agent_releases h = agent_releases (fl_state w) \<and> lastSyncedAt h = lastSyncedAt (fl_state w)
         \<and> lastAttemptAt h = lastAttemptAt (fl_state w)
      then w\<lparr>fl_state := h\<rparr> else w)"

lemma fresh_alone:
  "\<exists>n. fl_state (fold catalog_step (FreshWanted i # replicate n (SyncContinues cfg)) (idle h)) = ensureFresh cfg h"
proof (cases "clock h - lastSyncedAt h < Releases.FRESHNESS_MS \<or> clock h - lastAttemptAt h < RETRY_BACKOFF_MS")
  case True
  then show ?thesis
    by (intro exI [of _ 0]) (auto simp: fresh_call_def idle_def ensureFresh_def)
next
  case False
  let ?h = "h\<lparr>lastAttemptAt := clock h\<rparr>"
  have steps: "fold catalog_step (replicate n (SyncContinues cfg)) w
      = flight_steps (\<lambda>h. Fetching) (sync_advance cfg) (replicate n FlightGoesOn) w" for n w
    by (induction n arbitrary: w) simp_all
  let ?w = "flight_call (\<lambda>h. Fetching) i (idle ?h)"
  obtain n where n: "fl_running (flight_steps (\<lambda>h. Fetching) (sync_advance cfg) (replicate n FlightGoesOn) ?w) = None"
    using catalog_sync.lands by blast
  have one: "fl_started (flight_steps (\<lambda>h. Fetching) (sync_advance cfg) (replicate n FlightGoesOn) w) = fl_started w"
    for n and w :: catalog_world
    by (induction n arbitrary: w) (auto simp: flight_advance_def split: option.split prod.split sum.split)
  from catalog_sync.shared(3) [OF refl, of cfg "FlightCalled i # replicate n FlightGoesOn" ?h] n one [of n ?w]
  have "fl_state (flight_steps (\<lambda>h. Fetching) (sync_advance cfg) (replicate n FlightGoesOn) ?w) = snd (runSync cfg ?h)"
    by (simp add: flight_call_def idle_def)
  moreover have "fresh_call i (idle h) = ?w"
    using False by (simp add: fresh_call_def idle_def flight_call_def Let_def)
  ultimately have "fl_state (fold catalog_step (FreshWanted i # replicate n (SyncContinues cfg)) (idle h)) = snd (runSync cfg ?h)"
    by (simp only: fold_simps catalog_step.simps steps)
  with False show ?thesis by (auto simp: ensureFresh_def)
qed

text \<open>A block is kept by every step of a synchronisation, for no stage of it carries one.\<close>

definition has_block :: "string \<Rightarrow> string option \<Rightarrow> hub \<Rightarrow> bool" where
  "has_block v b h \<longleftrightarrow> map_option release_manual_block (findRelease v h) = Some b"

lemma has_block_upsert:
  "has_block v b h \<Longrightarrow> has_block v b (h\<lparr>agent_releases := upsert_release m rel p (agent_releases h)\<rparr>)"
  using find_upsert_same [of m rel p "agent_releases h"] find_upsert_other [of v m rel p "agent_releases h"]
  by (cases "v = meta_version m") (auto simp: has_block_def findRelease_def)

lemma has_block_mark:
  "has_block v b h \<Longrightarrow> has_block v b (h\<lparr>agent_releases := markYanked vs old now (agent_releases h)\<rparr>)"
  by (auto simp: has_block_def findRelease_def find_yanked_mark split: option.split)

lemma has_block_stamps [simp]:
  "has_block v b (h\<lparr>lastSyncedAt := t\<rparr>) = has_block v b h"
  "has_block v b (h\<lparr>lastAttemptAt := t\<rparr>) = has_block v b h"
  by (simp_all add: has_block_def findRelease_def)

lemma has_block_advance: "has_block v b h \<Longrightarrow> has_block v b (snd (sync_advance cfg stage h))"
  by (induction cfg stage h rule: sync_advance.induct)
    (auto simp: has_block_upsert has_block_mark split: github_response.split sum.split option.split)

lemma findRelease_manual_other: "u \<noteq> v \<Longrightarrow> findRelease v (snd (set_manual_block u r h)) = findRelease v h"
  by (auto simp: set_manual_block_def findRelease_def find_update_same map_option_case split: option.splits
      dest: find_SomeD)

lemma has_block_step:
  assumes "has_block v b (fl_state w)" and "\<forall>r. ev \<noteq> ManualBlock v r"
  shows "has_block v b (fl_state (catalog_step ev w))"
proof (cases ev)
  case (SyncContinues cfg)
  with assms(1) show ?thesis
    using has_block_advance [OF assms(1), of cfg]
    by (auto simp: flight_advance_def split: option.split prod.split sum.split) (metis snd_conv)+
next
  case (ManualBlock u r)
  with assms show ?thesis by (simp add: has_block_def findRelease_manual_other)
qed (use assms in \<open>auto simp: flight_call_def fresh_call_def Let_def has_block_def findRelease_def split: option.split\<close>)

lemma has_block_steps:
  assumes "has_block v b (fl_state w)" and "\<forall>ev\<in>set evs. \<forall>r. ev \<noteq> ManualBlock v r"
  shows "has_block v b (fl_state (fold catalog_step evs w))"
  using assms
proof (induction evs arbitrary: w)
  case (Cons ev evs)
  then show ?case using has_block_step [of v b w ev] by simp
qed simp

section \<open>Properties\<close>

lemma started_step:
  "fl_started (flight_step start advance e w)
    = fl_started w + (if fl_running w = None then length (flight_callers [e]) else 0)"
  by (cases e) (auto simp: flight_defs split: option.split prod.split sum.split)

text \<open>C17: overlapping synchronisations of the catalogue are one. Whatever callers want a synchronisation and
  however their calls fall between its steps: callers are answered once each and in order; every answer
  is the outcome of a whole synchronisation, and when none is under way the catalogue is what that many
  whole synchronisations, one after the other, have made of it; only a call that finds none under way starts
  one; and one that is under way is shared. Whatever events follow, either it is still under way, with all who
  called since in its line, or it has come to its end before any other began, and its one outcome, that of a
  whole synchronisation on what the ones before it left, was given to every caller that was waiting or
  came meanwhile. Left to go on, it comes to its end.\<close>

theorem syncs_run_one_by_one:
  assumes "w = flight_steps (\<lambda>h. Fetching) (sync_advance cfg) es (idle h)"
  shows "map fst (fl_answers w) @ flight_waiting w = flight_callers es
    \<and> (\<forall>(i, out)\<in>set (fl_answers w).
         \<exists>n<fl_started w. out = fst (runSync cfg (((\<lambda>h. snd (runSync cfg h)) ^^ n) h)))
    \<and> (fl_running w = None \<longrightarrow> fl_state w = ((\<lambda>h. snd (runSync cfg h)) ^^ fl_started w) h)
    \<and> (\<forall>e. fl_started (flight_step (\<lambda>h. Fetching) (sync_advance cfg) e w)
         = fl_started w + (if fl_running w = None then length (flight_callers [e]) else 0))
    \<and> (\<forall>stage waiting fs. fl_running w = Some (stage, waiting) \<longrightarrow>
         (let v = flight_steps (\<lambda>h. Fetching) (sync_advance cfg) fs w
          in (\<exists>stage2. fl_running v = Some (stage2, waiting @ flight_callers fs))
             \<and> fl_started v = fl_started w \<and> fl_answers v = fl_answers w)
         \<or> (\<exists>f1 f2. fs = f1 @ f2
             \<and> (let u = flight_steps (\<lambda>h. Fetching) (sync_advance cfg) f1 w
                in fl_running u = None \<and> fl_started u = fl_started w
                   \<and> fl_answers u = fl_answers w
                       @ map (\<lambda>i. (i, fst (runSync cfg (((\<lambda>h. snd (runSync cfg h)) ^^ (fl_started w - 1)) h))))
                           (waiting @ flight_callers f1))))
    \<and> (\<exists>n. map fst (fl_answers (flight_steps (\<lambda>h. Fetching) (sync_advance cfg) (replicate n FlightGoesOn) w))
         = flight_callers es)"
proof -
  note line = catalog_sync.shared [OF assms]
  have answers: "\<forall>(i, out)\<in>set (fl_answers w).
      \<exists>n<fl_started w. out = fst (runSync cfg (((\<lambda>h. snd (runSync cfg h)) ^^ n) h))"
    using line(2) by auto
  have state: "fl_running w = None \<longrightarrow> fl_state w = ((\<lambda>h. snd (runSync cfg h)) ^^ fl_started w) h"
    using line(3) by simp
  have begins: "\<forall>e. fl_started (flight_step (\<lambda>h. Fetching) (sync_advance cfg) e w)
      = fl_started w + (if fl_running w = None then length (flight_callers [e]) else 0)"
    by (intro allI started_step)
  have shared: "\<forall>stage waiting fs. fl_running w = Some (stage, waiting) \<longrightarrow>
         (let v = flight_steps (\<lambda>h. Fetching) (sync_advance cfg) fs w
          in (\<exists>stage2. fl_running v = Some (stage2, waiting @ flight_callers fs))
             \<and> fl_started v = fl_started w \<and> fl_answers v = fl_answers w)
         \<or> (\<exists>f1 f2. fs = f1 @ f2
             \<and> (let u = flight_steps (\<lambda>h. Fetching) (sync_advance cfg) f1 w
                in fl_running u = None \<and> fl_started u = fl_started w
                   \<and> fl_answers u = fl_answers w
                       @ map (\<lambda>i. (i, fst (runSync cfg (((\<lambda>h. snd (runSync cfg h)) ^^ (fl_started w - 1)) h))))
                           (waiting @ flight_callers f1)))"
  proof (intro allI impI)
    fix stage waiting fs
    assume running: "fl_running w = Some (stage, waiting)"
    from catalog_sync.run_is_shared [OF running [unfolded assms], of fs]
    show "(let v = flight_steps (\<lambda>h. Fetching) (sync_advance cfg) fs w
          in (\<exists>stage2. fl_running v = Some (stage2, waiting @ flight_callers fs))
             \<and> fl_started v = fl_started w \<and> fl_answers v = fl_answers w)
         \<or> (\<exists>f1 f2. fs = f1 @ f2
             \<and> (let u = flight_steps (\<lambda>h. Fetching) (sync_advance cfg) f1 w
                in fl_running u = None \<and> fl_started u = fl_started w
                   \<and> fl_answers u = fl_answers w
                       @ map (\<lambda>i. (i, fst (runSync cfg (((\<lambda>h. snd (runSync cfg h)) ^^ (fl_started w - 1)) h))))
                           (waiting @ flight_callers f1)))"
      unfolding assms [symmetric] Let_def sync_rest.simps .
  qed
  have ends: "\<exists>n. map fst (fl_answers (flight_steps (\<lambda>h. Fetching) (sync_advance cfg) (replicate n FlightGoesOn) w))
         = flight_callers es"
    using catalog_sync.all_answered [of cfg es h] by (simp add: assms)
  show ?thesis by (intro conjI line(1) answers state begins shared ends)
qed

definition quiet_github :: config where
  "quiet_github = example_config\<lparr>cfg_github := (\<lambda>url headers. GithubReleases [])\<rparr>"

lemma syncs_run_one_by_one_witness:
  "fl_state (flight_steps (\<lambda>h. Fetching) (sync_advance quiet_github)
      [FlightCalled 0, FlightGoesOn, FlightCalled 1, FlightGoesOn, FlightGoesOn] (idle example_hub))
    = snd (runSync quiet_github example_hub)"
proof -
  let ?w = "flight_steps (\<lambda>h. Fetching) (sync_advance quiet_github)
      [FlightCalled 0, FlightGoesOn, FlightCalled 1, FlightGoesOn, FlightGoesOn] (idle example_hub)"
  have "fetch_releases quiet_github = GithubReleases []" by (simp add: fetch_releases_def quiet_github_def)
  then have "fl_running ?w = None" "fl_started ?w = 1" by (simp_all add: flight_defs idle_def)
  with syncs_run_one_by_one [of ?w, OF refl] show ?thesis by simp
qed

text \<open>C16: a block set by hand takes effect at once and for good. At whatever stage a synchronisation is when
  an operator blocks a version of the catalogue, and whatever follows, the rest of that synchronisation
  and later ones with any answers of GitHub included, as long as nobody sets or lifts a block of this
  version, the version stays refused for the operator's reason.\<close>

theorem block_survives_running_sync:
  assumes "findRelease v (fl_state w) \<noteq> None" and "reason \<noteq> []"
    and "\<forall>ev\<in>set evs. \<forall>r. ev \<noteq> ManualBlock v r"
  shows "\<exists>r. findRelease v (fl_state (fold catalog_step (ManualBlock v (Some reason) # evs) w)) = Some r
    \<and> blockedReason r = Some reason"
proof -
  let ?w = "catalog_step (ManualBlock v (Some reason)) w"
  have "has_block v (Some reason) (fl_state ?w)"
    using assms(1) by (auto simp: has_block_def findRelease_manual)
  from has_block_steps [OF this assms(3)]
  obtain r where r: "findRelease v (fl_state (fold catalog_step evs ?w)) = Some r" "release_manual_block r = Some reason"
    unfolding has_block_def by blast
  with assms(2) have "blockedReason r = Some reason" by (simp add: blockedReason_def)
  with r(1) show ?thesis unfolding fold_simps by blast
qed

lemma block_survives_running_sync_witness:
  "\<exists>r. findRelease ''0.10.0'' (fl_state (fold catalog_step
        [ManualBlock ''0.10.0'' (Some ''broken''), SyncContinues quiet_github, SyncWanted 1, SyncContinues quiet_github]
        (fold catalog_step [SyncWanted 0, SyncContinues quiet_github] (idle example_hub)))) = Some r
    \<and> blockedReason r = Some ''broken''"
proof (rule block_survives_running_sync)
  have "fetch_releases quiet_github = GithubReleases []" by (simp add: fetch_releases_def quiet_github_def)
  then have "fl_state (fold catalog_step [SyncWanted 0, SyncContinues quiet_github] (idle example_hub)) = example_hub"
    by (simp add: flight_defs idle_def)
  moreover have "findRelease ''0.10.0'' example_hub \<noteq> None" by code_simp
  ultimately show "findRelease ''0.10.0''
      (fl_state (fold catalog_step [SyncWanted 0, SyncContinues quiet_github] (idle example_hub))) \<noteq> None" by simp
qed simp_all

end
