(* ===== verification/Handshake.thy ===== *)
theory Handshake
  imports AgentGateway
begin

text \<open>
  The registration of a socket with its wait. \<open>handleValidation\<close> of \<open>src/agent/agent.gateway.ts\<close> gives a socket
  its identity and takes over the route to the agent, then waits for the stored secret of an agent that
  was not issued one, and only then attaches secret, replay guard and packet guard. Here packets, lost
  connections, other registrations and the rest of the Hub happen during the wait. What precedes the
  wait (the lookups, the check of the signature and \<open>registerAgent\<close>) is one step.
\<close>

section \<open>Registrations that wait\<close>

record waiting_registration =
  wr_client :: string
  wr_agent :: registered
  wr_version :: "string option"
  wr_secret :: "string option option"

record handshake =
  hs_hub :: hub
  hs_waiting :: "(nat, waiting_registration) jsmap"

definition validation_begin :: "config \<Rightarrow> nat \<Rightarrow> string \<Rightarrow> string \<Rightarrow> jval \<Rightarrow> handshake \<Rightarrow> handshake" where
  "validation_begin cfg i clientId rawIp payload w =
     (let h = hs_hub w; agentVersion = str_field ''agentVersion'' payload
      in case register_rejection cfg payload h of
        Some (code, data) \<Rightarrow> w\<lparr>hs_hub := refuse clientId code data h\<rparr>
      | None \<Rightarrow>
     (case registerAgent cfg (normalizeIp rawIp) (str_field ''agentUuid'' payload) agentVersion
             (protocol_field payload) h of
        (Inl e, h1) \<Rightarrow> w\<lparr>hs_hub := h1\<rparr>
      | (Inr agent, h1) \<Rightarrow>
          (case reg_signingSecret agent of
             Some x \<Rightarrow> w\<lparr>hs_hub := attach_end clientId agent (Some x) agentVersion (attach_begin clientId agent h1)\<rparr>
           | None \<Rightarrow> w\<lparr>hs_hub := attach_begin clientId agent h1,
                hs_waiting := map_set (hs_waiting w) i
                  \<lparr>wr_client = clientId, wr_agent = agent, wr_version = agentVersion, wr_secret = None\<rparr>\<rparr>)))"

text \<open>A packet; \<open>i\<close> names the registration it may start.\<close>

definition receive_begin ::
  "config \<Rightarrow> nat \<Rightarrow> string \<Rightarrow> string \<Rightarrow> string \<Rightarrow> jval \<Rightarrow> handshake \<Rightarrow> handshake" where
  "receive_begin cfg i clientId rawIp event payload w =
     (let (pass, h1) = guardPacket cfg clientId event payload (hs_hub w); w1 = w\<lparr>hs_hub := h1\<rparr>
      in if \<not> pass then w1
         else if event = ''register'' then validation_begin cfg i clientId rawIp payload w1
         else w\<lparr>hs_hub := dispatch cfg clientId rawIp event payload h1\<rparr>)"

text \<open>The database answers with the secret; later the handler goes on.\<close>

definition secret_answered :: "nat \<Rightarrow> handshake \<Rightarrow> handshake" where
  "secret_answered i w =
     (case map_get (hs_waiting w) i of
        None \<Rightarrow> w
      | Some r \<Rightarrow> w\<lparr>hs_waiting := map_set (hs_waiting w) i
          (r\<lparr>wr_secret := Some (getSigningSecret (reg_uuid (wr_agent r)) (hs_hub w))\<rparr>)\<rparr>)"

definition validation_end :: "nat \<Rightarrow> handshake \<Rightarrow> handshake" where
  "validation_end i w =
     (case map_get (hs_waiting w) i of
        None \<Rightarrow> w
      | Some r \<Rightarrow>
          (case wr_secret r of
             None \<Rightarrow> w
           | Some secret \<Rightarrow> w\<lparr>hs_hub := attach_end (wr_client r) (wr_agent r) secret (wr_version r) (hs_hub w),
                hs_waiting := map_delete (hs_waiting w) i\<rparr>))"

definition waits :: "string \<Rightarrow> handshake \<Rightarrow> bool" where
  "waits c w \<longleftrightarrow> (\<exists>(i, r)\<in>set (hs_waiting w). wr_client r = c)"

definition no_waiting :: "hub \<Rightarrow> handshake" where
  "no_waiting h = \<lparr>hs_hub = h, hs_waiting = []\<rparr>"

text \<open>A packet that nothing overlaps is handled as in \<open>AgentGateway\<close>.\<close>

lemma handshake_alone:
  "hs_hub (validation_end i (secret_answered i (receive_begin cfg i c ip event payload (no_waiting h))))
     = receive cfg c ip event payload h"
proof -
  obtain pass h1 where g: "guardPacket cfg c event payload h = (pass, h1)" by force
  have "hs_hub (validation_end i (secret_answered i (validation_begin cfg i c ip payload (no_waiting h1))))
      = handleValidation cfg c ip payload h1"
  proof (cases "register_rejection cfg payload h1")
    case (Some cd)
    then show ?thesis
      by (cases cd) (simp add: validation_begin_def handleValidation_def secret_answered_def validation_end_def no_waiting_def map_get_def)
  next
    case None
    obtain r h2 where r: "registerAgent cfg (normalizeIp ip) (str_field ''agentUuid'' payload)
        (str_field ''agentVersion'' payload) (protocol_field payload) h1 = (r, h2)" by force
    show ?thesis
    proof (cases r)
      case (Inr agent)
      with None r show ?thesis
        by (cases "reg_signingSecret agent")
          (simp_all add: validation_begin_def handleValidation_def secret_answered_def validation_end_def no_waiting_def
            attach_socket_def Let_def map_get_def map_set_def)
    qed (use None r in \<open>simp add: validation_begin_def handleValidation_def secret_answered_def validation_end_def
           no_waiting_def map_get_def\<close>)
  qed
  then show ?thesis
    by (simp add: receive_def receive_begin_def g Let_def dispatch_def secret_answered_def validation_end_def
        no_waiting_def map_get_def)
qed

section \<open>Runs\<close>

text \<open>
  The runs of the gateway: new sockets, packets, answers of the database, lost connections, and any step
  of the rest of the Hub, which leaves the sockets alone and keeps the stored secrets. A new socket has a
  new id. On the sockets of \<open>alone\<close>, no registration starts while another one waits; the others are free.
\<close>

inductive handshake_run :: "config \<Rightarrow> string set \<Rightarrow> hub \<Rightarrow> handshake \<Rightarrow> bool" for cfg alone h0 where
  start: "handshake_run cfg alone h0 (no_waiting h0)"
| connect: "handshake_run cfg alone h0 w \<Longrightarrow> socket_data c (hs_hub w) = None \<Longrightarrow> \<not> waits c w \<Longrightarrow>
    handshake_run cfg alone h0 (w\<lparr>hs_hub := handleConnection c (hs_hub w)\<rparr>)"
| packet: "handshake_run cfg alone h0 w \<Longrightarrow> map_get (hs_waiting w) i = None \<Longrightarrow>
    (c \<in> alone \<Longrightarrow> event = ''register'' \<Longrightarrow> \<not> waits c w) \<Longrightarrow>
    handshake_run cfg alone h0 (receive_begin cfg i c ip event payload w)"
| answered: "handshake_run cfg alone h0 w \<Longrightarrow> handshake_run cfg alone h0 (secret_answered i w)"
| continues: "handshake_run cfg alone h0 w \<Longrightarrow> handshake_run cfg alone h0 (validation_end i w)"
| disconnect: "handshake_run cfg alone h0 w \<Longrightarrow>
    handshake_run cfg alone h0 (w\<lparr>hs_hub := handleDisconnect c auth (hs_hub w)\<rparr>)"
| other: "handshake_run cfg alone h0 w \<Longrightarrow> sockets h' = sockets (hs_hub w) \<Longrightarrow> secrets_kept (hs_hub w) h' \<Longrightarrow>
    distinct (map agent_uuid (agents h')) \<Longrightarrow> handshake_run cfg alone h0 (w\<lparr>hs_hub := h'\<rparr>)"

section \<open>The invariant of the runs\<close>

text \<open>The secret a waiting registration gets is the one that is stored.\<close>

definition secret_due :: "hub \<Rightarrow> waiting_registration \<Rightarrow> bool" where
  "secret_due h r \<longleftrightarrow> (\<exists>x. x \<noteq> [] \<and> getSigningSecret (reg_uuid (wr_agent r)) h = Some x
     \<and> (wr_secret r = None \<or> wr_secret r = Some (Some x)))"

definition hs_ok :: "string set \<Rightarrow> handshake \<Rightarrow> bool" where
  "hs_ok alone w \<longleftrightarrow>
     distinct (map agent_uuid (agents (hs_hub w))) \<and> distinct (map_keys (hs_waiting w))
     \<and> (\<forall>c s. map_get (sockets (hs_hub w)) c = Some s \<longrightarrow> (guarded s \<or> waits c w)
          \<and> (c \<in> alone \<longrightarrow> \<not> waits c w \<longrightarrow> attached_socket (hs_hub w) s))
     \<and> (\<forall>i r. map_get (hs_waiting w) i = Some r \<longrightarrow> secret_due (hs_hub w) r
          \<and> (wr_client r \<in> alone \<longrightarrow> (\<forall>s. map_get (sockets (hs_hub w)) (wr_client r) = Some s \<longrightarrow>
               data_agentUuid s = Some (reg_uuid (wr_agent r)))))
     \<and> (\<forall>i j r q. map_get (hs_waiting w) i = Some r \<longrightarrow> map_get (hs_waiting w) j = Some q \<longrightarrow>
          wr_client r = wr_client q \<longrightarrow> wr_client r \<in> alone \<longrightarrow> i = j)"

lemma waits_iff: "distinct (map_keys (hs_waiting w)) \<Longrightarrow>
    waits c w \<longleftrightarrow> (\<exists>i r. map_get (hs_waiting w) i = Some r \<and> wr_client r = c)"
  by (auto simp: waits_def map_get_eq_Some)

lemma waits_hub [simp]: "waits c (w\<lparr>hs_hub := h\<rparr>) = waits c w"
  by (simp add: waits_def)

lemma secret_due_mono: "secrets_kept h h' \<Longrightarrow> secret_due h r \<Longrightarrow> secret_due h' r"
  unfolding secret_due_def secrets_kept_def by blast

lemma hs_ok_hub:
  assumes "hs_ok alone w" and "secrets_kept (hs_hub w) h'" and "distinct (map agent_uuid (agents h'))"
    and "\<And>c s. map_get (sockets h') c = Some s \<Longrightarrow> map_get (sockets (hs_hub w)) c = Some s \<or>
      (guarded s \<or> waits c w) \<and> (c \<in> alone \<longrightarrow> \<not> waits c w \<longrightarrow> attached_socket h' s)
      \<and> (\<forall>i r. map_get (hs_waiting w) i = Some r \<longrightarrow> wr_client r = c \<longrightarrow> c \<in> alone \<longrightarrow>
           data_agentUuid s = Some (reg_uuid (wr_agent r)))"
  shows "hs_ok alone (w\<lparr>hs_hub := h'\<rparr>)"
proof -
  have "(guarded s \<or> waits c w) \<and> (c \<in> alone \<longrightarrow> \<not> waits c w \<longrightarrow> attached_socket h' s)"
    if "map_get (sockets h') c = Some s" for c s
    using assms(4) [OF that] assms(1) attached_socket_mono [OF assms(2)] unfolding hs_ok_def by blast
  moreover have "secret_due h' r \<and> (wr_client r \<in> alone \<longrightarrow> (\<forall>s. map_get (sockets h') (wr_client r) = Some s \<longrightarrow>
      data_agentUuid s = Some (reg_uuid (wr_agent r))))" if r: "map_get (hs_waiting w) i = Some r" for i r
    using secret_due_mono [OF assms(2)] assms(1,4) r unfolding hs_ok_def by blast
  ultimately show ?thesis using assms(1,3) unfolding hs_ok_def by simp
qed

lemma hs_ok_same:
  assumes "hs_ok alone w" and "sockets h' = sockets (hs_hub w)" and "secrets_kept (hs_hub w) h'"
    and "distinct (map agent_uuid (agents h'))"
  shows "hs_ok alone (w\<lparr>hs_hub := h'\<rparr>)"
  by (rule hs_ok_hub [OF assms(1,3,4)]) (simp add: assms(2))

lemma identities_kept:
  assumes "identities h' = identities h"
  shows "secrets_kept h h'" and "map agent_uuid (agents h') = map agent_uuid (agents h)"
    and "getSigningSecret u h' = getSigningSecret u h"
proof -
  have "map agent_uuid (agents g) = map fst (identities g)" for g by (simp add: identities_def)
  with assms show "map agent_uuid (agents h') = map agent_uuid (agents h)" by simp
qed (simp_all add: secrets_kept_def secret_of_identities assms)

lemma hs_ok_quiet: "hs_ok alone w \<Longrightarrow> quiet (hs_hub w) h' \<Longrightarrow> hs_ok alone (w\<lparr>hs_hub := h'\<rparr>)"
  using identities_kept [of h' "hs_hub w"] by (intro hs_ok_same) (simp_all add: quiet_def hs_ok_def)

lemma attached_socket_cong: "identities h' = identities h \<Longrightarrow> attached_socket h' s = attached_socket h s"
  using identities_kept(3) [of h' h] by (simp add: attached_socket_def split: option.split)

lemma guarded_attached: "attached_socket h s \<Longrightarrow> guarded s"
  by (auto simp: attached_socket_def guarded_def split: option.splits)

lemma identities_same: "agents h' = agents h \<Longrightarrow> identities h' = identities h"
  by (simp add: identities_def)

subsection \<open>The two halves of a registration\<close>

lemma attach_begin_effect:
  "identities (attach_begin c a h) = identities h"
  "map_get (sockets (attach_begin c a h)) d = (if d = c then map_option
     (\<lambda>s. s\<lparr>data_agentCode := Some (reg_code a), data_agentUuid := Some (reg_uuid a),
            data_agentIp := Some (reg_ip a), data_workspaceIndex := reg_parentWorkspace a\<rparr>) (map_get (sockets h) c)
     else map_get (sockets h) d)"
  by (auto simp: attach_begin_def Let_def set_socket_def socket_data_def identities_def split: option.split)

lemma attach_end_effect:
  "identities (attach_end c a x v h) = identities h"
  "map_get (sockets (attach_end c a x v h)) d = (if d = c then map_option
     (\<lambda>s. guardIncomingPackets (s\<lparr>data_signingSecret := x, data_replayGuard := newReplayGuard\<rparr>)) (map_get (sockets h) c)
     else map_get (sockets h) d)"
proof -
  define h1 where "h1 = (case socket_data c h of
      None \<Rightarrow> h
    | Some s \<Rightarrow> emit (AgentEmit c ''register'' (JObj [(''code'', JStr ''ok''), (''data'', registered_json a)]))
        (set_socket c (guardIncomingPackets (s\<lparr>data_signingSecret := x, data_replayGuard := newReplayGuard\<rparr>)) h))"
  have "quiet h1 (notifyWorkspaceUpdated (reg_parentWorkspace a) (handleReconnect (reg_uuid a) v h1))"
    by (rule quiet_trans [OF quiet_reconnect quiet_same]) simp_all
  then have q: "quiet h1 (attach_end c a x v h)" by (simp add: attach_end_def h1_def Let_def)
  have "identities h1 = identities h" "map_get (sockets h1) d = (if d = c then map_option
     (\<lambda>s. guardIncomingPackets (s\<lparr>data_signingSecret := x, data_replayGuard := newReplayGuard\<rparr>)) (map_get (sockets h) c)
     else map_get (sockets h) d)"
    by (auto simp: h1_def socket_data_def set_socket_def identities_def split: option.split)
  with q show "identities (attach_end c a x v h) = identities h"
    "map_get (sockets (attach_end c a x v h)) d = (if d = c then map_option
     (\<lambda>s. guardIncomingPackets (s\<lparr>data_signingSecret := x, data_replayGuard := newReplayGuard\<rparr>)) (map_get (sockets h) c)
     else map_get (sockets h) d)"
    by (simp_all add: quiet_def)
qed

lemma installed [simp]:
  "data_packetGuardInstalled (guardIncomingPackets s)" "data_agentUuid (guardIncomingPackets s) = data_agentUuid s"
  "data_signingSecret (guardIncomingPackets s) = data_signingSecret s"
  "data_workspaceIndex (guardIncomingPackets s) = data_workspaceIndex s"
  by (simp_all add: guardIncomingPackets_def)

lemma hs_ok_at_once:
  assumes "hs_ok alone w" and "c \<in> alone \<longrightarrow> \<not> waits c w"
    and "x \<noteq> []" and "getSigningSecret (reg_uuid a) (hs_hub w) = Some x"
  shows "hs_ok alone (w\<lparr>hs_hub := attach_end c a (Some x) v (attach_begin c a (hs_hub w))\<rparr>)"
proof (rule hs_ok_hub [OF assms(1)])
  let ?h = "attach_end c a (Some x) v (attach_begin c a (hs_hub w))"
  have id: "identities ?h = identities (hs_hub w)" by (simp add: attach_begin_effect attach_end_effect)
  show "secrets_kept (hs_hub w) ?h" by (rule identities_kept(1) [OF id])
  show "distinct (map agent_uuid (agents ?h))" using assms(1) by (simp add: identities_kept(2) [OF id] hs_ok_def)
  have no: "map_get (hs_waiting w) i = Some r \<Longrightarrow> wr_client r = c \<Longrightarrow> c \<notin> alone" for i r
    using assms(1,2) by (auto simp: hs_ok_def waits_iff)
  fix d s assume s: "map_get (sockets ?h) d = Some s"
  show "map_get (sockets (hs_hub w)) d = Some s \<or>
      (guarded s \<or> waits d w) \<and> (d \<in> alone \<longrightarrow> \<not> waits d w \<longrightarrow> attached_socket ?h s)
      \<and> (\<forall>i r. map_get (hs_waiting w) i = Some r \<longrightarrow> wr_client r = d \<longrightarrow> d \<in> alone \<longrightarrow>
           data_agentUuid s = Some (reg_uuid (wr_agent r)))"
  proof (cases "d = c")
    case True
    with s have "data_packetGuardInstalled s" "data_agentUuid s = Some (reg_uuid a)" "data_signingSecret s = Some x"
      by (auto simp: attach_begin_effect attach_end_effect)
    then have "attached_socket ?h s" "guarded s"
      using assms(3,4) identities_kept(3) [OF id] by (simp_all add: attached_socket_def guarded_def falsy_def)
    with True no show ?thesis by blast
  next
    case False
    with s show ?thesis by (simp add: attach_begin_effect attach_end_effect)
  qed
qed

lemma hs_ok_begin:
  assumes ok: "hs_ok alone w" and fresh: "map_get (hs_waiting w) i = None" and "c \<in> alone \<longrightarrow> \<not> waits c w"
    and "x \<noteq> []" and "getSigningSecret (reg_uuid a) (hs_hub w) = Some x"
  shows "hs_ok alone (w\<lparr>hs_hub := attach_begin c a (hs_hub w), hs_waiting := map_set (hs_waiting w) i
    \<lparr>wr_client = c, wr_agent = a, wr_version = v, wr_secret = None\<rparr>\<rparr>)" (is "hs_ok alone ?w")
proof -
  let ?h = "attach_begin c a (hs_hub w)"
  define w2 where "w2 = ?w"
  have W [simp]: "hs_waiting w2 = map_set (hs_waiting w) i \<lparr>wr_client = c, wr_agent = a, wr_version = v, wr_secret = None\<rparr>"
    and hub: "hs_hub w2 = ?h"
    by (simp_all add: w2_def)
  have id: "identities ?h = identities (hs_hub w)" by (simp add: attach_begin_effect)
  have dist: "distinct (map_keys (hs_waiting w))" using ok by (simp add: hs_ok_def)
  then have dist': "distinct (map_keys (hs_waiting w2))" by simp
  have wt: "waits d w2 \<longleftrightarrow> d = c \<or> waits d w" for d
  proof -
    have "map_get (hs_waiting w) j = Some r \<Longrightarrow> j \<noteq> i" for j r using fresh by auto
    then show ?thesis unfolding waits_iff [OF dist'] waits_iff [OF dist] by (auto split: if_splits)
  qed
  have no: "map_get (hs_waiting w) j = Some r \<Longrightarrow> wr_client r = c \<Longrightarrow> c \<notin> alone" for j r
    using assms(3) by (auto simp: waits_iff [OF dist])
  have old: "map_get (hs_waiting w) j = Some r" if "map_get (hs_waiting w2) j = Some r" "wr_client r \<noteq> c" for j r
    using that by (cases "j = i") auto
  have uniq: "map_get (hs_waiting w) j = Some r \<Longrightarrow> map_get (hs_waiting w) k = Some q \<Longrightarrow>
      wr_client r = wr_client q \<Longrightarrow> wr_client r \<in> alone \<Longrightarrow> j = k" for j k r q
    using ok unfolding hs_ok_def by blast
  have "distinct (map agent_uuid (agents ?h))" using ok by (simp add: identities_kept(2) [OF id] hs_ok_def)
  moreover have "(guarded s \<or> waits d w2) \<and> (d \<in> alone \<longrightarrow> \<not> waits d w2 \<longrightarrow> attached_socket ?h s)"
    if "map_get (sockets ?h) d = Some s" for d s
    using that ok by (auto simp: wt attach_begin_effect attached_socket_cong [OF id] hs_ok_def split: if_splits)
  moreover have "secret_due ?h r \<and> (wr_client r \<in> alone \<longrightarrow> (\<forall>s. map_get (sockets ?h) (wr_client r) = Some s \<longrightarrow>
      data_agentUuid s = Some (reg_uuid (wr_agent r))))" if "map_get (hs_waiting w2) j = Some r" for j r
  proof (cases "j = i")
    case True
    with that have "r = \<lparr>wr_client = c, wr_agent = a, wr_version = v, wr_secret = None\<rparr>" by simp
    then show ?thesis using assms(4,5) by (auto simp: secret_due_def identities_kept(3) [OF id] attach_begin_effect)
  next
    case False
    with that have r: "map_get (hs_waiting w) j = Some r" by simp
    with ok no [OF r] show ?thesis
      by (auto simp: hs_ok_def attach_begin_effect secret_due_def identities_kept(3) [OF id])
  qed
  moreover have "j = k" if jk: "map_get (hs_waiting w2) j = Some r" "map_get (hs_waiting w2) k = Some q"
    "wr_client r = wr_client q" "wr_client r \<in> alone" for j k r q
  proof (cases "wr_client r = c")
    case True
    have c: "wr_client q = c" "c \<in> alone" using True jk(3,4) by simp_all
    have "j = i"
    proof (rule ccontr)
      assume "j \<noteq> i"
      with jk(1) have "map_get (hs_waiting w) j = Some r" by simp
      from no [OF this True] c(2) show False by blast
    qed
    moreover have "k = i"
    proof (rule ccontr)
      assume "k \<noteq> i"
      with jk(2) have "map_get (hs_waiting w) k = Some q" by simp
      from no [OF this c(1)] c(2) show False by blast
    qed
    ultimately show ?thesis by simp
  next
    case False
    then have "wr_client q \<noteq> c" unfolding jk(3) .
    from uniq [OF old [OF jk(1) False] old [OF jk(2) this] jk(3,4)] show ?thesis .
  qed
  ultimately show ?thesis using dist' unfolding w2_def [symmetric] hs_ok_def hub by blast
qed

lemma hs_ok_answered: "hs_ok alone w \<Longrightarrow> hs_ok alone (secret_answered i w)"
proof (cases "map_get (hs_waiting w) i")
  case (Some r)
  assume ok: "hs_ok alone w"
  let ?q = "r\<lparr>wr_secret := Some (getSigningSecret (reg_uuid (wr_agent r)) (hs_hub w))\<rparr>"
  have w: "secret_answered i w = w\<lparr>hs_waiting := map_set (hs_waiting w) i ?q\<rparr>" by (simp add: secret_answered_def Some)
  have dist: "distinct (map_keys (hs_waiting w))" using ok by (simp add: hs_ok_def)
  then have dist': "distinct (map_keys (hs_waiting (secret_answered i w)))" by (simp add: w)
  have q: "\<exists>q'. map_get (hs_waiting w) j = Some q' \<and> wr_client q' = wr_client q \<and> wr_agent q' = wr_agent q
      \<and> (wr_secret q = wr_secret q' \<or> wr_secret q = Some (getSigningSecret (reg_uuid (wr_agent q)) (hs_hub w)))"
    if "map_get (hs_waiting (secret_answered i w)) j = Some q" for j q
    using that Some by (auto simp: w split: if_splits)
  have wt: "waits d (secret_answered i w) = waits d w" for d
  proof
    show "waits d (secret_answered i w) \<Longrightarrow> waits d w"
      using q unfolding waits_iff [OF dist'] waits_iff [OF dist] by blast
    assume "waits d w"
    then obtain j p where p: "map_get (hs_waiting w) j = Some p" "wr_client p = d" unfolding waits_iff [OF dist] by blast
    then have "\<exists>p'. map_get (hs_waiting (secret_answered i w)) j = Some p' \<and> wr_client p' = d"
      using Some by (cases "j = i") (auto simp: w)
    then show "waits d (secret_answered i w)" unfolding waits_iff [OF dist'] by blast
  qed
  have hub: "hs_hub (secret_answered i w) = hs_hub w" by (simp add: w)
  have "secret_due (hs_hub w) q \<and> (wr_client q \<in> alone \<longrightarrow> (\<forall>s. map_get (sockets (hs_hub w)) (wr_client q) = Some s \<longrightarrow>
      data_agentUuid s = Some (reg_uuid (wr_agent q))))" if "map_get (hs_waiting (secret_answered i w)) j = Some q" for j q
  proof -
    from q [OF that] obtain q' where q': "map_get (hs_waiting w) j = Some q'" "wr_client q' = wr_client q"
      "wr_agent q' = wr_agent q"
      "wr_secret q = wr_secret q' \<or> wr_secret q = Some (getSigningSecret (reg_uuid (wr_agent q)) (hs_hub w))" by blast
    with ok have "secret_due (hs_hub w) q'" unfolding hs_ok_def by blast
    with q'(3,4) have "secret_due (hs_hub w) q" by (auto simp: secret_due_def)
    with q'(1-3) ok show ?thesis unfolding hs_ok_def by metis
  qed
  moreover have "j = k" if pq: "map_get (hs_waiting (secret_answered i w)) j = Some p"
    "map_get (hs_waiting (secret_answered i w)) k = Some q" "wr_client p = wr_client q" "wr_client p \<in> alone" for j k p q
  proof -
    obtain p' q' where "map_get (hs_waiting w) j = Some p'" "map_get (hs_waiting w) k = Some q'"
      "wr_client p' = wr_client p" "wr_client q' = wr_client q"
      using q [OF pq(1)] q [OF pq(2)] by blast
    with ok pq(3,4) show ?thesis unfolding hs_ok_def by metis
  qed
  ultimately show ?thesis using ok dist' unfolding hs_ok_def wt hub by simp
qed (simp add: secret_answered_def)

lemma hs_ok_end: "hs_ok alone w \<Longrightarrow> hs_ok alone (validation_end i w)"
proof (cases "\<exists>r y. map_get (hs_waiting w) i = Some r \<and> wr_secret r = Some y")
  case True
  assume ok: "hs_ok alone w"
  from True obtain r y where r: "map_get (hs_waiting w) i = Some r" "wr_secret r = Some y" by blast
  let ?c = "wr_client r" and ?u = "reg_uuid (wr_agent r)"
  from ok r(1) have "secret_due (hs_hub w) r" unfolding hs_ok_def by blast
  with r(2) obtain x where x: "x \<noteq> []" "getSigningSecret ?u (hs_hub w) = Some x" "y = Some x"
    by (auto simp: secret_due_def)
  let ?h = "attach_end ?c (wr_agent r) (Some x) (wr_version r) (hs_hub w)"
  have w: "validation_end i w = w\<lparr>hs_hub := ?h, hs_waiting := map_delete (hs_waiting w) i\<rparr>"
    by (simp add: validation_end_def r x(3))
  have id: "identities ?h = identities (hs_hub w)" by (simp add: attach_end_effect)
  have dist: "distinct (map_keys (hs_waiting w))" using ok by (simp add: hs_ok_def)
  then have dist': "distinct (map_keys (hs_waiting (validation_end i w)))" by (simp add: w)
  have old: "map_get (hs_waiting (validation_end i w)) j = Some q \<longleftrightarrow> j \<noteq> i \<and> map_get (hs_waiting w) j = Some q" for j q
    by (auto simp: w)
  have wt: "waits d w \<Longrightarrow> d \<noteq> ?c \<Longrightarrow> waits d (validation_end i w)" for d
  proof -
    assume "waits d w" and "d \<noteq> ?c"
    then obtain j q where jq: "map_get (hs_waiting w) j = Some q" "wr_client q = d"
      unfolding waits_iff [OF dist] by blast
    with r(1) \<open>d \<noteq> ?c\<close> have "j \<noteq> i" by auto
    with jq show ?thesis unfolding waits_iff [OF dist'] old by blast
  qed
  have hub: "hs_hub (validation_end i w) = ?h" by (simp add: w)
  have socks: "(guarded s \<or> waits d (validation_end i w))
      \<and> (d \<in> alone \<longrightarrow> \<not> waits d (validation_end i w) \<longrightarrow> attached_socket ?h s)"
    if s: "map_get (sockets ?h) d = Some s" for d s
  proof (cases "d = ?c")
    case False
    with s have "map_get (sockets (hs_hub w)) d = Some s" by (simp add: attach_end_effect)
    with ok wt False show ?thesis unfolding hs_ok_def attached_socket_cong [OF id] by blast
  next
    case True
    with s obtain t where t: "map_get (sockets (hs_hub w)) ?c = Some t"
      "s = guardIncomingPackets (t\<lparr>data_signingSecret := Some x, data_replayGuard := newReplayGuard\<rparr>)"
      by (auto simp: attach_end_effect)
    then have "guarded s" by (simp add: guarded_def)
    moreover have "attached_socket ?h s" if "d \<in> alone"
    proof -
      have "data_agentUuid t = Some ?u" using ok r(1) t(1) that True unfolding hs_ok_def by blast
      with t(2) x(1,2) show ?thesis by (simp add: attached_socket_def falsy_def identities_kept(3) [OF id])
    qed
    ultimately show ?thesis by blast
  qed
  moreover have "secret_due ?h q \<and> (wr_client q \<in> alone \<longrightarrow> (\<forall>s. map_get (sockets ?h) (wr_client q) = Some s \<longrightarrow>
      data_agentUuid s = Some (reg_uuid (wr_agent q))))" if q: "map_get (hs_waiting (validation_end i w)) j = Some q" for j q
  proof -
    from q have j: "map_get (hs_waiting w) j = Some q" by (simp add: old)
    have "secret_due ?h q" using ok j secret_due_mono [OF identities_kept(1) [OF id]] unfolding hs_ok_def by blast
    moreover have "data_agentUuid s = Some (reg_uuid (wr_agent q))"
      if "wr_client q \<in> alone" "map_get (sockets ?h) (wr_client q) = Some s" for s
      using that ok j by (auto simp: hs_ok_def attach_end_effect split: if_splits)
    ultimately show ?thesis by blast
  qed
  moreover have "distinct (map agent_uuid (agents ?h))" using ok by (simp add: identities_kept(2) [OF id] hs_ok_def)
  ultimately show ?thesis using ok dist' unfolding hs_ok_def hub old by blast
next
  case False
  then show "hs_ok alone w \<Longrightarrow> ?thesis" by (auto simp: validation_end_def split: option.split)
qed

lemma hs_ok_validation:
  assumes ok: "hs_ok alone w" and fresh: "map_get (hs_waiting w) i = None" and free: "c \<in> alone \<longrightarrow> \<not> waits c w"
    and rand: "\<And>n. cfg_random cfg n \<noteq> []"
  shows "hs_ok alone (validation_begin cfg i c ip payload w)"
proof (cases "register_rejection cfg payload (hs_hub w)")
  case (Some cd)
  have "quiet (hs_hub w) (refuse c code data (hs_hub w))" for code data
    by (rule quiet_same) (simp_all add: refuse_def)
  with Some hs_ok_quiet [OF ok] show ?thesis by (cases cd) (simp add: validation_begin_def)
next
  case None
  obtain r h1 where r: "registerAgent cfg (normalizeIp ip) (str_field ''agentUuid'' payload)
      (str_field ''agentVersion'' payload) (protocol_field payload) (hs_hub w) = (r, h1)" by force
  have d: "distinct (map agent_uuid (agents (hs_hub w)))" using ok by (simp add: hs_ok_def)
  note res = registerAgent_result [OF r d rand]
  have ok1: "hs_ok alone (w\<lparr>hs_hub := h1\<rparr>)" by (rule hs_ok_same [OF ok]) (use res in blast)+
  show ?thesis
  proof (cases r)
    case (Inl e)
    with None r ok1 show ?thesis by (simp add: validation_begin_def)
  next
    case (Inr agent)
    with res obtain x where x: "x \<noteq> []" "getSigningSecret (reg_uuid agent) h1 = Some x"
      "reg_signingSecret agent = None \<or> reg_signingSecret agent = Some x" by blast
    have x2: "getSigningSecret (reg_uuid agent) (hs_hub (w\<lparr>hs_hub := h1\<rparr>)) = Some x"
      and free1: "c \<in> alone \<longrightarrow> \<not> waits c (w\<lparr>hs_hub := h1\<rparr>)" "map_get (hs_waiting (w\<lparr>hs_hub := h1\<rparr>)) i = None"
      using x(2) free fresh by simp_all
    show ?thesis
      using None r Inr x(3) hs_ok_at_once [OF ok1 free1(1) x(1) x2] hs_ok_begin [OF ok1 free1(2,1) x(1) x2]
      by (auto simp: validation_begin_def)
  qed
qed

lemma hs_ok_guard:
  assumes ok: "hs_ok alone w" and "guardPacket cfg c event payload (hs_hub w) = (pass, h1)"
  shows "hs_ok alone (w\<lparr>hs_hub := h1\<rparr>)"
proof -
  let ?h = "hs_hub w"
  have "h1 = ?h \<or> (\<exists>s g. map_get (sockets ?h) c = Some s \<and> h1 = set_socket c (s\<lparr>data_replayGuard := g\<rparr>) ?h)"
    using assms(2) by (auto simp: guardPacket_def split_beta split: option.splits if_splits)
  then show ?thesis
  proof (elim disjE exE conjE)
    fix s g assume s: "map_get (sockets ?h) c = Some s" and h1: "h1 = set_socket c (s\<lparr>data_replayGuard := g\<rparr>) ?h"
    let ?t = "s\<lparr>data_replayGuard := g\<rparr>"
    have id: "identities h1 = identities ?h" by (simp add: h1 set_socket_def identities_def)
    have same: "guarded ?t = guarded s" "attached_socket h1 ?t = attached_socket ?h s"
      using identities_kept(3) [OF id] by (simp_all add: guarded_def attached_socket_def split: option.split)
    show ?thesis
    proof (rule hs_ok_hub [OF ok identities_kept(1) [OF id]])
      show "distinct (map agent_uuid (agents h1))" using ok by (simp add: identities_kept(2) [OF id] hs_ok_def)
      fix d q assume q: "map_get (sockets h1) d = Some q"
      show "map_get (sockets ?h) d = Some q \<or> (guarded q \<or> waits d w) \<and>
          (d \<in> alone \<longrightarrow> \<not> waits d w \<longrightarrow> attached_socket h1 q) \<and>
          (\<forall>i r. map_get (hs_waiting w) i = Some r \<longrightarrow> wr_client r = d \<longrightarrow> d \<in> alone \<longrightarrow>
            data_agentUuid q = Some (reg_uuid (wr_agent r)))"
      proof (cases "d = c")
        case True
        with q have "q = ?t" by (simp add: h1 set_socket_def)
        with True ok s same show ?thesis unfolding hs_ok_def by auto
      qed (use q in \<open>simp add: h1 set_socket_def\<close>)
    qed
  qed (use ok in simp)
qed

lemma quiet_disconnect: "quiet (h\<lparr>sockets := map_delete (sockets h) c\<rparr>) (handleDisconnect c auth h)
    \<or> handleDisconnect c auth h = h"
proof (cases "socket_data c h")
  case (Some s)
  define h0 where "h0 = h\<lparr>sockets := map_delete (sockets h) c\<rparr>"
  define u where "u = (case data_agentUuid s of None \<Rightarrow> auth | Some u \<Rightarrow> Some u)"
  define h2 where "h2 = (closeAgentConnections (the u) h0)
    \<lparr>agentUuidToSocketId := map_delete (agentUuidToSocketId (closeAgentConnections (the u) h0)) (the u),
     workspaceIndexCache := filter (\<lambda>(k, v). \<not> starts_with (the u @ ''/'') k)
        (workspaceIndexCache (closeAgentConnections (the u) h0))\<rparr>"
  have "quiet h0 h2"
    by (rule quiet_trans [OF quiet_close quiet_same]) (simp_all add: h2_def)
  then have q: "quiet h0 (snd (isExpectedRestart (the u) h2))"
    using quiet_expected quiet_trans by blast
  moreover have "quiet g (scheduleOffline w g)" for w g
    by (rule quiet_same) (simp_all add: scheduleOffline_def Let_def)
  ultimately have "quiet h0 (handleDisconnect c auth h)"
    by (auto simp: handleDisconnect_def Some h0_def [symmetric] u_def [symmetric] h2_def [symmetric]
        Let_def split_beta intro: quiet_trans)
  then show ?thesis unfolding h0_def ..
qed (simp add: handleDisconnect_def)

lemma hs_ok_run:
  assumes "handshake_run cfg alone h0 w" and "sockets h0 = []" and "distinct (map agent_uuid (agents h0))"
    and rand: "\<And>n. cfg_random cfg n \<noteq> []"
  shows "hs_ok alone w"
  using assms(1)
proof induction
  case start
  show ?case using assms(2,3) by (simp add: hs_ok_def no_waiting_def)
next
  case (connect w c)
  let ?h = "handleConnection c (hs_hub w)"
  have id: "identities ?h = identities (hs_hub w)" by (simp add: handleConnection_def set_socket_def identities_def)
  have new: "attached_socket ?h fresh_socket" by (simp add: attached_socket_def fresh_socket_def)
  have no: "map_get (hs_waiting w) i = Some r \<Longrightarrow> wr_client r \<noteq> c" for i r
    using connect.hyps(3) connect.IH by (auto simp: hs_ok_def waits_iff)
  show ?case
  proof (rule hs_ok_hub [OF connect.IH identities_kept(1) [OF id]])
    show "distinct (map agent_uuid (agents ?h))" using connect.IH by (simp add: identities_kept(2) [OF id] hs_ok_def)
    fix d s assume "map_get (sockets ?h) d = Some s"
    then show "map_get (sockets (hs_hub w)) d = Some s \<or> (guarded s \<or> waits d w) \<and>
        (d \<in> alone \<longrightarrow> \<not> waits d w \<longrightarrow> attached_socket ?h s) \<and>
        (\<forall>i r. map_get (hs_waiting w) i = Some r \<longrightarrow> wr_client r = d \<longrightarrow> d \<in> alone \<longrightarrow>
          data_agentUuid s = Some (reg_uuid (wr_agent r)))"
      using new guarded_attached [OF new] no by (cases "d = c") (auto simp: handleConnection_def set_socket_def)
  qed
next
  case (packet w i c event ip payload)
  obtain pass h1 where g: "guardPacket cfg c event payload (hs_hub w) = (pass, h1)" by force
  note ok1 = hs_ok_guard [OF packet.IH g]
  have reg: "hs_ok alone (validation_begin cfg i c ip payload (w\<lparr>hs_hub := h1\<rparr>))" if "event = ''register''"
    by (rule hs_ok_validation [OF ok1]) (use packet.hyps that rand in auto)
  have "hs_ok alone (w\<lparr>hs_hub := h1, hs_hub := dispatch cfg c ip event payload h1\<rparr>)" if "event \<noteq> ''register''"
    using hs_ok_quiet [OF ok1, of "dispatch cfg c ip event payload h1"] quiet_dispatch [OF that] by simp
  with reg ok1 show ?case by (auto simp: receive_begin_def g Let_def)
next
  case (disconnect w c auth)
  let ?h0 = "(hs_hub w)\<lparr>sockets := map_delete (sockets (hs_hub w)) c\<rparr>"
  have id: "identities ?h0 = identities (hs_hub w)" by (simp add: identities_def)
  have "hs_ok alone (w\<lparr>hs_hub := ?h0\<rparr>)"
    by (rule hs_ok_hub [OF disconnect.IH identities_kept(1) [OF id]])
      (use disconnect.IH in \<open>auto simp: hs_ok_def split: if_splits\<close>)
  from hs_ok_quiet [OF this, of "handleDisconnect c auth (hs_hub w)"] quiet_disconnect [of "hs_hub w" c auth] disconnect.IH
  show ?case by auto
next
  case (other w h')
  then show ?case by (intro hs_ok_same)
qed (simp_all add: hs_ok_answered hs_ok_end)

section \<open>Properties\<close>

text \<open>C1: a packet that is not properly signed does nothing, outside the wait of a registration. In every run of
  the gateway that starts without sockets, however registrations overlap, take a socket of which no
  registration waits for its secret. Whatever payload arrives on it under whatever event but \<open>register\<close>, if
  the socket has its guard and verification with the socket's secret, skew limit and replay guard does not
  succeed, or if it has no guard, because nothing has registered on it, the state stays as it is, up to the
  replay guard of that socket. (The random source gives no empty text.)\<close>

theorem unsigned_packet_does_nothing:
  assumes "handshake_run cfg alone h0 w" and "sockets h0 = []" and "distinct (map agent_uuid (agents h0))"
    and "\<And>n. cfg_random cfg n \<noteq> []"
    and "socket_data c (hs_hub w) = Some s" and "\<not> waits c w" and "event \<noteq> ''register''"
    and "data_packetGuardInstalled s \<Longrightarrow>
      fst (verify (cfg_hmac cfg) event payload (data_signingSecret s) DEFAULT_MAX_CLOCK_SKEW_MS (clock (hs_hub w))
        (Some (data_replayGuard s))) \<noteq> VOk"
  shows "\<exists>g. receive_begin cfg i c ip event payload w = w
     \<or> receive_begin cfg i c ip event payload w = w\<lparr>hs_hub := set_socket c (s\<lparr>data_replayGuard := g\<rparr>) (hs_hub w)\<rparr>"
proof -
  have "hs_ok alone w" by (rule hs_ok_run [OF assms(1-4)])
  with assms(5,6) have "guarded s" unfolding hs_ok_def socket_data_def by blast
  from unsigned_packet_inert [OF assms(5) this assms(7,8)]
  obtain g where "receive cfg c ip event payload (hs_hub w) = hs_hub w
      \<or> receive cfg c ip event payload (hs_hub w) = set_socket c (s\<lparr>data_replayGuard := g\<rparr>) (hs_hub w)" by blast
  moreover have "receive_begin cfg i c ip event payload w = w\<lparr>hs_hub := receive cfg c ip event payload (hs_hub w)\<rparr>"
    using assms(7) by (simp add: receive_begin_def receive_def split_beta Let_def)
  ultimately show ?thesis by fastforce
qed

definition registering :: handshake where
  "registering = receive_begin example_config 0 ''s2'' ''10.0.0.1'' ''register'' register_payload
     (no_waiting (handleConnection ''s2'' idle_hub))"

definition registered :: handshake where
  "registered = validation_end 0 (secret_answered 0 registering)"

lemma registered_run: "handshake_run example_config UNIV idle_hub registered"
proof -
  have "handshake_run example_config UNIV idle_hub (no_waiting idle_hub)" by (rule handshake_run.start)
  then have "handshake_run example_config UNIV idle_hub ((no_waiting idle_hub)\<lparr>hs_hub := handleConnection ''s2'' (hs_hub (no_waiting idle_hub))\<rparr>)"
    by (rule handshake_run.connect) code_simp+
  then have "handshake_run example_config UNIV idle_hub (no_waiting (handleConnection ''s2'' idle_hub))"
    by (simp add: no_waiting_def)
  then have "handshake_run example_config UNIV idle_hub registering"
    unfolding registering_def by (rule handshake_run.packet) code_simp+
  then show ?thesis unfolding registered_def by (intro handshake_run.continues handshake_run.answered)
qed

lemma example_random: "cfg_random example_config n \<noteq> []"
  by (simp add: example_config_def)

lemma idle_start: "sockets idle_hub = []" "distinct (map agent_uuid (agents idle_hub))"
  by code_simp+

lemma registered_facts:
  "\<not> waits ''s2'' registered"
  "map_option data_agentUuid (socket_data ''s2'' (hs_hub registered)) = Some (Some ''a1'')"
  "map_option (\<lambda>s. fst (verify (cfg_hmac example_config) ''update-failed'' (JObj [(''message'', JStr ''x'')])
      (data_signingSecret s) DEFAULT_MAX_CLOCK_SKEW_MS (clock (hs_hub registered)) (Some (data_replayGuard s))) = VOk)
     (socket_data ''s2'' (hs_hub registered)) = Some False"
  by code_simp+

lemma unsigned_packet_does_nothing_witness:
  "agents (hs_hub (receive_begin example_config 1 ''s2'' ''10.0.0.1'' ''update-failed''
     (JObj [(''message'', JStr ''x'')]) registered)) = agents (hs_hub registered)"
proof -
  obtain s where s: "socket_data ''s2'' (hs_hub registered) = Some s"
    "fst (verify (cfg_hmac example_config) ''update-failed'' (JObj [(''message'', JStr ''x'')])
      (data_signingSecret s) DEFAULT_MAX_CLOCK_SKEW_MS (clock (hs_hub registered)) (Some (data_replayGuard s))) \<noteq> VOk"
    using registered_facts(3) by auto
  from unsigned_packet_does_nothing [OF registered_run idle_start example_random s(1) registered_facts(1) _ s(2),
      of 1 "''10.0.0.1''"]
  show ?thesis by (auto simp: set_socket_def)
qed



section \<open>The wait\<close>

text \<open>during the wait the socket acts for the agent without a guard. A packet with no signature, sent
  after the register packet and before the secret is there, writes its line into the update of the agent.\<close>

definition updating_hub :: hub where
  "updating_hub = idle_hub\<lparr>agents := map (\<lambda>a. a\<lparr>agent_update_phase := Pulling\<rparr>) (agents idle_hub)\<rparr>"

theorem unsigned_packet_in_the_wait:
  "let w = receive_begin example_config 0 ''s2'' ''10.0.0.1'' ''register'' register_payload
        (no_waiting (handleConnection ''s2'' updating_hub));
       w2 = receive_begin example_config 1 ''s2'' ''10.0.0.1'' ''update-log'' (JObj [(''line'', JStr ''x'')]) w
   in waits ''s2'' w \<and> map agent_update_message (agents (hs_hub w)) \<noteq> [Some ''x'']
      \<and> map agent_update_message (agents (hs_hub w2)) = [Some ''x'']"
  by code_simp

text \<open>two registrations on one socket that overlap can leave it with the identity of the one and the secret of
  the other: the identity is that of the later packet, the secret that of the handler that ends later.\<close>

definition second_agent :: agents_row where
  "second_agent = example_agent\<lparr>agent_index := 2, agent_uuid := ''a2'', agent_code := ''BLUE-OWL'',
     agent_signing_secret := Some ''other''\<rparr>"

definition two_agents :: hub where
  "two_agents = idle_hub\<lparr>agents := agents idle_hub @ [second_agent], next_agent := 3\<rparr>"

definition second_payload :: jval where
  "second_payload = sign (cfg_hmac example_config) ''register''
     (JObj [(''agentUuid'', JStr ''a2''), (''agentVersion'', JStr ''0.6.0''), (''protocolVersion'', JNum 1)])
     (Some ''other'') 1000 ''n2''"

theorem overlapping_registrations_mix:
  "let w = receive_begin example_config 1 ''s2'' ''10.0.0.1'' ''register'' second_payload
       (receive_begin example_config 0 ''s2'' ''10.0.0.1'' ''register'' register_payload
         (no_waiting (handleConnection ''s2'' two_agents)));
       w2 = validation_end 0 (validation_end 1 (secret_answered 1 (secret_answered 0 w)))
   in map_option (\<lambda>s. (data_agentUuid s, data_signingSecret s)) (socket_data ''s2'' (hs_hub w2))
        = Some (Some ''a2'', Some ''secret'')
      \<and> hs_waiting w2 = []"
  by code_simp

end
