(* ===== verification/Spec2Isabelle.thy ===== *)
theory Spec2Isabelle
  imports HubRules Mail ServiceRules WorkspaceRules AccountRules TokenRules GatewayRules TrafficRules TunnelRules
    Races SharedRuns Handshake
begin

text \<open>
  A model of the OPTiCS Hub and its gateway.

  \<^bold>\<open>The program.\<close> Users of a web console deploy services on their own machines. On each machine an agent
  keeps a socket to the Hub, the NestJS application under \<open>src/src\<close>, which stores users, workspaces,
  agents and services in a database, serves the console over HTTP and sockets, and commands the agents
  with signed packets. The gateway, a second process under \<open>src/proxy\<close> and \<open>src/tunnel\<close>, takes the public
  requests for \<open>service.workspace.optics.run\<close>: it asks the Hub which agent serves the address, and joins
  the client to a socket the agent opened, either in advance, into a pool, or on the Hub's command with a
  token.

  \<^bold>\<open>How it is modelled.\<close> The state of the Hub is one record, \<open>hub\<close> (theory Store): the tables of
  \<open>prisma/schema.prisma\<close> as lists of rows in the order of their index, and the maps its services keep in
  memory. An operation is a function on it. An exception of the source is a left value of a sum, and what
  was done before it stays done (theory Outcome). The environment is the record \<open>config\<close>: HMAC-SHA256,
  bcrypt, the TOTP and the JWT library, the random source, GitHub, the DNS and the mail provider are
  arguments; the time is the field \<open>clock\<close>, and a timer is an entry with the time it is due. The state of
  the gateway is the record \<open>gateway\<close>, each of its callbacks is a step on it, and what it writes is
  appended to its outputs. A handler of the Hub runs to its end before the next event, with three
  exceptions, each of which takes the handlers it names apart at a wait and interleaves the parts, with lemmas
  that relate them to the whole handler: Races the opening of a terminal, a login and the request of an
  update, SharedRuns the runs that callers share, Handshake the registration of a socket. All other handlers
  are atomic (see the end). In the gateway every wait for an answer or a timer is a step of its own throughout.

  \<^bold>\<open>The theories, in the order they build on each other.\<close>

  \<^item> Prelude: the JavaScript library in use (texts, numerals, the insertion ordered \<open>Map\<close>, the stable sort),
    with the interfaces \<open>ttl_cache\<close> and \<open>js_order\<close>. Payload: JavaScript values, \<open>canonicalize\<close> of
    \<open>global/hash.util.ts\<close> and \<open>JSON.stringify\<close>. Json: \<open>JSON.parse\<close>. Dates: \<open>toISOString\<close>.
  \<^item> Semver: \<open>global/semver.util.ts\<close>, \<open>global/agent-capability.ts\<close>. Signature: the signed envelope and the
    replay guard of \<open>global/hash.util.ts\<close>. Store: the state. Outcome: exceptions. Releases:
    \<open>releases/release-catalog.service.ts\<close>. Tokens: \<open>auth/util/jwt.util.ts\<close>.
  \<^item> AgentLink and AgentGateway: \<open>agent/agent.gateway.ts\<close>, the outgoing and the incoming half. AgentService:
    \<open>agent/agent.service.ts\<close>. AgentUpdate: \<open>agent/agent-update.service.ts\<close>. Console and Terminal:
    \<open>agent/console.gateway.ts\<close>.
  \<^item> Tunnel: \<open>tunnel/tunnel.service.ts\<close>. ServiceForms and Services: \<open>services/service.service.ts\<close>. Workspaces:
    \<open>workspaces/workspace.service.ts\<close>. Accounts: \<open>auth/auth.service.ts\<close> and \<open>auth/2fa.service.ts\<close>.
  \<^item> Requests: guards, origin check, cookies and exception filters. Api: the controllers under \<open>v1\<close>, and
    \<open>handle_request\<close>, which serves one HTTP request from the origin check to the filter.
  \<^item> GatewayText: the reading of a request and the error pages (\<open>proxy/server.ts\<close>,
    \<open>proxy/outcome-presentation.ts\<close>). Mail: \<open>mailer/mailer.service.ts\<close>. Gateway: the callbacks of
    \<open>proxy/server.ts\<close>, \<open>tunnel/server.ts\<close>, \<open>tunnel/registry.ts\<close>, \<open>tunnel/preconnect.ts\<close>. TunnelApi: the calls
    between the two processes (\<open>tunnel/v1/tunnel.controller.ts\<close>).
  \<^item> Traffic: \<open>traffic/traffic-sync.service.ts\<close>, \<open>stats/stats.service.ts\<close>, \<open>utility/cloudflare-analytics.util.ts\<close>.
  \<^item> Handshake: the registration of a socket (\<open>handleValidation\<close> of \<open>agent/agent.gateway.ts\<close>) with its wait for
    the stored secret, during which packets, lost connections and other registrations happen;
    \<open>handshake_alone\<close> says that a packet nothing overlaps is handled as in AgentGateway.
  \<^item> Races: openings of terminals, logins and requests of updates that overlap. SharedRuns: the
    synchronisations of the catalogue and of the traffic and the computation of the public numbers, each
    shared by the callers that find it under way; the locale \<open>shared_run\<close> is the interface of the three.
  \<^item> StoreRules: the tables are well typed. HubRules: this holds for the whole life of the Hub.
    ServiceRules, WorkspaceRules, AccountRules, TokenRules, GatewayRules, TunnelRules and TrafficRules hold
    what is proved of the theories they are named after; the other components have their properties at
    the end of their own theory.

  \<^bold>\<open>What is shown.\<close> Tables: after any HTTP requests, packets, lost connections and due timers, keys are
  unique, every reference names a row, and an agent has a workspace exactly if it is asked for or linked.
  Packets: signing and verifying agree, a signature fixes event, time and content (but for properties called
  \<open>__proto__\<close>), no nonce is accepted twice within a window. Agents: outside the wait of its registration, a
  socket carries the stored secret and no packet without a valid signature changes anything; in the wait one
  can, and two registrations that overlap on a socket can leave it with the identity of one agent and the
  secret of the other, both of which are shown; a secret once given is never replaced, updates follow their
  state machine and end within their time. Console: a terminal opens only for the owner, and once per token unless two openings overlap,
  which is shown to open two. Releases: the version order is that of SemVer, callers that overlap share
  one synchronisation, and a block survives even the synchronisation that is running when it is set. Accounts: a mailed code serves once, a one-time
  password is not replayed later (two logins that overlap can share one), a login proves password and second factor, a request without a login
  changes nothing but the pair of tokens it renews, a revoked token dies. Services and workspaces: one owner never
  touches what belongs to another, published addresses stay apart, blocks act at once, connections follow
  their machine. Gateway: for all interleavings of its callbacks, no socket is joined twice, pools are
  bounded, no client waits for ever, the loop over heartbeats ends on every input, pages contain no markup from outside. Between the processes: the
  outcome the Hub refuses either question with is the page the client gets, the Hub's verification of the
  line decides which socket is put into which pool, a routed request meets its agent. Statistics: a synchronisation replaces what it observes, and the public
  numbers speak of the observed days.

  Where the source misses its intention, the theorem states what the code does (the theorems about a
  purpose token that opens the first account, a deleted workspace that strands its agents, or a one-time
  token that two overlapping openings share, are of this kind).

  \<^bold>\<open>Fuel.\<close> Only \<open>JSON_parse\<close> has fuel, twice the length of the text; a larger amount never changes its result.
  The loop over the lines of an idle socket is a partial function, shown to return always. Every other
  recursion is structural or has a measure.

  \<^bold>\<open>Not modelled.\<close> Log lines, diagnostics and their time measurements; dependency injection, the start of
  the processes and the connection of the database (\<open>app.module.ts\<close>, \<open>instrument.ts\<close>, \<open>prisma.service.ts\<close>); a
  database that fails; the HTML templates and the styles of the mails. Korean messages appear in an English
  gloss.

  Handlers that overlap are modelled only in Races, SharedRuns and Handshake. Among those that are atomic
  here are some whose checks a wait of the source can make stale, so that what is proved of them holds for
  handlers one after the other: the creation and the switching of a workspace address, where the limit is
  checked before the call of the DNS provider and the row written after it (\<open>tryActivateSubdomain\<close>,
  \<open>handleToggleWorkspaceSubdomain\<close>); \<open>replaceServiceEndpoints\<close>, which looks for taken addresses, deletes and
  inserts without a transaction; \<open>verifyExistingEmail\<close>, which checks a code and marks it used in two queries;
  \<open>sendProxyInfo\<close>, whose answer can enter the cache after a block cleared it; and in a registration what
  precedes its wait (the lookups, the check of the signature, \<open>registerAgent\<close>), which is one step.

  Numbers are unbounded: the parts of a version and the numbers of JSON are integers, not doubles, so that
  the loss of precision above \<open>2^53\<close> and values with a fraction (a time stamp of a packet, say) are outside
  the model; byte counts of the analytics are integers, on which \<open>Math.round\<close> is the identity. A field of a
  packet whose value has the wrong type is read as absent.
\<close>

end
